(* ===== verification/Prelude.thy ===== *)
theory Prelude
  imports Main "HOL-Library.Word" "HOL-Library.Multiset"
begin

text \<open>
  Shared vocabulary of the development: the machine integers of the Rust sources as words,
  the standard-library arithmetic the crates call on them (\<open>saturating_add\<close>,
  \<open>saturating_mul\<close>, \<open>checked_mul\<close>, \<open>checked_pow\<close>, \<open>try_from\<close>, \<open>as\<close>), the
  fallible stateful computations that stand for \<open>async fn ... -> Result<_, _>\<close> bodies with
  their \<open>?\<close> operators, timestamps, and the generic list and word lemmas that more than one
  component uses.

  The service image is built by \<open>cargo build --release\<close> and the workspace sets no
  \<open>overflow-checks\<close>, so the plain operators \<open>+\<close>, \<open>-\<close> and \<open>*\<close> on unsigned
  integers wrap; that is the arithmetic of the word type.
\<close>

section \<open>Collections\<close>

named_theorems rust_arith \<open>values, as natural numbers, of the Rust integer operations\<close>
named_theorems act_simps \<open>evaluation of fallible stateful computations\<close>

section \<open>Machine integers\<close>

type_synonym u8 = "8 word"
type_synonym u32 = "32 word"
type_synonym u64 = "64 word"
type_synonym u128 = "128 word"
type_synonym u256 = "256 word"
type_synonym usize = "64 word"
type_synonym bytes = "u8 list"

definition saturating_add :: "'a::len word \<Rightarrow> 'a word \<Rightarrow> 'a word" where
  "saturating_add a b = (if unat a + unat b < 2 ^ LENGTH('a) then a + b else - 1)"

definition saturating_sub :: "'a::len word \<Rightarrow> 'a word \<Rightarrow> 'a word" where
  "saturating_sub a b = (if b \<le> a then a - b else 0)"

definition saturating_mul :: "'a::len word \<Rightarrow> 'a word \<Rightarrow> 'a word" where
  "saturating_mul a b = (if unat a * unat b < 2 ^ LENGTH('a) then a * b else - 1)"

definition checked_mul :: "'a::len word \<Rightarrow> 'a word \<Rightarrow> 'a word option" where
  "checked_mul a b = (if unat a * unat b < 2 ^ LENGTH('a) then Some (a * b) else None)"

definition checked_pow :: "'a::len word \<Rightarrow> nat \<Rightarrow> 'a word option" where
  "checked_pow a n = (if unat a ^ n < 2 ^ LENGTH('a) then Some (a ^ n) else None)"

lemma unat_max_word: "unat (- 1 :: 'a::len word) = 2 ^ LENGTH('a) - 1"
  by transfer (simp add: mask_eq_exp_minus_1 nat_minus_as_int take_bit_minus_one_eq_mask)

lemma unat_mult_exact:
  fixes a b :: "'a::len word"
  assumes "unat a * unat b < 2 ^ LENGTH('a)"
  shows "unat (a * b) = unat a * unat b"
  using assms by (simp add: unat_word_ariths)

lemma unat_add_exact:
  fixes a b :: "'a::len word"
  assumes "unat a + unat b < 2 ^ LENGTH('a)"
  shows "unat (a + b) = unat a + unat b"
  using assms by (simp add: unat_word_ariths)

lemma unat_saturating_add [rust_arith]:
  fixes a b :: "'a::len word"
  shows "unat (saturating_add a b) = min (unat a + unat b) (2 ^ LENGTH('a) - 1)"
  by (auto simp: saturating_add_def unat_add_exact unat_max_word)

lemma saturating_add_0 [simp]: "saturating_add 0 b = b" "saturating_add b 0 = b"
  by (simp_all add: saturating_add_def)

lemma unat_saturating_mul [rust_arith]:
  fixes a b :: "'a::len word"
  shows "unat (saturating_mul a b) = min (unat a * unat b) (2 ^ LENGTH('a) - 1)"
  by (auto simp: saturating_mul_def unat_mult_exact unat_max_word)

lemma unat_saturating_sub [rust_arith]:
  fixes a b :: "'a::len word"
  shows "unat (saturating_sub a b) = unat a - unat b"
  by (auto simp: saturating_sub_def unat_sub word_le_nat_alt)

lemma checked_mul_Some:
  fixes a b c :: "'a::len word"
  shows "checked_mul a b = Some c \<longleftrightarrow> unat c = unat a * unat b"
proof
  assume "checked_mul a b = Some c"
  then show "unat c = unat a * unat b"
    by (auto simp: checked_mul_def unat_mult_exact split: if_splits)
next
  assume c: "unat c = unat a * unat b"
  have "unat c < 2 ^ LENGTH('a)" by simp
  with c have "c = a * b" by (simp add: word_unat_eq_iff unat_mult_exact)
  with c \<open>unat c < 2 ^ LENGTH('a)\<close> show "checked_mul a b = Some c"
    by (simp add: checked_mul_def)
qed

lemma unat_power_exact:
  fixes a :: "'a::len word"
  assumes "unat a ^ n < 2 ^ LENGTH('a)"
  shows "unat (a ^ n) = unat a ^ n"
  using assms
proof (induction n)
  case 0
  then show ?case by simp
next
  case (Suc n)
  show ?case
  proof (cases "unat a = 0")
    case True
    then have "a = 0" by (simp add: unat_eq_0)
    then show ?thesis by simp
  next
    case False
    then have "unat a ^ n \<le> unat a ^ Suc n" by simp
    with Suc show ?thesis by (simp add: unat_mult_exact)
  qed
qed

lemma checked_pow_Some:
  fixes a c :: "'a::len word"
  shows "checked_pow a n = Some c \<longleftrightarrow> unat c = unat a ^ n"
proof
  assume "checked_pow a n = Some c"
  then show "unat c = unat a ^ n"
    by (auto simp: checked_pow_def unat_power_exact split: if_splits)
next
  assume c: "unat c = unat a ^ n"
  have lt: "unat c < 2 ^ LENGTH('a)" by simp
  with c have "c = a ^ n" by (simp add: word_unat_eq_iff unat_power_exact)
  with c lt show "checked_pow a n = Some c"
    by (simp add: checked_pow_def)
qed

lemma unat_div_word [rust_arith]: "unat (a div b :: 'a::len word) = unat a div unat b"
  by (simp add: unat_div)

lemma unat_mod_word [rust_arith]: "unat (a mod b :: 'a::len word) = unat a mod unat b"
  by (simp add: unat_mod)

lemma unat_min_word [rust_arith]: "unat (min a b :: 'a::len word) = min (unat a) (unat b)"
  by (simp add: min_def word_le_nat_alt)

lemma unat_max_of [rust_arith]: "unat (max a b :: 'a::len word) = max (unat a) (unat b)"
  by (simp add: max_def word_le_nat_alt)

lemma unat_ucast_up [rust_arith]:
  assumes "LENGTH('a::len) \<le> LENGTH('b::len)"
  shows "unat (ucast (x :: 'a word) :: 'b word) = unat x"
  using assms by (simp add: unsigned_ucast_eq take_bit_nat_eq_self order_less_le_trans [OF unsigned_less])

text \<open>A floor division is monotone in its numerator and shrinks what a factor of at most one scales.\<close>

lemma mult_div_le_self: "b \<le> c \<Longrightarrow> a * b div c \<le> (a::nat)"
proof (cases "c = 0")
  case False
  assume "b \<le> c"
  then have "a * b div c \<le> a * c div c" by (intro div_le_mono mult_le_mono2)
  with False show ?thesis by simp
qed simp

lemma floor_div_bounds:
  fixes n k :: nat
  assumes "0 < k"
  shows "k * (n div k) \<le> n \<and> n < k * (n div k + 1)"
proof -
  have "n = k * (n div k) + n mod k" "n mod k < k" using assms by simp_all
  then show ?thesis by (metis add.commute add_less_cancel_left distrib_left le_add2 mult.right_neutral)
qed

section \<open>Fallible stateful computations\<close>

text \<open>
  A body \<open>async fn f(..) -> Result<A, E>\<close> that talks to an external system becomes a function
  from the state of that system to a result and the state it leaves: \<open>Inl e\<close> is \<open>Err(e)\<close> and
  \<open>Inr a\<close> is \<open>Ok(a)\<close>. \<open>tryE m f\<close> is \<open>let x = m?; f(x)\<close>: an error leaves the body at
  once, keeping what the earlier commands did to the state. \<open>attempt m f\<close> runs \<open>m\<close> and hands
  the whole result to \<open>f\<close>, as a \<open>match\<close> or an \<open>if let Err(e)\<close> does.
\<close>

type_synonym ('s, 'e, 'a) act = "'s \<Rightarrow> ('e + 'a) \<times> 's"

definition okE :: "'a \<Rightarrow> ('s, 'e, 'a) act" where
  "okE a = (\<lambda>s. (Inr a, s))"

definition errE :: "'e \<Rightarrow> ('s, 'e, 'a) act" where
  "errE e = (\<lambda>s. (Inl e, s))"

definition tryE :: "('s, 'e, 'a) act \<Rightarrow> ('a \<Rightarrow> ('s, 'e, 'b) act) \<Rightarrow> ('s, 'e, 'b) act" where
  "tryE m f = (\<lambda>s. case m s of (Inl e, s') \<Rightarrow> (Inl e, s') | (Inr a, s') \<Rightarrow> f a s')"

definition attempt :: "('s, 'e, 'a) act \<Rightarrow> ('e + 'a \<Rightarrow> ('s, 'f, 'b) act) \<Rightarrow> ('s, 'f, 'b) act" where
  "attempt m f = (\<lambda>s. case m s of (r, s') \<Rightarrow> f r s')"

definition map_errE :: "('e \<Rightarrow> 'f) \<Rightarrow> ('s, 'e, 'a) act \<Rightarrow> ('s, 'f, 'a) act" where
  "map_errE g m = (\<lambda>s. case m s of (r, s') \<Rightarrow> (map_sum g id r, s'))"

lemma okE_apply [act_simps]: "okE a s = (Inr a, s)"
  by (simp add: okE_def)

lemma errE_apply [act_simps]: "errE e s = (Inl e, s)"
  by (simp add: errE_def)

lemma tryE_Inr [act_simps]: "m s = (Inr a, s') \<Longrightarrow> tryE m f s = f a s'"
  by (simp add: tryE_def)

lemma tryE_Inl [act_simps]: "m s = (Inl e, s') \<Longrightarrow> tryE m f s = (Inl e, s')"
  by (simp add: tryE_def)

lemma attempt_eq [act_simps]: "m s = (r, s') \<Longrightarrow> attempt m f s = f r s'"
  by (simp add: attempt_def)

lemma map_errE_apply [act_simps]: "m s = (r, s') \<Longrightarrow> map_errE g m s = (map_sum g id r, s')"
  by (simp add: map_errE_def)

lemma map_sum_eq_iff:
  "map_sum f g x = Inl e \<longleftrightarrow> (\<exists>e'. x = Inl e' \<and> e = f e')"
  "map_sum f g x = Inr a \<longleftrightarrow> (\<exists>a'. x = Inr a' \<and> a = g a')"
  by (cases x; auto)+

lemma tryE_InrE:
  assumes "tryE m f s = (Inr b, s'')"
  obtains a s' where "m s = (Inr a, s')" "f a s' = (Inr b, s'')"
  using assms by (auto simp: tryE_def split: prod.splits sum.splits)

lemma tryE_assoc: "tryE (tryE m f) g = tryE m (\<lambda>a. tryE (f a) g)"
  by (rule ext) (auto simp: tryE_def split: prod.splits sum.splits)

lemma tryE_ok_left: "tryE (okE a) f = f a"
  by (rule ext) (simp add: tryE_def okE_def)

lemma tryE_ok_right: "tryE m okE = m"
  by (rule ext) (auto simp: tryE_def okE_def split: prod.splits sum.splits)

section \<open>Frames\<close>

text \<open>
  A preorder on states that every step of a computation respects is respected by the computation: the
  contract of \<open>frame\<close> is that the relation is a preorder, and its lemmas carry it through the
  combinators. The instances used most are \<open>same f\<close>, for an observation \<open>f\<close> that stays as it is.
\<close>

definition within :: "('s \<Rightarrow> 's \<Rightarrow> bool) \<Rightarrow> ('s, 'e, 'a) act \<Rightarrow> bool" where
  "within P m \<longleftrightarrow> (\<forall>s. P s (snd (m s)))"

locale frame =
  fixes P :: "'s \<Rightarrow> 's \<Rightarrow> bool"
  assumes stays: "P s s" and steps: "P a b \<Longrightarrow> P b c \<Longrightarrow> P a c"
begin

lemma okE: "within P (okE a)"
  by (simp add: within_def okE_def stays)

lemma errE: "within P (errE e)"
  by (simp add: within_def errE_def stays)

lemma tryE:
  assumes "within P m" and "\<And>a. within P (g a)"
  shows "within P (tryE m g)"
proof -
  have "P s (snd (tryE m g s))" for s
  proof (cases "m s")
    case (Pair r s')
    moreover have "P s s'" using assms(1) Pair by (metis within_def snd_conv)
    ultimately show ?thesis
      using assms(2) steps by (cases r) (auto simp: tryE_def within_def)
  qed
  then show ?thesis by (simp add: within_def)
qed

lemma attempt:
  assumes "within P m" and "\<And>a. within P (g a)"
  shows "within P (attempt m g)"
proof -
  have "P s (snd (attempt m g s))" for s
  proof (cases "m s")
    case (Pair r s')
    moreover have "P s s'" using assms(1) Pair by (metis within_def snd_conv)
    ultimately show ?thesis
      using assms(2) steps by (auto simp: attempt_def within_def)
  qed
  then show ?thesis by (simp add: within_def)
qed

lemma map_errE: "within P m \<Longrightarrow> within P (map_errE f m)"
  by (simp add: within_def map_errE_def split_beta)

lemma if_then: "within P a \<Longrightarrow> within P b \<Longrightarrow> within P (if c then a else b)"
  by simp

lemma case_option: "within P a \<Longrightarrow> (\<And>x. within P (b x)) \<Longrightarrow> within P (case v of None \<Rightarrow> a | Some x \<Rightarrow> b x)"
  by (cases v) simp_all

lemma case_sum: "(\<And>x. within P (a x)) \<Longrightarrow> (\<And>x. within P (b x)) \<Longrightarrow> within P (case v of Inl x \<Rightarrow> a x | Inr x \<Rightarrow> b x)"
  by (cases v) simp_all

lemma case_prod: "(\<And>x y. within P (a x y)) \<Longrightarrow> within P (case v of (x, y) \<Rightarrow> a x y)"
  by (cases v) simp_all

lemmas basics = okE errE tryE attempt map_errE if_then case_option case_sum case_prod

end

definition same :: "('s \<Rightarrow> 'v) \<Rightarrow> 's \<Rightarrow> 's \<Rightarrow> bool" where
  "same f s s' \<longleftrightarrow> f s' = f s"

interpretation same: frame "same f" for f
  by unfold_locales (auto simp: same_def)

lemma within_sameD: "within (same f) m \<Longrightarrow> m s = (r, s') \<Longrightarrow> f s' = f s"
  by (metis within_def same_def snd_conv)

text \<open>
  If the outcome \<open>X\<close> of a sequence differs from \<open>d\<close> in the observation \<open>f\<close> and the first step does
  not change \<open>f\<close>, then the first step succeeded and \<open>X\<close> is the outcome of the rest.
\<close>

lemma tryE_runE:
  assumes "tryE m g s = X" and "f (snd X) \<noteq> d" and "f s = d" and "within (same f) m"
  obtains a s' where "m s = (Inr a, s')" "f s' = d" "g a s' = X"
proof (cases "m s")
  case (Pair r s')
  have "f s' = d" using within_sameD [OF assms(4) Pair] assms(3) by simp
  then show ?thesis using that assms(1,2) Pair by (cases r) (auto simp: tryE_def)
qed

lemma attempt_runE:
  assumes "attempt m g s = X" and "f (snd X) \<noteq> d" and "f s = d" and "within (same f) m"
  obtains r s' where "m s = (r, s')" "f s' = d" "g r s' = X"
proof (cases "m s")
  case (Pair r s')
  have "f s' = d" using within_sameD [OF assms(4) Pair] assms(3) by simp
  then show ?thesis using that assms(1) Pair by (auto simp: attempt_def)
qed

section \<open>Timestamps\<close>

text \<open>
  A \<open>chrono::DateTime<Utc>\<close> is an instant, counted here in nanoseconds since the epoch, and the
  difference of two instants is a \<open>TimeDelta\<close>. \<open>TimeDelta::num_seconds\<close> is the number of
  whole seconds, truncated towards zero.
\<close>

type_synonym datetime = int

abbreviation nanos_per_sec :: int where
  "nanos_per_sec \<equiv> 1000000000"

definition num_seconds :: "int \<Rightarrow> int" where
  "num_seconds d = sgn d * (\<bar>d\<bar> div nanos_per_sec)"

lemma num_seconds_ge_iff:
  assumes "0 < k"
  shows "k \<le> num_seconds d \<longleftrightarrow> k * nanos_per_sec \<le> d"
proof (cases "0 \<le> d")
  case True
  have "num_seconds d = d div nanos_per_sec"
    using True by (cases "d = 0") (simp_all add: num_seconds_def)
  moreover have "k \<le> d div nanos_per_sec \<longleftrightarrow> k * nanos_per_sec \<le> d"
    using pos_imp_zdiv_nonneg_iff by (auto simp: less_eq_div_iff_mult_less_eq)
  ultimately show ?thesis by simp
next
  case False
  then have "num_seconds d \<le> 0"
    by (simp add: num_seconds_def pos_imp_zdiv_nonneg_iff)
  moreover have "0 < k * nanos_per_sec" using assms by simp
  ultimately show ?thesis using False assms by linarith
qed

lemma num_seconds_mult [simp]: "num_seconds (k * nanos_per_sec) = k"
  by (auto simp: num_seconds_def abs_mult sgn_mult sgn_if abs_if)

text \<open>Casting a clamped signed duration to \<open>u64\<close>, as \<open>x.max(0) as u64\<close>.\<close>

definition clamp_u64 :: "int \<Rightarrow> u64" where
  "clamp_u64 x = word_of_int (max x 0)"

lemma unat_clamp_u64 [rust_arith]:
  assumes "x < 2 ^ 63"
  shows "unat (clamp_u64 x) = nat (max x 0)"
proof -
  have "uint (clamp_u64 x) = max x 0"
    using assms by (simp add: clamp_u64_def uint_word_of_int)
  then show ?thesis by (simp add: unat_eq_nat_uint)
qed

lemma unat_word_of_int_u64:
  assumes "0 \<le> i" and "i < 2 ^ 64"
  shows "unat (word_of_int i :: u64) = nat i"
proof -
  have "uint (word_of_int i :: u64) = i" using assms by (simp add: uint_word_of_int)
  then show ?thesis by (simp add: unat_eq_nat_uint)
qed

text \<open>Plain \<open>i64\<close> arithmetic wraps in a release build.\<close>

definition wrap_i64 :: "int \<Rightarrow> int" where
  "wrap_i64 i = (i + 2 ^ 63) mod 2 ^ 64 - 2 ^ 63"

lemma wrap_i64_id: "- (2 ^ 63) \<le> i \<Longrightarrow> i < 2 ^ 63 \<Longrightarrow> wrap_i64 i = i"
  by (simp add: wrap_i64_def)

section \<open>ASCII text\<close>

text \<open>\<open>str::to_lowercase\<close> and \<open>str::to_uppercase\<close> on ASCII text.\<close>

definition lower_char :: "char \<Rightarrow> char" where
  "lower_char c = (let v = of_char c :: nat in if 65 \<le> v \<and> v \<le> 90 then char_of (v + 32) else c)"

definition to_lowercase :: "string \<Rightarrow> string" where
  "to_lowercase s = map lower_char s"

section \<open>Decimal text\<close>

text \<open>\<open>show_nat\<close> is what \<open>format!("{}", n)\<close> prints for an unsigned integer.\<close>

definition digit :: "nat \<Rightarrow> char" where
  "digit d = char_of (48 + d)"

fun show_nat :: "nat \<Rightarrow> string" where
  "show_nat n = (if n < 10 then [digit n] else show_nat (n div 10) @ [digit (n mod 10)])"

declare show_nat.simps [simp del]

definition digit_value :: "char \<Rightarrow> nat option" where
  "digit_value c = (let v = of_char c in if 48 \<le> v \<and> v \<le> 57 then Some (v - 48) else None)"

text \<open>\<open>digits_value\<close> reads a run of decimal digits, as \<open>str::parse\<close> does after the sign.\<close>

fun digits_value :: "nat \<Rightarrow> string \<Rightarrow> nat option" where
  "digits_value acc [] = Some acc"
| "digits_value acc (c # cs) =
     (case digit_value c of None \<Rightarrow> None | Some d \<Rightarrow> digits_value (acc * 10 + d) cs)"

lemma digit_value_digit: "d < 10 \<Longrightarrow> digit_value (digit d) = Some d"
  by (simp add: digit_value_def digit_def Let_def of_char_of take_bit_nat_eq_self)

lemma digits_value_append:
  "digits_value a (xs @ ys) = (case digits_value a xs of None \<Rightarrow> None | Some b \<Rightarrow> digits_value b ys)"
  by (induction a xs rule: digits_value.induct) (auto split: option.splits)

lemma digits_value_show_nat: "digits_value 0 (show_nat n) = Some n"
proof (induction n rule: show_nat.induct)
  case (1 n)
  show ?case
  proof (cases "n < 10")
    case True
    then show ?thesis by (simp add: show_nat.simps [of n] digit_value_digit)
  next
    case False
    with 1 show ?thesis
      by (simp add: show_nat.simps [of n] digits_value_append digit_value_digit)
  qed
qed

lemma show_nat_inj: "show_nat m = show_nat n \<longleftrightarrow> m = n"
  by (metis digits_value_show_nat option.inject)

text \<open>Signed integers print with a leading minus sign and parse with an optional sign.\<close>

definition show_int :: "int \<Rightarrow> string" where
  "show_int i = (if i < 0 then ''-'' @ show_nat (nat (- i)) else show_nat (nat i))"

definition parse_nat :: "string \<Rightarrow> nat option" where
  "parse_nat s = (if s = [] then None else digits_value 0 s)"

definition parse_int :: "string \<Rightarrow> int option" where
  "parse_int s =
     (case s of
        [] \<Rightarrow> None
      | c # cs \<Rightarrow>
          if c = CHR ''-'' then map_option (\<lambda>n. - int n) (parse_nat cs)
          else if c = CHR ''+'' then map_option int (parse_nat cs)
          else map_option int (parse_nat s))"

definition in_i64 :: "int \<Rightarrow> bool" where
  "in_i64 i \<longleftrightarrow> - (2 ^ 63) \<le> i \<and> i < 2 ^ 63"

definition parse_i64 :: "string \<Rightarrow> int option" where
  "parse_i64 s = (case parse_int s of Some i \<Rightarrow> if in_i64 i then Some i else None | None \<Rightarrow> None)"

lemma show_nat_ne: "show_nat n \<noteq> []"
  by (subst show_nat.simps) simp

lemma digits_value_digits: "digits_value a cs \<noteq> None \<Longrightarrow> c \<in> set cs \<Longrightarrow> digit_value c \<noteq> None"
  by (induction a cs rule: digits_value.induct) (auto split: option.splits)

lemma show_nat_no_sign: "CHR ''-'' \<notin> set (show_nat n)" "CHR ''+'' \<notin> set (show_nat n)"
proof -
  have "c \<in> set (show_nat n) \<Longrightarrow> digit_value c \<noteq> None" for c
    using digits_value_digits [of 0 "show_nat n" c] digits_value_show_nat by simp
  moreover have "digit_value CHR ''-'' = None" "digit_value CHR ''+'' = None"
    by (simp_all add: digit_value_def Let_def)
  ultimately show "CHR ''-'' \<notin> set (show_nat n)" "CHR ''+'' \<notin> set (show_nat n)" by blast+
qed

lemma parse_nat_show_nat [simp]: "parse_nat (show_nat n) = Some n"
  by (simp add: parse_nat_def show_nat_ne digits_value_show_nat)

lemma parse_int_show_int [simp]: "parse_int (show_int i) = Some i"
proof (cases "i < 0")
  case True
  then show ?thesis by (simp add: show_int_def parse_int_def)
next
  case False
  obtain c cs where c: "show_nat (nat i) = c # cs" using show_nat_ne by (cases "show_nat (nat i)") auto
  have "c \<noteq> CHR ''-''" "c \<noteq> CHR ''+''" using show_nat_no_sign [of "nat i"] c by auto
  moreover have "parse_nat (c # cs) = Some (nat i)" by (metis c parse_nat_show_nat)
  ultimately show ?thesis using False c by (simp add: show_int_def parse_int_def)
qed

lemma parse_i64_show_int [simp]: "parse_i64 (show_int i) = (if in_i64 i then Some i else None)"
  by (simp add: parse_i64_def)

text \<open>\<open>str::parse\<close> at an unsigned width: an optional plus sign, digits, and the value must fit.\<close>

definition parse_unsigned :: "string \<Rightarrow> 'a::len word option" where
  "parse_unsigned s =
     (case parse_nat (case s of c # cs \<Rightarrow> if c = CHR ''+'' then cs else s | [] \<Rightarrow> s) of
        Some n \<Rightarrow> if n < 2 ^ LENGTH('a) then Some (of_nat n) else None
      | None \<Rightarrow> None)"

abbreviation parse_u128 :: "string \<Rightarrow> u128 option" where "parse_u128 \<equiv> parse_unsigned"

abbreviation parse_u64 :: "string \<Rightarrow> u64 option" where "parse_u64 \<equiv> parse_unsigned"

lemma parse_unsigned_show_nat:
  "(parse_unsigned (show_nat n) :: 'a::len word option) = (if n < 2 ^ LENGTH('a) then Some (of_nat n) else None)"
proof -
  have "(case show_nat n of c # cs \<Rightarrow> if c = CHR ''+'' then cs else show_nat n | [] \<Rightarrow> show_nat n) = show_nat n"
    using show_nat_no_sign(2) [of n] by (auto split: list.splits)
  then show ?thesis by (simp add: parse_unsigned_def)
qed

lemma parse_unsigned_word: "parse_unsigned (show_nat (unat w)) = Some w"
  using unsigned_less [of w, where ?'a = nat] by (simp add: parse_unsigned_show_nat)

text \<open>Lower-case hexadecimal text of bytes, two digits each.\<close>

definition hex_digit :: "nat \<Rightarrow> char" where
  "hex_digit n = ''0123456789abcdef'' ! n"

definition hex_encode :: "bytes \<Rightarrow> string" where
  "hex_encode bs = concat (map (\<lambda>b. [hex_digit (unat b div 16), hex_digit (unat b mod 16)]) bs)"

lemma hex_digit_inj: "m < 16 \<Longrightarrow> n < 16 \<Longrightarrow> hex_digit m = hex_digit n \<longleftrightarrow> m = n"
  unfolding hex_digit_def by (subst nth_eq_iff_index_eq) simp_all

lemma length_hex_encode: "length (hex_encode bs) = 2 * length bs"
  by (induction bs) (simp_all add: hex_encode_def)

lemma hex_encode_inj: "hex_encode as = hex_encode bs \<longleftrightarrow> as = bs"
proof
  show "hex_encode as = hex_encode bs \<Longrightarrow> as = bs"
  proof (induction as arbitrary: bs)
    case Nil
    then show ?case using length_hex_encode [of bs] by (simp add: hex_encode_def)
  next
    case (Cons a as)
    obtain b bs' where bs: "bs = b # bs'"
      using Cons.prems by (cases bs) (auto simp: hex_encode_def)
    have lt: "unat x div 16 < 16" for x :: u8
    proof -
      have "unat x < 256" using unsigned_less [of x, where ?'a = nat] by simp
      then show ?thesis by (simp add: less_mult_imp_div_less)
    qed
    have "unat a div 16 = unat b div 16" "unat a mod 16 = unat b mod 16"
      using Cons.prems lt [of a] lt [of b] by (simp_all add: bs hex_encode_def hex_digit_inj)
    then have "unat a = unat b" by (metis div_mult_mod_eq)
    moreover have "hex_encode as = hex_encode bs'" using Cons.prems by (simp add: bs hex_encode_def)
    ultimately show ?case using Cons.IH bs by (simp add: word_unat_eq_iff)
  qed
qed simp

section \<open>Lists\<close>

lemma sum_list_bounds:
  fixes xs :: "nat list"
  assumes "\<forall>x \<in> set xs. lo \<le> x \<and> x \<le> hi"
  shows "length xs * lo \<le> sum_list xs \<and> sum_list xs \<le> length xs * hi"
  using assms by (induction xs) auto

end
