(* ===== verification/Common.thy ===== *)
theory Common
  imports Prelude
begin

text \<open>
  The shared types of \<open>crates/common/src/lib.rs\<close>: proofs, sessions, validation outcomes,
  attestations and mint proposals, and the methods the crate defines on them. Field names carry
  a prefix per struct (\<open>pp_\<close> for \<open>PartialProof\<close>, \<open>sc_\<close> for \<open>SessionContext\<close>, and so on)
  because record selectors share one name space.

  An address is its 160 bits, a \<open>[u8; 32]\<close> is a list of bytes, an alloy \<open>Signature\<close> is its
  \<open>(r, s, y_parity)\<close> triple, and an \<open>IpAddr\<close> is its textual form.
\<close>

section \<open>Enumerations\<close>

datatype validation_mode = PreFilter | Full

datatype suspicion_level = Low | Medium | High

datatype invalid_reason =
    MalformedProof
  | HashMismatch
  | TimingAnomaly
  | HashrateImpossible
  | DuplicateSession
  | ProofDeficit
  | StaleProof
  | InvalidSignature
  | Other string

datatype validation_result =
    Valid
  | Invalid invalid_reason
  | Suspicious suspicion_level

datatype client_type = Browser | Desktop | Cli

datatype commodity = Gold | Platinum | Silver | CrudeOil

datatype chain = Ethereum | Polygon

datatype proposal_status = Pending | ApprovedByMultiSig | Submitted | Confirmed | Rejected

section \<open>Identifiers and records\<close>

type_synonym address = "160 word"
type_synonym signature = "u256 \<times> u256 \<times> bool"
type_synonym ip_addr = string

datatype session_id = SessionId (sid_str: string)

datatype node_id = NodeId (nid_str: string)

record node_site =
  site_code :: string
  site_city :: string
  site_country :: string

record session_context =
  sc_wallet :: address
  sc_ip :: "ip_addr option"
  sc_client_type :: client_type
  sc_active_sessions_count :: u32
  sc_started_at :: datetime
  sc_last_submission_at :: "datetime option"
  sc_assigned_node_id :: "node_id option"
  sc_commodity :: commodity
  sc_target_chain :: chain
  sc_cpu_threads :: u32
  sc_assigned_site :: "node_site option"

record partial_proof =
  pp_session_id :: session_id
  pp_wallet :: address
  pp_sequence :: u32
  pp_hashrate :: u64
  pp_proof_hash :: bytes
  pp_proof_input :: bytes
  pp_difficulty :: u64
  pp_submitted_at :: datetime
  pp_signature :: "signature option"

record node_signature =
  ns_node_id :: node_id
  ns_signature :: signature
  ns_signed_at :: datetime

record anomaly_event =
  ae_session_id :: session_id
  ae_wallet :: address
  ae_score :: u32
  ae_triggers :: "invalid_reason list"
  ae_level :: suspicion_level
  ae_timestamp :: datetime

record attestation_result =
  ar_session_id :: session_id
  ar_signatures :: "node_signature list"
  ar_node_ids :: "node_id list"
  ar_signers :: "address list"
  ar_proof_hash :: bytes
  ar_timestamp :: datetime

record mint_proposal =
  mp_session_id :: session_id
  mp_wallet :: address
  mp_gross_prm :: u128
  mp_net_usd_cents :: "int option"
  mp_commodity :: commodity
  mp_chain :: chain
  mp_attestation :: attestation_result
  mp_backend_sig :: signature
  mp_created_at :: datetime
  mp_status :: proposal_status

section \<open>Methods\<close>

fun chain_id :: "chain \<Rightarrow> u64" where
  "chain_id Ethereum = 1"
| "chain_id Polygon = 137"

definition from_chain_id :: "u64 \<Rightarrow> chain option" where
  "from_chain_id i = (if i = 1 then Some Ethereum else if i = 137 then Some Polygon else None)"

fun chain_as_str :: "chain \<Rightarrow> string" where
  "chain_as_str Ethereum = ''ethereum''"
| "chain_as_str Polygon = ''polygon''"

definition from_str_id :: "string \<Rightarrow> chain option" where
  "from_str_id s =
     (if s = ''ethereum'' then Some Ethereum
      else if s = ''polygon'' then Some Polygon
      else None)"

fun is_canonical :: "chain \<Rightarrow> bool" where
  "is_canonical Ethereum = True"
| "is_canonical Polygon = False"

definition chain_all :: "chain list" where
  "chain_all = [Ethereum, Polygon]"

definition should_trigger_slash_vote :: "validation_result \<Rightarrow> bool" where
  "should_trigger_slash_vote r = (case r of Suspicious High \<Rightarrow> True | _ \<Rightarrow> False)"

definition is_sufficient :: "attestation_result \<Rightarrow> bool" where
  "is_sufficient r = (3 \<le> length (ar_signatures r))"

text \<open>The derived \<open>Debug\<close> forms that keys, labels and database columns are built from.\<close>

fun commodity_debug :: "commodity \<Rightarrow> string" where
  "commodity_debug Gold = ''Gold''"
| "commodity_debug Platinum = ''Platinum''"
| "commodity_debug Silver = ''Silver''"
| "commodity_debug CrudeOil = ''CrudeOil''"

fun client_type_debug :: "client_type \<Rightarrow> string" where
  "client_type_debug Browser = ''Browser''"
| "client_type_debug Desktop = ''Desktop''"
| "client_type_debug Cli = ''Cli''"

fun level_debug :: "suspicion_level \<Rightarrow> string" where
  "level_debug Low = ''Low''"
| "level_debug Medium = ''Medium''"
| "level_debug High = ''High''"

fun status_debug :: "proposal_status \<Rightarrow> string" where
  "status_debug Pending = ''Pending''"
| "status_debug ApprovedByMultiSig = ''ApprovedByMultiSig''"
| "status_debug Submitted = ''Submitted''"
| "status_debug Confirmed = ''Confirmed''"
| "status_debug Rejected = ''Rejected''"

section \<open>Codecs between chains and their identifiers\<close>

text \<open>
  The contract both identifier schemes keep: decoding inverts encoding, and only encodings
  decode. Everything a client needs of a scheme follows from these two laws.
\<close>

locale chain_codec =
  fixes enc :: "chain \<Rightarrow> 'k" and dec :: "'k \<Rightarrow> chain option"
  assumes dec_enc: "dec (enc c) = Some c"
    and dec_SomeD: "dec k = Some c \<Longrightarrow> enc c = k"
begin

lemma dec_eq_Some_iff: "dec k = Some c \<longleftrightarrow> enc c = k"
  using dec_enc dec_SomeD by blast

lemma enc_inj: "enc a = enc b \<longleftrightarrow> a = b"
  by (metis dec_enc option.inject)

lemma dec_eq_None_iff: "dec k = None \<longleftrightarrow> (\<forall>c \<in> set chain_all. enc c \<noteq> k)"
proof -
  have "set chain_all = UNIV"
    using chain.exhaust by (auto simp: chain_all_def)
  then show ?thesis
    using dec_eq_Some_iff by (metis UNIV_I not_None_eq)
qed

end

interpretation id_codec: chain_codec chain_id from_chain_id
proof unfold_locales
  show "from_chain_id (chain_id c) = Some c" for c
    by (cases c) (simp_all add: from_chain_id_def)
  show "chain_id c = k" if "from_chain_id k = Some c" for k c
    using that by (auto simp: from_chain_id_def split: if_splits)
qed

interpretation str_codec: chain_codec chain_as_str from_str_id
proof unfold_locales
  show "from_str_id (chain_as_str c) = Some c" for c
    by (cases c) (simp_all add: from_str_id_def)
  show "chain_as_str c = k" if "from_str_id k = Some c" for k c
    using that by (auto simp: from_str_id_def split: if_splits)
qed

text \<open>
  Chains and their two identifier schemes correspond one to one. A chain id or a string
  parses to a chain exactly when it is that chain's identifier, so an unknown id, a different
  case or any other text is refused.
\<close>

lemma chain_identifiers_roundtrip:
  "(from_chain_id i = Some c \<longleftrightarrow> i = chain_id c)
     \<and> (from_str_id s = Some c \<longleftrightarrow> s = chain_as_str c)"
  using id_codec.dec_eq_Some_iff [of i c] str_codec.dec_eq_Some_iff [of s c] by auto

end
