(* ===== verification/Proof_Validator.thy ===== *)
theory Proof_Validator
  imports Common
begin

text \<open>
  \<open>crates/proof-validator/src/lib.rs\<close>: the stateless pre-filter and full validators behind the
  \<open>ProofValidator\<close> trait of \<open>crates/common\<close>. The trait is the locale \<open>proof_validation\<close>, whose
  two implementations are interpreted below.
\<close>

definition MAX_HASHRATE_BROWSER :: u64 where "MAX_HASHRATE_BROWSER = 400"

definition MAX_HASHRATE_DESKTOP :: u64 where "MAX_HASHRATE_DESKTOP = 4000"

definition MAX_HASHRATE_CLI :: u64 where "MAX_HASHRATE_CLI = 5000"

definition TIMING_MIN_SECS :: int where "TIMING_MIN_SECS = 2"

definition TIMING_MAX_SECS :: int where "TIMING_MAX_SECS = 300"

lemmas validator_consts =
  MAX_HASHRATE_BROWSER_def MAX_HASHRATE_DESKTOP_def MAX_HASHRATE_CLI_def
  TIMING_MIN_SECS_def TIMING_MAX_SECS_def

fun max_hashrate :: "client_type \<Rightarrow> u64" where
  "max_hashrate Browser = MAX_HASHRATE_BROWSER"
| "max_hashrate Desktop = MAX_HASHRATE_DESKTOP"
| "max_hashrate Cli = MAX_HASHRATE_CLI"

definition prefilter_checks :: "partial_proof \<Rightarrow> session_context \<Rightarrow> validation_result" where
  "prefilter_checks proof ctx =
     (if (case sc_last_submission_at ctx of
            Some prev \<Rightarrow>
              (let interval = num_seconds (pp_submitted_at proof - prev)
               in \<not> (TIMING_MIN_SECS \<le> interval \<and> interval \<le> TIMING_MAX_SECS))
          | None \<Rightarrow> False)
      then Invalid TimingAnomaly
      else if max_hashrate (sc_client_type ctx) < pp_hashrate proof
      then Invalid HashrateImpossible
      else if 1 < sc_active_sessions_count ctx
      then Suspicious High
      else Valid)"

definition prefilter_validate ::
    "partial_proof \<Rightarrow> validation_mode \<Rightarrow> session_context \<Rightarrow> validation_result" where
  "prefilter_validate proof mode ctx = prefilter_checks proof ctx"

definition full_validate ::
    "partial_proof \<Rightarrow> validation_mode \<Rightarrow> session_context \<Rightarrow> validation_result" where
  "full_validate proof mode ctx =
     (let pre = prefilter_checks proof ctx
      in if pre \<noteq> Valid then pre
         else if pp_signature proof = None then Invalid InvalidSignature
         else Valid)"

fun validator ::
    "validation_mode \<Rightarrow> partial_proof \<Rightarrow> validation_mode \<Rightarrow> session_context \<Rightarrow> validation_result" where
  "validator PreFilter = prefilter_validate"
| "validator Full = full_validate"

section \<open>The trait's contract\<close>

definition timing_ok :: "partial_proof \<Rightarrow> session_context \<Rightarrow> bool" where
  "timing_ok proof ctx \<longleftrightarrow>
     (case sc_last_submission_at ctx of
        None \<Rightarrow> True
      | Some prev \<Rightarrow> 2 \<le> num_seconds (pp_submitted_at proof - prev)
                   \<and> num_seconds (pp_submitted_at proof - prev) \<le> 300)"

definition hashrate_ok :: "partial_proof \<Rightarrow> session_context \<Rightarrow> bool" where
  "hashrate_ok proof ctx \<longleftrightarrow> pp_hashrate proof \<le> max_hashrate (sc_client_type ctx)"

lemma prefilter_checks_eq:
  "prefilter_checks proof ctx =
     (if \<not> timing_ok proof ctx then Invalid TimingAnomaly
      else if \<not> hashrate_ok proof ctx then Invalid HashrateImpossible
      else if 1 < sc_active_sessions_count ctx then Suspicious High
      else Valid)"
  by (auto simp: prefilter_checks_def timing_ok_def hashrate_ok_def validator_consts Let_def
      not_le split: option.splits)

text \<open>
  Every implementation of the trait runs the shared pre-filter first and reports its verdict
  unchanged; what it may add is a rejection of its own. The consequences below are what the
  service and the node rely on, whichever implementation they hold.
\<close>

locale proof_validation =
  fixes validate :: "partial_proof \<Rightarrow> validation_mode \<Rightarrow> session_context \<Rightarrow> validation_result"
  assumes reports_prefilter:
      "prefilter_checks p ctx \<noteq> Valid \<Longrightarrow> validate p m ctx = prefilter_checks p ctx"
    and adds_rejection:
      "prefilter_checks p ctx = Valid \<Longrightarrow> validate p m ctx \<in> {Valid, Invalid InvalidSignature}"
begin

lemma verdict_cases:
  "validate p m ctx = prefilter_checks p ctx \<or> validate p m ctx = Invalid InvalidSignature"
  using reports_prefilter adds_rejection by (metis insertE singletonD)

lemma accepted_within_limits:
  assumes "validate p m ctx = Valid"
  shows "timing_ok p ctx \<and> hashrate_ok p ctx \<and> sc_active_sessions_count ctx \<le> 1"
proof -
  have "prefilter_checks p ctx = Valid" using assms reports_prefilter by metis
  then show ?thesis by (auto simp: prefilter_checks_eq not_less split: if_splits)
qed

lemma rejection_reasons:
  assumes "validate p m ctx = Invalid r"
  shows "r \<in> {TimingAnomaly, HashrateImpossible, InvalidSignature}"
  using assms verdict_cases [of p m ctx] by (auto simp: prefilter_checks_eq split: if_splits)

lemma suspicion_means_duplicate:
  assumes "validate p m ctx = Suspicious l"
  shows "l = High \<and> 1 < sc_active_sessions_count ctx"
  using assms verdict_cases [of p m ctx] by (auto simp: prefilter_checks_eq split: if_splits)

end

interpretation prefilter_validator: proof_validation prefilter_validate
  by unfold_locales (simp_all add: prefilter_validate_def)

interpretation full_validator: proof_validation full_validate
  by unfold_locales (simp_all add: full_validate_def Let_def)

section \<open>Properties\<close>

lemma validator_contract: "proof_validation (validator mode)"
  using prefilter_validator.proof_validation_axioms full_validator.proof_validation_axioms
  by (cases mode) simp_all

text \<open>
  The verdict of either validator is decided by the first failing check in the order timing,
  hashrate, duplicate session, signature. In particular a proof is Valid only if it came 2 to 300
  seconds after the previous submission (when one is recorded), claims at most the client's
  physical maximum rate, and its wallet had at most one active session; the full validator
  additionally demands a signature, and nothing else is ever a reason for rejection.
\<close>

theorem validator_verdict:
  "validator mode proof m ctx =
     (if \<not> timing_ok proof ctx then Invalid TimingAnomaly
      else if \<not> hashrate_ok proof ctx then Invalid HashrateImpossible
      else if 1 < sc_active_sessions_count ctx then Suspicious High
      else if mode = Full \<and> pp_signature proof = None then Invalid InvalidSignature
      else Valid)"
  by (cases mode)
    (simp_all add: prefilter_validate_def full_validate_def prefilter_checks_eq Let_def)

text \<open>
  The two validators agree except on unsigned proofs: the full validator accepts exactly the
  proofs that the pre-filter accepts and that carry a signature, and it passes every other
  pre-filter verdict through, so a proof the node forwards was never refused earlier.
\<close>

lemma full_refines_prefilter:
  "(validator Full proof m ctx = Valid
      \<longleftrightarrow> validator PreFilter proof m ctx = Valid \<and> pp_signature proof \<noteq> None)
   \<and> (validator PreFilter proof m ctx = Valid
      \<or> validator Full proof m' ctx = validator PreFilter proof m ctx)"
  by (simp add: full_validate_def prefilter_validate_def Let_def)

end
