(* ===== verification/Redis.thy ===== *)
theory Redis
  imports Prelude "HOL-Library.AList" "HOL-Library.Sublist"
begin

text \<open>
  The Redis server that the session store, the rate limiter and the admin login share. The server
  is not part of the sources: the components take its commands as an argument, a record
  \<open>redis_ops\<close> of the commands they issue with the arguments they pass, over a server state \<open>'r\<close>.

  What they rely on is the documented effect of each command on the key space. The reference key
  space below (values with optional deadlines and a clock) states that effect, and the locale
  \<open>redis\<close> is the contract: a server whose every command refines the reference command under an
  abstraction of its state. Components are verified against the reference key space and their
  results carry over to every server that keeps the contract.
\<close>

section \<open>Commands\<close>

datatype redis_error = RedisError string

type_synonym ('r, 'a) redis_cmd = "('r, redis_error, 'a) act"

record 'r redis_ops =
  r_set_ex :: "string \<Rightarrow> string \<Rightarrow> int \<Rightarrow> ('r, unit) redis_cmd"
  r_set_nx_ex :: "string \<Rightarrow> string \<Rightarrow> int \<Rightarrow> ('r, bool) redis_cmd"
  r_get :: "string \<Rightarrow> ('r, string option) redis_cmd"
  r_incrby :: "string \<Rightarrow> int \<Rightarrow> ('r, int) redis_cmd"
  r_expire :: "string \<Rightarrow> int \<Rightarrow> ('r, unit) redis_cmd"
  r_del :: "string list \<Rightarrow> ('r, int) redis_cmd"
  r_exists :: "string \<Rightarrow> ('r, bool) redis_cmd"
  r_scan :: "u64 \<Rightarrow> string \<Rightarrow> ('r, u64 \<times> string list) redis_cmd"

definition r_incr :: "'r redis_ops \<Rightarrow> string \<Rightarrow> ('r, int) redis_cmd" where
  "r_incr R k = r_incrby R k 1"

text \<open>A \<open>GET\<close> whose reply the client reads as an \<open>i64\<close>.\<close>

definition r_get_i64 :: "'r redis_ops \<Rightarrow> string \<Rightarrow> ('r, int option) redis_cmd" where
  "r_get_i64 R k =
     tryE (r_get R k) (\<lambda>v. case v of
         None \<Rightarrow> okE None
       | Some t \<Rightarrow> (case parse_i64 t of
             Some i \<Rightarrow> okE (Some i)
           | None \<Rightarrow> errE (RedisError ''response was of incompatible type'')))"

section \<open>The reference key space\<close>

type_synonym entry = "string \<times> int option"

record keyspace =
  ks_clock :: int
  ks_data :: "(string \<times> entry) list"

definition ks_live :: "keyspace \<Rightarrow> entry \<Rightarrow> bool" where
  "ks_live s e = (case snd e of None \<Rightarrow> True | Some t \<Rightarrow> ks_clock s < t)"

definition ks_entry :: "keyspace \<Rightarrow> string \<Rightarrow> entry option" where
  "ks_entry s k =
     (case map_of (ks_data s) k of
        None \<Rightarrow> None
      | Some e \<Rightarrow> if ks_live s e then Some e else None)"

definition ks_value :: "keyspace \<Rightarrow> string \<Rightarrow> string option" where
  "ks_value s k = map_option fst (ks_entry s k)"

definition ks_put :: "string \<Rightarrow> entry \<Rightarrow> keyspace \<Rightarrow> keyspace" where
  "ks_put k e s = s\<lparr>ks_data := AList.update k e (ks_data s)\<rparr>"

definition ks_drop :: "string \<Rightarrow> keyspace \<Rightarrow> keyspace" where
  "ks_drop k s = s\<lparr>ks_data := AList.delete k (ks_data s)\<rparr>"

definition ks_advance :: "int \<Rightarrow> keyspace \<Rightarrow> keyspace" where
  "ks_advance d s = s\<lparr>ks_clock := ks_clock s + d\<rparr>"

definition ks_set_ex :: "string \<Rightarrow> string \<Rightarrow> int \<Rightarrow> (keyspace, unit) redis_cmd" where
  "ks_set_ex k v t s =
     (if t \<le> 0 then (Inl (RedisError ''invalid expire time''), s)
      else (Inr (), ks_put k (v, Some (ks_clock s + t)) s))"

definition ks_set_nx_ex :: "string \<Rightarrow> string \<Rightarrow> int \<Rightarrow> (keyspace, bool) redis_cmd" where
  "ks_set_nx_ex k v t s =
     (if t \<le> 0 then (Inl (RedisError ''invalid expire time''), s)
      else if ks_entry s k = None then (Inr True, ks_put k (v, Some (ks_clock s + t)) s)
      else (Inr False, s))"

definition ks_get :: "string \<Rightarrow> (keyspace, string option) redis_cmd" where
  "ks_get k s = (Inr (ks_value s k), s)"

definition ks_incrby :: "string \<Rightarrow> int \<Rightarrow> (keyspace, int) redis_cmd" where
  "ks_incrby k n s =
     (if \<not> in_i64 n then (Inl (RedisError ''value is not an integer or out of range''), s)
      else (case ks_entry s k of
          None \<Rightarrow> (Inr n, ks_put k (show_int n, None) s)
        | Some (v, d) \<Rightarrow> (case parse_i64 v of
              None \<Rightarrow> (Inl (RedisError ''value is not an integer or out of range''), s)
            | Some i \<Rightarrow>
                if in_i64 (i + n) then (Inr (i + n), ks_put k (show_int (i + n), d) s)
                else (Inl (RedisError ''increment or decrement would overflow''), s))))"

definition ks_expire :: "string \<Rightarrow> int \<Rightarrow> (keyspace, unit) redis_cmd" where
  "ks_expire k t s =
     (case ks_entry s k of
        None \<Rightarrow> (Inr (), s)
      | Some (v, d) \<Rightarrow> (Inr (), ks_put k (v, Some (ks_clock s + t)) s))"

definition ks_del :: "string list \<Rightarrow> (keyspace, int) redis_cmd" where
  "ks_del ks s = (Inr (int (length (filter (\<lambda>k. ks_entry s k \<noteq> None) (remdups ks)))), fold ks_drop ks s)"

definition ks_exists :: "string \<Rightarrow> (keyspace, bool) redis_cmd" where
  "ks_exists k s = (Inr (ks_entry s k \<noteq> None), s)"

text \<open>
  Patterns end in a star in every call of the sources; a trailing star matches any rest. The
  reference scan answers in one batch.
\<close>

definition ks_match :: "string \<Rightarrow> string \<Rightarrow> bool" where
  "ks_match pat k = (if pat \<noteq> [] \<and> last pat = CHR ''*'' then prefix (butlast pat) k else k = pat)"

definition ks_scan :: "u64 \<Rightarrow> string \<Rightarrow> (keyspace, u64 \<times> string list) redis_cmd" where
  "ks_scan cursor pat s =
     (Inr (0, filter (\<lambda>k. ks_match pat k \<and> ks_entry s k \<noteq> None) (remdups (map fst (ks_data s)))), s)"

definition keyspace_ops :: "keyspace redis_ops" where
  "keyspace_ops = \<lparr>r_set_ex = ks_set_ex, r_set_nx_ex = ks_set_nx_ex, r_get = ks_get,
     r_incrby = ks_incrby, r_expire = ks_expire, r_del = ks_del, r_exists = ks_exists,
     r_scan = ks_scan\<rparr>"

section \<open>Key space lemmas\<close>

lemma ks_clock_simps [simp]:
  "ks_clock (ks_put k e s) = ks_clock s" "ks_clock (ks_drop k s) = ks_clock s"
  "ks_clock (ks_advance d s) = ks_clock s + d" "ks_clock (fold ks_drop ks s) = ks_clock s"
proof -
  show "ks_clock (fold ks_drop ks s) = ks_clock s"
    by (induction ks arbitrary: s) (simp_all add: ks_drop_def)
qed (simp_all add: ks_put_def ks_drop_def ks_advance_def)

lemma ks_live_simps [simp]:
  "ks_live (ks_put k e s) = ks_live s" "ks_live (ks_drop k s) = ks_live s"
  by (rule ext, simp add: ks_live_def split: option.splits)+

lemma ks_entry_put [simp]:
  "ks_entry (ks_put k e s) k' = (if k' = k then (if ks_live s e then Some e else None) else ks_entry s k')"
proof -
  have "map_of (ks_data (ks_put k e s)) = (map_of (ks_data s))(k \<mapsto> e)"
    by (simp add: ks_put_def update_conv')
  then show ?thesis by (auto simp: ks_entry_def split: option.splits)
qed

lemma ks_entry_drop [simp]: "ks_entry (ks_drop k s) k' = (if k' = k then None else ks_entry s k')"
proof -
  have "map_of (ks_data (ks_drop k s)) = (map_of (ks_data s))(k := None)"
    by (simp add: ks_drop_def delete_conv')
  then show ?thesis by (auto simp: ks_entry_def split: option.splits)
qed

lemma ks_entry_fold_drop [simp]:
  "ks_entry (fold ks_drop ks s) k' = (if k' \<in> set ks then None else ks_entry s k')"
  by (induction ks arbitrary: s) auto

lemma ks_live_None [simp]: "ks_live s (v, None)"
  by (simp add: ks_live_def)

lemma ks_live_Some [simp]: "ks_live s (v, Some t) \<longleftrightarrow> ks_clock s < t"
  by (simp add: ks_live_def)

lemma ks_entry_advance:
  assumes "0 \<le> d"
  shows "ks_entry (ks_advance d s) k =
    (case ks_entry s k of
       None \<Rightarrow> None
     | Some (v, None) \<Rightarrow> Some (v, None)
     | Some (v, Some t) \<Rightarrow> if ks_clock s + d < t then Some (v, Some t) else None)"
  using assms
  by (auto simp: ks_entry_def ks_advance_def ks_live_def split: option.splits)

lemma ks_value_entry: "ks_value s k = (case ks_entry s k of None \<Rightarrow> None | Some (v, d) \<Rightarrow> Some v)"
  by (auto simp: ks_value_def split: option.splits)

section \<open>Simulation\<close>

text \<open>
  A computation over a server refines one over the key space when, started in related states, they
  return the same result and end in related states.
\<close>

definition sim :: "('r \<Rightarrow> 's) \<Rightarrow> ('r, 'e, 'a) act \<Rightarrow> ('s, 'e, 'a) act \<Rightarrow> bool" where
  "sim view m m' \<longleftrightarrow> (\<forall>s. fst (m s) = fst (m' (view s)) \<and> view (snd (m s)) = snd (m' (view s)))"

named_theorems sim_intros \<open>refinement rules for the computations of the components\<close>

lemma simD: "sim view m m' \<Longrightarrow> m s = (r, s') \<Longrightarrow> m' (view s) = (r, view s')"
  by (metis fst_conv prod.collapse sim_def snd_conv)

lemma simI: "(\<And>s r s'. m s = (r, s') \<Longrightarrow> m' (view s) = (r, view s')) \<Longrightarrow> sim view m m'"
  unfolding sim_def by (metis fst_conv prod.collapse snd_conv)

lemma sim_fst: "sim view m m' \<Longrightarrow> fst (m s) = fst (m' (view s))"
  by (simp add: sim_def)

lemma sim_snd: "sim view m m' \<Longrightarrow> view (snd (m s)) = snd (m' (view s))"
  by (simp add: sim_def)

lemma sim_okE [sim_intros]: "sim view (okE a) (okE a)"
  by (simp add: sim_def okE_def)

lemma sim_errE [sim_intros]: "sim view (errE e) (errE e)"
  by (simp add: sim_def errE_def)

lemma sim_tryE [sim_intros]:
  assumes m: "sim view m m'" and f: "\<And>a. sim view (f a) (f' a)"
  shows "sim view (tryE m f) (tryE m' f')"
proof (rule simI)
  fix s r s' assume run: "tryE m f s = (r, s')"
  obtain r1 s1 where m1: "m s = (r1, s1)" by fastforce
  have m2: "m' (view s) = (r1, view s1)" by (rule simD [OF m m1])
  show "tryE m' f' (view s) = (r, view s')"
  proof (cases r1)
    case (Inl e)
    then show ?thesis using run m1 m2 by (simp add: tryE_def)
  next
    case (Inr a)
    then have "f a s1 = (r, s')" using run m1 by (simp add: tryE_def)
    then have "f' a (view s1) = (r, view s')" by (rule simD [OF f])
    then show ?thesis using m2 Inr by (simp add: tryE_def)
  qed
qed

lemma sim_attempt [sim_intros]:
  assumes m: "sim view m m'" and f: "\<And>a. sim view (f a) (f' a)"
  shows "sim view (attempt m f) (attempt m' f')"
proof (rule simI)
  fix s r s' assume run: "attempt m f s = (r, s')"
  obtain r1 s1 where m1: "m s = (r1, s1)" by fastforce
  then have "f r1 s1 = (r, s')" using run by (simp add: attempt_def)
  then show "attempt m' f' (view s) = (r, view s')"
    using simD [OF m m1] simD [OF f] by (simp add: attempt_def)
qed

lemma sim_map_errE [sim_intros]: "sim view m m' \<Longrightarrow> sim view (map_errE g m) (map_errE g m')"
  by (auto simp: sim_def map_errE_def split: prod.splits) (metis fst_conv snd_conv)+

lemma sim_if [sim_intros]: "sim view a a' \<Longrightarrow> sim view b b' \<Longrightarrow> sim view (if c then a else b) (if c then a' else b')"
  by simp

lemma sim_option [sim_intros]:
  "sim view a a' \<Longrightarrow> (\<And>x. sim view (b x) (b' x))
     \<Longrightarrow> sim view (case v of None \<Rightarrow> a | Some x \<Rightarrow> b x) (case v of None \<Rightarrow> a' | Some x \<Rightarrow> b' x)"
  by (cases v) simp_all

lemma sim_sum [sim_intros]:
  "(\<And>x. sim view (a x) (a' x)) \<Longrightarrow> (\<And>x. sim view (b x) (b' x))
     \<Longrightarrow> sim view (case v of Inl x \<Rightarrow> a x | Inr x \<Rightarrow> b x) (case v of Inl x \<Rightarrow> a' x | Inr x \<Rightarrow> b' x)"
  by (cases v) simp_all

lemma sim_prod [sim_intros]:
  "(\<And>x y. sim view (f x y) (f' x y)) \<Longrightarrow> sim view (case p of (x, y) \<Rightarrow> f x y) (case p of (x, y) \<Rightarrow> f' x y)"
  by (cases p) simp

section \<open>The contract\<close>

locale redis =
  fixes R :: "'r redis_ops" and view :: "'r \<Rightarrow> keyspace"
  assumes sim_set_ex [sim_intros]: "sim view (r_set_ex R k v t) (ks_set_ex k v t)"
    and sim_set_nx_ex [sim_intros]: "sim view (r_set_nx_ex R k v t) (ks_set_nx_ex k v t)"
    and sim_get [sim_intros]: "sim view (r_get R k) (ks_get k)"
    and sim_incrby [sim_intros]: "sim view (r_incrby R k n) (ks_incrby k n)"
    and sim_expire [sim_intros]: "sim view (r_expire R k t) (ks_expire k t)"
    and sim_del [sim_intros]: "sim view (r_del R ks) (ks_del ks)"
    and sim_exists [sim_intros]: "sim view (r_exists R k) (ks_exists k)"
begin

lemma sim_incr [sim_intros]: "sim view (r_incr R k) (r_incr keyspace_ops k)"
  unfolding r_incr_def keyspace_ops_def by (simp add: sim_incrby)

lemma sim_get_i64 [sim_intros]: "sim view (r_get_i64 R k) (r_get_i64 keyspace_ops k)"
  unfolding r_get_i64_def keyspace_ops_def by (simp, intro sim_intros)

end

interpretation keyspace: redis keyspace_ops id
  by unfold_locales (simp_all add: keyspace_ops_def sim_def)

lemmas ks_cmd_defs = ks_set_ex_def ks_set_nx_ex_def ks_get_def ks_incrby_def ks_expire_def
  ks_del_def ks_exists_def

lemma keyspace_ops_simps [simp]:
  "r_set_ex keyspace_ops = ks_set_ex" "r_set_nx_ex keyspace_ops = ks_set_nx_ex"
  "r_get keyspace_ops = ks_get" "r_incrby keyspace_ops = ks_incrby"
  "r_expire keyspace_ops = ks_expire" "r_del keyspace_ops = ks_del"
  "r_exists keyspace_ops = ks_exists" "r_scan keyspace_ops = ks_scan"
  by (simp_all add: keyspace_ops_def)

end
