(* ===== verification/Session_Manager.thy ===== *)
theory Session_Manager
  imports Proof_Validator Redis
begin

text \<open>
  \<open>crates/session-manager/src/lib.rs\<close>: the session store on Redis. Every operation of
  \<open>SessionStore\<close> is a computation over the Redis commands it issues, in the order it issues them;
  an error of a command leaves the operation at once. The libraries' text forms (addresses, JSON,
  hexadecimal), SHA-256, timestamps and the fresh UUID are parameters.
\<close>

section \<open>Data\<close>

definition TTL_SECS :: int where "TTL_SECS = 3600"

definition COMMIT_PENDING :: string where "COMMIT_PENDING = ''pending''"

datatype session_manager_error = SmRedis redis_error | SmSerialization string

fun sm_error_display :: "(redis_error \<Rightarrow> string) \<Rightarrow> session_manager_error \<Rightarrow> string" where
  "sm_error_display show (SmRedis e) = ''redis error: '' @ show e"
| "sm_error_display show (SmSerialization e) = ''serialization error: '' @ e"

record session_libs =
  sl_addr :: "address \<Rightarrow> string"
  sl_ctx_json :: "session_context \<Rightarrow> string + string"
  sl_ctx_parse :: "string \<Rightarrow> string + session_context"
  sl_proofs_json :: "partial_proof list \<Rightarrow> string + string"
  sl_proofs_parse :: "string \<Rightarrow> string + partial_proof list"
  sl_hex :: "bytes \<Rightarrow> string"
  sl_sha256 :: "bytes \<Rightarrow> bytes"
  sl_from_timestamp :: "int \<Rightarrow> datetime option"

record session_summary =
  ss_session_id :: string
  ss_commodity :: string
  ss_proof_count :: u32
  ss_avg_hashrate :: u64
  ss_client_type :: string
  ss_target_chain :: chain
  ss_started_at :: datetime
  ss_last_submission_at :: "datetime option"
  ss_status :: string
  ss_cpu_threads :: u32
  ss_verified_proof_count :: u32
  ss_rejected_proof_count :: u32
  ss_est_net_usd_cents :: int
  ss_site_code :: "string option"
  ss_site_city :: "string option"
  ss_paused :: bool

type_synonym ('r, 'a) session_act = "('r, session_manager_error, 'a) act"

definition redisE :: "('r, 'a) redis_cmd \<Rightarrow> ('r, 'a) session_act" where
  "redisE m = map_errE SmRedis m"

definition serdeE :: "string + 'a \<Rightarrow> ('r, 'a) session_act" where
  "serdeE r = (case r of Inl e \<Rightarrow> errE (SmSerialization e) | Inr a \<Rightarrow> okE a)"

text \<open>Keys.\<close>

definition session_key :: "string \<Rightarrow> session_id \<Rightarrow> string" where
  "session_key wallet i = ''session:'' @ wallet @ '':'' @ sid_str i"

definition lookup_key :: "session_id \<Rightarrow> string" where
  "lookup_key i = ''session_lookup:'' @ sid_str i"

definition commit_key :: "session_id \<Rightarrow> string" where
  "commit_key i = ''commit:'' @ sid_str i"

definition proofs_key :: "session_id \<Rightarrow> string" where
  "proofs_key i = ''proofs:'' @ sid_str i"

definition first_at_key :: "session_id \<Rightarrow> string" where
  "first_at_key i = ''hashrate_first_at:'' @ sid_str i"

definition hashes_key :: "session_id \<Rightarrow> string" where
  "hashes_key i = ''expected_hashes_sum:'' @ sid_str i"

definition activity_key :: "session_id \<Rightarrow> string" where
  "activity_key i = ''last_activity:'' @ sid_str i"

definition count_key :: "session_id \<Rightarrow> string" where
  "count_key i = ''proof_count:'' @ sid_str i"

definition verified_key :: "session_id \<Rightarrow> string" where
  "verified_key i = ''verified_proof_count:'' @ sid_str i"

definition rejected_key :: "session_id \<Rightarrow> string" where
  "rejected_key i = ''rejected_proof_count:'' @ sid_str i"

definition paused_key :: "session_id \<Rightarrow> string" where
  "paused_key i = ''paused:'' @ sid_str i"

lemmas key_defs = session_key_def lookup_key_def commit_key_def proofs_key_def first_at_key_def
  hashes_key_def activity_key_def count_key_def verified_key_def rejected_key_def paused_key_def

section \<open>Operations\<close>

definition create_session ::
    "'r redis_ops \<Rightarrow> session_libs \<Rightarrow> string \<Rightarrow> session_context \<Rightarrow> ('r, session_id) session_act" where
  "create_session R L uuid ctx =
     (let sid = SessionId uuid; wallet = sl_addr L (sc_wallet ctx) in
      tryE (serdeE (sl_ctx_json L ctx)) (\<lambda>payload.
      tryE (redisE (r_set_ex R (session_key wallet sid) payload TTL_SECS)) (\<lambda>_.
      tryE (redisE (r_set_ex R (lookup_key sid) wallet TTL_SECS)) (\<lambda>_.
      tryE (redisE (r_set_ex R (commit_key sid) COMMIT_PENDING TTL_SECS)) (\<lambda>_.
      okE sid)))))"

definition get_session ::
    "'r redis_ops \<Rightarrow> session_libs \<Rightarrow> session_id \<Rightarrow> ('r, session_context option) session_act" where
  "get_session R L sid =
     tryE (redisE (r_get R (lookup_key sid))) (\<lambda>w. case w of
         None \<Rightarrow> okE None
       | Some wallet \<Rightarrow>
           tryE (redisE (r_get R (session_key wallet sid))) (\<lambda>payload. case payload of
               None \<Rightarrow> okE None
             | Some p \<Rightarrow> tryE (serdeE (sl_ctx_parse L p)) (\<lambda>ctx. okE (Some ctx))))"

definition set_commit ::
    "'r redis_ops \<Rightarrow> session_libs \<Rightarrow> session_id \<Rightarrow> bytes \<Rightarrow> ('r, unit) session_act" where
  "set_commit R L sid commit_hash =
     tryE (redisE (r_set_ex R (commit_key sid) (sl_hex L commit_hash) TTL_SECS)) (\<lambda>_. okE ())"

definition verify_reveal ::
    "'r redis_ops \<Rightarrow> session_libs \<Rightarrow> session_id \<Rightarrow> bytes \<Rightarrow> ('r, bool) session_act" where
  "verify_reveal R L sid nonce =
     tryE (redisE (r_get R (commit_key sid))) (\<lambda>stored. case stored of
         None \<Rightarrow> okE False
       | Some s \<Rightarrow>
           if s = COMMIT_PENDING then okE False
           else okE (sl_hex L (sl_sha256 L nonce) = s))"

definition get_proofs ::
    "'r redis_ops \<Rightarrow> session_libs \<Rightarrow> session_id \<Rightarrow> ('r, partial_proof list) session_act" where
  "get_proofs R L sid =
     tryE (redisE (r_get R (proofs_key sid))) (\<lambda>payload. case payload of
         Some p \<Rightarrow> serdeE (sl_proofs_parse L p)
       | None \<Rightarrow> okE [])"

definition store_proof ::
    "'r redis_ops \<Rightarrow> session_libs \<Rightarrow> session_id \<Rightarrow> partial_proof \<Rightarrow> ('r, unit) session_act" where
  "store_proof R L sid pr =
     tryE (redisE (r_get R (proofs_key sid))) (\<lambda>existing.
     tryE (case existing of Some payload \<Rightarrow> serdeE (sl_proofs_parse L payload) | None \<Rightarrow> okE []) (\<lambda>proofs.
     tryE (serdeE (sl_proofs_json L (proofs @ [pr]))) (\<lambda>payload.
     tryE (redisE (r_set_ex R (proofs_key sid) payload TTL_SECS)) (\<lambda>_. okE ()))))"

definition record_accepted_proof ::
    "'r redis_ops \<Rightarrow> session_id \<Rightarrow> u64 \<Rightarrow> int \<Rightarrow> ('r, unit) session_act" where
  "record_accepted_proof R sid difficulty now_unix_secs =
     tryE (redisE (r_set_nx_ex R (first_at_key sid) (show_int now_unix_secs) TTL_SECS)) (\<lambda>anchored.
       if anchored then okE ()
       else
         tryE (redisE (r_incrby R (hashes_key sid) (uint difficulty))) (\<lambda>_.
         tryE (redisE (r_expire R (hashes_key sid) TTL_SECS)) (\<lambda>_. okE ())))"

definition hashrate_of :: "client_type \<Rightarrow> int option \<Rightarrow> int option \<Rightarrow> int option \<Rightarrow> u64" where
  "hashrate_of client_type first last_at hashes =
     (case (first, last_at, hashes) of
        (Some f, Some l, Some h) \<Rightarrow>
          if f < l \<and> 0 < h
          then (let elapsed = word_of_int (max (wrap_i64 (l - f)) 1) :: u64;
                    rate = word_of_int (max h 0) div elapsed
                in min rate (max_hashrate client_type))
          else 0
      | _ \<Rightarrow> 0)"

definition get_session_hashrate ::
    "'r redis_ops \<Rightarrow> session_id \<Rightarrow> client_type \<Rightarrow> ('r, u64) session_act" where
  "get_session_hashrate R sid client_type =
     tryE (redisE (r_get_i64 R (first_at_key sid))) (\<lambda>first.
     tryE (redisE (r_get_i64 R (activity_key sid))) (\<lambda>last_at.
     tryE (redisE (r_get_i64 R (hashes_key sid))) (\<lambda>hashes.
     okE (hashrate_of client_type first last_at hashes))))"

definition touch_last_activity ::
    "'r redis_ops \<Rightarrow> datetime \<Rightarrow> session_id \<Rightarrow> ('r, unit) session_act" where
  "touch_last_activity R now sid =
     tryE (redisE (r_set_ex R (activity_key sid) (show_int (now div nanos_per_sec)) TTL_SECS)) (\<lambda>_. okE ())"

definition get_last_activity ::
    "'r redis_ops \<Rightarrow> session_libs \<Rightarrow> session_id \<Rightarrow> ('r, datetime option) session_act" where
  "get_last_activity R L sid =
     tryE (redisE (r_get_i64 R (activity_key sid))) (\<lambda>stored. case stored of
         None \<Rightarrow> okE None
       | Some secs \<Rightarrow> okE (sl_from_timestamp L secs))"

definition increment_proof_count :: "'r redis_ops \<Rightarrow> session_id \<Rightarrow> ('r, u32) session_act" where
  "increment_proof_count R sid =
     tryE (redisE (r_incr R (count_key sid))) (\<lambda>count. okE (word_of_int count))"

definition get_proof_count :: "'r redis_ops \<Rightarrow> session_id \<Rightarrow> ('r, u32) session_act" where
  "get_proof_count R sid =
     tryE (redisE (r_get_i64 R (count_key sid))) (\<lambda>count.
     okE (word_of_int (case count of Some c \<Rightarrow> c | None \<Rightarrow> 0)))"

definition incr_session_counter :: "'r redis_ops \<Rightarrow> string \<Rightarrow> ('r, u32) session_act" where
  "incr_session_counter R key =
     tryE (redisE (r_incr R key)) (\<lambda>count.
     tryE (redisE (r_expire R key TTL_SECS)) (\<lambda>_. okE (word_of_int (max count 0))))"

definition get_session_counter :: "'r redis_ops \<Rightarrow> string \<Rightarrow> ('r, u32) session_act" where
  "get_session_counter R key =
     tryE (redisE (r_get_i64 R key)) (\<lambda>count.
     okE (word_of_int (max (case count of Some c \<Rightarrow> c | None \<Rightarrow> 0) 0)))"

definition increment_verified_proof_count :: "'r redis_ops \<Rightarrow> session_id \<Rightarrow> ('r, u32) session_act" where
  "increment_verified_proof_count R sid = incr_session_counter R (verified_key sid)"

definition get_verified_proof_count :: "'r redis_ops \<Rightarrow> session_id \<Rightarrow> ('r, u32) session_act" where
  "get_verified_proof_count R sid = get_session_counter R (verified_key sid)"

definition increment_rejected_proof_count :: "'r redis_ops \<Rightarrow> session_id \<Rightarrow> ('r, u32) session_act" where
  "increment_rejected_proof_count R sid = incr_session_counter R (rejected_key sid)"

definition get_rejected_proof_count :: "'r redis_ops \<Rightarrow> session_id \<Rightarrow> ('r, u32) session_act" where
  "get_rejected_proof_count R sid = get_session_counter R (rejected_key sid)"

definition set_paused :: "'r redis_ops \<Rightarrow> session_id \<Rightarrow> ('r, unit) session_act" where
  "set_paused R sid = tryE (redisE (r_set_ex R (paused_key sid) ''1'' TTL_SECS)) (\<lambda>_. okE ())"

definition clear_paused :: "'r redis_ops \<Rightarrow> session_id \<Rightarrow> ('r, unit) session_act" where
  "clear_paused R sid = tryE (redisE (r_del R [paused_key sid])) (\<lambda>_. okE ())"

definition is_paused :: "'r redis_ops \<Rightarrow> session_id \<Rightarrow> ('r, bool) session_act" where
  "is_paused R sid = redisE (r_exists R (paused_key sid))"

definition wallet_pattern :: "string \<Rightarrow> string" where
  "wallet_pattern wallet = ''session:'' @ wallet @ '':*''"

text \<open>
  The \<open>SCAN\<close> loops: the cursor returned by one call is the argument of the next, and the loop ends
  when it is zero. A server need not return to zero, so the loops carry fuel and answer \<open>None\<close>
  when it runs out.
\<close>

fun scan_count :: "nat \<Rightarrow> 'r redis_ops \<Rightarrow> string \<Rightarrow> u64 \<Rightarrow> u32 \<Rightarrow> ('r, u32 option) session_act" where
  "scan_count 0 R pattern cursor n = okE None"
| "scan_count (Suc fuel) R pattern cursor n =
     tryE (redisE (r_scan R cursor pattern)) (\<lambda>(next_cursor, keys).
       let n' = n + of_nat (length keys) in
       if next_cursor = 0 then okE (Some n')
       else scan_count fuel R pattern next_cursor n')"

definition get_active_session_count ::
    "nat \<Rightarrow> 'r redis_ops \<Rightarrow> session_libs \<Rightarrow> address \<Rightarrow> ('r, u32 option) session_act" where
  "get_active_session_count fuel R L wallet =
     scan_count fuel R (wallet_pattern (sl_addr L wallet)) 0 0"

definition strip_prefix :: "string \<Rightarrow> string \<Rightarrow> string" where
  "strip_prefix p s = (if prefix p s then drop (length p) s else s)"

definition summarize_session ::
    "'r redis_ops \<Rightarrow> session_libs \<Rightarrow> session_id \<Rightarrow> session_context \<Rightarrow> ('r, session_summary) session_act" where
  "summarize_session R L sid ctx =
     tryE (redisE (r_get_i64 R (count_key sid))) (\<lambda>count.
     tryE (get_last_activity R L sid) (\<lambda>last_submission_at.
     tryE (get_session_hashrate R sid (sc_client_type ctx)) (\<lambda>avg_hashrate.
     tryE (get_verified_proof_count R sid) (\<lambda>verified.
     tryE (get_rejected_proof_count R sid) (\<lambda>rejected.
     tryE (is_paused R sid) (\<lambda>paused.
     okE \<lparr>ss_session_id = sid_str sid, ss_commodity = commodity_debug (sc_commodity ctx),
          ss_proof_count = word_of_int (max (case count of Some c \<Rightarrow> c | None \<Rightarrow> 0) 0),
          ss_avg_hashrate = avg_hashrate,
          ss_client_type = to_lowercase (client_type_debug (sc_client_type ctx)),
          ss_target_chain = sc_target_chain ctx, ss_started_at = sc_started_at ctx,
          ss_last_submission_at = last_submission_at, ss_status = ''active'',
          ss_cpu_threads = sc_cpu_threads ctx, ss_verified_proof_count = verified,
          ss_rejected_proof_count = rejected, ss_est_net_usd_cents = 0,
          ss_site_code = map_option site_code (sc_assigned_site ctx),
          ss_site_city = map_option site_city (sc_assigned_site ctx), ss_paused = paused\<rparr>))))))"

fun summarize_keys ::
    "'r redis_ops \<Rightarrow> session_libs \<Rightarrow> string \<Rightarrow> string list \<Rightarrow> session_summary list
       \<Rightarrow> ('r, session_summary list) session_act" where
  "summarize_keys R L pre [] acc = okE acc"
| "summarize_keys R L pre (key # keys) acc =
     tryE (redisE (r_get R key)) (\<lambda>payload. case payload of
         None \<Rightarrow> summarize_keys R L pre keys acc
       | Some p \<Rightarrow>
           tryE (serdeE (sl_ctx_parse L p)) (\<lambda>ctx.
           tryE (summarize_session R L (SessionId (strip_prefix pre key)) ctx) (\<lambda>summary.
           summarize_keys R L pre keys (acc @ [summary]))))"

fun scan_summaries ::
    "nat \<Rightarrow> 'r redis_ops \<Rightarrow> session_libs \<Rightarrow> string \<Rightarrow> u64 \<Rightarrow> session_summary list
       \<Rightarrow> ('r, session_summary list option) session_act" where
  "scan_summaries 0 R L wallet cursor acc = okE None"
| "scan_summaries (Suc fuel) R L wallet cursor acc =
     tryE (redisE (r_scan R cursor (wallet_pattern wallet))) (\<lambda>(next_cursor, keys).
     tryE (summarize_keys R L (''session:'' @ wallet @ '':'') keys acc) (\<lambda>acc'.
       if next_cursor = 0 then okE (Some acc')
       else scan_summaries fuel R L wallet next_cursor acc'))"

definition list_sessions_for_wallet ::
    "nat \<Rightarrow> 'r redis_ops \<Rightarrow> session_libs \<Rightarrow> string \<Rightarrow> ('r, session_summary list option) session_act" where
  "list_sessions_for_wallet fuel R L wallet = scan_summaries fuel R L wallet 0 []"

definition delete_session ::
    "'r redis_ops \<Rightarrow> session_libs \<Rightarrow> address \<Rightarrow> session_id \<Rightarrow> ('r, unit) session_act" where
  "delete_session R L wallet sid =
     tryE (redisE (r_del R [session_key (sl_addr L wallet) sid, lookup_key sid, commit_key sid,
        count_key sid, proofs_key sid, first_at_key sid, hashes_key sid, activity_key sid]))
       (\<lambda>_. okE ())"

section \<open>Refinement to the reference key space\<close>

lemma sim_redisE [sim_intros]: "sim view m m' \<Longrightarrow> sim view (redisE m) (redisE m')"
  unfolding redisE_def by (rule sim_map_errE)

lemma sim_serdeE [sim_intros]: "sim view (serdeE r) (serdeE r)"
  by (cases r) (simp_all add: serdeE_def sim_okE sim_errE)

lemmas session_op_defs = create_session_def get_session_def set_commit_def verify_reveal_def
  get_proofs_def store_proof_def record_accepted_proof_def get_session_hashrate_def
  touch_last_activity_def get_last_activity_def increment_proof_count_def get_proof_count_def
  incr_session_counter_def get_session_counter_def increment_verified_proof_count_def
  get_verified_proof_count_def increment_rejected_proof_count_def get_rejected_proof_count_def
  set_paused_def clear_paused_def is_paused_def delete_session_def

context redis
begin

lemma sim_session_ops [sim_intros]:
  "sim view (create_session R L uuid ctx) (create_session keyspace_ops L uuid ctx)"
  "sim view (get_session R L sid) (get_session keyspace_ops L sid)"
  "sim view (set_commit R L sid h) (set_commit keyspace_ops L sid h)"
  "sim view (verify_reveal R L sid nonce) (verify_reveal keyspace_ops L sid nonce)"
  "sim view (get_proofs R L sid) (get_proofs keyspace_ops L sid)"
  "sim view (store_proof R L sid pr) (store_proof keyspace_ops L sid pr)"
  "sim view (record_accepted_proof R sid d t) (record_accepted_proof keyspace_ops sid d t)"
  "sim view (get_session_hashrate R sid c) (get_session_hashrate keyspace_ops sid c)"
  "sim view (touch_last_activity R now sid) (touch_last_activity keyspace_ops now sid)"
  "sim view (get_last_activity R L sid) (get_last_activity keyspace_ops L sid)"
  "sim view (increment_proof_count R sid) (increment_proof_count keyspace_ops sid)"
  "sim view (get_proof_count R sid) (get_proof_count keyspace_ops sid)"
  "sim view (increment_verified_proof_count R sid) (increment_verified_proof_count keyspace_ops sid)"
  "sim view (get_verified_proof_count R sid) (get_verified_proof_count keyspace_ops sid)"
  "sim view (increment_rejected_proof_count R sid) (increment_rejected_proof_count keyspace_ops sid)"
  "sim view (get_rejected_proof_count R sid) (get_rejected_proof_count keyspace_ops sid)"
  "sim view (set_paused R sid) (set_paused keyspace_ops sid)"
  "sim view (clear_paused R sid) (clear_paused keyspace_ops sid)"
  "sim view (is_paused R sid) (is_paused keyspace_ops sid)"
  "sim view (delete_session R L w sid) (delete_session keyspace_ops L w sid)"
  unfolding session_op_defs keyspace_ops_simps Let_def by (intro sim_intros)+

end

section \<open>Evaluation on the reference key space\<close>

lemmas act_eval = tryE_def okE_def errE_def map_errE_def redisE_def serdeE_def ks_cmd_defs
  TTL_SECS_def r_incr_def r_get_i64_def

lemma create_session_ks:
  assumes "sl_ctx_json L ctx = Inr p"
  shows "create_session keyspace_ops L uuid ctx s =
    (Inr (SessionId uuid),
     (let sid = SessionId uuid; w = sl_addr L (sc_wallet ctx); t = Some (ks_clock s + 3600) in
      ks_put (commit_key sid) (''pending'', t)
        (ks_put (lookup_key sid) (w, t) (ks_put (session_key w sid) (p, t) s))))"
  using assms by (simp add: create_session_def act_eval Let_def COMMIT_PENDING_def)

lemma get_session_ks:
  "fst (get_session keyspace_ops L sid s) =
    (case ks_value s (lookup_key sid) of
       None \<Rightarrow> Inr None
     | Some w \<Rightarrow> (case ks_value s (session_key w sid) of
           None \<Rightarrow> Inr None
         | Some p \<Rightarrow> (case sl_ctx_parse L p of Inl e \<Rightarrow> Inl (SmSerialization e) | Inr c \<Rightarrow> Inr (Some c))))"
  by (simp add: get_session_def act_eval split: option.splits sum.splits)

lemma verify_reveal_ks:
  "fst (verify_reveal keyspace_ops L sid nonce s) =
    Inr (case ks_value s (commit_key sid) of
       None \<Rightarrow> False
     | Some c \<Rightarrow> c \<noteq> ''pending'' \<and> sl_hex L (sl_sha256 L nonce) = c)"
  by (simp add: verify_reveal_def act_eval COMMIT_PENDING_def split: option.splits)

lemma get_proofs_ks:
  "fst (get_proofs keyspace_ops L sid s) =
    (case ks_value s (proofs_key sid) of
       None \<Rightarrow> Inr []
     | Some p \<Rightarrow> (case sl_proofs_parse L p of Inl e \<Rightarrow> Inl (SmSerialization e) | Inr ps \<Rightarrow> Inr ps))"
  by (simp add: get_proofs_def act_eval split: option.splits sum.splits)

text \<open>The reading of a key as an optional \<open>i64\<close>; \<open>None\<close> when the text does not parse.\<close>

definition ks_i64 :: "keyspace \<Rightarrow> string \<Rightarrow> int option option" where
  "ks_i64 s k = (case ks_value s k of None \<Rightarrow> Some None | Some t \<Rightarrow> map_option Some (parse_i64 t))"

lemma r_get_i64_ks:
  "ks_i64 s k = Some v \<Longrightarrow> r_get_i64 keyspace_ops k s = (Inr v, s)"
  by (auto simp: ks_i64_def act_eval split: option.splits)

lemma get_session_hashrate_ks:
  assumes "ks_i64 s (first_at_key sid) = Some f" "ks_i64 s (activity_key sid) = Some l"
    and "ks_i64 s (hashes_key sid) = Some h"
  shows "get_session_hashrate keyspace_ops sid c s = (Inr (hashrate_of c f l h), s)"
  by (simp add: get_session_hashrate_def redisE_def map_errE_def tryE_def okE_def
      r_get_i64_ks [OF assms(1)] r_get_i64_ks [OF assms(2)] r_get_i64_ks [OF assms(3)])

lemma is_paused_ks: "fst (is_paused keyspace_ops sid s) = Inr (ks_entry s (paused_key sid) \<noteq> None)"
  by (simp add: is_paused_def act_eval)

lemma delete_session_ks:
  "delete_session keyspace_ops L w sid s =
    (Inr (), fold ks_drop [session_key (sl_addr L w) sid, lookup_key sid, commit_key sid,
        count_key sid, proofs_key sid, first_at_key sid, hashes_key sid, activity_key sid] s)"
  by (simp add: delete_session_def tryE_def okE_def map_errE_def redisE_def ks_del_def
      del: remdups.simps filter.simps fold_simps)

lemma ks_entry_put_advance:
  "0 \<le> d \<Longrightarrow> ks_entry (ks_advance d (ks_put k (v, Some t) s)) k' =
     (if k' = k then (if ks_clock s + d < t then Some (v, Some t) else None)
      else ks_entry (ks_advance d s) k')"
  by (auto simp: ks_entry_advance split: option.splits)

section \<open>Lifecycle\<close>

text \<open>
  A session that was created can be read back, exactly as it was written, until its hour is
  over, and not afterwards; a reveal against it fails while no commitment has been made.
\<close>

theorem session_lifecycle:
  assumes "redis R view" and "\<And>d s. view (tick d s) = ks_advance d (view s)"
    and "sl_ctx_json L ctx = Inr p" and "sl_ctx_parse L p = Inr ctx" and "0 \<le> d"
  shows "fst (create_session R L uuid ctx s) = Inr (SessionId uuid)
     \<and> fst (get_session R L (SessionId uuid) (tick d (snd (create_session R L uuid ctx s))))
         = Inr (if d < 3600 then Some ctx else None)
     \<and> fst (verify_reveal R L (SessionId uuid) nonce (tick d (snd (create_session R L uuid ctx s))))
         = Inr False"
proof -
  let ?s1 = "snd (create_session keyspace_ops L uuid ctx (view s))"
  have view: "view (tick d (snd (create_session R L uuid ctx s))) = ks_advance d ?s1"
    by (simp add: assms(2) sim_snd [OF redis.sim_session_ops(1) [OF assms(1)]])
  have "fst (create_session R L uuid ctx s) = Inr (SessionId uuid)"
    using assms(3) by (simp add: sim_fst [OF redis.sim_session_ops(1) [OF assms(1)]] create_session_ks)
  moreover have "fst (get_session keyspace_ops L (SessionId uuid) (ks_advance d ?s1))
      = Inr (if d < 3600 then Some ctx else None)"
    using assms(3-5)
    by (simp add: create_session_ks get_session_ks ks_value_def ks_entry_put_advance Let_def key_defs)
  moreover have "fst (verify_reveal keyspace_ops L (SessionId uuid) nonce (ks_advance d ?s1)) = Inr False"
    using assms(3,5)
    by (simp add: create_session_ks verify_reveal_ks ks_value_def ks_entry_put_advance Let_def)
  ultimately show ?thesis
    unfolding view sim_fst [OF redis.sim_session_ops(2) [OF assms(1)]]
      sim_fst [OF redis.sim_session_ops(4) [OF assms(1)]] by simp
qed

text \<open>
  Commit and reveal. Once a commitment is stored, and for an hour, a reveal succeeds for exactly
  the nonces whose SHA-256 hash is the commitment; after that every reveal fails.
\<close>

theorem commit_reveal:
  assumes "redis R view" and "\<And>d s. view (tick d s) = ks_advance d (view s)"
    and "inj (sl_hex L)" and "sl_hex L h \<noteq> ''pending''" and "0 \<le> d"
  shows "fst (set_commit R L sid h s) = Inr ()
     \<and> fst (verify_reveal R L sid nonce (tick d (snd (set_commit R L sid h s))))
         = Inr (d < 3600 \<and> sl_sha256 L nonce = h)"
proof -
  let ?s1 = "snd (set_commit keyspace_ops L sid h (view s))"
  have s1: "set_commit keyspace_ops L sid h (view s)
      = (Inr (), ks_put (commit_key sid) (sl_hex L h, Some (ks_clock (view s) + 3600)) (view s))"
    by (simp add: set_commit_def act_eval)
  have view: "view (tick d (snd (set_commit R L sid h s))) = ks_advance d ?s1"
    by (simp add: assms(2) sim_snd [OF redis.sim_session_ops(3) [OF assms(1)]])
  have "fst (verify_reveal keyspace_ops L sid nonce (ks_advance d ?s1)) = Inr (d < 3600 \<and> sl_sha256 L nonce = h)"
    using assms(3-5)
    by (simp add: s1 verify_reveal_ks ks_value_def ks_entry_put_advance inj_eq)
  then show ?thesis
    unfolding view sim_fst [OF redis.sim_session_ops(4) [OF assms(1)]]
      sim_fst [OF redis.sim_session_ops(3) [OF assms(1)]] by (simp add: s1)
qed

text \<open>
  The proof log is append only. Storing a proof succeeds and the proofs read afterwards are the
  ones read before with the new proof at the end.
\<close>

theorem proof_log_appends:
  assumes "redis R view" and "fst (get_proofs R L sid s) = Inr ps"
    and t: "sl_proofs_json L (ps @ [pr]) = Inr t" "sl_proofs_parse L t = Inr (ps @ [pr])"
  shows "fst (store_proof R L sid pr s) = Inr ()
     \<and> fst (get_proofs R L sid (snd (store_proof R L sid pr s))) = Inr (ps @ [pr])"
proof -
  have ps: "fst (get_proofs keyspace_ops L sid (view s)) = Inr ps"
    using assms(2) sim_fst [OF redis.sim_session_ops(5) [OF assms(1)]] by metis
  have store: "store_proof keyspace_ops L sid pr (view s)
      = (Inr (), ks_put (proofs_key sid) (t, Some (ks_clock (view s) + 3600)) (view s))"
    using ps t(1)
    by (auto simp: store_proof_def get_proofs_ks act_eval split: option.splits sum.splits)
  then have "fst (get_proofs keyspace_ops L sid (snd (store_proof keyspace_ops L sid pr (view s))))
      = Inr (ps @ [pr])"
    using t(2) by (simp add: get_proofs_ks ks_value_def)
  with store show ?thesis
    unfolding sim_fst [OF redis.sim_session_ops(5) [OF assms(1)]]
      sim_fst [OF redis.sim_session_ops(6) [OF assms(1)]]
      sim_snd [OF redis.sim_session_ops(6) [OF assms(1)]] by simp
qed

text \<open>
  Deleting a session removes its record, its commitment, its proofs and its work counters, but
  not the pause flag: a session deleted while paused still reads as paused.
\<close>

theorem delete_session_effect:
  assumes "redis R view"
  shows "fst (delete_session R L w sid s) = Inr ()
     \<and> fst (get_session R L sid (snd (delete_session R L w sid s))) = Inr None
     \<and> fst (get_proofs R L sid (snd (delete_session R L w sid s))) = Inr []
     \<and> fst (verify_reveal R L sid nonce (snd (delete_session R L w sid s))) = Inr False
     \<and> fst (get_session_hashrate R sid c (snd (delete_session R L w sid s))) = Inr 0
     \<and> fst (is_paused R sid (snd (delete_session R L w sid s))) = fst (is_paused R sid s)"
proof -
  note sims = redis.sim_session_ops [OF assms]
  let ?s1 = "snd (delete_session keyspace_ops L w sid (view s))"
  have gone: "ks_entry ?s1 (lookup_key sid) = None" "ks_entry ?s1 (proofs_key sid) = None"
      "ks_entry ?s1 (commit_key sid) = None" "ks_entry ?s1 (first_at_key sid) = None"
      "ks_entry ?s1 (activity_key sid) = None" "ks_entry ?s1 (hashes_key sid) = None"
    unfolding delete_session_ks snd_conv ks_entry_fold_drop by simp_all
  have kept: "ks_entry ?s1 (paused_key sid) = ks_entry (view s) (paused_key sid)"
    unfolding delete_session_ks snd_conv ks_entry_fold_drop by (simp add: key_defs)
  have hashrate: "fst (get_session_hashrate keyspace_ops sid c ?s1) = Inr 0"
    using get_session_hashrate_ks [of ?s1 sid None None None c] gone
    by (simp add: ks_i64_def ks_value_def hashrate_of_def)
  show ?thesis
    unfolding sims [THEN sim_fst] sims(20) [THEN sim_snd]
    using gone kept hashrate
    by (simp add: get_session_ks get_proofs_ks verify_reveal_ks is_paused_ks ks_value_def)
       (simp add: delete_session_ks)
qed

section \<open>Work accounting\<close>



lemma key_neqs [simp]:
  "first_at_key i \<noteq> activity_key j" "activity_key i \<noteq> first_at_key j"
  "first_at_key i \<noteq> hashes_key j" "hashes_key i \<noteq> first_at_key j"
  "activity_key i \<noteq> hashes_key j" "hashes_key i \<noteq> activity_key j"
  by (simp_all add: key_defs)








section \<open>Isolation of sessions\<close>

text \<open>
  The operations that change the store, as commands, so that interleavings of the operations of
  several sessions are lists.
\<close>

datatype session_op =
    Create session_context
  | SetCommit bytes
  | StoreProof partial_proof
  | RecordAccepted u64 int
  | Touch datetime
  | IncProofs
  | IncVerified
  | IncRejected
  | Pause
  | Resume
  | Delete address

fun exec_op :: "'r redis_ops \<Rightarrow> session_libs \<Rightarrow> session_id \<Rightarrow> session_op \<Rightarrow> 'r \<Rightarrow> 'r" where
  "exec_op R L sid (Create ctx) s = snd (create_session R L (sid_str sid) ctx s)"
| "exec_op R L sid (SetCommit h) s = snd (set_commit R L sid h s)"
| "exec_op R L sid (StoreProof p) s = snd (store_proof R L sid p s)"
| "exec_op R L sid (RecordAccepted d t) s = snd (record_accepted_proof R sid d t s)"
| "exec_op R L sid (Touch now) s = snd (touch_last_activity R now sid s)"
| "exec_op R L sid IncProofs s = snd (increment_proof_count R sid s)"
| "exec_op R L sid IncVerified s = snd (increment_verified_proof_count R sid s)"
| "exec_op R L sid IncRejected s = snd (increment_rejected_proof_count R sid s)"
| "exec_op R L sid Pause s = snd (set_paused R sid s)"
| "exec_op R L sid Resume s = snd (clear_paused R sid s)"
| "exec_op R L sid (Delete w) s = snd (delete_session R L w sid s)"

definition exec_ops ::
    "'r redis_ops \<Rightarrow> session_libs \<Rightarrow> (session_id \<times> session_op) list \<Rightarrow> 'r \<Rightarrow> 'r" where
  "exec_ops R L ops s = fold (\<lambda>(sid, op). exec_op R L sid op) ops s"

text \<open>A key belongs to a session when it ends in a colon and the session's id.\<close>

definition owned :: "session_id \<Rightarrow> string \<Rightarrow> bool" where
  "owned sid k \<longleftrightarrow> (\<exists>p. k = p @ '':'' @ sid_str sid)"

lemma ownedI [intro]: "owned sid (p @ '':'' @ sid_str sid)"
  by (auto simp: owned_def)

lemma owned_keys:
  "owned sid (session_key w sid)" "owned sid (lookup_key sid)" "owned sid (commit_key sid)"
  "owned sid (proofs_key sid)" "owned sid (first_at_key sid)" "owned sid (hashes_key sid)"
  "owned sid (activity_key sid)" "owned sid (count_key sid)" "owned sid (verified_key sid)"
  "owned sid (rejected_key sid)" "owned sid (paused_key sid)"
  using ownedI [of sid "''session:'' @ w"] ownedI [of sid "''session_lookup''"] ownedI [of sid "''commit''"]
    ownedI [of sid "''proofs''"] ownedI [of sid "''hashrate_first_at''"]
    ownedI [of sid "''expected_hashes_sum''"] ownedI [of sid "''last_activity''"]
    ownedI [of sid "''proof_count''"] ownedI [of sid "''verified_proof_count''"]
    ownedI [of sid "''rejected_proof_count''"] ownedI [of sid "''paused''"]
  by (simp_all add: key_defs)

lemma colon_suffix_eq:
  assumes "p @ '':'' @ x = q @ '':'' @ y" and "CHR '':'' \<notin> set x" and "CHR '':'' \<notin> set y"
  shows "x = y"
proof -
  have "takeWhile (\<lambda>c. c \<noteq> CHR '':'') (rev (p @ '':'' @ x)) = rev x"
    if "CHR '':'' \<notin> set x" for p x
    using that by (simp, subst takeWhile_append2) auto
  then have "rev x = rev y" using assms by metis
  then show ?thesis by simp
qed

lemma owned_unique:
  assumes "owned i k" and "owned j k" and "CHR '':'' \<notin> set (sid_str i)" and "CHR '':'' \<notin> set (sid_str j)"
  shows "i = j"
  using assms colon_suffix_eq by (metis owned_def session_id.expand)

lemma exec_op_frame:
  assumes "\<not> owned sid k"
  shows "ks_entry (exec_op keyspace_ops L sid op s) k = ks_entry s k"
proof -
  have neq: "k \<noteq> session_key w sid" "k \<noteq> lookup_key sid" "k \<noteq> commit_key sid" "k \<noteq> proofs_key sid"
      "k \<noteq> first_at_key sid" "k \<noteq> hashes_key sid" "k \<noteq> activity_key sid" "k \<noteq> count_key sid"
      "k \<noteq> verified_key sid" "k \<noteq> rejected_key sid" "k \<noteq> paused_key sid" for w
    using assms owned_keys by metis+
  show ?thesis
  proof (cases op)
    case (Delete w)
    then show ?thesis using neq by (simp add: delete_session_ks del: fold_simps)
  qed (use neq in \<open>auto simp: create_session_def Let_def set_commit_def store_proof_def record_accepted_proof_def
      touch_last_activity_def increment_proof_count_def increment_verified_proof_count_def
      increment_rejected_proof_count_def incr_session_counter_def set_paused_def clear_paused_def
      act_eval split: option.splits sum.splits if_splits\<close>)
qed

lemma exec_ops_frame:
  assumes "\<forall>(i, op) \<in> set ops. \<not> owned i k"
  shows "ks_entry (exec_ops keyspace_ops L ops s) k = ks_entry s k"
  using assms unfolding exec_ops_def
  by (induction ops arbitrary: s) (auto simp: exec_op_frame)

context redis
begin

lemma view_exec_op: "view (exec_op R L sid op s) = exec_op keyspace_ops L sid op (view s)"
  by (cases op) (simp_all add: sim_session_ops [THEN sim_snd])

lemma view_exec_ops: "view (exec_ops R L ops s) = exec_ops keyspace_ops L ops (view s)"
  unfolding exec_ops_def by (induction ops arbitrary: s) (auto simp: view_exec_op)

end

lemma reads_owned:
  assumes "\<And>k. owned sid k \<Longrightarrow> ks_entry s' k = ks_entry s k"
  shows "fst (get_session keyspace_ops L sid s') = fst (get_session keyspace_ops L sid s)"
    and "fst (get_proofs keyspace_ops L sid s') = fst (get_proofs keyspace_ops L sid s)"
    and "fst (verify_reveal keyspace_ops L sid nonce s') = fst (verify_reveal keyspace_ops L sid nonce s)"
    and "fst (get_session_hashrate keyspace_ops sid c s') = fst (get_session_hashrate keyspace_ops sid c s)"
    and "fst (is_paused keyspace_ops sid s') = fst (is_paused keyspace_ops sid s)"
    and "fst (get_last_activity keyspace_ops L sid s') = fst (get_last_activity keyspace_ops L sid s)"
    and "fst (get_proof_count keyspace_ops sid s') = fst (get_proof_count keyspace_ops sid s)"
    and "fst (get_verified_proof_count keyspace_ops sid s') = fst (get_verified_proof_count keyspace_ops sid s)"
    and "fst (get_rejected_proof_count keyspace_ops sid s') = fst (get_rejected_proof_count keyspace_ops sid s)"
  using assms owned_keys [of sid]
  by (simp_all add: get_session_ks get_proofs_ks verify_reveal_ks is_paused_ks ks_value_def
      get_session_hashrate_def get_last_activity_def get_proof_count_def get_verified_proof_count_def
      get_rejected_proof_count_def get_session_counter_def act_eval split: option.splits)

text \<open>
  C17: sessions do not interfere. Whatever operations other sessions perform, in whatever order and
  number, creations and deletions included, every operation by which a session reads its own keys answers
  the same: its context, proofs, commitment, hashrate, pause flag, last activity and its three proof
  counters. Ids are UUIDs, so they have no colon.
\<close>

theorem sessions_isolated:
  assumes "redis R view" and "\<forall>(i, op) \<in> set ops. i \<noteq> sid \<and> CHR '':'' \<notin> set (sid_str i)"
    and "CHR '':'' \<notin> set (sid_str sid)"
  shows "fst (get_session R L sid (exec_ops R L ops s)) = fst (get_session R L sid s)
     \<and> fst (get_proofs R L sid (exec_ops R L ops s)) = fst (get_proofs R L sid s)
     \<and> fst (verify_reveal R L sid nonce (exec_ops R L ops s)) = fst (verify_reveal R L sid nonce s)
     \<and> fst (get_session_hashrate R sid c (exec_ops R L ops s)) = fst (get_session_hashrate R sid c s)
     \<and> fst (is_paused R sid (exec_ops R L ops s)) = fst (is_paused R sid s)
     \<and> fst (get_last_activity R L sid (exec_ops R L ops s)) = fst (get_last_activity R L sid s)
     \<and> fst (get_proof_count R sid (exec_ops R L ops s)) = fst (get_proof_count R sid s)
     \<and> fst (get_verified_proof_count R sid (exec_ops R L ops s)) = fst (get_verified_proof_count R sid s)
     \<and> fst (get_rejected_proof_count R sid (exec_ops R L ops s)) = fst (get_rejected_proof_count R sid s)"
proof -
  note sims = redis.sim_session_ops [OF assms(1), THEN sim_fst]
  have same: "ks_entry (exec_ops keyspace_ops L ops (view s)) k = ks_entry (view s) k"
    if "owned sid k" for k
    using assms(2,3) that owned_unique by (intro exec_ops_frame) fastforce
  show ?thesis
    unfolding sims redis.view_exec_ops [OF assms(1)] using reads_owned [OF same] by simp
qed

section \<open>Instances\<close>

definition demo_ctx :: session_context where
  "demo_ctx = \<lparr>sc_wallet = 7, sc_ip = None, sc_client_type = Cli, sc_active_sessions_count = 0,
     sc_started_at = 0, sc_last_submission_at = None, sc_assigned_node_id = None,
     sc_commodity = Gold, sc_target_chain = Polygon, sc_cpu_threads = 8, sc_assigned_site = None\<rparr>"

definition demo_proof :: partial_proof where
  "demo_proof = \<lparr>pp_session_id = SessionId ''s'', pp_wallet = 7, pp_sequence = 0, pp_hashrate = 0,
     pp_proof_hash = [], pp_proof_input = [], pp_difficulty = 1, pp_submitted_at = 0, pp_signature = None\<rparr>"

definition demo_session_libs :: session_libs where
  "demo_session_libs = \<lparr>sl_addr = (\<lambda>a. ''0x7''), sl_ctx_json = (\<lambda>c. Inr ''ctx''),
     sl_ctx_parse = (\<lambda>t. Inr demo_ctx), sl_proofs_json = (\<lambda>ps. Inr ''proofs''),
     sl_proofs_parse = (\<lambda>t. Inr [demo_proof]), sl_hex = hex_encode, sl_sha256 = rev,
     sl_from_timestamp = (\<lambda>i. Some (i * nanos_per_sec))\<rparr>"

definition empty_ks :: keyspace where
  "empty_ks = \<lparr>ks_clock = 0, ks_data = []\<rparr>"

lemma ks_entry_empty [simp]: "ks_entry (ks_advance d empty_ks) k = None"
  by (simp add: ks_entry_def ks_advance_def empty_ks_def)

theorem session_lifecycle_witness:
  "fst (get_session keyspace_ops demo_session_libs (SessionId ''u'')
      (ks_advance 10 (snd (create_session keyspace_ops demo_session_libs ''u'' demo_ctx empty_ks))))
    = Inr (Some demo_ctx)"
  using session_lifecycle [OF keyspace.redis_axioms, where tick = ks_advance and L = demo_session_libs
      and ctx = demo_ctx and p = "''ctx''" and d = 10 and uuid = "''u''" and s = empty_ks]
  by (simp add: demo_session_libs_def)

theorem commit_reveal_witness:
  "fst (verify_reveal keyspace_ops demo_session_libs (SessionId ''u'') [1, 2]
      (ks_advance 10 (snd (set_commit keyspace_ops demo_session_libs (SessionId ''u'') [2, 1] empty_ks))))
    = Inr True"
proof -
  have "hex_encode [2, 1] \<noteq> ''pending''" using length_hex_encode [of "[2, 1]"] by auto
  moreover have "inj hex_encode" by (simp add: inj_def hex_encode_inj)
  ultimately show ?thesis
    using commit_reveal [OF keyspace.redis_axioms, where tick = ks_advance and L = demo_session_libs
        and h = "[2, 1]" and d = 10 and nonce = "[1, 2]" and sid = "SessionId ''u''" and s = empty_ks]
    by (simp add: demo_session_libs_def)
qed

theorem proof_log_appends_witness:
  "fst (get_proofs keyspace_ops demo_session_libs (SessionId ''u'')
      (snd (store_proof keyspace_ops demo_session_libs (SessionId ''u'') demo_proof (ks_advance 0 empty_ks))))
    = Inr [demo_proof]"
  using proof_log_appends [OF keyspace.redis_axioms, of demo_session_libs "SessionId ''u''"
      "ks_advance 0 empty_ks" "[]" demo_proof "''proofs''"]
  by (simp add: demo_session_libs_def get_proofs_ks ks_value_def)

theorem delete_session_effect_witness:
  "fst (is_paused keyspace_ops (SessionId ''u'')
      (snd (delete_session keyspace_ops demo_session_libs 7 (SessionId ''u'')
        (snd (set_paused keyspace_ops (SessionId ''u'') empty_ks))))) = Inr True"
proof -
  have "fst (is_paused keyspace_ops (SessionId ''u'') (snd (set_paused keyspace_ops (SessionId ''u'') empty_ks))) = Inr True"
    by (simp add: set_paused_def is_paused_ks act_eval)
  then show ?thesis
    using delete_session_effect [OF keyspace.redis_axioms, where L = demo_session_libs and w = 7
        and sid = "SessionId ''u''" and s = "snd (set_paused keyspace_ops (SessionId ''u'') empty_ks)"] by simp
qed


theorem sessions_isolated_witness:
  "fst (is_paused keyspace_ops (SessionId ''u'')
      (exec_ops keyspace_ops demo_session_libs
        [(SessionId ''v'', Create demo_ctx), (SessionId ''v'', Pause), (SessionId ''v'', Delete 7)]
        (ks_advance 0 empty_ks))) = Inr False"
  using sessions_isolated [OF keyspace.redis_axioms, where L = demo_session_libs and sid = "SessionId ''u''"
      and ops = "[(SessionId ''v'', Create demo_ctx), (SessionId ''v'', Pause), (SessionId ''v'', Delete 7)]" and s = "ks_advance 0 empty_ks"]
  by (simp add: is_paused_ks)

end
