(* ===== verification/Session_Scans.thy ===== *)
theory Session_Scans
  imports Session_Manager
begin

text \<open>
  The two loops of the session store that page through the keys of a wallet with \<open>SCAN\<close>. The server
  decides how many pages there are, so the runs of the command are a relation: a run ends with the page
  whose cursor is zero. The theorems say how much fuel the loops need and what they then answer.
\<close>

section \<open>Runs of the scan command\<close>

inductive scan_run :: "'r redis_ops \<Rightarrow> string \<Rightarrow> u64 \<Rightarrow> 'r \<Rightarrow> string list list \<Rightarrow> 'r \<Rightarrow> bool"
  for R :: "'r redis_ops" and pattern :: string where
  last_page: "r_scan R cursor pattern s = (Inr (0, keys), s') \<Longrightarrow> scan_run R pattern cursor s [keys] s'"
| next_page: "r_scan R cursor pattern s = (Inr (next_cursor, keys), s1) \<Longrightarrow> next_cursor \<noteq> 0
    \<Longrightarrow> scan_run R pattern next_cursor s1 pages s' \<Longrightarrow> scan_run R pattern cursor s (keys # pages) s'"

lemma scan_count_run:
  "scan_run R pattern cursor s pages s' \<Longrightarrow> length pages \<le> fuel \<Longrightarrow>
   scan_count fuel R pattern cursor n s = (Inr (Some (n + of_nat (length (concat pages)))), s')"
proof (induction arbitrary: fuel n rule: scan_run.induct)
  case (last_page cursor s keys s')
  then show ?case by (cases fuel) (simp_all add: act_eval)
next
  case (next_page cursor s next_cursor keys s1 pages s')
  then obtain f where "fuel = Suc f" "length pages \<le> f" by (cases fuel) auto
  with next_page show ?case by (simp add: act_eval add.assoc)
qed

lemma scan_count_answer:
  "scan_count fuel R pattern cursor n s = (Inr (Some m), s') \<Longrightarrow>
   \<exists>pages. scan_run R pattern cursor s pages s' \<and> length pages \<le> fuel \<and> m = n + of_nat (length (concat pages))"
proof (induction fuel arbitrary: cursor n s)
  case (Suc fuel)
  obtain r s1 where r: "r_scan R cursor pattern s = (r, s1)" by (cases "r_scan R cursor pattern s")
  from Suc.prems obtain c keys where page: "r_scan R cursor pattern s = (Inr (c, keys), s1)"
    by (cases r) (auto simp: r act_eval)
  show ?case
  proof (cases "c = 0")
    case True
    then have "scan_run R pattern cursor s [keys] s'" "m = n + of_nat (length keys)"
      using Suc.prems page by (auto simp: act_eval intro: last_page)
    then show ?thesis by (intro exI [of _ "[keys]"]) simp
  next
    case False
    then have "scan_count fuel R pattern c (n + of_nat (length keys)) s1 = (Inr (Some m), s')"
      using Suc.prems page by (simp add: act_eval)
    from Suc.IH [OF this] obtain pages where "scan_run R pattern c s1 pages s'" "length pages \<le> fuel"
        "m = n + of_nat (length keys) + of_nat (length (concat pages))" by blast
    then show ?thesis
      using next_page [OF page False] by (intro exI [of _ "keys # pages"]) simp
  qed
qed (simp add: act_eval)

section \<open>Cursors that come to an end\<close>

text \<open>
  Redis promises that a full iteration ends: the server walks its table with the cursor, which comes closer to
  zero with every page, whatever is written in between. \<open>rank\<close> is how many more pages a cursor can have.
\<close>

definition scan_ranked :: "'r redis_ops \<Rightarrow> string \<Rightarrow> (u64 \<Rightarrow> nat) \<Rightarrow> bool" where
  "scan_ranked R pattern rank \<longleftrightarrow>
     (\<forall>cursor s next_cursor keys s'. r_scan R cursor pattern s = (Inr (next_cursor, keys), s')
        \<longrightarrow> next_cursor = 0 \<or> rank next_cursor < rank cursor)"

lemma scan_rankedD:
  "scan_ranked R pattern rank \<Longrightarrow> r_scan R cursor pattern s = (Inr (next_cursor, keys), s') \<Longrightarrow> next_cursor \<noteq> 0
   \<Longrightarrow> rank next_cursor < rank cursor"
  unfolding scan_ranked_def by blast

lemma scan_run_pages:
  "scan_run R pattern cursor s pages s' \<Longrightarrow> scan_ranked R pattern rank \<Longrightarrow> length pages \<le> Suc (rank cursor)"
  by (induction rule: scan_run.induct) (auto dest: scan_rankedD)

text \<open>One turn of either loop.\<close>

lemma scan_count_turn:
  "scan_count (Suc fuel) R pattern cursor n s =
     (case r_scan R cursor pattern s of
        (Inl e, s1) \<Rightarrow> (Inl (SmRedis e), s1)
      | (Inr (c, keys), s1) \<Rightarrow>
          if c = 0 then (Inr (Some (n + of_nat (length keys))), s1) else scan_count fuel R pattern c (n + of_nat (length keys)) s1)"
  by (simp add: act_eval Let_def split: prod.split sum.split)

lemma scan_summaries_turn:
  "scan_summaries (Suc fuel) R L wallet cursor acc s =
     (case r_scan R cursor (wallet_pattern wallet) s of
        (Inl e, s1) \<Rightarrow> (Inl (SmRedis e), s1)
      | (Inr (c, keys), s1) \<Rightarrow>
          (case summarize_keys R L (''session:'' @ wallet @ '':'') keys acc s1 of
             (Inl e, s2) \<Rightarrow> (Inl e, s2)
           | (Inr acc', s2) \<Rightarrow> if c = 0 then (Inr (Some acc'), s2) else scan_summaries fuel R L wallet c acc' s2))"
  by (simp add: act_eval split: prod.split sum.split)

lemma scan_count_ends:
  assumes "scan_ranked R pattern rank" and "rank cursor < fuel"
  shows "fst (scan_count fuel R pattern cursor n s) \<noteq> Inr None
    \<and> (rank cursor < fuel' \<longrightarrow> scan_count fuel' R pattern cursor n s = scan_count fuel R pattern cursor n s)"
  using assms(2)
proof (induction fuel arbitrary: fuel' cursor n s)
  case (Suc fuel)
  obtain r s1 where r: "r_scan R cursor pattern s = (r, s1)" by fastforce
  show ?case
  proof (cases r)
    case (Inl e)
    with r show ?thesis by (cases fuel') (simp_all add: scan_count_turn del: scan_count.simps(2))
  next
    case (Inr page)
    obtain c keys where page: "page = (c, keys)" by fastforce
    show ?thesis
    proof (cases "c = 0")
      case True
      with r Inr page show ?thesis by (cases fuel') (simp_all add: scan_count_turn del: scan_count.simps(2))
    next
      case False
      then have less: "rank c < rank cursor" using scan_rankedD [OF assms(1)] r Inr page by blast
      have turn: "scan_count (Suc f) R pattern cursor n s = scan_count f R pattern c (n + of_nat (length keys)) s1" for f
        using False r Inr page by (simp add: scan_count_turn del: scan_count.simps(2))
      have c: "rank c < fuel" using less Suc.prems by simp
      show ?thesis
      proof (intro conjI impI)
        show "fst (scan_count (Suc fuel) R pattern cursor n s) \<noteq> Inr None" unfolding turn using Suc.IH [OF c] by blast
        assume "rank cursor < fuel'"
        then obtain f where "fuel' = Suc f" "rank c < f" using less by (cases fuel') auto
        then show "scan_count fuel' R pattern cursor n s = scan_count (Suc fuel) R pattern cursor n s"
          using Suc.IH [OF c] turn by metis
      qed
    qed
  qed
qed simp

lemma scan_summaries_ends:
  assumes "scan_ranked R (wallet_pattern wallet) rank" and "rank cursor < fuel"
  shows "fst (scan_summaries fuel R L wallet cursor acc s) \<noteq> Inr None
    \<and> (rank cursor < fuel' \<longrightarrow> scan_summaries fuel' R L wallet cursor acc s = scan_summaries fuel R L wallet cursor acc s)"
  using assms(2)
proof (induction fuel arbitrary: fuel' cursor acc s)
  case (Suc fuel)
  obtain r s1 where r: "r_scan R cursor (wallet_pattern wallet) s = (r, s1)" by fastforce
  show ?case
  proof (cases r)
    case (Inl e)
    with r show ?thesis by (cases fuel') (simp_all add: scan_summaries_turn del: scan_summaries.simps(2))
  next
    case (Inr page)
    obtain c keys where page: "page = (c, keys)" by fastforce
    obtain q s2 where q: "summarize_keys R L (''session:'' @ wallet @ '':'') keys acc s1 = (q, s2)" by fastforce
    show ?thesis
    proof (cases "c = 0 \<or> isl q")
      case True
      with r Inr page q show ?thesis
        by (cases fuel'; cases q) (auto simp add: scan_summaries_turn simp del: scan_summaries.simps(2))
    next
      case False
      then have less: "rank c < rank cursor" using scan_rankedD [OF assms(1)] r Inr page by blast
      have turn: "scan_summaries (Suc f) R L wallet cursor acc s = scan_summaries f R L wallet c (projr q) s2" for f
        using False r Inr page q by (cases q) (simp_all add: scan_summaries_turn del: scan_summaries.simps(2))
      have c: "rank c < fuel" using less Suc.prems by simp
      show ?thesis
      proof (intro conjI impI)
        show "fst (scan_summaries (Suc fuel) R L wallet cursor acc s) \<noteq> Inr None" unfolding turn using Suc.IH [OF c] by blast
        assume "rank cursor < fuel'"
        then obtain f where "fuel' = Suc f" "rank c < f" using less by (cases fuel') auto
        then show "scan_summaries fuel' R L wallet cursor acc s = scan_summaries (Suc fuel) R L wallet cursor acc s"
          using Suc.IH [OF c] turn by metis
      qed
    qed
  qed
qed simp

section \<open>Properties\<close>

text \<open>
  C34: Both loops that page through the sessions of a wallet end. On a server whose cursors come to an end, as Redis
  promises, more fuel than the rank of the first cursor is enough for either loop, from whatever state: counting and
  listing answer or report the error of a command, they never run out, and further fuel changes neither the
  answer nor the state. When the scan itself meets no error the count is the number of keys on its pages, which is
  the number of different sessions exactly if the server repeated none of them (below the 32 bits of the
  counter); a repeated key is counted again, never left out.
\<close>

theorem session_scans_end:
  assumes "scan_ranked R (wallet_pattern (sl_addr L wallet)) rank" and "rank 0 < fuel"
  shows "fst (get_active_session_count fuel R L wallet s) \<noteq> Inr None
    \<and> fst (list_sessions_for_wallet fuel R L (sl_addr L wallet) s) \<noteq> Inr None
    \<and> (\<forall>fuel'. rank 0 < fuel' \<longrightarrow>
         get_active_session_count fuel' R L wallet s = get_active_session_count fuel R L wallet s
         \<and> list_sessions_for_wallet fuel' R L (sl_addr L wallet) s = list_sessions_for_wallet fuel R L (sl_addr L wallet) s)
    \<and> (\<forall>pages s'. scan_run R (wallet_pattern (sl_addr L wallet)) 0 s pages s' \<longrightarrow>
         get_active_session_count fuel R L wallet s = (Inr (Some (of_nat (length (concat pages)))), s'))
    \<and> (\<forall>count s'. get_active_session_count fuel R L wallet s = (Inr (Some count), s') \<longrightarrow>
         (\<exists>pages. scan_run R (wallet_pattern (sl_addr L wallet)) 0 s pages s'
            \<and> (length (concat pages) < 2 ^ 32 \<longrightarrow> unat count = length (concat pages)
                 \<and> card (set (concat pages)) \<le> unat count \<and> (unat count = card (set (concat pages)) \<longleftrightarrow> distinct (concat pages)))))"
proof (intro conjI allI impI)
  show "fst (get_active_session_count fuel R L wallet s) \<noteq> Inr None"
    unfolding get_active_session_count_def using scan_count_ends [OF assms] by blast
  show "fst (list_sessions_for_wallet fuel R L (sl_addr L wallet) s) \<noteq> Inr None"
    unfolding list_sessions_for_wallet_def using scan_summaries_ends [OF assms] by blast
  fix fuel' assume "rank 0 < fuel'"
  then show "get_active_session_count fuel' R L wallet s = get_active_session_count fuel R L wallet s"
    "list_sessions_for_wallet fuel' R L (sl_addr L wallet) s = list_sessions_for_wallet fuel R L (sl_addr L wallet) s"
    unfolding get_active_session_count_def list_sessions_for_wallet_def
    using scan_count_ends [OF assms] scan_summaries_ends [OF assms] by blast+
next
  fix pages s' assume run: "scan_run R (wallet_pattern (sl_addr L wallet)) 0 s pages s'"
  then have "length pages \<le> fuel" using scan_run_pages [OF run assms(1)] assms(2) by linarith
  from scan_count_run [OF run this, of 0]
  show "get_active_session_count fuel R L wallet s = (Inr (Some (of_nat (length (concat pages)))), s')"
    by (simp add: get_active_session_count_def del: length_concat)
next
  fix count s' assume "get_active_session_count fuel R L wallet s = (Inr (Some count), s')"
  then obtain pages where run: "scan_run R (wallet_pattern (sl_addr L wallet)) 0 s pages s'"
    and count: "count = of_nat (length (concat pages))"
    unfolding get_active_session_count_def using scan_count_answer by fastforce
  have "unat count = length (concat pages)" if "length (concat pages) < 2 ^ 32"
    using that by (simp add: count unsigned_of_nat take_bit_nat_eq_self del: length_concat)
  moreover have "card (set (concat pages)) \<le> length (concat pages)" by (rule card_length)
  moreover have "length (concat pages) = card (set (concat pages)) \<longleftrightarrow> distinct (concat pages)"
    using distinct_card [of "concat pages"] card_distinct [of "concat pages"] by metis
  ultimately show "\<exists>pages. scan_run R (wallet_pattern (sl_addr L wallet)) 0 s pages s'
      \<and> (length (concat pages) < 2 ^ 32 \<longrightarrow> unat count = length (concat pages)
           \<and> card (set (concat pages)) \<le> unat count \<and> (unat count = card (set (concat pages)) \<longleftrightarrow> distinct (concat pages)))"
    using run by (intro exI [of _ pages] conjI impI) metis+
qed

text \<open>The reference key space answers in one page and lists a key once, so that one unit of fuel counts
  exactly the live sessions of the wallet.\<close>

lemma scan_run_keyspace:
  "scan_run keyspace_ops pattern cursor s
     [filter (\<lambda>k. ks_match pattern k \<and> ks_entry s k \<noteq> None) (remdups (map fst (ks_data s)))] s"
  by (intro last_page) (simp add: ks_cmd_defs ks_scan_def)

section \<open>Instances\<close>

text \<open>A server that answers in two pages and repeats a key on the second, as \<open>SCAN\<close> may.\<close>

definition paged_ops :: "keyspace redis_ops" where
  "paged_ops = keyspace_ops\<lparr>r_scan := \<lambda>cursor pattern s.
     (Inr (if cursor = 0 then (7, [''session:a:1'', ''session:a:2'']) else (0, [''session:a:2''])), s)\<rparr>"

lemma paged_run:
  "scan_run paged_ops pattern 0 s [[''session:a:1'', ''session:a:2''], [''session:a:2'']] s"
  by (rule next_page [where next_cursor = 7], simp add: paged_ops_def, simp, rule last_page, simp add: paged_ops_def)

lemma paged_ranked: "scan_ranked paged_ops pattern (\<lambda>c. if c = 0 then 1 else 0)"
  by (auto simp: scan_ranked_def paged_ops_def)

theorem session_scans_end_witness:
  "get_active_session_count 2 paged_ops demo_session_libs 7 empty_ks = (Inr (Some 3), empty_ks)
   \<and> fst (list_sessions_for_wallet 2 paged_ops demo_session_libs (sl_addr demo_session_libs 7) empty_ks) \<noteq> Inr None"
proof -
  note t = session_scans_end [OF paged_ranked, where L = demo_session_libs and wallet = 7 and s = empty_ks and fuel = 2]
  have "get_active_session_count 2 paged_ops demo_session_libs 7 empty_ks
      = (Inr (Some (of_nat (length (concat [[''session:a:1'', ''session:a:2''], [''session:a:2'']])))), empty_ks)"
    by (rule t [THEN conjunct2, THEN conjunct2, THEN conjunct2, THEN conjunct1, THEN spec, THEN spec, THEN mp, OF _ paged_run]) simp
  moreover have "fst (list_sessions_for_wallet 2 paged_ops demo_session_libs (sl_addr demo_session_libs 7) empty_ks) \<noteq> Inr None"
    by (rule t [THEN conjunct2, THEN conjunct1]) simp
  ultimately show ?thesis by simp
qed

end
