(* ===== verification/Anomaly.thy ===== *)
theory Anomaly
  imports Common "HOL-Library.Sublist"
begin

text \<open>
  \<open>crates/anomaly-engine/src/lib.rs\<close>: five-trigger scoring of validation results. Rejection
  reasons are deduplicated by enum variant (\<open>std::mem::discriminant\<close>, here \<open>discriminant\<close>), high
  suspicions count one each. The engine's \<open>mpsc::Sender\<close> is the parameter \<open>try_send\<close> over a
  channel state.
\<close>

fun discriminant :: "invalid_reason \<Rightarrow> nat" where
  "discriminant MalformedProof = 0"
| "discriminant HashMismatch = 1"
| "discriminant TimingAnomaly = 2"
| "discriminant HashrateImpossible = 3"
| "discriminant DuplicateSession = 4"
| "discriminant ProofDeficit = 5"
| "discriminant StaleProof = 6"
| "discriminant InvalidSignature = 7"
| "discriminant (Other _) = 8"

fun retain_unseen :: "nat list \<Rightarrow> invalid_reason list \<Rightarrow> invalid_reason list" where
  "retain_unseen seen [] = []"
| "retain_unseen seen (reason # reasons) =
     (let d = discriminant reason
      in if d \<in> set seen then retain_unseen seen reasons
         else reason # retain_unseen (seen @ [d]) reasons)"

definition dedup_triggers :: "invalid_reason list \<Rightarrow> invalid_reason list" where
  "dedup_triggers triggers = retain_unseen [] triggers"

definition level_for :: "nat \<Rightarrow> suspicion_level" where
  "level_for total_signals =
     (if total_signals = 0 then Low else if total_signals = 1 then Medium else High)"

definition PER_SIGNAL_BPS :: u32 where "PER_SIGNAL_BPS = 2500"

definition MAX_ANOMALY_SCORE_BPS :: u32 where "MAX_ANOMALY_SCORE_BPS = 10000"

definition u32_try_from :: "nat \<Rightarrow> u32 option" where
  "u32_try_from n = (if n < 2 ^ 32 then Some (of_nat n) else None)"

definition anomaly_score_bps :: "nat \<Rightarrow> u32" where
  "anomaly_score_bps total_signals =
     min (saturating_mul (case u32_try_from total_signals of Some n \<Rightarrow> n | None \<Rightarrow> - 1)
            PER_SIGNAL_BPS)
       MAX_ANOMALY_SCORE_BPS"

record assessment =
  as_level :: suspicion_level
  as_score_bps :: u32

fun collect_signals ::
    "validation_result list \<Rightarrow> invalid_reason list \<times> nat \<Rightarrow> invalid_reason list \<times> nat" where
  "collect_signals [] acc = acc"
| "collect_signals (Invalid reason # results) (triggers, n) =
     collect_signals results (triggers @ [reason], n)"
| "collect_signals (Suspicious High # results) (triggers, n) =
     collect_signals results (triggers, n + 1)"
| "collect_signals (_ # results) (triggers, n) = collect_signals results (triggers, n)"

definition process ::
    "(anomaly_event \<Rightarrow> 'ch \<Rightarrow> ('err + unit) \<times> 'ch) \<Rightarrow> datetime \<Rightarrow> session_id \<Rightarrow> address
       \<Rightarrow> validation_result list \<Rightarrow> 'ch \<Rightarrow> assessment \<times> 'ch" where
  "process try_send now sid wallet results ch =
     (let (all_triggers, high_suspicion_count) = collect_signals results ([], 0);
          triggers = dedup_triggers all_triggers;
          total_signals = length triggers + high_suspicion_count;
          level = level_for total_signals;
          score_bps = anomaly_score_bps total_signals;
          event = \<lparr>ae_session_id = sid, ae_wallet = wallet, ae_score = score_bps,
                   ae_triggers = triggers, ae_level = level, ae_timestamp = now\<rparr>;
          (sent, ch') = try_send event ch
      in (\<lparr>as_level = level, as_score_bps = score_bps\<rparr>, ch'))"

fun should_slash_vote :: "suspicion_level \<Rightarrow> bool" where
  "should_slash_vote High = True"
| "should_slash_vote _ = False"

section \<open>Deduplication\<close>

lemma retain_unseen_tags:
  "set (map discriminant (retain_unseen seen rs)) = discriminant ` set rs - set seen"
  by (induction seen rs rule: retain_unseen.induct) (auto simp: Let_def)

lemma retain_unseen_distinct: "distinct (map discriminant (retain_unseen seen rs))"
proof (induction seen rs rule: retain_unseen.induct)
  case (2 seen r rs)
  have "discriminant r \<notin> set (map discriminant (retain_unseen (seen @ [discriminant r]) rs))"
    by (subst retain_unseen_tags) simp
  with 2 show ?case by (simp add: Let_def)
qed simp

lemma retain_unseen_subseq: "subseq (retain_unseen seen rs) rs"
  by (induction seen rs rule: retain_unseen.induct) (auto simp: Let_def)

lemma dedup_triggers_tags: "discriminant ` set (dedup_triggers rs) = discriminant ` set rs"
  using retain_unseen_tags [of "[]" rs] by (simp add: dedup_triggers_def)

lemma dedup_triggers_set: "set (dedup_triggers rs) \<subseteq> set rs"
  by (metis dedup_triggers_def in_set_subseqs retain_unseen_subseq subseqs_powset PowD imageI)

lemma length_dedup_triggers: "length (dedup_triggers rs) = card (discriminant ` set rs)"
proof -
  have "length (dedup_triggers rs) = card (set (map discriminant (dedup_triggers rs)))"
    using retain_unseen_distinct [of "[]" rs] distinct_card
    by (fastforce simp: dedup_triggers_def)
  then show ?thesis unfolding dedup_triggers_def retain_unseen_tags by simp
qed

section \<open>Signals\<close>

text \<open>
  What a list of results amounts to: one signal per distinct rejection variant in it, and one
  per high suspicion.
\<close>

definition signals :: "validation_result list \<Rightarrow> nat" where
  "signals results =
     card (discriminant ` {r. Invalid r \<in> set results}) + count_list results (Suspicious High)"

definition invalid_reasons :: "validation_result list \<Rightarrow> invalid_reason list" where
  "invalid_reasons results =
     concat (map (\<lambda>v. case v of Invalid r \<Rightarrow> [r] | _ \<Rightarrow> []) results)"

lemma set_invalid_reasons: "set (invalid_reasons results) = {r. Invalid r \<in> set results}"
  by (force simp: invalid_reasons_def split: validation_result.splits)

lemma collect_signals_spec:
  "collect_signals results (ts, n) =
     (ts @ invalid_reasons results, n + count_list results (Suspicious High))"
  by (induction results "(ts, n)" arbitrary: ts n rule: collect_signals.induct)
    (simp_all add: invalid_reasons_def)

lemma unat_anomaly_score: "unat (anomaly_score_bps n) = min (2500 * n) 10000"
  by (auto simp: anomaly_score_bps_def u32_try_from_def PER_SIGNAL_BPS_def
      MAX_ANOMALY_SCORE_BPS_def unat_min_word unat_saturating_mul unat_of_nat
      take_bit_nat_eq_self unat_max_word)

lemma process_assessment:
  "fst (process try_send now sid wallet results ch) =
     \<lparr>as_level = level_for (signals results), as_score_bps = anomaly_score_bps (signals results)\<rparr>"
  by (simp add: process_def collect_signals_spec length_dedup_triggers set_invalid_reasons signals_def
      split_beta Let_def)

lemma signals_mset: "mset rs = mset rs' \<Longrightarrow> signals rs = signals rs'"
  unfolding signals_def by (metis count_mset set_mset_mset)

lemma signals_single: "signals [r] \<le> 1"
proof -
  have "{x. r = Invalid x} = {} \<or> (\<exists>x. {x. r = Invalid x} = {x})" by (cases r) auto
  then show ?thesis by (cases r) (auto simp: signals_def)
qed

section \<open>Properties\<close>

text \<open>
  Deduplication keeps, in their order, one trigger per enum variant: the result is a
  subsequence of the input in which no variant repeats and every variant of the input occurs.
\<close>

lemma dedup_one_per_variant:
  "subseq (dedup_triggers rs) rs
     \<and> distinct (map discriminant (dedup_triggers rs))
     \<and> discriminant ` set (dedup_triggers rs) = discriminant ` set rs"
  using dedup_triggers_tags [of rs]
  by (simp add: dedup_triggers_def retain_unseen_subseq retain_unseen_distinct)

text \<open>
  The assessment depends only on the number of signals (distinct rejection variants plus high
  suspicions): the score is 2500 bps per signal capped at 10000, the level is Low, Medium or High
  for none, one or more signals, so High (a slash vote) is exactly a score of at least 5000. The
  order of the results and a full or closed event channel change nothing.
\<close>

theorem assessment_by_signals:
  fixes try_send :: "anomaly_event \<Rightarrow> 'ch \<Rightarrow> ('err + unit) \<times> 'ch"
    and try_send' :: "anomaly_event \<Rightarrow> 'ch2 \<Rightarrow> ('err2 + unit) \<times> 'ch2"
  assumes "mset results = mset results'"
    and a: "a = fst (process try_send now sid wallet results ch)"
  shows "unat (as_score_bps a) = min (2500 * signals results) 10000
     \<and> (should_slash_vote (as_level a) \<longleftrightarrow> 2 \<le> signals results)
     \<and> (should_slash_vote (as_level a) \<longleftrightarrow> 5000 \<le> unat (as_score_bps a))
     \<and> (as_level a = Low \<longleftrightarrow> as_score_bps a = 0)
     \<and> fst (process try_send' now' sid' wallet' results' ch') = a"
proof -
  have "signals results' = signals results" using assms(1) signals_mset by metis
  then show ?thesis
    by (auto simp: a process_assessment unat_anomaly_score level_for_def word_unat_eq_iff)
qed

theorem assessment_by_signals_witness:
  "mset [Invalid TimingAnomaly, Suspicious High] = mset [Suspicious High, Invalid TimingAnomaly]
   \<and> unat (as_score_bps (fst (process (\<lambda>e ch. (Inr (), e # ch)) 0 (SessionId ''s'') 0
        [Invalid TimingAnomaly, Suspicious High] ([] :: anomaly_event list)))) = 5000"
proof -
  have m: "mset [Invalid TimingAnomaly, Suspicious High]
      = mset [Suspicious High, Invalid TimingAnomaly]" by simp
  have s: "signals [Invalid TimingAnomaly, Suspicious High] = 2"
    by (simp add: signals_def)
  show ?thesis
    using m s conjunct1 [OF assessment_by_signals
        [OF m refl, of "\<lambda>e ch. (Inr (), e # ch)" 0 "SessionId ''s''" 0 "[]"]]
    by simp
qed

text \<open>
  What is published is what was assessed: exactly one event is offered to the channel, it
  carries the returned level and score, and its triggers are the deduplicated rejection reasons.
\<close>

lemma process_publishes_assessment:
  "\<exists>e. process try_send now sid wallet results ch
         = (\<lparr>as_level = ae_level e, as_score_bps = ae_score e\<rparr>, snd (try_send e ch))
     \<and> ae_session_id e = sid \<and> ae_wallet e = wallet \<and> ae_timestamp e = now
     \<and> distinct (map discriminant (ae_triggers e))
     \<and> set (ae_triggers e) \<subseteq> {r. Invalid r \<in> set results}
     \<and> discriminant ` set (ae_triggers e) = discriminant ` {r. Invalid r \<in> set results}"
proof -
  let ?ts = "invalid_reasons results"
  let ?n = "signals results"
  let ?e = "\<lparr>ae_session_id = sid, ae_wallet = wallet, ae_score = anomaly_score_bps ?n,
      ae_triggers = dedup_triggers ?ts, ae_level = level_for ?n, ae_timestamp = now\<rparr>"
  have "length (dedup_triggers ?ts) + count_list results (Suspicious High) = ?n"
    by (simp add: length_dedup_triggers set_invalid_reasons signals_def)
  then have "process try_send now sid wallet results ch
      = (\<lparr>as_level = ae_level ?e, as_score_bps = ae_score ?e\<rparr>, snd (try_send ?e ch))"
    by (simp add: process_def collect_signals_spec split_beta Let_def)
  moreover have "set (dedup_triggers ?ts) \<subseteq> {r. Invalid r \<in> set results}"
    using dedup_triggers_set [of ?ts] unfolding set_invalid_reasons .
  moreover have "discriminant ` set (dedup_triggers ?ts) = discriminant ` {r. Invalid r \<in> set results}"
    using dedup_triggers_tags [of ?ts] unfolding set_invalid_reasons .
  ultimately show ?thesis
    using retain_unseen_distinct [of "[]" ?ts]
    by (intro exI [of _ ?e]) (simp add: dedup_triggers_def)
qed

end
