(* ===== verification/RandomX.thy ===== *)
theory RandomX
  imports Prelude
begin

text \<open>
  \<open>crates/randomx-verifier/src/lib.rs\<close>: proof-of-work verification. The RandomX virtual machine
  itself (\<open>randomx_rs\<close>, a C library) is the parameter \<open>calculate_hash\<close>, which either fails with a
  message or returns the bytes of the hash; \<open>U256\<close> is a 256-bit word and \<open>U256::from_be_slice\<close>
  reads bytes most significant first.
\<close>

definition PHASE2_SEED :: string where
  "PHASE2_SEED = ''primora-phase2-randomx-seed''"

datatype randomx_error = CacheInit string | VmInit string | HashFailed string

definition be_nat :: "bytes \<Rightarrow> nat" where
  "be_nat bs = foldl (\<lambda>acc b. acc * 256 + unat b) 0 bs"

definition u256_from_be_slice :: "bytes \<Rightarrow> u256" where
  "u256_from_be_slice bs = of_nat (be_nat bs)"

fun randomx_error_display :: "randomx_error \<Rightarrow> string" where
  "randomx_error_display (CacheInit e) = ''randomx cache init failed: '' @ e"
| "randomx_error_display (VmInit e) = ''randomx vm init failed: '' @ e"
| "randomx_error_display (HashFailed e) = ''randomx hash failed: '' @ e"

text \<open>
  \<open>RandomXVerifier::new\<close>: the library's cache and VM constructors are parameters, and the
  verifier is what its VM's \<open>calculate_hash\<close> computes.
\<close>

type_synonym randomx_vm = "bytes \<Rightarrow> string + bytes"

definition randomx_new ::
    "(bytes \<Rightarrow> string + 'cache) \<Rightarrow> ('cache \<Rightarrow> string + randomx_vm) \<Rightarrow> bytes
       \<Rightarrow> randomx_error + randomx_vm" where
  "randomx_new cache_new vm_new key =
     (case cache_new key of
        Inl e \<Rightarrow> Inl (CacheInit e)
      | Inr cache \<Rightarrow> (case vm_new cache of Inl e \<Rightarrow> Inl (VmInit e) | Inr vm \<Rightarrow> Inr vm))"

definition hash_length_error :: "nat \<Rightarrow> string" where
  "hash_length_error n = ''unexpected hash length '' @ show_nat n"

definition randomx_hash :: "(bytes \<Rightarrow> string + bytes) \<Rightarrow> bytes \<Rightarrow> randomx_error + bytes" where
  "randomx_hash calculate_hash input =
     (case calculate_hash input of
        Inl e \<Rightarrow> Inl (HashFailed e)
      | Inr computed \<Rightarrow>
          if length computed \<noteq> 32 then Inl (HashFailed (hash_length_error (length computed)))
          else Inr computed)"

definition randomx_verify ::
    "(bytes \<Rightarrow> string + bytes) \<Rightarrow> bytes \<Rightarrow> bytes \<Rightarrow> u64 \<Rightarrow> randomx_error + bool" where
  "randomx_verify calculate_hash input expected_hash difficulty =
     (case randomx_hash calculate_hash input of
        Inl e \<Rightarrow> Inl e
      | Inr computed \<Rightarrow>
          if computed \<noteq> expected_hash then Inr False
          else let divisor = ucast (max difficulty 1) :: u256;
                   target = (- 1) div divisor;
                   hash_value = u256_from_be_slice computed
               in Inr (hash_value \<le> target))"

section \<open>Big-endian values\<close>

lemma be_nat_Nil [simp]: "be_nat [] = 0"
  by (simp add: be_nat_def)

lemma be_nat_snoc [simp]: "be_nat (bs @ [b]) = be_nat bs * 256 + unat b"
  by (simp add: be_nat_def)

lemma unat_u8_less: "unat (b :: u8) < 256"
  using unsigned_less [of b] by simp

lemma be_nat_less: "be_nat bs < 256 ^ length bs"
proof (induction bs rule: rev_induct)
  case (snoc b bs)
  have "be_nat bs * 256 + unat b < (be_nat bs + 1) * 256" using unat_u8_less [of b] by simp
  also have "\<dots> \<le> 256 ^ length bs * 256" using snoc by simp
  finally show ?case by simp
qed simp

lemma be_nat_inj: "length as = length bs \<Longrightarrow> be_nat as = be_nat bs \<Longrightarrow> as = bs"
proof (induction as arbitrary: bs rule: rev_induct)
  case (snoc a as)
  then obtain b bs' where bs: "bs = bs' @ [b]" "length bs' = length as"
    by (metis length_0_conv length_append_singleton nat.distinct(1) rev_exhaust old.nat.inject)
  have eq: "be_nat as * 256 + unat a = be_nat bs' * 256 + unat b"
    using snoc.prems(2) bs by simp
  have "be_nat as = be_nat bs'"
    using arg_cong [OF eq, of "\<lambda>n. n div 256"] unat_u8_less [of a] unat_u8_less [of b] by simp
  moreover from this have "a = b" using eq by (simp add: word_unat_eq_iff)
  ultimately show ?case using snoc.IH [of bs'] bs by simp
qed simp

lemma be_nat_surj: "n < 256 ^ k \<Longrightarrow> \<exists>bs. length bs = k \<and> be_nat bs = n"
proof (induction k arbitrary: n)
  case (Suc k)
  have "n div 256 < 256 ^ k" using Suc.prems by (simp add: less_mult_imp_div_less mult.commute)
  then obtain bs where bs: "length bs = k" "be_nat bs = n div 256" using Suc.IH by blast
  have "unat (of_nat (n mod 256) :: u8) = n mod 256"
    by (simp add: unat_of_nat take_bit_nat_eq_self)
  then have "be_nat (bs @ [of_nat (n mod 256)]) = n" using bs by simp
  then show ?case using bs by (metis length_append_singleton)
qed simp

lemma be_nat_image_atMost:
  assumes "t < 256 ^ k"
  shows "be_nat ` {h. length h = k \<and> be_nat h \<le> t} = {..t}"
proof (intro equalityI subsetI)
  fix n assume "n \<in> {..t}"
  then have "n < 256 ^ k" using assms by simp
  then obtain bs where "length bs = k" "be_nat bs = n" using be_nat_surj by blast
  with \<open>n \<in> {..t}\<close> show "n \<in> be_nat ` {h. length h = k \<and> be_nat h \<le> t}" by auto
qed auto

lemma unat_from_be_slice: "length bs = 32 \<Longrightarrow> unat (u256_from_be_slice bs) = be_nat bs"
  using be_nat_less [of bs]
  by (simp add: u256_from_be_slice_def unat_of_nat take_bit_nat_eq_self)

section \<open>Meeting a target\<close>

lemma less_u256_iff: "x < 2 ^ 256 \<longleftrightarrow> x \<le> (2 ^ 256 - 1 :: nat)"
  by auto

definition meets_target :: "bytes \<Rightarrow> u64 \<Rightarrow> bool" where
  "meets_target h difficulty \<longleftrightarrow> be_nat h * max (unat difficulty) 1 < 2 ^ 256"

lemma target_iff:
  assumes "length h = 32"
  shows "u256_from_be_slice h \<le> (- 1) div (ucast (max d 1 :: u64)) \<longleftrightarrow> meets_target h d"
proof -
  let ?d = "max (unat d) 1"
  have d: "unat (ucast (max d 1 :: u64) :: u256) = ?d"
    by (simp add: unat_ucast_up unat_max_of)
  have "u256_from_be_slice h \<le> (- 1) div (ucast (max d 1 :: u64))
      \<longleftrightarrow> be_nat h \<le> (2 ^ 256 - 1) div ?d"
    using assms d by (simp add: word_le_nat_alt unat_div_word unat_from_be_slice unat_max_word)
  also have "\<dots> \<longleftrightarrow> be_nat h * ?d \<le> 2 ^ 256 - 1"
    by (subst less_eq_div_iff_mult_less_eq) simp_all
  also have "\<dots> \<longleftrightarrow> meets_target h d"
    unfolding meets_target_def less_u256_iff ..
  finally show ?thesis .
qed

lemma randomx_verify_accepts:
  "randomx_verify vm input expected d = Inr True
     \<longleftrightarrow> vm input = Inr expected \<and> length expected = 32 \<and> meets_target expected d"
proof (cases "vm input")
  case (Inl e)
  then show ?thesis by (simp add: randomx_verify_def randomx_hash_def)
next
  case (Inr h)
  show ?thesis
    using Inr target_iff [of h d]
    by (auto simp: randomx_verify_def randomx_hash_def Let_def)
qed

section \<open>Properties\<close>

text \<open>
  Verification answers true exactly when the VM's own hash of the submitted input is the
  claimed hash and that hash, times the difficulty, stays below \<open>2 ^ 256\<close>. A difficulty of zero
  counts as one, a VM failure or a hash of the wrong length is an error and never an acceptance.
\<close>

theorem verify_accepts_iff:
  "randomx_verify vm input expected d = Inr True
     \<longleftrightarrow> vm input = Inr expected \<and> length expected = 32 \<and> meets_target expected d"
  by (rule randomx_verify_accepts)

text \<open>
  The difficulty is the expected work of a proof: of all 32-byte hashes, exactly
  \<open>(2 ^ 256 - 1) div difficulty + 1\<close> meet the target, and raising the difficulty only removes
  hashes from that set.
\<close>

theorem difficulty_is_expected_work:
  assumes "0 < d"
  shows "card {h. length h = 32 \<and> meets_target h d} = (2 ^ 256 - 1) div unat d + 1
    \<and> (d \<le> d' \<longrightarrow> {h. length h = 32 \<and> meets_target h d'} \<subseteq> {h. length h = 32 \<and> meets_target h d})"
proof -
  let ?T = "(2 ^ 256 - 1) div unat d"
  have pos: "0 < unat d" using assms by (simp add: word_less_nat_alt)
  then have m: "max (unat d) 1 = unat d" by simp
  have mt: "meets_target h d \<longleftrightarrow> be_nat h \<le> ?T" for h
  proof -
    have "be_nat h \<le> ?T \<longleftrightarrow> be_nat h * unat d \<le> 2 ^ 256 - 1"
      using pos by (subst less_eq_div_iff_mult_less_eq) simp_all
    then show ?thesis unfolding meets_target_def m less_u256_iff ..
  qed
  have "?T \<le> 2 ^ 256 - 1" by (rule div_le_dividend)
  then have "?T < 256 ^ 32" by (rule le_less_trans) simp
  then have img: "be_nat ` {h. length h = 32 \<and> meets_target h d} = {..?T}"
    unfolding mt by (rule be_nat_image_atMost)
  moreover have "inj_on be_nat {h. length h = 32 \<and> meets_target h d}"
    by (rule inj_onI) (auto intro: be_nat_inj)
  ultimately have "card {h. length h = 32 \<and> meets_target h d} = ?T + 1"
    using card_image [of be_nat "{h. length h = 32 \<and> meets_target h d}"] by simp
  moreover have "meets_target h d" if "meets_target h d'" "d \<le> d'" for h
    using that unfolding meets_target_def word_le_nat_alt
    by (meson le_less_trans max.mono mult_le_mono2 order_refl)
  ultimately show ?thesis by blast
qed

theorem difficulty_is_expected_work_witness:
  "(0::u64) < 2 \<and> card {h. length h = 32 \<and> meets_target h 2} = 2 ^ 255"
  using difficulty_is_expected_work [of 2 2] by simp

end
