(* ===== verification/Node_Server.thy ===== *)
theory Node_Server
  imports Proof_Validator RandomX
begin

text \<open>
  \<open>crates/node-server/src/lib.rs\<close>: the gRPC service of a mining node. The messages of
  \<open>proto/\<close> that the Rust code builds and reads are records; a request carries its metadata as a map.
  The node's key and the signing function are parameters, and the dedicated verifier thread is
  modelled by its effect on a job: it may be gone, it may drop the reply, and otherwise it replies
  with what \<open>randomx_verify\<close> computes.
\<close>

section \<open>Messages\<close>

record proto_timestamp =
  ts_seconds :: int
  ts_nanos :: int

record attestation_request =
  rq_session_id :: string
  rq_wallet :: string
  rq_commodity :: string
  rq_proof_hash :: "bytes option"
  rq_requesting_node_id :: string
  rq_requested_at :: "proto_timestamp option"
  rq_proof_input :: bytes
  rq_difficulty :: u64

record proto_node_signature =
  pn_node_id :: string
  pn_signature :: bytes
  pn_signed_at :: "proto_timestamp option"

record attestation_response =
  rs_session_id :: string
  rs_valid :: bool
  rs_signature :: "proto_node_signature option"

record ack_response =
  ack_accepted :: bool
  ack_reason :: string

type_synonym metadata = "string \<Rightarrow> string option"

datatype status = Unauthenticated string | Internal string | OtherStatus string

fun status_message :: "status \<Rightarrow> string" where
  "status_message (Unauthenticated m) = m"
| "status_message (Internal m) = m"
| "status_message (OtherStatus m) = m"

definition API_KEY_HEADER :: string where "API_KEY_HEADER = ''x-api-key''"

definition DEFAULT_NODE_ID :: string where "DEFAULT_NODE_ID = ''node-unknown''"

section \<open>The verifier thread\<close>

record verify_job =
  vj_input :: bytes
  vj_expected :: bytes
  vj_difficulty :: u64

text \<open>What can become of a job: the send fails, the reply is dropped, or it is answered.\<close>

datatype job_fate = ThreadGone | ReplyDropped | Answered

datatype job_outcome = SendFailed | ReplyLost | Replied "randomx_error + bool"

definition run_job :: "randomx_vm \<Rightarrow> verify_job \<Rightarrow> randomx_error + bool" where
  "run_job vm job = randomx_verify vm (vj_input job) (vj_expected job) (vj_difficulty job)"

fun verify_on_thread :: "randomx_vm \<Rightarrow> job_fate \<Rightarrow> verify_job \<Rightarrow> job_outcome" where
  "verify_on_thread vm ThreadGone job = SendFailed"
| "verify_on_thread vm ReplyDropped job = ReplyLost"
| "verify_on_thread vm Answered job = Replied (run_job vm job)"

text \<open>
  \<open>spawn_verifier\<close>: the thread reports its initialisation once; \<open>init_lost\<close> is the receive error
  when it dies before that.
\<close>

definition spawn_verifier ::
    "(bytes \<Rightarrow> string + 'cache) \<Rightarrow> ('cache \<Rightarrow> string + randomx_vm) \<Rightarrow> string option \<Rightarrow> bytes
       \<Rightarrow> randomx_error + randomx_vm" where
  "spawn_verifier cache_new vm_new init_lost seed =
     (case init_lost of
        Some e \<Rightarrow> Inl (VmInit e)
      | None \<Rightarrow> randomx_new cache_new vm_new seed)"

section \<open>The service\<close>

record 'sk node_service =
  sv_api_key :: string
  sv_signer :: 'sk
  sv_verifier :: randomx_vm

definition new_service ::
    "(bytes \<Rightarrow> string + 'cache) \<Rightarrow> ('cache \<Rightarrow> string + randomx_vm) \<Rightarrow> string option \<Rightarrow> string
       \<Rightarrow> 'sk \<Rightarrow> randomx_error + 'sk node_service" where
  "new_service cache_new vm_new init_lost api_key signer =
     (case spawn_verifier cache_new vm_new init_lost (map of_char PHASE2_SEED) of
        Inl e \<Rightarrow> Inl e
      | Inr vm \<Rightarrow> Inr \<lparr>sv_api_key = api_key, sv_signer = signer, sv_verifier = vm\<rparr>)"

text \<open>\<open>to_str\<close> is the metadata library's reading of a header value as visible ASCII.\<close>

definition authenticate ::
    "(string \<Rightarrow> string option) \<Rightarrow> 'sk node_service \<Rightarrow> metadata \<Rightarrow> status + unit" where
  "authenticate to_str sv md =
     (case Option.bind (md API_KEY_HEADER) to_str of
        Some key \<Rightarrow> if key = sv_api_key sv then Inr () else Inl (Unauthenticated ''invalid api key'')
      | None \<Rightarrow> Inl (Unauthenticated ''invalid api key''))"

definition proof_hash_bytes :: "bytes \<Rightarrow> bytes" where
  "proof_hash_bytes value = take 32 value @ replicate (32 - min (length value) 32) 0"

definition submit_proof_metadata ::
    "(string \<Rightarrow> string option) \<Rightarrow> 'sk node_service \<Rightarrow> metadata \<Rightarrow> status + ack_response" where
  "submit_proof_metadata to_str sv md =
     (case authenticate to_str sv md of
        Inl e \<Rightarrow> Inl e
      | Inr _ \<Rightarrow> Inr \<lparr>ack_accepted = True, ack_reason = ''ok''\<rparr>)"

definition session_ended ::
    "(string \<Rightarrow> string option) \<Rightarrow> 'sk node_service \<Rightarrow> metadata \<Rightarrow> status + ack_response" where
  "session_ended to_str sv md =
     (case authenticate to_str sv md of
        Inl e \<Rightarrow> Inl e
      | Inr _ \<Rightarrow> Inr \<lparr>ack_accepted = True, ack_reason = ''ok''\<rparr>)"

definition invalid_response :: "string \<Rightarrow> attestation_response" where
  "invalid_response session_id =
     \<lparr>rs_session_id = session_id, rs_valid = False, rs_signature = None\<rparr>"

definition attestation_proof :: "datetime \<Rightarrow> attestation_request \<Rightarrow> bytes \<Rightarrow> partial_proof" where
  "attestation_proof now rq proof_hash =
     \<lparr>pp_session_id = SessionId (rq_session_id rq), pp_wallet = 0, pp_sequence = 0,
      pp_hashrate = 0, pp_proof_hash = proof_hash, pp_proof_input = rq_proof_input rq,
      pp_difficulty = rq_difficulty rq, pp_submitted_at = now, pp_signature = None\<rparr>"

definition attestation_ctx :: "datetime \<Rightarrow> session_context" where
  "attestation_ctx now =
     \<lparr>sc_wallet = 0, sc_ip = None, sc_client_type = Desktop, sc_active_sessions_count = 1,
      sc_started_at = now, sc_last_submission_at = None, sc_assigned_node_id = None,
      sc_commodity = Gold, sc_target_chain = Ethereum, sc_cpu_threads = 0,
      sc_assigned_site = None\<rparr>"

definition prefilter_ok :: "datetime \<Rightarrow> attestation_request \<Rightarrow> bytes \<Rightarrow> bool" where
  "prefilter_ok now rq proof_hash =
     (case validator PreFilter (attestation_proof now rq proof_hash) PreFilter (attestation_ctx now) of
        Invalid reason \<Rightarrow> False
      | Suspicious l \<Rightarrow> True
      | Valid \<Rightarrow> True)"

definition timestamp_of :: "datetime \<Rightarrow> proto_timestamp" where
  "timestamp_of now = \<lparr>ts_seconds = now div nanos_per_sec, ts_nanos = now mod nanos_per_sec\<rparr>"

definition sign_response ::
    "('sk \<Rightarrow> bytes \<Rightarrow> string + signature) \<Rightarrow> (signature \<Rightarrow> bytes) \<Rightarrow> string option \<Rightarrow> datetime
       \<Rightarrow> 'sk node_service \<Rightarrow> attestation_request \<Rightarrow> bytes \<Rightarrow> status + attestation_response" where
  "sign_response sign as_bytes node_id_env now sv rq proof_hash =
     (case sign (sv_signer sv) proof_hash of
        Inl e \<Rightarrow> Inl (Internal ''attestation signing failed'')
      | Inr signature \<Rightarrow>
          Inr \<lparr>rs_session_id = rq_session_id rq, rs_valid = True,
               rs_signature = Some
                 \<lparr>pn_node_id = (case node_id_env of Some n \<Rightarrow> n | None \<Rightarrow> DEFAULT_NODE_ID),
                  pn_signature = as_bytes signature,
                  pn_signed_at = Some (timestamp_of now)\<rparr>\<rparr>)"

definition request_attestation ::
    "(string \<Rightarrow> string option) \<Rightarrow> ('sk \<Rightarrow> bytes \<Rightarrow> string + signature) \<Rightarrow> (signature \<Rightarrow> bytes)
       \<Rightarrow> string option \<Rightarrow> datetime \<Rightarrow> job_fate \<Rightarrow> 'sk node_service \<Rightarrow> metadata
       \<Rightarrow> attestation_request \<Rightarrow> status + attestation_response" where
  "request_attestation to_str sign as_bytes node_id_env now fate sv md rq =
     (case authenticate to_str sv md of
        Inl e \<Rightarrow> Inl e
      | Inr _ \<Rightarrow>
        (case rq_proof_hash rq of
           None \<Rightarrow> Inr (invalid_response (rq_session_id rq))
         | Some value \<Rightarrow>
           (let proof_hash = proof_hash_bytes value in
            if \<not> prefilter_ok now rq proof_hash then Inr (invalid_response (rq_session_id rq))
            else
             (case verify_on_thread (sv_verifier sv) fate
                     \<lparr>vj_input = rq_proof_input rq, vj_expected = proof_hash,
                      vj_difficulty = rq_difficulty rq\<rparr> of
                SendFailed \<Rightarrow> Inl (Internal ''randomx verifier unavailable'')
              | ReplyLost \<Rightarrow> Inl (Internal ''randomx verifier dropped reply'')
              | Replied (Inr True) \<Rightarrow>
                  sign_response sign as_bytes node_id_env now sv rq proof_hash
              | Replied (Inr False) \<Rightarrow> Inr (invalid_response (rq_session_id rq))
              | Replied (Inl e) \<Rightarrow> Inr (invalid_response (rq_session_id rq))))))"

section \<open>Lemmas\<close>

lemma length_proof_hash_bytes [simp]: "length (proof_hash_bytes v) = 32"
  by (simp add: proof_hash_bytes_def)

lemma proof_hash_bytes_id [simp]: "length v = 32 \<Longrightarrow> proof_hash_bytes v = v"
  by (simp add: proof_hash_bytes_def)

lemma prefilter_ok_always: "prefilter_ok now rq h"
  by (simp add: prefilter_ok_def prefilter_validate_def prefilter_checks_def attestation_proof_def
      attestation_ctx_def validator_consts)

lemma authenticate_ok_iff:
  "authenticate to_str sv md = Inr u \<longleftrightarrow> Option.bind (md API_KEY_HEADER) to_str = Some (sv_api_key sv)"
  by (auto simp: authenticate_def split: option.splits if_splits)

lemma request_attestation_eq:
  assumes "authenticate to_str sv md = Inr ()" and "rq_proof_hash rq = Some v"
  shows "request_attestation to_str sign as_bytes node_id_env now Answered sv md rq =
    (if randomx_verify (sv_verifier sv) (rq_proof_input rq) (proof_hash_bytes v) (rq_difficulty rq) = Inr True
     then sign_response sign as_bytes node_id_env now sv rq (proof_hash_bytes v)
     else Inr (invalid_response (rq_session_id rq)))"
  using assms
  by (auto simp: request_attestation_def prefilter_ok_always run_job_def Let_def
      split: sum.splits bool.splits)


lemma request_attestation_valid_iff:
  "request_attestation to_str sign as_bytes node_id_env now fate sv md rq = Inr resp \<and> rs_valid resp
     \<longleftrightarrow> (\<exists>v sig.
          Option.bind (md API_KEY_HEADER) to_str = Some (sv_api_key sv)
          \<and> rq_proof_hash rq = Some v \<and> fate = Answered
          \<and> sv_verifier sv (rq_proof_input rq) = Inr (proof_hash_bytes v)
          \<and> meets_target (proof_hash_bytes v) (rq_difficulty rq)
          \<and> sign (sv_signer sv) (proof_hash_bytes v) = Inr sig
          \<and> resp = \<lparr>rs_session_id = rq_session_id rq, rs_valid = True,
                    rs_signature = Some
                      \<lparr>pn_node_id = (case node_id_env of Some n \<Rightarrow> n | None \<Rightarrow> ''node-unknown''),
                       pn_signature = as_bytes sig, pn_signed_at = Some (timestamp_of now)\<rparr>\<rparr>)"
proof (cases "authenticate to_str sv md = Inr () \<and> rq_proof_hash rq \<noteq> None \<and> fate = Answered")
  case True
  then obtain v where "rq_proof_hash rq = Some v" by blast
  with True show ?thesis
    by (cases node_id_env)
       (auto simp: request_attestation_eq randomx_verify_accepts authenticate_ok_iff
        sign_response_def invalid_response_def DEFAULT_NODE_ID_def split: sum.splits)
next
  case False
  then show ?thesis
    using authenticate_ok_iff [of to_str sv md "()"]
    by (cases fate)
       (auto simp: request_attestation_def prefilter_ok_always invalid_response_def Let_def
        split: sum.splits option.splits)
qed

lemma request_attestation_valid:
  assumes "request_attestation to_str sign as_bytes node_id_env now fate sv md rq = Inr resp"
    and "rs_valid resp"
  shows "\<exists>v. rq_proof_hash rq = Some v
    \<and> sv_verifier sv (rq_proof_input rq) = Inr (proof_hash_bytes v)
    \<and> meets_target (proof_hash_bytes v) (rq_difficulty rq)"
  using request_attestation_valid_iff [THEN iffD1, OF conjI [OF assms]] by blast

section \<open>Properties\<close>

text \<open>
  C23: a node vouches only for work it has checked itself. It returns a valid attestation exactly
  when the caller presented the node's API key, the request names a proof hash, the verifier
  thread recomputed the RandomX hash of the submitted input to that hash and found it under the
  claimed difficulty's target, and the node's own key signed that hash; the signature sent is that
  one. In every other case the response is invalid without a signature, or an error.
\<close>

theorem node_signs_only_checked_work:
  "request_attestation to_str sign as_bytes node_id_env now fate sv md rq = Inr resp \<and> rs_valid resp
     \<longleftrightarrow> (\<exists>v sig.
          Option.bind (md API_KEY_HEADER) to_str = Some (sv_api_key sv)
          \<and> rq_proof_hash rq = Some v \<and> fate = Answered
          \<and> sv_verifier sv (rq_proof_input rq) = Inr (proof_hash_bytes v)
          \<and> meets_target (proof_hash_bytes v) (rq_difficulty rq)
          \<and> sign (sv_signer sv) (proof_hash_bytes v) = Inr sig
          \<and> resp = \<lparr>rs_session_id = rq_session_id rq, rs_valid = True,
                    rs_signature = Some
                      \<lparr>pn_node_id = (case node_id_env of Some n \<Rightarrow> n | None \<Rightarrow> ''node-unknown''),
                       pn_signature = as_bytes sig, pn_signed_at = Some (timestamp_of now)\<rparr>\<rparr>)"
  by (rule request_attestation_valid_iff)

end
