(* ===== verification/Node_Coordinator.thy ===== *)
theory Node_Coordinator
  imports Common
begin

text \<open>
  \<open>crates/node-coordinator/src/lib.rs\<close>: the 3-of-4 attestation round. A node client is a
  parameter of the coordinator (the trait \<open>NodeClient\<close>); a call of it runs under
  \<open>tokio::time::timeout\<close>, so it yields nothing when the timer fires first, and otherwise what the
  node answered. Calls are awaited one after the other, so the state \<open>'w\<close> of the outside world is
  threaded through them. SHA-256 and the recovery of a signer from a signature are parameters.
\<close>

section \<open>Selection\<close>

definition REQUIRED_SIGNATURES :: nat where "REQUIRED_SIGNATURES = 3"

definition ATTESTATION_TIMEOUT_SECS :: nat where "ATTESTATION_TIMEOUT_SECS = 15"

definition ATTESTATION_NODE_COUNT :: nat where "ATTESTATION_NODE_COUNT = 4"

datatype node_coordinator_error =
    InsufficientAttestations (ia_got: nat) (ia_required: nat)
  | AttestationTimeout node_id
  | OnchainError string
  | NodeError string

fun nc_error_display :: "node_coordinator_error \<Rightarrow> string" where
  "nc_error_display (InsufficientAttestations got required) =
     ''insufficient attestations: got '' @ show_nat got @ '', required '' @ show_nat required"
| "nc_error_display (AttestationTimeout n) = ''attestation timeout from node '' @ nid_str n"
| "nc_error_display (OnchainError msg) = ''onchain error: '' @ msg"
| "nc_error_display (NodeError msg) = ''node error: '' @ msg"

text \<open>
  \<open>request_attestation target assigned proofs\<close>: the outcome is \<open>None\<close> when the timer of the given
  number of seconds fires first.
\<close>

type_synonym 'w node_client =
  "nat \<Rightarrow> node_id \<Rightarrow> node_id \<Rightarrow> partial_proof list \<Rightarrow> 'w
     \<Rightarrow> (node_coordinator_error + node_signature) option \<times> 'w"

definition hash_proofs :: "(bytes \<Rightarrow> bytes) \<Rightarrow> partial_proof list \<Rightarrow> bytes" where
  "hash_proofs sha256 proof_set = sha256 (concat (map pp_proof_hash proof_set))"

record 'w node_coordinator =
  nc_clients :: "node_id \<Rightarrow> 'w node_client option"
  nc_eligible_nodes :: "node_id list"
  nc_signers :: "node_id \<Rightarrow> address option"
  nc_required_signatures :: nat
  nc_attestation_timeout_secs :: nat

definition new_coordinator ::
    "(node_id \<Rightarrow> 'w node_client option) \<Rightarrow> node_id list \<Rightarrow> (node_id \<Rightarrow> address option)
       \<Rightarrow> 'w node_coordinator" where
  "new_coordinator clients eligible signers =
     \<lparr>nc_clients = clients, nc_eligible_nodes = eligible, nc_signers = signers,
      nc_required_signatures = REQUIRED_SIGNATURES,
      nc_attestation_timeout_secs = ATTESTATION_TIMEOUT_SECS\<rparr>"

definition swap :: "'a list \<Rightarrow> nat \<Rightarrow> nat \<Rightarrow> 'a list" where
  "swap xs i j = xs[i := xs ! j, j := xs ! i]"

definition swap_index :: "bytes \<Rightarrow> nat \<Rightarrow> nat" where
  "swap_index seed i = unat (ucast (seed ! (i mod 32)) :: u64) mod (i + 1)"

definition shuffle_pool :: "bytes \<Rightarrow> 'a list \<Rightarrow> 'a list" where
  "shuffle_pool seed pool =
     fold (\<lambda>i p. swap p i (swap_index seed i)) (rev [1..<length pool]) pool"

definition select_nodes :: "'w node_coordinator \<Rightarrow> bytes \<Rightarrow> node_id option \<Rightarrow> node_id list" where
  "select_nodes c seed exclude =
     take (ATTESTATION_NODE_COUNT - 1)
       (shuffle_pool seed (filter (\<lambda>n. exclude \<noteq> Some n) (nc_eligible_nodes c)))"

section \<open>Requests and assembly\<close>

definition try_request ::
    "'w node_coordinator \<Rightarrow> node_id \<Rightarrow> node_id \<Rightarrow> partial_proof list \<Rightarrow> nat \<Rightarrow> 'w
       \<Rightarrow> node_signature option \<times> 'w" where
  "try_request c target assigned proof_set timeout w =
     (case nc_clients c target of
        None \<Rightarrow> (None, w)
      | Some request_attestation \<Rightarrow>
          (case request_attestation timeout target assigned proof_set w of
             (Some (Inr signature), w') \<Rightarrow> (Some signature, w')
           | (_, w') \<Rightarrow> (None, w')))"

record attest_acc =
  aa_signatures :: "node_signature list"
  aa_node_ids :: "node_id list"
  aa_signers :: "address list"
  aa_seen :: "address set"

definition empty_acc :: attest_acc where
  "empty_acc = \<lparr>aa_signatures = [], aa_node_ids = [], aa_signers = [], aa_seen = {}\<rparr>"

text \<open>
  The body of the collection loop after the request: every \<open>continue\<close> leaves the accumulator as it
  was.
\<close>

definition count_signature ::
    "'w node_coordinator \<Rightarrow> (signature \<Rightarrow> bytes \<Rightarrow> string + address) \<Rightarrow> bytes option
       \<Rightarrow> node_id \<Rightarrow> node_signature option \<Rightarrow> attest_acc \<Rightarrow> attest_acc" where
  "count_signature c recover signed_message target reply acc =
     (case reply of None \<Rightarrow> acc | Some node_sig \<Rightarrow>
      (case signed_message of None \<Rightarrow> acc | Some message \<Rightarrow>
       (case nc_signers c target of None \<Rightarrow> acc | Some expected \<Rightarrow>
        (case recover (ns_signature node_sig) message of Inl e \<Rightarrow> acc | Inr recovered \<Rightarrow>
          if recovered \<noteq> expected then acc
          else if recovered \<in> aa_seen acc then acc
          else \<lparr>aa_signatures = aa_signatures acc @ [node_sig],
                aa_node_ids = aa_node_ids acc @ [target],
                aa_signers = aa_signers acc @ [recovered],
                aa_seen = insert recovered (aa_seen acc)\<rparr>))))"

fun collect_signatures ::
    "'w node_coordinator \<Rightarrow> (signature \<Rightarrow> bytes \<Rightarrow> string + address) \<Rightarrow> node_id
       \<Rightarrow> partial_proof list \<Rightarrow> nat \<Rightarrow> bytes option \<Rightarrow> node_id list \<Rightarrow> attest_acc \<Rightarrow> 'w
       \<Rightarrow> attest_acc \<times> 'w" where
  "collect_signatures c recover assigned proof_set timeout msg [] acc w = (acc, w)"
| "collect_signatures c recover assigned proof_set timeout msg (target # targets) acc w =
     (case try_request c target assigned proof_set timeout w of (reply, w') \<Rightarrow>
        collect_signatures c recover assigned proof_set timeout msg targets
          (count_signature c recover msg target reply acc) w')"

definition first_hash :: "partial_proof list \<Rightarrow> bytes option" where
  "first_hash proof_set = (case proof_set of [] \<Rightarrow> None | p # _ \<Rightarrow> Some (pp_proof_hash p))"

definition attest_targets :: "'w node_coordinator \<Rightarrow> bytes \<Rightarrow> node_id \<Rightarrow> node_id list" where
  "attest_targets c seed assigned = assigned # select_nodes c seed (Some assigned)"

definition coordinate_attestation ::
    "'w node_coordinator \<Rightarrow> (signature \<Rightarrow> bytes \<Rightarrow> string + address) \<Rightarrow> (bytes \<Rightarrow> bytes)
       \<Rightarrow> datetime \<Rightarrow> session_id \<Rightarrow> partial_proof list \<Rightarrow> bytes \<Rightarrow> node_id \<Rightarrow> 'w
       \<Rightarrow> (node_coordinator_error + attestation_result) \<times> 'w" where
  "coordinate_attestation c recover sha256 now session_id proof_set seed assigned w =
     (case collect_signatures c recover assigned proof_set (nc_attestation_timeout_secs c)
             (first_hash proof_set) (attest_targets c seed assigned) empty_acc w of
        (acc, w') \<Rightarrow>
          let result = \<lparr>ar_session_id = session_id, ar_signatures = aa_signatures acc,
                        ar_node_ids = aa_node_ids acc, ar_signers = aa_signers acc,
                        ar_proof_hash = hash_proofs sha256 proof_set, ar_timestamp = now\<rparr>
          in if is_sufficient result then (Inr result, w')
             else (Inl (InsufficientAttestations (length (ar_signatures result))
                          (nc_required_signatures c)), w'))"

section \<open>The shuffle permutes\<close>

lemma length_swap [simp]: "length (swap xs i j) = length xs"
  by (simp add: swap_def)

lemma mset_swap_index: "i < length xs \<Longrightarrow> j < length xs \<Longrightarrow> mset (swap xs i j) = mset xs"
  by (simp add: swap_def mset_swap)

lemma swap_index_le: "swap_index seed i \<le> i"
  unfolding swap_index_def by (simp add: less_Suc_eq_le [symmetric])

lemma mset_fold_swap:
  "\<forall>i \<in> set is. i < length xs
     \<Longrightarrow> mset (fold (\<lambda>i p. swap p i (swap_index seed i)) is xs) = mset xs"
proof (induction "is" arbitrary: xs)
  case (Cons i "is")
  then have "swap_index seed i < length xs"
    using swap_index_le [of seed i] by (auto intro: le_less_trans)
  with Cons show ?case by (simp add: mset_swap_index)
qed simp

lemma mset_shuffle_pool [simp]: "mset (shuffle_pool seed xs) = mset xs"
  unfolding shuffle_pool_def by (rule mset_fold_swap) auto

lemma length_shuffle_pool [simp]: "length (shuffle_pool seed xs) = length xs"
  by (metis mset_shuffle_pool size_mset)

lemma mset_take_subset: "mset (take n xs) \<subseteq># mset xs"
  by (metis append_take_drop_id mset_append mset_subset_eq_add_left)

section \<open>The collection loop\<close>

text \<open>
  What the round asks for and gets back, in order: the replies of a list of targets, each request
  made in the world the one before it left.
\<close>

fun replies ::
    "'w node_coordinator \<Rightarrow> node_id \<Rightarrow> partial_proof list \<Rightarrow> nat \<Rightarrow> node_id list \<Rightarrow> 'w
       \<Rightarrow> (node_id \<times> node_signature option) list" where
  "replies c assigned proof_set timeout [] w = []"
| "replies c assigned proof_set timeout (t # ts) w =
     (case try_request c t assigned proof_set timeout w of (r, w') \<Rightarrow>
        (t, r) # replies c assigned proof_set timeout ts w')"

text \<open>
  A reply is genuine for an address when the node's registered signing address is that address
  and the signature recovers to it over the first proof's hash.
\<close>

definition genuine ::
    "'w node_coordinator \<Rightarrow> (signature \<Rightarrow> bytes \<Rightarrow> string + address) \<Rightarrow> bytes option
       \<Rightarrow> node_id \<times> node_signature option \<Rightarrow> address \<Rightarrow> bool" where
  "genuine c recover msg reply a \<longleftrightarrow>
     (\<exists>m s. msg = Some m \<and> snd reply = Some s \<and> nc_signers c (fst reply) = Some a
        \<and> recover (ns_signature s) m = Inr a)"

lemma collect_is_fold:
  "fst (collect_signatures c recover assigned proof_set timeout msg ts acc w)
     = fold (\<lambda>(t, r). count_signature c recover msg t r)
         (replies c assigned proof_set timeout ts w) acc"
  by (induction ts arbitrary: acc w) (auto split: prod.splits)

text \<open>The invariant of the accumulator after the replies \<open>done\<close>.\<close>

definition acc_inv ::
    "'w node_coordinator \<Rightarrow> (signature \<Rightarrow> bytes \<Rightarrow> string + address) \<Rightarrow> bytes option
       \<Rightarrow> (node_id \<times> node_signature option) list \<Rightarrow> attest_acc \<Rightarrow> bool" where
  "acc_inv c recover msg done acc \<longleftrightarrow>
     length (aa_signatures acc) = length (aa_signers acc)
     \<and> length (aa_node_ids acc) = length (aa_signers acc)
     \<and> distinct (aa_signers acc)
     \<and> aa_seen acc = set (aa_signers acc)
     \<and> set (aa_signers acc) = {a. \<exists>r \<in> set done. genuine c recover msg r a}
     \<and> (\<forall>i < length (aa_signers acc).
          (aa_node_ids acc ! i, Some (aa_signatures acc ! i)) \<in> set done
          \<and> genuine c recover msg (aa_node_ids acc ! i, Some (aa_signatures acc ! i))
              (aa_signers acc ! i))"

lemma genuine_None [simp]: "\<not> genuine c recover msg (t, None) a" "\<not> genuine c recover None r a"
  by (simp_all add: genuine_def)

lemma count_signature_cases:
  obtains (skip) "count_signature c recover msg t r acc = acc"
      "\<And>a. genuine c recover msg (t, r) a \<Longrightarrow> a \<in> aa_seen acc"
  | (count) s a where "r = Some s" "genuine c recover msg (t, r) a" "a \<notin> aa_seen acc"
      "\<And>b. genuine c recover msg (t, r) b \<Longrightarrow> b = a"
      "count_signature c recover msg t r acc =
         \<lparr>aa_signatures = aa_signatures acc @ [s], aa_node_ids = aa_node_ids acc @ [t],
          aa_signers = aa_signers acc @ [a], aa_seen = insert a (aa_seen acc)\<rparr>"
proof (cases "\<exists>a. genuine c recover msg (t, r) a \<and> a \<notin> aa_seen acc")
  case True
  then obtain a m s where *: "msg = Some m" "r = Some s" "nc_signers c t = Some a"
      "recover (ns_signature s) m = Inr a" "a \<notin> aa_seen acc"
    by (auto simp: genuine_def)
  show ?thesis
    by (rule count [of s a]) (use * in \<open>auto simp: genuine_def count_signature_def\<close>)
next
  case False
  show ?thesis
  proof (rule skip)
    show "count_signature c recover msg t r acc = acc"
      using False by (auto simp: genuine_def count_signature_def split: option.splits sum.splits)
  qed (use False in blast)
qed

lemma acc_inv_step:
  assumes inv: "acc_inv c recover msg done acc"
  shows "acc_inv c recover msg (done @ [(t, r)]) (count_signature c recover msg t r acc)"
proof (cases rule: count_signature_cases [of c recover msg t r acc])
  case skip
  then show ?thesis using inv unfolding acc_inv_def by auto
next
  case (count s a)
  have gen: "genuine c recover msg (t, r) b \<longleftrightarrow> b = a" for b using count by blast
  show ?thesis
    using inv count(1,3) unfolding acc_inv_def count(5)
    by (auto simp: gen [unfolded count(1)] nth_append less_Suc_eq)
qed

lemma acc_inv_fold:
  "acc_inv c recover msg done acc
     \<Longrightarrow> acc_inv c recover msg (done @ rs) (fold (\<lambda>(t, r). count_signature c recover msg t r) rs acc)"
proof (induction rs arbitrary: "done" acc)
  case (Cons tr rs)
  obtain t r where tr: "tr = (t, r)" by (cases tr)
  have "acc_inv c recover msg ((done @ [tr]) @ rs)
          (fold (\<lambda>(t, r). count_signature c recover msg t r) rs (count_signature c recover msg t r acc))"
    using acc_inv_step [OF Cons.prems, of t r] Cons.IH tr by blast
  then show ?case by (simp add: tr)
qed simp

lemma acc_inv_empty: "acc_inv c recover msg [] empty_acc"
  by (simp add: acc_inv_def empty_acc_def)

lemma collect_inv:
  "acc_inv c recover msg (replies c assigned proof_set timeout ts w)
     (fst (collect_signatures c recover assigned proof_set timeout msg ts empty_acc w))"
  unfolding collect_is_fold using acc_inv_fold [OF acc_inv_empty] by fastforce

lemma map_fst_replies: "map fst (replies c assigned proof_set timeout ts w) = ts"
  by (induction ts arbitrary: w) (auto split: prod.splits)

lemma genuine_unique: "genuine c recover msg r a \<Longrightarrow> genuine c recover msg r b \<Longrightarrow> a = b"
  by (auto simp: genuine_def)

lemma card_genuine_le:
  "card {a. \<exists>r \<in> set rs. genuine c recover msg r a} \<le> length rs"
proof -
  have "{a. \<exists>r \<in> set rs. genuine c recover msg r a} \<subseteq> (\<lambda>r. THE a. genuine c recover msg r a) ` set rs"
  proof
    fix a assume "a \<in> {a. \<exists>r \<in> set rs. genuine c recover msg r a}"
    then obtain r where "r \<in> set rs" "genuine c recover msg r a" by blast
    moreover from this have "(THE a. genuine c recover msg r a) = a"
      using genuine_unique by (intro the_equality)
    ultimately show "a \<in> (\<lambda>r. THE a. genuine c recover msg r a) ` set rs" by (metis imageI)
  qed
  then show ?thesis
    by (meson List.finite_set card_image_le card_length card_mono finite_imageI order_trans)
qed

lemma acc_inv_lengths:
  assumes "acc_inv c recover msg rs acc"
  shows "length (aa_signatures acc) = length (aa_signers acc)"
    and "length (aa_node_ids acc) = length (aa_signers acc)"
    and "distinct (aa_signers acc)"
    and "length (aa_signatures acc) = card (set (aa_signers acc))"
  using assms distinct_card [of "aa_signers acc"] by (simp_all add: acc_inv_def)

lemma acc_inv_nodes:
  assumes inv: "acc_inv c recover msg rs acc"
  shows "set (aa_node_ids acc) \<subseteq> fst ` set rs"
proof
  fix n assume "n \<in> set (aa_node_ids acc)"
  with inv obtain i where "i < length (aa_signers acc)" "n = aa_node_ids acc ! i"
    by (auto simp: acc_inv_def in_set_conv_nth)
  with inv have "(n, Some (aa_signatures acc ! i)) \<in> set rs" by (simp add: acc_inv_def)
  then show "n \<in> fst ` set rs" by force
qed

lemma acc_inv_genuine:
  assumes "acc_inv c recover (Some m) rs acc"
  shows "list_all (\<lambda>(n, s, a). nc_signers c n = Some a \<and> recover (ns_signature s) m = Inr a)
           (zip (aa_node_ids acc) (zip (aa_signatures acc) (aa_signers acc)))"
  using assms by (auto simp: acc_inv_def list_all_length genuine_def)

lemma acc_inv_no_message: "acc_inv c recover None rs acc \<Longrightarrow> aa_signers acc = []"
  by (simp add: acc_inv_def)

section \<open>Properties\<close>

text \<open>
  The specification of a round: the addresses that some reply of the round is genuine for.
\<close>

definition round_signers ::
    "'w node_coordinator \<Rightarrow> (signature \<Rightarrow> bytes \<Rightarrow> string + address) \<Rightarrow> partial_proof list
       \<Rightarrow> bytes \<Rightarrow> node_id \<Rightarrow> 'w \<Rightarrow> address set" where
  "round_signers c recover proof_set seed assigned w =
     {a. \<exists>r \<in> set (replies c assigned proof_set (nc_attestation_timeout_secs c)
                       (attest_targets c seed assigned) w).
           genuine c recover (first_hash proof_set) r a}"

lemma length_select_nodes:
  "length (select_nodes c seed ex)
     = min 3 (length (filter (\<lambda>n. ex \<noteq> Some n) (nc_eligible_nodes c)))"
  by (simp add: select_nodes_def ATTESTATION_NODE_COUNT_def)

lemma length_attest_targets: "length (attest_targets c seed assigned) \<le> 4"
  by (simp add: attest_targets_def length_select_nodes)

lemma card_round_signers: "card (round_signers c recover proof_set seed assigned w) \<le> 4"
proof -
  let ?rs = "replies c assigned proof_set (nc_attestation_timeout_secs c)
               (attest_targets c seed assigned) w"
  have "length ?rs \<le> 4"
    using length_attest_targets map_fst_replies by (metis length_map)
  then show ?thesis unfolding round_signers_def using card_genuine_le order_trans by blast
qed

lemma coordinate_cases:
  obtains acc w' where
    "acc_inv c recover (first_hash proof_set)
       (replies c assigned proof_set (nc_attestation_timeout_secs c)
          (attest_targets c seed assigned) w) acc"
    "set (aa_signers acc) = round_signers c recover proof_set seed assigned w"
    "length (aa_signatures acc) = card (round_signers c recover proof_set seed assigned w)"
    "coordinate_attestation c recover sha256 now sid proof_set seed assigned w =
       (if 3 \<le> length (aa_signatures acc)
        then Inr \<lparr>ar_session_id = sid, ar_signatures = aa_signatures acc,
                  ar_node_ids = aa_node_ids acc, ar_signers = aa_signers acc,
                  ar_proof_hash = hash_proofs sha256 proof_set, ar_timestamp = now\<rparr>
        else Inl (InsufficientAttestations (length (aa_signatures acc)) (nc_required_signatures c)),
        w')"
proof -
  obtain acc w' where run: "collect_signatures c recover assigned proof_set
      (nc_attestation_timeout_secs c) (first_hash proof_set) (attest_targets c seed assigned)
      empty_acc w = (acc, w')" by fastforce
  have inv: "acc_inv c recover (first_hash proof_set)
       (replies c assigned proof_set (nc_attestation_timeout_secs c)
          (attest_targets c seed assigned) w) acc"
    using collect_inv [of c recover "first_hash proof_set" assigned proof_set _ _ w] run by (metis fst_conv)
  then have set: "set (aa_signers acc) = round_signers c recover proof_set seed assigned w"
    by (simp add: acc_inv_def round_signers_def)
  show ?thesis
    using that [OF inv set] run acc_inv_lengths(4) [OF inv] set
    by (simp add: coordinate_attestation_def is_sufficient_def Let_def)
qed

lemma round_signers_registered:
  "round_signers c recover proof_set seed assigned w
     \<subseteq> {a. \<exists>n \<in> set (attest_targets c seed assigned). nc_signers c n = Some a}"
proof
  fix a assume "a \<in> round_signers c recover proof_set seed assigned w"
  then obtain r where r: "r \<in> set (replies c assigned proof_set (nc_attestation_timeout_secs c)
      (attest_targets c seed assigned) w)" "nc_signers c (fst r) = Some a"
    by (auto simp: round_signers_def genuine_def)
  then have "fst r \<in> set (attest_targets c seed assigned)" 
    using map_fst_replies [of c assigned proof_set _ "attest_targets c seed assigned" w]
    by (metis imageI set_map)
  with r(2) show "a \<in> {a. \<exists>n \<in> set (attest_targets c seed assigned). nc_signers c n = Some a}" by blast
qed

lemma attestation_outcome_facts:
  assumes "fst (coordinate_attestation c recover sha256 now sid proof_set seed assigned w) = Inr res"
  shows "3 \<le> length (ar_signers res) \<and> distinct (ar_signers res)
    \<and> set (ar_signers res) = round_signers c recover proof_set seed assigned w"
proof -
  obtain acc w' where *: "acc_inv c recover (first_hash proof_set)
       (replies c assigned proof_set (nc_attestation_timeout_secs c)
          (attest_targets c seed assigned) w) acc"
    "set (aa_signers acc) = round_signers c recover proof_set seed assigned w"
    "coordinate_attestation c recover sha256 now sid proof_set seed assigned w =
       (if 3 \<le> length (aa_signatures acc)
        then Inr \<lparr>ar_session_id = sid, ar_signatures = aa_signatures acc,
                  ar_node_ids = aa_node_ids acc, ar_signers = aa_signers acc,
                  ar_proof_hash = hash_proofs sha256 proof_set, ar_timestamp = now\<rparr>
        else Inl (InsufficientAttestations (length (aa_signatures acc)) (nc_required_signatures c)),
        w')"
    by (rule coordinate_cases)
  from assms have "3 \<le> length (aa_signatures acc) \<and> ar_signers res = aa_signers acc"
    unfolding *(3) by (auto split: if_splits)
  then show ?thesis using *(2) acc_inv_lengths(1,3) [OF *(1)] by simp
qed

lemma coordinate_succeeds:
  assumes "3 \<le> card (round_signers c recover proof_set seed assigned w)"
  shows "\<exists>res w'. coordinate_attestation c recover sha256 now sid proof_set seed assigned w = (Inr res, w')
           \<and> set (ar_signers res) = round_signers c recover proof_set seed assigned w"
proof -
  obtain acc w' where "acc_inv c recover (first_hash proof_set)
       (replies c assigned proof_set (nc_attestation_timeout_secs c)
          (attest_targets c seed assigned) w) acc" and *:
    "set (aa_signers acc) = round_signers c recover proof_set seed assigned w"
    "length (aa_signatures acc) = card (round_signers c recover proof_set seed assigned w)"
    "coordinate_attestation c recover sha256 now sid proof_set seed assigned w =
       (if 3 \<le> length (aa_signatures acc)
        then Inr \<lparr>ar_session_id = sid, ar_signatures = aa_signatures acc,
                  ar_node_ids = aa_node_ids acc, ar_signers = aa_signers acc,
                  ar_proof_hash = hash_proofs sha256 proof_set, ar_timestamp = now\<rparr>
        else Inl (InsufficientAttestations (length (aa_signatures acc)) (nc_required_signatures c)),
        w')"
    by (rule coordinate_cases)
  with assms show ?thesis by simp
qed

lemma finite_round_signers: "finite (round_signers c recover proof_set seed assigned w)"
  by (rule coordinate_cases [of c recover proof_set assigned seed w]) (metis List.finite_set)

text \<open>
  Node selection is a Fisher-Yates shuffle of the eligible pool without the excluded node, cut
  to three: whatever the seed, no node is selected more often than it is registered, the excluded
  node never is, and three are selected whenever the rest of the pool has three.
\<close>

theorem select_nodes_sound:
  "mset (select_nodes c seed exclude) \<subseteq># filter_mset (\<lambda>n. exclude \<noteq> Some n) (mset (nc_eligible_nodes c))
     \<and> length (select_nodes c seed exclude)
         = min 3 (length (filter (\<lambda>n. exclude \<noteq> Some n) (nc_eligible_nodes c)))"
  using mset_take_subset [of 3 "shuffle_pool seed (filter (\<lambda>n. exclude \<noteq> Some n) (nc_eligible_nodes c))"]
  by (simp add: select_nodes_def ATTESTATION_NODE_COUNT_def)

text \<open>
  C2: an attestation round succeeds exactly when the replies of its targets are genuine for at
  least three distinct addresses. The result then lists precisely those addresses, each once,
  with the node and the signature that earned it: the node's registered signer, recovered over the
  first proof's hash. Otherwise the error reports the exact number of distinct genuine signers.
\<close>

theorem attestation_outcome:
  "case fst (coordinate_attestation c recover sha256 now sid proof_set seed assigned w) of
     Inl e \<Rightarrow>
       card (round_signers c recover proof_set seed assigned w) < 3
       \<and> e = InsufficientAttestations (card (round_signers c recover proof_set seed assigned w))
               (nc_required_signatures c)
   | Inr res \<Rightarrow>
       set (ar_signers res) = round_signers c recover proof_set seed assigned w
       \<and> distinct (ar_signers res) \<and> length (ar_signers res) \<in> {3, 4}
       \<and> length (ar_signatures res) = length (ar_signers res)
       \<and> length (ar_node_ids res) = length (ar_signers res)
       \<and> set (ar_node_ids res) \<subseteq> set (attest_targets c seed assigned)
       \<and> (\<exists>p rest. proof_set = p # rest
            \<and> list_all (\<lambda>(n, s, a). nc_signers c n = Some a
                           \<and> recover (ns_signature s) (pp_proof_hash p) = Inr a)
                (zip (ar_node_ids res) (zip (ar_signatures res) (ar_signers res))))
       \<and> ar_session_id res = sid
       \<and> ar_proof_hash res = sha256 (concat (map pp_proof_hash proof_set))"
proof -
  obtain acc w' where inv: "acc_inv c recover (first_hash proof_set)
       (replies c assigned proof_set (nc_attestation_timeout_secs c)
          (attest_targets c seed assigned) w) acc"
    and set: "set (aa_signers acc) = round_signers c recover proof_set seed assigned w"
    and len: "length (aa_signatures acc) = card (round_signers c recover proof_set seed assigned w)"
    and run: "coordinate_attestation c recover sha256 now sid proof_set seed assigned w =
       (if 3 \<le> length (aa_signatures acc)
        then Inr \<lparr>ar_session_id = sid, ar_signatures = aa_signatures acc,
                  ar_node_ids = aa_node_ids acc, ar_signers = aa_signers acc,
                  ar_proof_hash = hash_proofs sha256 proof_set, ar_timestamp = now\<rparr>
        else Inl (InsufficientAttestations (length (aa_signatures acc)) (nc_required_signatures c)),
        w')"
    by (rule coordinate_cases)
  show ?thesis
  proof (cases "3 \<le> length (aa_signatures acc)")
    case False
    then show ?thesis using len by (simp add: run)
  next
    case True
    then have "aa_signers acc \<noteq> []" using acc_inv_lengths(1) [OF inv] by auto
    then obtain p rest where p: "proof_set = p # rest"
      using inv acc_inv_no_message by (cases proof_set) (auto simp: first_hash_def)
    have "set (aa_node_ids acc) \<subseteq> set (attest_targets c seed assigned)"
      using acc_inv_nodes [OF inv] by (metis map_fst_replies set_map)
    moreover have "length (aa_signers acc) \<in> {3, 4}"
      using True len acc_inv_lengths(1) [OF inv]
        card_round_signers [of c recover proof_set seed assigned w] by auto
    moreover have "list_all (\<lambda>(n, s, a). nc_signers c n = Some a
        \<and> recover (ns_signature s) (pp_proof_hash p) = Inr a)
        (zip (aa_node_ids acc) (zip (aa_signatures acc) (aa_signers acc)))"
      using inv by (intro acc_inv_genuine) (simp add: p first_hash_def)
    ultimately show ?thesis
      unfolding run using True set acc_inv_lengths(1-3) [OF inv] p by (simp add: hash_proofs_def)
  qed
qed

text \<open>
  The Byzantine bound of the 3-of-4 quorum. Whatever at most one faulty signer (\<open>f = 1\<close>) does,
  a successful attestation carries the signatures of at least two registered signers that are not
  faulty, so a faulty node alone can neither produce an attestation nor a majority of one.
\<close>

theorem attestation_byzantine:
  assumes "fst (coordinate_attestation c recover sha256 now sid proof_set seed assigned w) = Inr res"
    and "card F \<le> 1" and "finite F"
  shows "2 \<le> card (set (ar_signers res) - F)
    \<and> set (ar_signers res) - F \<subseteq> {a. \<exists>n \<in> set (attest_targets c seed assigned). nc_signers c n = Some a}"
proof -
  have *: "3 \<le> length (ar_signers res)" "distinct (ar_signers res)"
      "set (ar_signers res) = round_signers c recover proof_set seed assigned w"
    using attestation_outcome_facts [OF assms(1)] by blast+
  have "card (set (ar_signers res)) - card F \<le> card (set (ar_signers res) - F)"
    by (rule diff_card_le_card_Diff [OF assms(3)])
  moreover have "3 \<le> card (set (ar_signers res))" using *(1,2) by (simp add: distinct_card)
  moreover have "set (ar_signers res) \<subseteq> {a. \<exists>n \<in> set (attest_targets c seed assigned). nc_signers c n = Some a}"
    unfolding *(3) by (rule round_signers_registered)
  ultimately show ?thesis using assms(2) by auto
qed

text \<open>
  Four nodes that all answer at once, each signing with a key named after the length of its id.
\<close>

definition sample_recover :: "signature \<Rightarrow> bytes \<Rightarrow> string + address" where
  "sample_recover sig m = Inr (ucast (fst sig))"

definition sample_client :: "unit node_client" where
  "sample_client timeout target assigned proofs w =
     (Some (Inr \<lparr>ns_node_id = target,
                 ns_signature = (of_nat (length (nid_str target)), 0, False), ns_signed_at = 0\<rparr>), w)"

definition sample_nodes :: "node_id list" where
  "sample_nodes = [NodeId ''a'', NodeId ''bb'', NodeId ''ccc'', NodeId ''dddd'']"

definition sample_coordinator :: "unit node_coordinator" where
  "sample_coordinator =
     new_coordinator (\<lambda>n. Some sample_client) sample_nodes
       (\<lambda>n. Some (of_nat (length (nid_str n))))"

definition sample_proof :: partial_proof where
  "sample_proof = \<lparr>pp_session_id = SessionId ''s'', pp_wallet = 7, pp_sequence = 0, pp_hashrate = 0,
     pp_proof_hash = replicate 32 7, pp_proof_input = [1], pp_difficulty = 1, pp_submitted_at = 0,
     pp_signature = None\<rparr>"

lemmas sample_defs = sample_recover_def sample_client_def sample_nodes_def sample_coordinator_def
  sample_proof_def new_coordinator_def ATTESTATION_TIMEOUT_SECS_def REQUIRED_SIGNATURES_def

lemma sample_targets:
  "attest_targets sample_coordinator (replicate 32 0) (NodeId ''a'')
     = [NodeId ''a'', NodeId ''ccc'', NodeId ''dddd'', NodeId ''bb'']"
  by (simp add: attest_targets_def select_nodes_def ATTESTATION_NODE_COUNT_def shuffle_pool_def
      swap_def swap_index_def sample_defs upt_rec)

lemma sample_round:
  "ar_signers (projr (fst (coordinate_attestation sample_coordinator sample_recover id 0
      (SessionId ''s'') [sample_proof] (replicate 32 0) (NodeId ''a'') ()))) = [1, 3, 4, 2]
   \<and> \<not> isl (fst (coordinate_attestation sample_coordinator sample_recover id 0
      (SessionId ''s'') [sample_proof] (replicate 32 0) (NodeId ''a'') ()))"
  unfolding coordinate_attestation_def sample_targets
  by (simp add: try_request_def count_signature_def
      first_hash_def empty_acc_def is_sufficient_def Let_def sample_defs)

theorem attestation_byzantine_witness:
  "2 \<le> card (set (ar_signers (projr (fst (coordinate_attestation sample_coordinator sample_recover id 0
      (SessionId ''s'') [sample_proof] (replicate 32 0) (NodeId ''a'') ())))) - {4})"
proof -
  let ?r = "fst (coordinate_attestation sample_coordinator sample_recover id 0
      (SessionId ''s'') [sample_proof] (replicate 32 0) (NodeId ''a'') ())"
  have "?r = Inr (projr ?r)" using sample_round by (simp add: sum.collapse)
  then show ?thesis
    using attestation_byzantine [of sample_coordinator sample_recover id 0 "SessionId ''s''"
        "[sample_proof]" "replicate 32 0" "NodeId ''a''" "()" "projr ?r" "{4}"] by simp
qed

end
