(* ===== verification/Grpc_Client.thy ===== *)
theory Grpc_Client
  imports Node_Server Node_Coordinator
begin

text \<open>
  \<open>crates/node-coordinator/src/grpc.rs\<close>: the gRPC implementation of the \<open>NodeClient\<close> trait, which
  builds the attestation request from the first proof of the set and reads the node's response.
  The transport is a parameter: a call takes the metadata and the message and returns the node's
  response or a status. So are the text form of an address and the parsers of header values,
  signatures and timestamps of the libraries.

  The last section closes the loop between the backend and the nodes: an attestation round of the
  coordinator over gRPC clients whose calls are served by the node service of \<open>Node_Server\<close>.
\<close>

record grpc_libs =
  gl_address_str :: "address \<Rightarrow> string"
  gl_parse_metadata :: "string \<Rightarrow> string option"
  gl_parse_signature :: "bytes \<Rightarrow> string + signature"
  gl_from_timestamp :: "int \<Rightarrow> nat \<Rightarrow> datetime option"

record 'w grpc_node_client =
  gc_endpoint :: string
  gc_api_key :: string
  gc_channel :: "metadata \<Rightarrow> attestation_request \<Rightarrow> 'w \<Rightarrow> (status + attestation_response) \<times> 'w"

definition new_grpc_client ::
    "(string \<Rightarrow> 'te + (metadata \<Rightarrow> attestation_request \<Rightarrow> 'w \<Rightarrow> (status + attestation_response) \<times> 'w))
       \<Rightarrow> string \<Rightarrow> string \<Rightarrow> 'te + 'w grpc_node_client" where
  "new_grpc_client from_shared endpoint api_key =
     (case from_shared endpoint of
        Inl e \<Rightarrow> Inl e
      | Inr channel \<Rightarrow> Inr \<lparr>gc_endpoint = endpoint, gc_api_key = api_key, gc_channel = channel\<rparr>)"

definition api_key_value ::
    "(string \<Rightarrow> string option) \<Rightarrow> 'w grpc_node_client \<Rightarrow> node_coordinator_error + string" where
  "api_key_value parse_metadata gc =
     (case parse_metadata (gc_api_key gc) of
        Some v \<Rightarrow> Inr v
      | None \<Rightarrow> Inl (NodeError ''invalid api key metadata''))"

definition request_body :: "(address \<Rightarrow> string) \<Rightarrow> node_id \<Rightarrow> partial_proof list \<Rightarrow> attestation_request" where
  "request_body address_str assigned proof_set =
     (let first = (case proof_set of [] \<Rightarrow> None | p # _ \<Rightarrow> Some p) in
      \<lparr>rq_session_id = (case first of Some p \<Rightarrow> sid_str (pp_session_id p) | None \<Rightarrow> []),
       rq_wallet = (case first of Some p \<Rightarrow> address_str (pp_wallet p) | None \<Rightarrow> []),
       rq_commodity = [],
       rq_proof_hash = map_option pp_proof_hash first,
       rq_requesting_node_id = nid_str assigned,
       rq_requested_at = None,
       rq_proof_input = (case first of Some p \<Rightarrow> pp_proof_input p | None \<Rightarrow> []),
       rq_difficulty = (case first of Some p \<Rightarrow> pp_difficulty p | None \<Rightarrow> 0)\<rparr>)"

definition read_signed_at ::
    "(int \<Rightarrow> nat \<Rightarrow> datetime option) \<Rightarrow> datetime \<Rightarrow> proto_timestamp option \<Rightarrow> datetime" where
  "read_signed_at from_timestamp now ts =
     (case Option.bind ts (\<lambda>t. from_timestamp (ts_seconds t) (nat (max (ts_nanos t) 0))) of
        Some d \<Rightarrow> d
      | None \<Rightarrow> now)"

definition read_response ::
    "grpc_libs \<Rightarrow> datetime \<Rightarrow> node_id \<Rightarrow> attestation_response \<Rightarrow> node_coordinator_error + node_signature" where
  "read_response libs now target response =
     (if \<not> rs_valid response
      then Inl (NodeError (''node '' @ nid_str target @ '' reported an invalid attestation''))
      else (case rs_signature response of
          None \<Rightarrow> Inl (NodeError ''attestation response missing signature'')
        | Some sp \<Rightarrow>
            (case gl_parse_signature libs (pn_signature sp) of
               Inl err \<Rightarrow> Inl (NodeError (''invalid signature bytes: '' @ err))
             | Inr signature \<Rightarrow>
                 Inr \<lparr>ns_node_id = NodeId (pn_node_id sp), ns_signature = signature,
                      ns_signed_at = read_signed_at (gl_from_timestamp libs) now (pn_signed_at sp)\<rparr>)))"

definition grpc_request_attestation ::
    "grpc_libs \<Rightarrow> datetime \<Rightarrow> 'w grpc_node_client \<Rightarrow> node_id \<Rightarrow> node_id \<Rightarrow> partial_proof list \<Rightarrow> 'w
       \<Rightarrow> (node_coordinator_error + node_signature) \<times> 'w" where
  "grpc_request_attestation libs now gc target assigned proof_set w =
     (case api_key_value (gl_parse_metadata libs) gc of
        Inl e \<Rightarrow> (Inl e, w)
      | Inr key \<Rightarrow>
          (case gc_channel gc [API_KEY_HEADER \<mapsto> key]
                  (request_body (gl_address_str libs) assigned proof_set) w of
             (Inl status, w') \<Rightarrow> (Inl (NodeError (status_message status)), w')
           | (Inr response, w') \<Rightarrow> (read_response libs now target response, w')))"

section \<open>A client whose calls a node serves\<close>

text \<open>
  The channel of a client whose endpoint is a running node: the node's handler answers the call,
  and the world is unchanged. The timer does not fire.
\<close>

definition served_by ::
    "(string \<Rightarrow> string option) \<Rightarrow> ('sk \<Rightarrow> bytes \<Rightarrow> string + signature) \<Rightarrow> (signature \<Rightarrow> bytes)
       \<Rightarrow> string option \<Rightarrow> datetime \<Rightarrow> 'sk node_service
       \<Rightarrow> metadata \<Rightarrow> attestation_request \<Rightarrow> 'w \<Rightarrow> (status + attestation_response) \<times> 'w" where
  "served_by to_str sign as_bytes env now sv md rq w =
     (request_attestation to_str sign as_bytes env now Answered sv md rq, w)"

definition untimed :: "grpc_libs \<Rightarrow> datetime \<Rightarrow> 'w grpc_node_client \<Rightarrow> 'w node_client" where
  "untimed libs now gc timeout target assigned proof_set w =
     (case grpc_request_attestation libs now gc target assigned proof_set w of (r, w') \<Rightarrow> (Some r, w'))"

text \<open>
  The documented laws of the libraries: a signature survives its byte form, header values read
  back as the text they were made from, and recovery inverts signing.
\<close>

definition signature_laws where
  "signature_laws sign recover addr as_bytes parse \<longleftrightarrow>
     (\<forall>sk m sig. sign sk m = Inr sig \<longrightarrow> recover sig m = Inr (addr sk) \<and> parse (as_bytes sig) = Inr sig)"

lemma served_reply:
  fixes libs :: "grpc_libs" and sv :: "'sk node_service"
  assumes laws: "signature_laws sign recover addr as_bytes (gl_parse_signature libs)"
    and key: "gl_parse_metadata libs (gc_api_key gc) = Some k" "to_str k = Some (sv_api_key sv)"
    and chan: "gc_channel gc = served_by to_str sign as_bytes env now sv"
    and pf: "proof_set = p # rest" "length (pp_proof_hash p) = 32"
    and work: "randomx_verify (sv_verifier sv) (pp_proof_input p) (pp_proof_hash p) (pp_difficulty p) = Inr True"
    and signs: "sign (sv_signer sv) (pp_proof_hash p) = Inr sig"
  shows "\<exists>s. grpc_request_attestation libs now' gc target assigned proof_set w = (Inr s, w)
           \<and> recover (ns_signature s) (pp_proof_hash p) = Inr (addr (sv_signer sv))"
proof -
  let ?rq = "request_body (gl_address_str libs) assigned proof_set"
  have "authenticate to_str sv [API_KEY_HEADER \<mapsto> k] = Inr ()"
    using key by (simp add: authenticate_ok_iff)
  moreover have "rq_proof_hash ?rq = Some (pp_proof_hash p)" using pf by (simp add: request_body_def)
  ultimately have "request_attestation to_str sign as_bytes env now Answered sv [API_KEY_HEADER \<mapsto> k] ?rq
      = sign_response sign as_bytes env now sv ?rq (pp_proof_hash p)"
    using pf work by (simp add: request_attestation_eq request_body_def)
  moreover have "recover sig (pp_proof_hash p) = Inr (addr (sv_signer sv))"
      "gl_parse_signature libs (as_bytes sig) = Inr sig"
    using laws signs unfolding signature_laws_def by blast+
  ultimately show ?thesis
    using key signs
    by (simp add: grpc_request_attestation_def api_key_value_def chan served_by_def
        sign_response_def read_response_def)
qed

text \<open>
  A node is honest and reachable for a round over the first proof \<open>p\<close>: the coordinator holds a gRPC
  client for it whose channel a node service serves under the same API key, the address registered
  for it is the one of the service's key, the service's verifier accepts \<open>p\<close> and its key signs.
\<close>

definition honest_node ::
    "grpc_libs \<Rightarrow> (string \<Rightarrow> string option) \<Rightarrow> ('sk \<Rightarrow> bytes \<Rightarrow> string + signature)
       \<Rightarrow> (signature \<Rightarrow> bytes) \<Rightarrow> ('sk \<Rightarrow> address) \<Rightarrow> 'w node_coordinator \<Rightarrow> partial_proof
       \<Rightarrow> node_id \<Rightarrow> address \<Rightarrow> bool" where
  "honest_node libs to_str sign as_bytes addr c p n a \<longleftrightarrow>
     (\<exists>gc sv k env now now' sig.
        nc_clients c n = Some (untimed libs now' gc)
        \<and> gc_channel gc = served_by to_str sign as_bytes env now sv
        \<and> gl_parse_metadata libs (gc_api_key gc) = Some k \<and> to_str k = Some (sv_api_key sv)
        \<and> nc_signers c n = Some a \<and> addr (sv_signer sv) = a
        \<and> randomx_verify (sv_verifier sv) (pp_proof_input p) (pp_proof_hash p) (pp_difficulty p) = Inr True
        \<and> sign (sv_signer sv) (pp_proof_hash p) = Inr sig)"

lemma honest_try_request:
  assumes laws: "signature_laws sign recover addr as_bytes (gl_parse_signature libs)"
    and honest: "honest_node libs to_str sign as_bytes addr c p n a"
    and pf: "proof_set = p # rest" "length (pp_proof_hash p) = 32"
  shows "\<exists>s. try_request c n assigned proof_set timeout w = (Some s, w)
           \<and> genuine c recover (first_hash proof_set) (n, Some s) a"
proof -
  obtain gc sv k env now now' sig where
    client: "nc_clients c n = Some (untimed libs now' gc)" and
    chan: "gc_channel gc = served_by to_str sign as_bytes env now sv" and
    key: "gl_parse_metadata libs (gc_api_key gc) = Some k" "to_str k = Some (sv_api_key sv)" and
    reg: "nc_signers c n = Some a" "addr (sv_signer sv) = a" and
    work: "randomx_verify (sv_verifier sv) (pp_proof_input p) (pp_proof_hash p) (pp_difficulty p) = Inr True" and
    signs: "sign (sv_signer sv) (pp_proof_hash p) = Inr sig"
    using honest unfolding honest_node_def by blast
  obtain s where s: "grpc_request_attestation libs now' gc n assigned proof_set w = (Inr s, w)"
      "recover (ns_signature s) (pp_proof_hash p) = Inr a"
    using served_reply [OF laws key chan pf work signs, of now' n assigned w] reg by blast
  have "try_request c n assigned proof_set timeout w = (Some s, w)"
    by (simp add: try_request_def client untimed_def s(1))
  with reg(1) s(2) pf show ?thesis by (auto simp: genuine_def first_hash_def)
qed

lemma replies_complete:
  assumes "\<And>w. \<exists>s. try_request c n assigned proof_set timeout w = (Some s, w) \<and> Q s"
    and "n \<in> set ts"
  shows "\<exists>s. (n, Some s) \<in> set (replies c assigned proof_set timeout ts w) \<and> Q s"
  using assms(2)
proof (induction ts arbitrary: w)
  case (Cons t ts)
  show ?case
  proof (cases "t = n")
    case True
    with assms(1) [of w] show ?thesis by auto
  next
    case False
    obtain r w' where r: "try_request c t assigned proof_set timeout w = (r, w')" by fastforce
    have "n \<in> set ts" using Cons.prems False by simp
    then obtain s where "(n, Some s) \<in> set (replies c assigned proof_set timeout ts w')" "Q s"
      using Cons.IH by blast
    then show ?thesis using r by auto
  qed
qed simp

lemma honest_quorum_succeeds:
  assumes "signature_laws sign recover addr as_bytes (gl_parse_signature libs)"
    and "set (map fst hs) \<subseteq> set (attest_targets c seed assigned)"
    and "\<forall>(n, a) \<in> set hs. honest_node libs to_str sign as_bytes addr c p n a"
    and "distinct (map snd hs)" and "3 \<le> length hs"
    and "length (pp_proof_hash p) = 32"
  shows "\<exists>res w'. coordinate_attestation c recover sha now sid (p # rest) seed assigned w = (Inr res, w')
           \<and> set (map snd hs) \<subseteq> set (ar_signers res)"
proof -
  have sub: "set (map snd hs) \<subseteq> round_signers c recover (p # rest) seed assigned w"
  proof
    fix a assume "a \<in> set (map snd hs)"
    then obtain n where n: "(n, a) \<in> set hs" by auto
    then have honest: "honest_node libs to_str sign as_bytes addr c p n a" using assms(3) by blast
    have "n \<in> set (attest_targets c seed assigned)" using n assms(2) by force
    then obtain s where "(n, Some s) \<in> set (replies c assigned (p # rest)
        (nc_attestation_timeout_secs c) (attest_targets c seed assigned) w)"
        "genuine c recover (first_hash (p # rest)) (n, Some s) a"
      using replies_complete honest_try_request [OF assms(1) honest refl assms(6)] by meson
    then show "a \<in> round_signers c recover (p # rest) seed assigned w"
      by (auto simp: round_signers_def)
  qed
  have "length hs = card (set (map snd hs))" using assms(4) distinct_card by force
  also have "\<dots> \<le> card (round_signers c recover (p # rest) seed assigned w)"
    using sub finite_round_signers by (metis card_mono)
  finally have "3 \<le> card (round_signers c recover (p # rest) seed assigned w)" using assms(5) by linarith
  from coordinate_succeeds [OF this] show ?thesis using sub by metis
qed

text \<open>
  C16: the round is live over the network. When three of the round's targets are honest reachable
  nodes with different registered addresses, and the first proof of the set is real RandomX work
  at its claimed difficulty, the round succeeds and counts every one of those nodes, whatever the
  remaining target answers, delays or withholds.
\<close>

theorem honest_quorum_attests:
  assumes "signature_laws sign recover addr as_bytes (gl_parse_signature libs)"
    and "set (map fst hs) \<subseteq> set (attest_targets c seed assigned)"
    and "\<forall>(n, a) \<in> set hs. honest_node libs to_str sign as_bytes addr c p n a"
    and "distinct (map snd hs)" and "3 \<le> length hs"
    and "length (pp_proof_hash p) = 32"
  shows "\<exists>res w'. coordinate_attestation c recover sha now sid (p # rest) seed assigned w = (Inr res, w')
           \<and> set (map snd hs) \<subseteq> set (ar_signers res)"
  by (rule honest_quorum_succeeds [OF assms])

text \<open>
  A network of four nodes of which the last has no client: keys are bytes, a signature carries its
  key, and the virtual machine hashes everything to the sample proof's hash.
\<close>

definition demo_sign :: "u8 \<Rightarrow> bytes \<Rightarrow> string + signature" where
  "demo_sign sk m = Inr (ucast sk, 0, False)"

definition demo_as_bytes :: "signature \<Rightarrow> bytes" where
  "demo_as_bytes sig = [ucast (fst sig)]"

definition demo_libs :: grpc_libs where
  "demo_libs = \<lparr>gl_address_str = (\<lambda>a. []), gl_parse_metadata = Some,
     gl_parse_signature = (\<lambda>bs. case bs of [b] \<Rightarrow> Inr (ucast b, 0, False) | _ \<Rightarrow> Inl ''length''),
     gl_from_timestamp = (\<lambda>s n. Some (s * nanos_per_sec + int n))\<rparr>"

definition demo_service :: "node_id \<Rightarrow> u8 node_service" where
  "demo_service n = \<lparr>sv_api_key = ''k'', sv_signer = of_nat (length (nid_str n)),
     sv_verifier = (\<lambda>input. Inr (replicate 32 7))\<rparr>"

definition demo_client :: "node_id \<Rightarrow> unit grpc_node_client" where
  "demo_client n = \<lparr>gc_endpoint = nid_str n, gc_api_key = ''k'',
     gc_channel = served_by Some demo_sign demo_as_bytes None 0 (demo_service n)\<rparr>"

definition demo_coordinator :: "unit node_coordinator" where
  "demo_coordinator =
     new_coordinator
       (\<lambda>n. if n = NodeId ''dddd'' then None else Some (untimed demo_libs 0 (demo_client n)))
       sample_nodes (\<lambda>n. Some (ucast (of_nat (length (nid_str n)) :: u8)))"

lemma ucast_key:
  "ucast (ucast (k :: u8) :: u256) = (ucast k :: address)" "ucast (ucast (k :: u8) :: u256) = k"
  by (transfer, simp)+

lemma demo_signature_laws:
  "signature_laws demo_sign sample_recover ucast demo_as_bytes (gl_parse_signature demo_libs)"
  by (simp add: ucast_key signature_laws_def demo_sign_def sample_recover_def demo_as_bytes_def demo_libs_def)

lemma demo_work: "randomx_verify (\<lambda>i. Inr (replicate 32 7)) i (replicate 32 7) 1 = Inr True"
  using be_nat_less [of "replicate 32 7"]
  by (simp add: randomx_verify_accepts meets_target_def del: replicate.simps)

lemma demo_honest:
  assumes "n \<noteq> NodeId ''dddd''"
  shows "honest_node demo_libs Some demo_sign demo_as_bytes ucast demo_coordinator sample_proof n
           (ucast (of_nat (length (nid_str n)) :: u8))"
  unfolding honest_node_def
  by (rule exI [of _ "demo_client n"], rule exI [of _ "demo_service n"], rule exI [of _ "''k''"],
      rule exI [of _ None], rule exI [of _ 0], rule exI [of _ 0],
      rule exI [of _ "(ucast (sv_signer (demo_service n)), 0, False)"])
     (use assms in \<open>simp add: demo_coordinator_def new_coordinator_def demo_client_def
        demo_service_def demo_libs_def demo_sign_def sample_proof_def demo_work
        del: replicate.simps\<close>)

lemma demo_targets:
  "attest_targets demo_coordinator (replicate 32 0) (NodeId ''a'')
     = [NodeId ''a'', NodeId ''ccc'', NodeId ''dddd'', NodeId ''bb'']"
  by (simp add: attest_targets_def select_nodes_def ATTESTATION_NODE_COUNT_def shuffle_pool_def
      swap_def swap_index_def demo_coordinator_def new_coordinator_def sample_nodes_def upt_rec)

theorem honest_quorum_attests_witness:
  "\<exists>res w'. coordinate_attestation demo_coordinator sample_recover id 0 (SessionId ''s'')
       [sample_proof] (replicate 32 0) (NodeId ''a'') () = (Inr res, w') \<and> {1, 2, 3} \<subseteq> set (ar_signers res)"
  using honest_quorum_attests [where hs = "[(NodeId ''a'', 1), (NodeId ''bb'', 2), (NodeId ''ccc'', 3)]"
      and c = demo_coordinator and seed = "replicate 32 0" and assigned = "NodeId ''a''"
      and to_str = Some and rest = "[]" and sha = id and now = 0 and sid = "SessionId ''s''"
      and w = "()", OF demo_signature_laws]
    demo_honest [of "NodeId ''a''"] demo_honest [of "NodeId ''bb''"] demo_honest [of "NodeId ''ccc''"]
  unfolding demo_targets by (simp add: sample_proof_def)

section \<open>What an attestation says about the work\<close>

text \<open>
  A faithful node runs the node service on the RandomX machine \<open>vm\<close>: whatever response reaches the
  coordinator over the node's channel is one that the service's handler gave to that very request. The
  network may lose, delay or fail any call, the timer may fire, and nothing is asked of the node's key.
\<close>

definition faithful_channel ::
    "(string \<Rightarrow> string option) \<Rightarrow> ('sk \<Rightarrow> bytes \<Rightarrow> string + signature) \<Rightarrow> (signature \<Rightarrow> bytes) \<Rightarrow> randomx_vm
       \<Rightarrow> (metadata \<Rightarrow> attestation_request \<Rightarrow> 'w \<Rightarrow> (status + attestation_response) \<times> 'w) \<Rightarrow> bool" where
  "faithful_channel to_str sign as_bytes vm channel \<longleftrightarrow>
     (\<forall>md rq w resp w'. channel md rq w = (Inr resp, w') \<longrightarrow>
        (\<exists>sv env now fate. sv_verifier sv = vm \<and> request_attestation to_str sign as_bytes env now fate sv md rq = Inr resp))"

definition faithful_node ::
    "grpc_libs \<Rightarrow> (string \<Rightarrow> string option) \<Rightarrow> ('sk \<Rightarrow> bytes \<Rightarrow> string + signature) \<Rightarrow> (signature \<Rightarrow> bytes)
       \<Rightarrow> randomx_vm \<Rightarrow> 'w node_coordinator \<Rightarrow> node_id \<Rightarrow> bool" where
  "faithful_node libs to_str sign as_bytes vm c n \<longleftrightarrow>
     (\<forall>client timeout target assigned proof_set w s w'.
        nc_clients c n = Some client \<longrightarrow> client timeout target assigned proof_set w = (Some (Inr s), w') \<longrightarrow>
        (\<exists>gc now (w1 :: 'w) w2. faithful_channel to_str sign as_bytes vm (gc_channel gc)
           \<and> grpc_request_attestation libs now gc target assigned proof_set w1 = (Inr s, w2)))"

lemma faithful_attests:
  assumes "faithful_channel to_str sign as_bytes vm (gc_channel gc)"
    and "grpc_request_attestation libs now gc target assigned (p # rest) w = (Inr s, w')"
    and "length (pp_proof_hash p) = 32"
  shows "vm (pp_proof_input p) = Inr (pp_proof_hash p) \<and> meets_target (pp_proof_hash p) (pp_difficulty p)"
proof -
  let ?rq = "request_body (gl_address_str libs) assigned (p # rest)"
  obtain md resp w2 where chan: "gc_channel gc md ?rq w = (Inr resp, w2)" and ok: "read_response libs now target resp = Inr s"
    using assms(2) by (auto simp: grpc_request_attestation_def split: sum.splits prod.splits)
  have "rs_valid resp" using ok by (auto simp: read_response_def split: if_splits)
  moreover obtain sv env now' fate where node: "sv_verifier sv = vm"
      "request_attestation to_str sign as_bytes env now' fate sv md ?rq = Inr resp"
    using assms(1) chan unfolding faithful_channel_def by blast
  ultimately obtain v where "rq_proof_hash ?rq = Some v" "vm (rq_proof_input ?rq) = Inr (proof_hash_bytes v)"
      "meets_target (proof_hash_bytes v) (rq_difficulty ?rq)"
    using request_attestation_valid [OF node(2)] by blast
  then show ?thesis using assms(3) by (simp add: request_body_def)
qed

lemma replies_from_targets:
  "(n, Some s) \<in> set (replies c assigned proof_set timeout ts w)
     \<Longrightarrow> n \<in> set ts \<and> (\<exists>w1 w2. try_request c n assigned proof_set timeout w1 = (Some s, w2))"
proof (induction ts arbitrary: w)
  case (Cons t ts)
  obtain r w' where r: "try_request c t assigned proof_set timeout w = (r, w')" by fastforce
  with Cons show ?case by (cases "(n, Some s) \<in> set (replies c assigned proof_set timeout ts w')") auto
qed simp

text \<open>
  C3: an attestation is evidence of work. When at most two of the nodes asked in the round deviate from the node
  service, a round that succeeds has a first proof, and that proof is real: the RandomX hash of its own
  input is its own hash, under the target of its own claimed difficulty. Nothing is assumed of the
  signature scheme or of the deviating nodes, which may hold any keys and answer anything. A proof hash has 32 bytes, as
  its type says.
\<close>

theorem attested_work_is_real:
  fixes c :: "'w node_coordinator"
  assumes "fst (coordinate_attestation c recover sha now sid proof_set seed assigned w) = Inr res"
    and "card {n \<in> set (attest_targets c seed assigned). \<not> faithful_node libs to_str sign as_bytes vm c n} \<le> 2"
    and "\<forall>p \<in> set proof_set. length (pp_proof_hash p) = 32"
  shows "\<exists>p rest. proof_set = p # rest \<and> vm (pp_proof_input p) = Inr (pp_proof_hash p)
           \<and> meets_target (pp_proof_hash p) (pp_difficulty p)"
proof -
  let ?bad = "{n \<in> set (attest_targets c seed assigned). \<not> faithful_node libs to_str sign as_bytes vm c n}"
  let ?signers = "round_signers c recover proof_set seed assigned w"
  have "3 \<le> card ?signers" using attestation_outcome_facts [OF assms(1)] distinct_card [of "ar_signers res"] by simp
  moreover have "card ((\<lambda>n. the (nc_signers c n)) ` ?bad) \<le> 2" using card_image_le [of ?bad "\<lambda>n. the (nc_signers c n)"] assms(2) by simp
  moreover have "finite ?bad" by simp
  ultimately have "\<not> ?signers \<subseteq> (\<lambda>n. the (nc_signers c n)) ` ?bad"
    using card_mono [of "(\<lambda>n. the (nc_signers c n)) ` ?bad" ?signers] by auto
  then obtain a where a: "a \<in> ?signers" "a \<notin> (\<lambda>n. the (nc_signers c n)) ` ?bad" by blast
  then obtain n s m where reply: "(n, Some s) \<in> set (replies c assigned proof_set (nc_attestation_timeout_secs c) (attest_targets c seed assigned) w)"
    and n: "nc_signers c n = Some a" and m: "first_hash proof_set = Some m"
    by (auto simp: round_signers_def genuine_def)
  obtain p rest where p: "proof_set = p # rest" using m by (cases proof_set) (auto simp: first_hash_def)
  obtain w1 w2 where "n \<in> set (attest_targets c seed assigned)"
    and try_n: "try_request c n assigned proof_set (nc_attestation_timeout_secs c) w1 = (Some s, w2)"
    using replies_from_targets [OF reply] by blast
  then have faithful: "faithful_node libs to_str sign as_bytes vm c n" using a(2) n by force
  obtain client w3 where client: "nc_clients c n = Some client"
      "client (nc_attestation_timeout_secs c) n assigned proof_set w1 = (Some (Inr s), w3)"
    using try_n unfolding try_request_def by (auto split: option.splits prod.splits sum.splits)
  from faithful obtain gc now and v1 v2 :: 'w where "faithful_channel to_str sign as_bytes vm (gc_channel gc)"
      "grpc_request_attestation libs now gc n assigned proof_set v1 = (Inr s, v2)"
    using client unfolding faithful_node_def by blast
  then show ?thesis using faithful_attests p assms(3) by fastforce
qed

text \<open>The network of four above: the three nodes that answer are faithful, the fourth has no client.\<close>

lemma demo_faithful:
  "faithful_node demo_libs Some demo_sign demo_as_bytes (\<lambda>input. Inr (replicate 32 7)) demo_coordinator n"
  unfolding faithful_node_def
proof (intro allI impI)
  fix client timeout target assigned proof_set w s w'
  assume "nc_clients demo_coordinator n = Some client" "client timeout target assigned proof_set w = (Some (Inr s), w')"
  then have run: "grpc_request_attestation demo_libs 0 (demo_client n) target assigned proof_set w = (Inr s, w')"
    by (auto simp: demo_coordinator_def new_coordinator_def untimed_def split: if_splits prod.splits)
  have "faithful_channel Some demo_sign demo_as_bytes (\<lambda>input. Inr (replicate 32 7)) (gc_channel (demo_client n))"
    unfolding faithful_channel_def
  proof (intro allI impI)
    fix md rq w resp w' assume "gc_channel (demo_client n) md rq w = (Inr resp, w')"
    then have "request_attestation Some demo_sign demo_as_bytes None 0 Answered (demo_service n) md rq = Inr resp"
      by (simp add: demo_client_def served_by_def)
    moreover have "sv_verifier (demo_service n) = (\<lambda>input. Inr (replicate 32 7))" by (simp add: demo_service_def)
    ultimately show "\<exists>sv env now fate. sv_verifier sv = (\<lambda>input. Inr (replicate 32 7))
        \<and> request_attestation Some demo_sign demo_as_bytes env now fate sv md rq = Inr resp" by blast
  qed
  with run show "\<exists>gc now (w1 :: unit) w2. faithful_channel Some demo_sign demo_as_bytes (\<lambda>input. Inr (replicate 32 7)) (gc_channel gc)
      \<and> grpc_request_attestation demo_libs now gc target assigned proof_set w1 = (Inr s, w2)" by blast
qed

lemma demo_round:
  "\<exists>res. fst (coordinate_attestation demo_coordinator sample_recover id 0 (SessionId ''s'')
      [sample_proof] (replicate 32 0) (NodeId ''a'') ()) = Inr res"
proof -
  have "\<exists>res w'. coordinate_attestation demo_coordinator sample_recover id 0 (SessionId ''s'')
      [sample_proof] (replicate 32 0) (NodeId ''a'') () = (Inr res, w')
      \<and> set (map snd [(NodeId ''a'', 1), (NodeId ''bb'', 2), (NodeId ''ccc'', 3)]) \<subseteq> set (ar_signers res)"
    using honest_quorum_succeeds [OF demo_signature_laws, where hs = "[(NodeId ''a'', 1), (NodeId ''bb'', 2), (NodeId ''ccc'', 3)]"
        and c = demo_coordinator and seed = "replicate 32 0" and assigned = "NodeId ''a''" and to_str = Some and p = sample_proof]
      demo_honest [of "NodeId ''a''"] demo_honest [of "NodeId ''bb''"] demo_honest [of "NodeId ''ccc''"]
    unfolding demo_targets by (simp add: sample_proof_def)
  then show ?thesis by (metis fst_conv)
qed

theorem attested_work_is_real_witness:
  "\<exists>p rest. [sample_proof] = p # rest \<and> (Inr (replicate 32 7) :: string + bytes) = Inr (pp_proof_hash p)
     \<and> meets_target (pp_proof_hash p) (pp_difficulty p)"
proof -
  obtain res where "fst (coordinate_attestation demo_coordinator sample_recover id 0
      (SessionId ''s'') [sample_proof] (replicate 32 0) (NodeId ''a'') ()) = Inr res"
    using demo_round by blast
  from attested_work_is_real [OF this, where libs = demo_libs and to_str = Some and sign = demo_sign and as_bytes = demo_as_bytes
      and vm = "\<lambda>input. Inr (replicate 32 7)"]
  show ?thesis by (simp add: demo_faithful sample_proof_def del: replicate.simps)
qed

end
