(* ===== verification/Mint_Ceiling.thy ===== *)
theory Mint_Ceiling
  imports Prelude
begin

text \<open>
  \<open>crates/mint-ceiling/src/lib.rs\<close>: the per-block and the per-day PRM mint ceilings. The
  per-block figure is computed with plain \<open>u64\<close> operators, which wrap in a release build; the
  per-day figure saturates.
\<close>

definition BLOCKS_PER_DAY :: u64 where
  "BLOCKS_PER_DAY = 7200"

definition SAFETY_MULTIPLIER :: u64 where
  "SAFETY_MULTIPLIER = 3"

record ceiling_proposal =
  cp_calculated_at :: int
  cp_active_users :: u64
  cp_avg_daily_prm_per_user :: u64
  cp_daily_target_prm :: u64
  cp_block_ceiling :: u64
  cp_blocks_per_day :: u64
  cp_safety_multiplier :: u64

record mint_ceiling_calculator =
  mc_blocks_per_day :: u64
  mc_safety_multiplier :: u64

definition new_calculator :: mint_ceiling_calculator where
  "new_calculator =
     \<lparr>mc_blocks_per_day = BLOCKS_PER_DAY, mc_safety_multiplier = SAFETY_MULTIPLIER\<rparr>"

definition calculate_ceiling :: "mint_ceiling_calculator \<Rightarrow> u64 \<Rightarrow> u64 \<Rightarrow> u64" where
  "calculate_ceiling self active_users avg_daily_prm_per_user =
     (let daily_target = active_users * avg_daily_prm_per_user
      in (daily_target div mc_blocks_per_day self) * mc_safety_multiplier self)"

definition daily_ceiling :: "mint_ceiling_calculator \<Rightarrow> u64 \<Rightarrow> u64 \<Rightarrow> u64" where
  "daily_ceiling self active_users avg_daily_prm_per_user =
     saturating_mul (saturating_mul active_users avg_daily_prm_per_user)
       (mc_safety_multiplier self)"

definition propose :: "mint_ceiling_calculator \<Rightarrow> int \<Rightarrow> u64 \<Rightarrow> u64 \<Rightarrow> ceiling_proposal" where
  "propose self now active_users avg_daily_prm_per_user =
     (let daily_target_prm = active_users * avg_daily_prm_per_user;
          block_ceiling = calculate_ceiling self active_users avg_daily_prm_per_user
      in \<lparr>cp_calculated_at = now,
          cp_active_users = active_users,
          cp_avg_daily_prm_per_user = avg_daily_prm_per_user,
          cp_daily_target_prm = daily_target_prm,
          cp_block_ceiling = block_ceiling,
          cp_blocks_per_day = mc_blocks_per_day self,
          cp_safety_multiplier = mc_safety_multiplier self\<rparr>)"

lemma new_calculator_sel [simp]:
  "mc_blocks_per_day new_calculator = 7200" "mc_safety_multiplier new_calculator = 3"
  by (simp_all add: new_calculator_def BLOCKS_PER_DAY_def SAFETY_MULTIPLIER_def)

lemma unat_calculate_ceiling:
  assumes "unat u * unat a < 2 ^ 64"
  shows "unat (calculate_ceiling new_calculator u a) = unat u * unat a div 7200 * 3"
proof -
  have target: "unat (u * a) = unat u * unat a"
    using assms by (simp add: unat_mult_exact)
  then have div: "unat (u * a div 7200) = unat u * unat a div 7200"
    by (simp add: unat_div_word)
  have "unat u * unat a div 7200 * 3 < 2 ^ 64"
    using assms by (simp add: less_mult_imp_div_less)
  with div show ?thesis
    by (simp add: calculate_ceiling_def unat_mult_exact)
qed

text \<open>
  The per-day mint ceiling is the product of active users, average daily PRM per user and
  the safety multiplier 3, capped at the largest \<open>u64\<close>: it never wraps round to a small value,
  whatever the configuration.
\<close>

lemma daily_ceiling_saturates:
  "unat (daily_ceiling new_calculator u a) = min (unat u * unat a * 3) (2 ^ 64 - 1)"
proof -
  have "min (min t (2 ^ 64 - 1) * 3) (2 ^ 64 - 1) = min (t * 3) (2 ^ 64 - 1)" for t :: nat
    by (simp add: min_def)
  from this [of "unat u * unat a"] show ?thesis
    by (simp add: daily_ceiling_def unat_saturating_mul)
qed

text \<open>
  As long as the daily target fits a \<open>u64\<close>, the per-block ceiling is the target divided by
  7200 blocks, rounded down and tripled, and a whole day of blocks at that ceiling stays within
  the per-day ceiling and within one rounding step of it.
\<close>

theorem block_ceiling_within_daily:
  assumes "unat u * unat a * 3 < 2 ^ 64"
  shows "unat (calculate_ceiling new_calculator u a) = unat u * unat a div 7200 * 3
    \<and> 7200 * unat (calculate_ceiling new_calculator u a)
           \<le> unat (daily_ceiling new_calculator u a)
    \<and> unat (daily_ceiling new_calculator u a)
           < 7200 * unat (calculate_ceiling new_calculator u a) + 3 * 7200"
proof -
  let ?t = "unat u * unat a"
  have c: "unat (calculate_ceiling new_calculator u a) = ?t div 7200 * 3"
    using assms by (intro unat_calculate_ceiling) simp
  have d: "unat (daily_ceiling new_calculator u a) = ?t * 3"
    using assms by (simp add: daily_ceiling_def unat_saturating_mul)
  have "?t = 7200 * (?t div 7200) + ?t mod 7200" "?t mod 7200 < 7200"
    by simp_all
  then show ?thesis unfolding c d by linarith
qed

text \<open>The unit-test inputs of the crate, and the input on which the two ceilings part company.\<close>

theorem block_ceiling_within_daily_witness:
  "unat (1000::u64) * unat (500::u64) * 3 < 2 ^ 64
     \<and> unat (calculate_ceiling new_calculator 1000 500) = 207
     \<and> 7200 * unat (calculate_ceiling new_calculator 1000 500)
         \<le> unat (daily_ceiling new_calculator 1000 500)"
  using block_ceiling_within_daily [of 1000 500] by simp

text \<open>
  Outside that range the two figures disagree: for \<open>2 ^ 32\<close> users at \<open>2 ^ 32\<close> PRM each, the daily
  ceiling saturates at the largest \<open>u64\<close> while the wrapped product makes the per-block ceiling,
  and the proposal built from it, zero.
\<close>

theorem block_ceiling_wraps_to_zero:
  "cp_block_ceiling (propose new_calculator now (2 ^ 32) (2 ^ 32)) = 0
     \<and> daily_ceiling new_calculator (2 ^ 32) (2 ^ 32) = - 1"
  by (simp add: propose_def calculate_ceiling_def daily_ceiling_def saturating_mul_def
      unat_max_word)

end
