(* ===== verification/Onchain_Client.thy ===== *)
theory Onchain_Client
  imports Common "HOL-Library.Sublist"
begin

text \<open>
  \<open>crates/onchain-client/src/lib.rs\<close>: reads of the chain, price submission with nonce retries, the
  mint lifecycle calls and the two cached readers. RPC calls are parameters over a world state
  \<open>'w\<close>: they fail with the text of the transport or contract error. Key material and JSON
  encoding are parameters of the proposal signature.
\<close>

section \<open>Errors and conversions\<close>

datatype onchain_client_error =
    OcTransport string
  | OcInvalidUrl string
  | OcSerialization string
  | OcSigning string
  | OcContract string

fun oc_error_display :: "onchain_client_error \<Rightarrow> string" where
  "oc_error_display (OcTransport e) = ''transport error: '' @ e"
| "oc_error_display (OcInvalidUrl url) = ''invalid rpc url: '' @ url"
| "oc_error_display (OcSerialization e) = ''serialization error: '' @ e"
| "oc_error_display (OcSigning e) = ''signing error: '' @ e"
| "oc_error_display (OcContract msg) = ''contract error: '' @ msg"

type_synonym ('w, 'a) rpc = "('w, string, 'a) act"
type_synonym ('w, 'a) chain_act = "('w, onchain_client_error, 'a) act"

definition callE :: "('w, 'a) rpc \<Rightarrow> ('w, 'a) chain_act" where
  "callE m = map_errE OcContract m"

definition try_u128 :: "u256 \<Rightarrow> u128 option" where
  "try_u128 v = (if unat v < 2 ^ 128 then Some (ucast v) else None)"

definition try_u64 :: "u256 \<Rightarrow> u64 option" where
  "try_u64 v = (if unat v < 2 ^ 64 then Some (ucast v) else None)"

definition orE :: "'a option \<Rightarrow> string \<Rightarrow> ('w, 'a) chain_act" where
  "orE v msg = (case v of Some a \<Rightarrow> okE a | None \<Rightarrow> errE (OcContract msg))"

definition commodity_to_u8 :: "commodity \<Rightarrow> u8" where
  "commodity_to_u8 c = (case c of Gold \<Rightarrow> 0 | Platinum \<Rightarrow> 1 | Silver \<Rightarrow> 2 | CrudeOil \<Rightarrow> 3)"

section \<open>Chain reads and proposal signing\<close>

record 'w onchain_client =
  oc_block_number :: "('w, u64) rpc"
  oc_block_by_number :: "u64 \<Rightarrow> ('w, bytes option) rpc"
  oc_chain_id :: u64

definition get_block_number :: "'w onchain_client \<Rightarrow> ('w, u64) chain_act" where
  "get_block_number c = map_errE OcTransport (oc_block_number c)"

definition get_block_hash :: "'w onchain_client \<Rightarrow> u64 \<Rightarrow> ('w, bytes option) chain_act" where
  "get_block_hash c n = map_errE OcTransport (oc_block_by_number c n)"

definition sign_proposal ::
    "(mint_proposal \<Rightarrow> string + bytes) \<Rightarrow> ('sk \<Rightarrow> bytes \<Rightarrow> string + signature) \<Rightarrow> (signature \<Rightarrow> bytes)
       \<Rightarrow> mint_proposal \<Rightarrow> 'sk \<Rightarrow> onchain_client_error + bytes" where
  "sign_proposal to_vec sign as_bytes proposal signing_key =
     (case to_vec proposal of
        Inl e \<Rightarrow> Inl (OcSerialization e)
      | Inr json \<Rightarrow> (case sign signing_key json of
            Inl e \<Rightarrow> Inl (OcSigning e)
          | Inr signature \<Rightarrow> Inr (as_bytes signature)))"

section \<open>Price submission\<close>

record receipt =
  rc_status :: bool
  rc_transaction_hash :: bytes

record ('w, 'p) oracle_submitter =
  os_transaction_count :: "address \<Rightarrow> ('w, u64) rpc"
  os_submit_price :: "u8 \<Rightarrow> u256 \<Rightarrow> u64 \<Rightarrow> ('w, 'p) rpc"
  os_get_receipt :: "'p \<Rightarrow> ('w, receipt) rpc"
  os_signer_address :: address

definition MAX_NONCE_RETRIES :: nat where "MAX_NONCE_RETRIES = 5"

fun contains :: "string \<Rightarrow> string \<Rightarrow> bool" where
  "contains pat [] = (pat = [])"
| "contains pat (c # cs) = (prefix pat (c # cs) \<or> contains pat cs)"

definition is_nonce_error :: "string \<Rightarrow> bool" where
  "is_nonce_error message =
     (let m = to_lowercase message
      in contains ''nonce'' m \<or> contains ''already known'' m
         \<or> contains ''replacement transaction underpriced'' m)"

text \<open>One attempt: fetch the pending nonce, send with it, wait for the receipt.\<close>

definition send_once ::
    "('w, 'p) oracle_submitter \<Rightarrow> u8 \<Rightarrow> u128 \<Rightarrow> u64 \<Rightarrow> ('w, receipt) chain_act" where
  "send_once os commodity price nonce =
     tryE (callE (os_submit_price os commodity (ucast price) nonce)) (\<lambda>pending.
       callE (os_get_receipt os pending))"

function submit_loop ::
    "('w, 'p) oracle_submitter \<Rightarrow> u8 \<Rightarrow> u128 \<Rightarrow> nat \<Rightarrow> ('w, bytes) chain_act" where
  "submit_loop os commodity price attempt_no =
     tryE (callE (os_transaction_count os (os_signer_address os))) (\<lambda>nonce.
     attempt (send_once os commodity price nonce) (\<lambda>send_result. case send_result of
         Inr receipt \<Rightarrow>
           if \<not> rc_status receipt then errE (OcContract ''transaction reverted'')
           else okE (rc_transaction_hash receipt)
       | Inl (OcContract message) \<Rightarrow>
           if is_nonce_error message \<and> attempt_no < MAX_NONCE_RETRIES
           then submit_loop os commodity price (attempt_no + 1)
           else errE (OcContract message)
       | Inl e \<Rightarrow> errE e))"
  by pat_completeness auto
termination
  by (relation "measure (\<lambda>(os, c, p, n). MAX_NONCE_RETRIES - n)") auto

declare submit_loop.simps [simp del]

definition submit_price ::
    "('w, 'p) oracle_submitter \<Rightarrow> u8 \<Rightarrow> u128 \<Rightarrow> ('w, bytes) chain_act" where
  "submit_price os commodity price = submit_loop os commodity price 0"

section \<open>The mint lifecycle\<close>

record onchain_proposal =
  op_session_id :: bytes
  op_recipient :: address
  op_amount :: u128
  op_proposed_at :: u64
  op_approvals :: u8
  op_executed :: bool
  op_cancelled :: bool

record raw_proposal =
  rp_session_id :: bytes
  rp_recipient :: address
  rp_amount :: u256
  rp_proposed_at :: u256
  rp_approvals :: u8
  rp_executed :: bool
  rp_cancelled :: bool

record ('w, 'p) mining_writer =
  mw_proposeMint :: "bytes \<Rightarrow> bytes \<Rightarrow> address \<Rightarrow> u256 \<Rightarrow> ('w, 'p) rpc"
  mw_approveMint :: "bytes \<Rightarrow> ('w, 'p) rpc"
  mw_executeMint :: "bytes \<Rightarrow> ('w, 'p) rpc"
  mw_cancelMint :: "bytes \<Rightarrow> ('w, 'p) rpc"
  mw_get_receipt :: "'p \<Rightarrow> ('w, receipt) rpc"
  mw_proposals :: "bytes \<Rightarrow> ('w, raw_proposal) rpc"

definition confirmed_tx :: "('w, 'p) mining_writer \<Rightarrow> ('w, 'p) rpc \<Rightarrow> ('w, bytes) chain_act" where
  "confirmed_tx mw send =
     tryE (callE send) (\<lambda>pending.
     tryE (callE (mw_get_receipt mw pending)) (\<lambda>receipt.
       if \<not> rc_status receipt then errE (OcContract ''transaction reverted'')
       else okE (rc_transaction_hash receipt)))"

definition propose_mint ::
    "('w, 'p) mining_writer \<Rightarrow> bytes \<Rightarrow> bytes \<Rightarrow> address \<Rightarrow> u128 \<Rightarrow> ('w, bytes) chain_act" where
  "propose_mint mw proposal_id session_id recipient amount =
     confirmed_tx mw (mw_proposeMint mw proposal_id session_id recipient (ucast amount))"

definition approve_mint :: "('w, 'p) mining_writer \<Rightarrow> bytes \<Rightarrow> ('w, bytes) chain_act" where
  "approve_mint mw proposal_id = confirmed_tx mw (mw_approveMint mw proposal_id)"

definition execute_mint :: "('w, 'p) mining_writer \<Rightarrow> bytes \<Rightarrow> ('w, bytes) chain_act" where
  "execute_mint mw proposal_id = confirmed_tx mw (mw_executeMint mw proposal_id)"

definition cancel_mint :: "('w, 'p) mining_writer \<Rightarrow> bytes \<Rightarrow> ('w, bytes) chain_act" where
  "cancel_mint mw proposal_id = confirmed_tx mw (mw_cancelMint mw proposal_id)"

definition get_proposal :: "('w, 'p) mining_writer \<Rightarrow> bytes \<Rightarrow> ('w, onchain_proposal) chain_act" where
  "get_proposal mw proposal_id =
     tryE (callE (mw_proposals mw proposal_id)) (\<lambda>ret.
     tryE (orE (try_u128 (rp_amount ret)) ''amount overflows u128'') (\<lambda>amount.
     tryE (orE (try_u64 (rp_proposed_at ret)) ''proposedAt overflows u64'') (\<lambda>proposed_at.
     okE \<lparr>op_session_id = rp_session_id ret, op_recipient = rp_recipient ret, op_amount = amount,
          op_proposed_at = proposed_at, op_approvals = rp_approvals ret,
          op_executed = rp_executed ret, op_cancelled = rp_cancelled ret\<rparr>)))"

section \<open>Stakes\<close>

record stake_info =
  si_amount :: u128
  si_lock_period :: u8
  si_active :: bool

text \<open>\<open>stakes\<close> is the contract's view: amount, lock period, two timestamps and the active flag.\<close>

type_synonym 'w staking_reader = "address \<Rightarrow> ('w, u256 \<times> u8 \<times> u256 \<times> u256 \<times> bool) rpc"

definition read_stake :: "'w staking_reader \<Rightarrow> address \<Rightarrow> ('w, stake_info) chain_act" where
  "read_stake stakes wallet =
     tryE (callE (stakes wallet)) (\<lambda>(amount_raw, lock_period, staked_at, unlock_at, active).
     tryE (orE (try_u128 amount_raw) ''stake amount overflows u128'') (\<lambda>amount.
     okE \<lparr>si_amount = amount, si_lock_period = lock_period, si_active = active\<rparr>))"

section \<open>Cached readers\<close>

text \<open>
  The cache of a reader is part of its state. \<open>now\<close> is the instant at which the cache is read and
  \<open>fetched\<close> the instant after the call, at which a new value is stored.
\<close>

record 'w house_edge_reader =
  he_currentEdgeBps :: "('w, u256) rpc"
  he_ttl :: int
  he_cache :: "(u128 \<times> int) option"

definition read_edge :: "'w house_edge_reader \<Rightarrow> ('w, u128) chain_act" where
  "read_edge he =
     tryE (callE (he_currentEdgeBps he)) (\<lambda>edge_bps.
       orE (try_u128 edge_bps) ''edge bps overflows u128'')"

definition current_edge_bps ::
    "int \<Rightarrow> int \<Rightarrow> 'w house_edge_reader \<Rightarrow> 'w
       \<Rightarrow> (onchain_client_error + u128) \<times> 'w house_edge_reader \<times> 'w" where
  "current_edge_bps now fetched he w =
     (case he_cache he of
        Some (edge_bps, fetched_at) \<Rightarrow>
          if now - fetched_at < he_ttl he then (Inr edge_bps, he, w)
          else (case read_edge he w of
              (Inl e, w') \<Rightarrow> (Inl e, he, w')
            | (Inr edge, w') \<Rightarrow> (Inr edge, he\<lparr>he_cache := Some (edge, fetched)\<rparr>, w'))
      | None \<Rightarrow> (case read_edge he w of
            (Inl e, w') \<Rightarrow> (Inl e, he, w')
          | (Inr edge, w') \<Rightarrow> (Inr edge, he\<lparr>he_cache := Some (edge, fetched)\<rparr>, w')))"

record reserve_balances =
  rb_usdc :: u128
  rb_usdt :: u128
  rb_total_reserve_usd :: u128
  rb_total_redeemed_usd :: u128

record 'w treasury_reader =
  tr_usdc :: "('w, address) rpc"
  tr_usdt :: "('w, address) rpc"
  tr_balance_of :: "address \<Rightarrow> address \<Rightarrow> ('w, u256) rpc"
  tr_total_reserve_usd :: "('w, u256) rpc"
  tr_total_redeemed_usd :: "('w, u256) rpc"
  tr_treasury_address :: address
  tr_ttl :: int
  tr_cache :: "(reserve_balances \<times> int) option"

definition read_balances :: "'w treasury_reader \<Rightarrow> ('w, reserve_balances) chain_act" where
  "read_balances tr =
     tryE (callE (tr_usdc tr)) (\<lambda>usdc_addr.
     tryE (callE (tr_usdt tr)) (\<lambda>usdt_addr.
     tryE (callE (tr_balance_of tr usdc_addr (tr_treasury_address tr))) (\<lambda>usdc_raw.
     tryE (callE (tr_balance_of tr usdt_addr (tr_treasury_address tr))) (\<lambda>usdt_raw.
     tryE (callE (tr_total_reserve_usd tr)) (\<lambda>reserve_raw.
     tryE (callE (tr_total_redeemed_usd tr)) (\<lambda>redeemed_raw.
     tryE (orE (try_u128 usdc_raw) ''usdc balance overflows u128'') (\<lambda>usdc.
     tryE (orE (try_u128 usdt_raw) ''usdt balance overflows u128'') (\<lambda>usdt.
     tryE (orE (try_u128 reserve_raw) ''total reserve overflows u128'') (\<lambda>total_reserve.
     tryE (orE (try_u128 redeemed_raw) ''total redeemed overflows u128'') (\<lambda>total_redeemed.
     okE \<lparr>rb_usdc = usdc, rb_usdt = usdt, rb_total_reserve_usd = total_reserve,
          rb_total_redeemed_usd = total_redeemed\<rparr>))))))))))"

definition current_reserve_balances ::
    "int \<Rightarrow> int \<Rightarrow> 'w treasury_reader \<Rightarrow> 'w
       \<Rightarrow> (onchain_client_error + reserve_balances) \<times> 'w treasury_reader \<times> 'w" where
  "current_reserve_balances now fetched tr w =
     (case tr_cache tr of
        Some (balances, fetched_at) \<Rightarrow>
          if now - fetched_at < tr_ttl tr then (Inr balances, tr, w)
          else (case read_balances tr w of
              (Inl e, w') \<Rightarrow> (Inl e, tr, w')
            | (Inr b, w') \<Rightarrow> (Inr b, tr\<lparr>tr_cache := Some (b, fetched)\<rparr>, w'))
      | None \<Rightarrow> (case read_balances tr w of
            (Inl e, w') \<Rightarrow> (Inl e, tr, w')
          | (Inr b, w') \<Rightarrow> (Inr b, tr\<lparr>tr_cache := Some (b, fetched)\<rparr>, w')))"

section \<open>Constructors\<close>

text \<open>
  The provider library: parsing of an address, the address of a signing key, and the calls of a
  provider bound to an address, of a contract bound to a provider, and with a wallet where it sends.
\<close>

record ('w, 'p, 'k) alloy =
  ay_parse_url :: "string \<Rightarrow> string option"
  ay_address :: "'k \<Rightarrow> address"
  ay_get_block_number :: "string \<Rightarrow> ('w, u64) rpc"
  ay_get_block :: "string \<Rightarrow> u64 \<Rightarrow> ('w, bytes option) rpc"
  ay_transaction_count :: "string \<Rightarrow> address \<Rightarrow> ('w, u64) rpc"
  ay_submitPrice :: "string \<Rightarrow> 'k \<Rightarrow> address \<Rightarrow> u8 \<Rightarrow> u256 \<Rightarrow> u64 \<Rightarrow> ('w, 'p) rpc"
  ay_get_receipt :: "string \<Rightarrow> 'p \<Rightarrow> ('w, receipt) rpc"
  ay_proposeMint :: "string \<Rightarrow> 'k \<Rightarrow> address \<Rightarrow> bytes \<Rightarrow> bytes \<Rightarrow> address \<Rightarrow> u256 \<Rightarrow> ('w, 'p) rpc"
  ay_approveMint :: "string \<Rightarrow> 'k \<Rightarrow> address \<Rightarrow> bytes \<Rightarrow> ('w, 'p) rpc"
  ay_executeMint :: "string \<Rightarrow> 'k \<Rightarrow> address \<Rightarrow> bytes \<Rightarrow> ('w, 'p) rpc"
  ay_cancelMint :: "string \<Rightarrow> 'k \<Rightarrow> address \<Rightarrow> bytes \<Rightarrow> ('w, 'p) rpc"
  ay_proposals :: "string \<Rightarrow> address \<Rightarrow> bytes \<Rightarrow> ('w, raw_proposal) rpc"
  ay_stakes :: "string \<Rightarrow> address \<Rightarrow> 'w staking_reader"
  ay_currentEdgeBps :: "string \<Rightarrow> address \<Rightarrow> ('w, u256) rpc"
  ay_usdc :: "string \<Rightarrow> address \<Rightarrow> ('w, address) rpc"
  ay_usdt :: "string \<Rightarrow> address \<Rightarrow> ('w, address) rpc"
  ay_balanceOf :: "string \<Rightarrow> address \<Rightarrow> address \<Rightarrow> ('w, u256) rpc"
  ay_totalReserveUsd :: "string \<Rightarrow> address \<Rightarrow> ('w, u256) rpc"
  ay_totalRedeemedUsd :: "string \<Rightarrow> address \<Rightarrow> ('w, u256) rpc"

definition with_url :: "('w, 'p, 'k) alloy \<Rightarrow> string \<Rightarrow> (string \<Rightarrow> 'a) \<Rightarrow> onchain_client_error + 'a" where
  "with_url A rpc_url f =
     (case ay_parse_url A rpc_url of None \<Rightarrow> Inl (OcInvalidUrl rpc_url) | Some url \<Rightarrow> Inr (f url))"

definition new_onchain_client :: "('w, 'p, 'k) alloy \<Rightarrow> string \<Rightarrow> u64 \<Rightarrow> onchain_client_error + 'w onchain_client" where
  "new_onchain_client A rpc_url cid = with_url A rpc_url (\<lambda>url.
     \<lparr>oc_block_number = ay_get_block_number A url, oc_block_by_number = ay_get_block A url,
      oc_chain_id = cid\<rparr>)"

definition new_oracle_submitter ::
    "('w, 'p, 'k) alloy \<Rightarrow> string \<Rightarrow> 'k \<Rightarrow> address \<Rightarrow> onchain_client_error + ('w, 'p) oracle_submitter" where
  "new_oracle_submitter A rpc_url signing_key aggregator_address = with_url A rpc_url (\<lambda>url.
     \<lparr>os_transaction_count = ay_transaction_count A url,
      os_submit_price = ay_submitPrice A url signing_key aggregator_address,
      os_get_receipt = ay_get_receipt A url, os_signer_address = ay_address A signing_key\<rparr>)"

definition new_mining_writer ::
    "('w, 'p, 'k) alloy \<Rightarrow> string \<Rightarrow> 'k \<Rightarrow> address \<Rightarrow> onchain_client_error + ('w, 'p) mining_writer" where
  "new_mining_writer A rpc_url signing_key mining_address = with_url A rpc_url (\<lambda>url.
     \<lparr>mw_proposeMint = ay_proposeMint A url signing_key mining_address,
      mw_approveMint = ay_approveMint A url signing_key mining_address,
      mw_executeMint = ay_executeMint A url signing_key mining_address,
      mw_cancelMint = ay_cancelMint A url signing_key mining_address,
      mw_get_receipt = ay_get_receipt A url, mw_proposals = ay_proposals A url mining_address\<rparr>)"

definition new_staking_reader :: "('w, 'p, 'k) alloy \<Rightarrow> string \<Rightarrow> address \<Rightarrow> onchain_client_error + 'w staking_reader" where
  "new_staking_reader A rpc_url staking_address = with_url A rpc_url (\<lambda>url. ay_stakes A url staking_address)"

definition new_house_edge_reader ::
    "('w, 'p, 'k) alloy \<Rightarrow> string \<Rightarrow> address \<Rightarrow> int \<Rightarrow> onchain_client_error + 'w house_edge_reader" where
  "new_house_edge_reader A rpc_url house_edge_address ttl = with_url A rpc_url (\<lambda>url.
     \<lparr>he_currentEdgeBps = ay_currentEdgeBps A url house_edge_address, he_ttl = ttl, he_cache = None\<rparr>)"

definition new_treasury_reader ::
    "('w, 'p, 'k) alloy \<Rightarrow> string \<Rightarrow> address \<Rightarrow> int \<Rightarrow> onchain_client_error + 'w treasury_reader" where
  "new_treasury_reader A rpc_url treasury_address ttl = with_url A rpc_url (\<lambda>url.
     \<lparr>tr_usdc = ay_usdc A url treasury_address, tr_usdt = ay_usdt A url treasury_address,
      tr_balance_of = ay_balanceOf A url, tr_total_reserve_usd = ay_totalReserveUsd A url treasury_address,
      tr_total_redeemed_usd = ay_totalRedeemedUsd A url treasury_address,
      tr_treasury_address = treasury_address, tr_ttl = ttl, tr_cache = None\<rparr>)"

lemma with_url_Inr: "with_url A u f = Inr x \<longleftrightarrow> (\<exists>url. ay_parse_url A u = Some url \<and> x = f url)"
  by (auto simp: with_url_def split: option.splits)

section \<open>The retry loop\<close>

text \<open>What an attempt comes to: the nonce could not be fetched, the send failed, or it was mined.\<close>

datatype attempt_outcome =
    NoNonce onchain_client_error
  | NotSent onchain_client_error
  | Mined receipt

definition one_attempt ::
    "('w, 'p) oracle_submitter \<Rightarrow> u8 \<Rightarrow> u128 \<Rightarrow> 'w \<Rightarrow> attempt_outcome \<times> 'w" where
  "one_attempt os c p w =
     (case callE (os_transaction_count os (os_signer_address os)) w of
        (Inl e, w1) \<Rightarrow> (NoNonce e, w1)
      | (Inr nonce, w1) \<Rightarrow> (case send_once os c p nonce w1 of
            (Inl e, w2) \<Rightarrow> (NotSent e, w2)
          | (Inr r, w2) \<Rightarrow> (Mined r, w2)))"

fun conflict :: "attempt_outcome \<Rightarrow> bool" where
  "conflict (NotSent (OcContract m)) = is_nonce_error m"
| "conflict _ = False"

fun run_attempts ::
    "nat \<Rightarrow> ('w, 'p) oracle_submitter \<Rightarrow> u8 \<Rightarrow> u128 \<Rightarrow> 'w \<Rightarrow> attempt_outcome list \<times> 'w" where
  "run_attempts 0 os c p w = ([], w)"
| "run_attempts (Suc n) os c p w =
     (case one_attempt os c p w of (out, w1) \<Rightarrow>
        if conflict out then (case run_attempts n os c p w1 of (outs, w2) \<Rightarrow> (out # outs, w2))
        else ([out], w1))"

fun attempt_verdict :: "attempt_outcome \<Rightarrow> onchain_client_error + bytes" where
  "attempt_verdict (NoNonce e) = Inl e"
| "attempt_verdict (NotSent e) = Inl e"
| "attempt_verdict (Mined r) =
     (if rc_status r then Inr (rc_transaction_hash r) else Inl (OcContract ''transaction reverted''))"

lemma submit_loop_step:
  "submit_loop os c p n w =
     (case one_attempt os c p w of (out, w1) \<Rightarrow>
        if conflict out \<and> n < 5 then submit_loop os c p (n + 1) w1 else (attempt_verdict out, w1))"
  by (subst submit_loop.simps)
     (auto simp: one_attempt_def tryE_def attempt_def okE_def errE_def MAX_NONCE_RETRIES_def
       split: prod.splits sum.splits onchain_client_error.splits)

lemma run_attempts_ne: "0 < n \<Longrightarrow> fst (run_attempts n os c p w) \<noteq> []"
  by (cases n) (auto split: prod.splits)

lemma submit_loop_runs:
  assumes "n \<le> 5" and "run_attempts (6 - n) os c p w = (outs, w')"
  shows "submit_loop os c p n w = (attempt_verdict (last outs), w')"
  using assms
proof (induction "5 - n" arbitrary: n w outs w')
  case 0
  then have "n = 5" by simp
  with 0 show ?case
    by (subst submit_loop_step) (auto simp: numeral_eq_Suc split: prod.splits if_splits)
next
  case (Suc k)
  have n: "6 - n = Suc (6 - (n + 1))" "n < 5" using Suc.hyps(2) by auto
  obtain out w1 where out: "one_attempt os c p w = (out, w1)" by fastforce
  show ?case
  proof (cases "conflict out")
    case False
    then show ?thesis using Suc.prems(2) out n by (auto simp: submit_loop_step [of os c p n])
  next
    case True
    obtain outs' w2 where rest: "run_attempts (6 - (n + 1)) os c p w1 = (outs', w2)" by fastforce
    have "outs' \<noteq> []" using run_attempts_ne [of "6 - (n + 1)" os c p w1] rest n by auto
    moreover have "submit_loop os c p (n + 1) w1 = (attempt_verdict (last outs'), w2)"
      using Suc.hyps n rest by (intro Suc.hyps(1)) auto
    ultimately show ?thesis
      using Suc.prems(2) out n True rest by (auto simp: submit_loop_step [of os c p n])
  qed
qed

lemma run_attempts_empty: "run_attempts n os c p w = ([], w') \<Longrightarrow> n = 0"
  using run_attempts_ne [of n os c p w] by auto

lemma run_attempts_shape:
  assumes "run_attempts n os c p w = (outs, w')"
  shows "length outs \<le> n \<and> list_all conflict (butlast outs)
     \<and> (outs \<noteq> [] \<and> conflict (last outs) \<longrightarrow> length outs = n)"
  using assms
proof (induction n arbitrary: w outs w')
  case (Suc n)
  obtain out w1 where out: "one_attempt os c p w = (out, w1)" by fastforce
  show ?case
  proof (cases "conflict out")
    case False
    then show ?thesis using Suc.prems out by auto
  next
    case True
    obtain outs' w2 where rest: "run_attempts n os c p w1 = (outs', w2)" by fastforce
    then show ?thesis using Suc.prems Suc.IH [OF rest] out True
      by (cases "outs' = []") (auto simp: run_attempts_empty)
  qed
qed simp

definition final :: "attempt_outcome \<Rightarrow> bool" where
  "final out \<longleftrightarrow> \<not> conflict out"

text \<open>
  C30: price submission retries nonce conflicts and nothing else, each time with a freshly fetched
  nonce, for at most six attempts in all; it always returns. Its result is that of the last
  attempt made: success exactly when that attempt was mined with a good status, and a nonce
  conflict is reported only after all six attempts met one.
\<close>

theorem submit_price_retries:
  "\<exists>outs w'. run_attempts 6 os c p w = (outs, w') \<and> submit_price os c p w = (attempt_verdict (last outs), w')
     \<and> outs \<noteq> [] \<and> length outs \<le> 6 \<and> list_all conflict (butlast outs)
     \<and> (length outs = 6 \<or> final (last outs))"
proof -
  obtain outs w' where run: "run_attempts 6 os c p w = (outs, w')" by fastforce
  then show ?thesis
    using submit_loop_runs [of 0 os c p w outs w'] run_attempts_ne [of 6 os c p w]
      run_attempts_shape [OF run] by (auto simp: submit_price_def final_def)
qed

section \<open>Cached reads\<close>

text \<open>
  The contract of a reader with a time-to-live cache: a value younger than the time to live is
  served without a call; otherwise the chain is read, a success is cached with its time and a
  failure is reported and leaves the cache as it was.
\<close>

locale ttl_cache =
  fixes read :: "int \<Rightarrow> int \<Rightarrow> 'c \<Rightarrow> 'w \<Rightarrow> ('e + 'v) \<times> 'c \<times> 'w"
    and fetch :: "'c \<Rightarrow> 'w \<Rightarrow> ('e + 'v) \<times> 'w"
    and cached :: "'c \<Rightarrow> ('v \<times> int) option"
    and ttl :: "'c \<Rightarrow> int"
  assumes hit: "cached c = Some (v, t) \<Longrightarrow> now - t < ttl c \<Longrightarrow> read now f c w = (Inr v, c, w)"
    and miss_err: "\<forall>v t. cached c = Some (v, t) \<longrightarrow> ttl c \<le> now - t \<Longrightarrow> fetch c w = (Inl e, w')
      \<Longrightarrow> read now f c w = (Inl e, c, w')"
    and miss_ok: "\<forall>v t. cached c = Some (v, t) \<longrightarrow> ttl c \<le> now - t \<Longrightarrow> fetch c w = (Inr v, w')
      \<Longrightarrow> \<exists>c'. read now f c w = (Inr v, c', w') \<and> cached c' = Some (v, f) \<and> ttl c' = ttl c \<and> fetch c' = fetch c"
begin

lemma read_cases:
  obtains (served) v t where "cached c = Some (v, t)" "now - t < ttl c" "read now f c w = (Inr v, c, w)"
  | (failed) e w' where "fetch c w = (Inl e, w')" "read now f c w = (Inl e, c, w')"
  | (fetched) v w' c' where "fetch c w = (Inr v, w')" "read now f c w = (Inr v, c', w')"
      "cached c' = Some (v, f)" "ttl c' = ttl c" "fetch c' = fetch c"
proof (cases "\<exists>v t. cached c = Some (v, t) \<and> now - t < ttl c")
  case True
  then show ?thesis using hit that(1) by blast
next
  case False
  then have stale: "\<forall>v t. cached c = Some (v, t) \<longrightarrow> ttl c \<le> now - t" by force
  show ?thesis
  proof (cases "fetch c w")
    case (Pair r w')
    show ?thesis
    proof (cases r)
      case (Inl e)
      then show ?thesis using Pair miss_err [OF stale] that(2) by blast
    next
      case (Inr v)
      then show ?thesis using Pair miss_ok [OF stale] that(3) by blast
    qed
  qed
qed

end

text \<open>
  Reads over time: before each one the world moves by an environment step; the log keeps the two
  instants, the world and the result of each.
\<close>

fun reads_run ::
    "(int \<Rightarrow> int \<Rightarrow> 'c \<Rightarrow> 'w \<Rightarrow> ('e + 'v) \<times> 'c \<times> 'w) \<Rightarrow> (('w \<Rightarrow> 'w) \<times> int \<times> int) list \<Rightarrow> 'c \<Rightarrow> 'w
       \<Rightarrow> (int \<times> int \<times> 'w \<times> ('e + 'v)) list" where
  "reads_run read [] c w = []"
| "reads_run read ((env, now, f) # xs) c w =
     (case read now f c (env w) of (r, c', w') \<Rightarrow> (now, f, env w, r) # reads_run read xs c' w')"

context ttl_cache
begin

lemma run_fresh:
  assumes "(pre @ (now, f, w0, Inr v) # post) = reads_run read xs c w"
  shows "fst (fetch c w0) = Inr v
     \<or> (\<exists>t. cached c = Some (v, t) \<and> now - t < ttl c)
     \<or> (\<exists>now' f' w'. (now', f', w', Inr v) \<in> set pre \<and> fst (fetch c w') = Inr v \<and> now - f' < ttl c)"
  using assms
proof (induction xs arbitrary: pre c w)
  case (Cons x xs)
  obtain env n g where x: "x = (env, n, g)" by (cases x)
  obtain r c' w' where rd: "read n g c (env w) = (r, c', w')" by (metis prod_cases3)
  have log: "pre @ (now, f, w0, Inr v) # post = (n, g, env w, r) # reads_run read xs c' w'"
    using Cons.prems x rd by simp
  show ?case
  proof (cases pre)
    case Nil
    then have "n = now" "env w = w0" "r = Inr v" using log by auto
    then show ?thesis using rd by (cases rule: read_cases [of c n g "env w"]) auto
  next
    case (Cons y ys)
    then have y: "y = (n, g, env w, r)" and ys: "ys @ (now, f, w0, Inr v) # post = reads_run read xs c' w'"
      using log by auto
    have IH: "fst (fetch c' w0) = Inr v \<or> (\<exists>t. cached c' = Some (v, t) \<and> now - t < ttl c')
       \<or> (\<exists>now' f' w'. (now', f', w', Inr v) \<in> set ys \<and> fst (fetch c' w') = Inr v \<and> now - f' < ttl c')"
      using Cons.IH [OF ys] .
    show ?thesis
      using IH rd Cons y by (cases rule: read_cases [of c n g "env w"]) fastforce+
  qed
qed simp

end

interpretation edge_cache: ttl_cache current_edge_bps read_edge he_cache he_ttl
proof unfold_locales
  fix now f t w and he :: "'a house_edge_reader" and v :: u128
  assume "he_cache he = Some (v, t)" "now - t < he_ttl he"
  then show "current_edge_bps now f he w = (Inr v, he, w)" by (simp add: current_edge_bps_def)
next
  fix now f w e w' and he :: "'a house_edge_reader"
  assume "\<forall>v t. he_cache he = Some (v, t) \<longrightarrow> he_ttl he \<le> now - t" "read_edge he w = (Inl e, w')"
  then show "current_edge_bps now f he w = (Inl e, he, w')"
    by (auto simp: current_edge_bps_def split: option.splits)
next
  fix now f w v w' and he :: "'a house_edge_reader"
  assume *: "\<forall>v t. he_cache he = Some (v, t) \<longrightarrow> he_ttl he \<le> now - t" "read_edge he w = (Inr v, w')"
  have "current_edge_bps now f he w = (Inr v, he\<lparr>he_cache := Some (v, f)\<rparr>, w')"
    using * by (auto simp: current_edge_bps_def split: option.splits)
  then show "\<exists>c'. current_edge_bps now f he w = (Inr v, c', w') \<and> he_cache c' = Some (v, f)
      \<and> he_ttl c' = he_ttl he \<and> read_edge c' = read_edge he"
    by (simp add: read_edge_def)
qed

interpretation reserve_cache: ttl_cache current_reserve_balances read_balances tr_cache tr_ttl
proof unfold_locales
  fix now f t w and tr :: "'a treasury_reader" and v :: reserve_balances
  assume "tr_cache tr = Some (v, t)" "now - t < tr_ttl tr"
  then show "current_reserve_balances now f tr w = (Inr v, tr, w)" by (simp add: current_reserve_balances_def)
next
  fix now f w e w' and tr :: "'a treasury_reader"
  assume "\<forall>v t. tr_cache tr = Some (v, t) \<longrightarrow> tr_ttl tr \<le> now - t" "read_balances tr w = (Inl e, w')"
  then show "current_reserve_balances now f tr w = (Inl e, tr, w')"
    by (auto simp: current_reserve_balances_def split: option.splits)
next
  fix now f w v w' and tr :: "'a treasury_reader"
  assume *: "\<forall>v t. tr_cache tr = Some (v, t) \<longrightarrow> tr_ttl tr \<le> now - t" "read_balances tr w = (Inr v, w')"
  have "current_reserve_balances now f tr w = (Inr v, tr\<lparr>tr_cache := Some (v, f)\<rparr>, w')"
    using * by (auto simp: current_reserve_balances_def split: option.splits)
  then show "\<exists>c'. current_reserve_balances now f tr w = (Inr v, c', w') \<and> tr_cache c' = Some (v, f)
      \<and> tr_ttl c' = tr_ttl tr \<and> read_balances c' = read_balances tr"
    by (simp add: read_balances_def)
qed

text \<open>
  The house edge is never staler than its time to live. In any sequence of reads from an empty
  cache, with the chain changing in between, every edge returned is what the contract answered to
  that read or to an earlier one, less than the time to live before; failed calls are never
  served from and never overwrite the cache. The reserve reader keeps the same contract.
\<close>

theorem edge_never_stale:
  assumes "he_cache he = None"
    and "reads_run current_edge_bps xs he w = pre @ (now, f, at, Inr v) # post"
  shows "fst (read_edge he at) = Inr v
     \<or> (\<exists>now' f' at'. (now', f', at', Inr v) \<in> set pre \<and> fst (read_edge he at') = Inr v \<and> now - f' < he_ttl he)"
  using edge_cache.run_fresh [OF assms(2) [symmetric]] assms(1) by auto

definition demo_edge :: "nat house_edge_reader" where
  "demo_edge = \<lparr>he_currentEdgeBps = (\<lambda>w. (Inr (of_nat w), w)), he_ttl = 60, he_cache = None\<rparr>"

theorem edge_never_stale_witness:
  "reads_run current_edge_bps [(\<lambda>w. 1700, 0, 1), (\<lambda>w. 1800, 50, 51)] demo_edge 0
     = [(0, 1, 1700, Inr 1700)] @ (50, 51, 1800, Inr 1700) # []
   \<and> (fst (read_edge demo_edge 1800) = Inr 1700
     \<or> (\<exists>now' f' at'. (now', f', at', Inr 1700) \<in> set [(0, 1, 1700, Inr 1700 :: onchain_client_error + u128)]
          \<and> fst (read_edge demo_edge at') = Inr 1700 \<and> 50 - f' < he_ttl demo_edge))"
proof -
  have run: "reads_run current_edge_bps [(\<lambda>w. 1700, 0, 1), (\<lambda>w. 1800, 50, 51)] demo_edge 0
     = [(0, 1, 1700, Inr 1700)] @ (50, 51, 1800, Inr 1700) # []"
    by (simp add: demo_edge_def current_edge_bps_def read_edge_def callE_def orE_def try_u128_def
        tryE_def map_errE_def okE_def)
  moreover have "he_cache demo_edge = None" by (simp add: demo_edge_def)
  ultimately show ?thesis using edge_never_stale [OF _ run] by simp
qed

text \<open>A provider that accepts every address and whose calls all fail.\<close>

definition idle_alloy :: "(unit, unit, unit) alloy" where
  "idle_alloy = \<lparr>ay_parse_url = Some, ay_address = (\<lambda>k. 0), ay_get_block_number = (\<lambda>u w. (Inl ''unreachable'', w)),
      ay_get_block = (\<lambda>u n w. (Inl ''unreachable'', w)), ay_transaction_count = (\<lambda>u a w. (Inl ''unreachable'', w)),
      ay_submitPrice = (\<lambda>u k a c v n w. (Inl ''unreachable'', w)), ay_get_receipt = (\<lambda>u p w. (Inl ''unreachable'', w)),
      ay_proposeMint = (\<lambda>u k a p s r v w. (Inl ''unreachable'', w)), ay_approveMint = (\<lambda>u k a p w. (Inl ''unreachable'', w)),
      ay_executeMint = (\<lambda>u k a p w. (Inl ''unreachable'', w)), ay_cancelMint = (\<lambda>u k a p w. (Inl ''unreachable'', w)),
      ay_proposals = (\<lambda>u a p w. (Inl ''unreachable'', w)), ay_stakes = (\<lambda>u a h w. (Inl ''unreachable'', w)),
      ay_currentEdgeBps = (\<lambda>u a w. (Inl ''unreachable'', w)), ay_usdc = (\<lambda>u a w. (Inl ''unreachable'', w)),
      ay_usdt = (\<lambda>u a w. (Inl ''unreachable'', w)), ay_balanceOf = (\<lambda>u t a w. (Inl ''unreachable'', w)),
      ay_totalReserveUsd = (\<lambda>u a w. (Inl ''unreachable'', w)),
      ay_totalRedeemedUsd = (\<lambda>u a w. (Inl ''unreachable'', w))\<rparr>"

end
