(* ===== verification/Twap.thy ===== *)
theory Twap
  imports Prelude
begin

text \<open>
  \<open>crates/twap-calculator/src/lib.rs\<close>: the per-session price accumulator. The sum of the sample
  prices is a wrapping \<open>u128\<close> fold, as \<open>Iterator::sum\<close> is in a release build.
\<close>

definition MIN_VALID_SESSION_SECS :: int where
  "MIN_VALID_SESSION_SECS = 600"

datatype oracle_source = Chainlink | Pyth | Api3

record price_sample =
  ps_price :: u128
  ps_sampled_at :: datetime
  ps_oracle :: oracle_source

record twap_result =
  tr_twap :: u128
  tr_sample_count :: nat
  tr_session_start :: datetime
  tr_session_end :: datetime
  tr_is_valid :: bool

record twap_calculator =
  tc_samples :: "price_sample list"
  tc_session_start :: datetime

definition twap_new :: "datetime \<Rightarrow> twap_calculator" where
  "twap_new session_start = \<lparr>tc_samples = [], tc_session_start = session_start\<rparr>"

definition add_sample :: "twap_calculator \<Rightarrow> price_sample \<Rightarrow> twap_calculator" where
  "add_sample self sample =
     (if ps_sampled_at sample < tc_session_start self then self
      else self\<lparr>tc_samples := tc_samples self @ [sample]\<rparr>)"

definition twap_calculate :: "twap_calculator \<Rightarrow> u128 option" where
  "twap_calculate self =
     (if tc_samples self = [] then None
      else let count = of_nat (length (tc_samples self));
               sum = fold (+) (map ps_price (tc_samples self)) 0
           in Some (sum div count))"

definition twap_is_valid :: "twap_calculator \<Rightarrow> bool" where
  "twap_is_valid self =
     (case rev (tc_samples self) of
        latest # _ \<Rightarrow>
          MIN_VALID_SESSION_SECS
            \<le> num_seconds (ps_sampled_at latest - tc_session_start self)
      | [] \<Rightarrow> False)"

definition sample_count :: "twap_calculator \<Rightarrow> nat" where
  "sample_count self = length (tc_samples self)"

definition finalize :: "twap_calculator \<Rightarrow> datetime \<Rightarrow> twap_result option" where
  "finalize self session_end =
     (case twap_calculate self of
        None \<Rightarrow> None
      | Some twap \<Rightarrow> Some
          \<lparr>tr_twap = twap,
           tr_sample_count = length (tc_samples self),
           tr_session_start = tc_session_start self,
           tr_session_end = session_end,
           tr_is_valid = twap_is_valid self\<rparr>)"

section \<open>Feeding a calculator\<close>

definition feed :: "twap_calculator \<Rightarrow> price_sample list \<Rightarrow> twap_calculator" where
  "feed = foldl add_sample"

lemma twap_new_sel [simp]: "tc_samples (twap_new t) = []" "tc_session_start (twap_new t) = t"
  by (simp_all add: twap_new_def)

lemma add_sample_start [simp]: "tc_session_start (add_sample c s) = tc_session_start c"
  by (simp add: add_sample_def)

lemma feed_Nil [simp]: "feed c [] = c"
  by (simp add: feed_def)

lemma feed_Cons [simp]: "feed c (s # ss) = feed (add_sample c s) ss"
  by (simp add: feed_def)

lemma feed_start [simp]: "tc_session_start (feed c ss) = tc_session_start c"
  by (induction ss arbitrary: c) simp_all

abbreviation kept :: "datetime \<Rightarrow> price_sample list \<Rightarrow> price_sample list" where
  "kept start \<equiv> filter (\<lambda>s. start \<le> ps_sampled_at s)"

lemma feed_samples: "tc_samples (feed c ss) = tc_samples c @ kept (tc_session_start c) ss"
  by (induction ss arbitrary: c) (auto simp: add_sample_def)

definition twap_inv :: "twap_calculator \<Rightarrow> bool" where
  "twap_inv c \<longleftrightarrow> (\<forall>s \<in> set (tc_samples c). tc_session_start c \<le> ps_sampled_at s)"

lemma twap_inv_new: "twap_inv (twap_new t)"
  by (simp add: twap_inv_def twap_new_def)

lemma twap_inv_add_sample: "twap_inv c \<Longrightarrow> twap_inv (add_sample c s)"
  by (auto simp: twap_inv_def add_sample_def)

lemma unat_fold_plus:
  fixes ws :: "u128 list"
  assumes "unat a + sum_list (map unat ws) < 2 ^ 128"
  shows "unat (fold (+) ws a) = unat a + sum_list (map unat ws)"
  using assms
proof (induction ws arbitrary: a)
  case Nil
  then show ?case by simp
next
  case (Cons w ws)
  have "unat (w + a) = unat w + unat a"
    using Cons.prems by (intro unat_add_exact) simp
  then show ?case
    using Cons.prems Cons.IH [of "w + a"] by (simp add: add.assoc add.left_commute)
qed

lemma unat_twap_calculate:
  assumes "tc_samples c \<noteq> []"
    and "sum_list (map (unat \<circ> ps_price) (tc_samples c)) < 2 ^ 128"
    and "length (tc_samples c) < 2 ^ 64"
  shows "\<exists>t. twap_calculate c = Some t
    \<and> unat t = sum_list (map (unat \<circ> ps_price) (tc_samples c)) div length (tc_samples c)"
proof -
  let ?ws = "map ps_price (tc_samples c)"
  have sum: "unat (fold (+) ?ws 0) = sum_list (map unat ?ws)"
    using assms(2) by (subst unat_fold_plus) (simp_all add: o_def)
  have count: "unat (of_nat (length (tc_samples c)) :: u128) = length (tc_samples c)"
    using assms(3) by (simp add: unat_of_nat take_bit_nat_eq_self)
  show ?thesis
    using assms(1) sum count by (simp add: twap_calculate_def unat_div_word o_def)
qed

section \<open>Properties\<close>

text \<open>
  A calculator fed any sequence of samples averages exactly the ones not taken before the
  session start, in whatever order they come: the result is the floor of their mean, so it lies
  between the lowest and the highest kept price. No sample is averaged when none was kept.
\<close>

theorem twap_is_mean_of_kept:
  assumes "length ss < 2 ^ 64"
    and "\<forall>s \<in> set ss. lo \<le> unat (ps_price s) \<and> unat (ps_price s) \<le> hi"
    and "length ss * hi < 2 ^ 128"
  shows "case twap_calculate (feed (twap_new start) ss) of
      None \<Rightarrow> kept start ss = []
    | Some t \<Rightarrow> kept start ss \<noteq> []
        \<and> unat t = sum_list (map (unat \<circ> ps_price) (kept start ss)) div length (kept start ss)
        \<and> lo \<le> unat t \<and> unat t \<le> hi"
proof -
  let ?c = "feed (twap_new start) ss" and ?ks = "kept start ss"
  let ?ps = "map (unat \<circ> ps_price) ?ks"
  have samples: "tc_samples ?c = ?ks" by (simp add: feed_samples twap_new_def)
  have len: "length ?ks \<le> length ss" by simp
  have bounds: "length ?ps * lo \<le> sum_list ?ps \<and> sum_list ?ps \<le> length ?ps * hi"
    using assms(2) by (intro sum_list_bounds) auto
  show ?thesis
  proof (cases "?ks = []")
    case True
    then show ?thesis using samples by (simp add: twap_calculate_def)
  next
    case False
    have "length ?ps * hi \<le> length ss * hi" using len by simp
    then have "sum_list ?ps < 2 ^ 128"
      using bounds assms(3) by linarith
    moreover have "length ?ks < 2 ^ 64" using len assms(1) by linarith
    ultimately obtain t where t: "twap_calculate ?c = Some t"
      "unat t = sum_list ?ps div length ?ks"
      using unat_twap_calculate [of ?c] False samples by auto
    have pos: "0 < length ?ks" using False by simp
    have "lo \<le> sum_list ?ps div length ?ks"
      using bounds pos by (simp add: less_eq_div_iff_mult_less_eq mult.commute)
    moreover have "sum_list ?ps div length ?ks \<le> hi"
      using bounds pos by (metis div_le_mono length_map nonzero_mult_div_cancel_left not_gr0)
    ultimately show ?thesis using t False by simp
  qed
qed

definition sample_at :: "u128 \<Rightarrow> int \<Rightarrow> price_sample" where
  "sample_at p secs = \<lparr>ps_price = p, ps_sampled_at = secs * nanos_per_sec, ps_oracle = Chainlink\<rparr>"

theorem twap_is_mean_of_kept_witness:
  "twap_calculate (feed (twap_new 0)
       [sample_at 7 (-1), sample_at 320400000000 0, sample_at 320600000000 700]) = Some 320500000000
   \<and> unat (320500000000 :: u128) \<le> 320600000000"
proof -
  let ?ss = "[sample_at 7 (-1), sample_at 320400000000 0, sample_at 320600000000 700]"
  have "case twap_calculate (feed (twap_new 0) ?ss) of
      None \<Rightarrow> kept 0 ?ss = []
    | Some t \<Rightarrow> kept 0 ?ss \<noteq> []
        \<and> unat t = sum_list (map (unat \<circ> ps_price) (kept 0 ?ss)) div length (kept 0 ?ss)
        \<and> 7 \<le> unat t \<and> unat t \<le> 320600000000"
    by (rule twap_is_mean_of_kept) (simp_all add: sample_at_def)
  then show ?thesis
    by (simp add: sample_at_def word_unat_eq_iff split: option.splits flip: numeral_2_eq_2)
qed

text \<open>
  Finalizing a fed calculator fails exactly when no sample was kept; otherwise the result
  reports the session bounds and the number of kept samples, and it is marked valid exactly
  when the last kept sample was taken at least 600 seconds after the session start.
\<close>

lemma finalize_reports_session:
  "case finalize (feed (twap_new start) ss) session_end of
     None \<Rightarrow> kept start ss = []
   | Some r \<Rightarrow> kept start ss \<noteq> []
       \<and> twap_calculate (feed (twap_new start) ss) = Some (tr_twap r)
       \<and> tr_sample_count r = length (kept start ss)
       \<and> tr_session_start r = start \<and> tr_session_end r = session_end
       \<and> (tr_is_valid r \<longleftrightarrow>
            start + 600 * nanos_per_sec \<le> ps_sampled_at (last (kept start ss)))"
proof -
  let ?c = "feed (twap_new start) ss"
  have c: "tc_samples ?c = kept start ss" "tc_session_start ?c = start"
    by (simp_all add: feed_samples twap_new_def)
  have valid: "twap_is_valid ?c \<longleftrightarrow>
      start + 600 * nanos_per_sec \<le> ps_sampled_at (last (kept start ss))"
    if "kept start ss \<noteq> []"
  proof -
    from that obtain latest rest where r: "rev (kept start ss) = latest # rest"
      by (meson neq_Nil_conv rev_is_Nil_conv)
    then have "last (kept start ss) = latest" by (metis hd_rev list.sel(1))
    then show ?thesis
      by (auto simp: twap_is_valid_def c r MIN_VALID_SESSION_SECS_def num_seconds_ge_iff)
  qed
  show ?thesis
    using valid by (auto simp: finalize_def twap_calculate_def c split: option.splits if_splits)
qed

end
