(* ===== verification/Oracle_Reader.thy ===== *)
theory Oracle_Reader
  imports Common Twap
begin

text \<open>
  \<open>crates/oracle-reader/src/lib.rs\<close>: Chainlink and Pyth prices, normalised to eight decimals, and
  their sampling into a session's price average. The chain call and the HTTP request are
  parameters over a world state \<open>'w\<close>; an \<open>int256\<close> answer is an integer.
\<close>

section \<open>Feeds\<close>

definition CHAINLINK_XAU_USD :: string where
  "CHAINLINK_XAU_USD = ''0x214eD9Da11D2fbe465a6fc601a91E62EbEc1a0D6''"

definition CHAINLINK_XAG_USD :: string where
  "CHAINLINK_XAG_USD = ''0x379589227b15F1a12195D3f2d90bBc9F31f95235''"

definition PYTH_XPT_USD_FEED_ID :: string where
  "PYTH_XPT_USD_FEED_ID = ''398e4bbc7cbf89d6648c21e08019d878967677753b3096799595c78f805a34e5''"

definition PYTH_WTI_USD_FEED_ID :: string where
  "PYTH_WTI_USD_FEED_ID = ''05e7c9b556df67e455c52ea2d31658744e3f4ade60db7dab887008844f2ae472''"

definition PYTH_HERMES_URL :: string where
  "PYTH_HERMES_URL = ''https://hermes.pyth.network''"

definition TARGET_DECIMALS :: int where "TARGET_DECIMALS = 8"

record chainlink_feed =
  cf_commodity :: commodity
  cf_address :: address
  cf_decimals :: u8

record pyth_feed =
  pf_commodity :: commodity
  pf_feed_id :: string

definition default_chainlink_feeds :: "chainlink_feed list" where
  "default_chainlink_feeds =
     [\<lparr>cf_commodity = Gold, cf_address = 0x214ed9da11d2fbe465a6fc601a91e62ebec1a0d6, cf_decimals = 8\<rparr>,
      \<lparr>cf_commodity = Silver, cf_address = 0x379589227b15f1a12195d3f2d90bbc9f31f95235, cf_decimals = 8\<rparr>]"

fun feed_var :: "commodity \<Rightarrow> string option" where
  "feed_var Gold = Some ''CHAINLINK_XAU_ADDRESS''"
| "feed_var Silver = Some ''CHAINLINK_XAG_ADDRESS''"
| "feed_var Platinum = None"
| "feed_var CrudeOil = None"

text \<open>\<open>env\<close> is the environment and \<open>parse\<close> the address parser; a bad override is ignored.\<close>

definition override_feed ::
    "(string \<Rightarrow> string option) \<Rightarrow> (string \<Rightarrow> address option) \<Rightarrow> chainlink_feed \<Rightarrow> chainlink_feed" where
  "override_feed env parse fd =
     (case feed_var (cf_commodity fd) of
        None \<Rightarrow> fd
      | Some var \<Rightarrow> (case env var of
            None \<Rightarrow> fd
          | Some raw \<Rightarrow> (case parse raw of
                Some addr \<Rightarrow> fd\<lparr>cf_address := addr\<rparr>
              | None \<Rightarrow> fd)))"

definition feeds_from_env_or_default ::
    "(string \<Rightarrow> string option) \<Rightarrow> (string \<Rightarrow> address option) \<Rightarrow> chainlink_feed list" where
  "feeds_from_env_or_default env parse = map (override_feed env parse) default_chainlink_feeds"

definition default_pyth_feeds :: "pyth_feed list" where
  "default_pyth_feeds =
     [\<lparr>pf_commodity = Platinum, pf_feed_id = PYTH_XPT_USD_FEED_ID\<rparr>,
      \<lparr>pf_commodity = CrudeOil, pf_feed_id = PYTH_WTI_USD_FEED_ID\<rparr>]"

section \<open>Prices\<close>

datatype oracle_reader_error =
    OrProvider string
  | OrHttp string
  | OrFeedNotFound commodity
  | OrInvalidPrice
  | OrParse string

fun or_error_display :: "oracle_reader_error \<Rightarrow> string" where
  "or_error_display (OrProvider e) = ''provider error: '' @ e"
| "or_error_display (OrHttp e) = ''http error: '' @ e"
| "or_error_display (OrFeedNotFound c) = ''no feed configured for '' @ commodity_debug c"
| "or_error_display OrInvalidPrice = ''feed returned an invalid price''"
| "or_error_display (OrParse msg) = ''parse error: '' @ msg"

record hermes_price =
  hp_price :: string
  hp_expo :: int

definition wrap_i32 :: "int \<Rightarrow> int" where
  "wrap_i32 i = (i + 2 ^ 31) mod 2 ^ 32 - 2 ^ 31"

definition convert_pyth_price :: "int \<Rightarrow> int \<Rightarrow> u128 option" where
  "convert_pyth_price price expo =
     (if price \<le> 0 then None
      else let base = word_of_int price :: u128;
               shift = wrap_i32 (TARGET_DECIMALS + expo)
           in if 0 \<le> shift
              then Option.bind (checked_pow 10 (nat shift)) (\<lambda>factor. checked_mul base factor)
              else let down = wrap_i32 (- shift)
                   in if down < 0 then None
                      else map_option (\<lambda>factor. base div factor) (checked_pow 10 (nat down)))"

type_synonym 'w latest_round = "address \<Rightarrow> ('w, string, int) act"

type_synonym 'w http_get = "string \<Rightarrow> ('w, string, hermes_price list) act"

definition fetch_chainlink ::
    "'w latest_round \<Rightarrow> chainlink_feed \<Rightarrow> ('w, oracle_reader_error, u128) act" where
  "fetch_chainlink latestRoundData fd =
     tryE (map_errE (\<lambda>e. OrParse (''chainlink call failed: '' @ e)) (latestRoundData (cf_address fd)))
       (\<lambda>answer.
          if answer \<le> 0 then errE OrInvalidPrice
          else if answer < 2 ^ 128 then okE (word_of_int answer)
          else errE OrInvalidPrice)"

definition fetch_pyth ::
    "'w http_get \<Rightarrow> string \<Rightarrow> pyth_feed \<Rightarrow> ('w, oracle_reader_error, u128) act" where
  "fetch_pyth http_get base_url fd =
     tryE (map_errE OrHttp (http_get (base_url @ ''/v2/updates/price/latest?ids[]='' @ pf_feed_id fd)))
       (\<lambda>parsed. case parsed of
           [] \<Rightarrow> errE (OrParse ''empty pyth response'')
         | entry # _ \<Rightarrow> (case parse_i64 (hp_price entry) of
               None \<Rightarrow> errE (OrParse ''invalid pyth price value'')
             | Some raw_price \<Rightarrow> (case convert_pyth_price raw_price (hp_expo entry) of
                   None \<Rightarrow> errE OrInvalidPrice
                 | Some v \<Rightarrow> okE v)))"

record 'w oracle_reader =
  rd_provider :: "'w latest_round"
  rd_http_client :: "'w http_get"
  rd_chainlink_feeds :: "chainlink_feed list"
  rd_pyth_feeds :: "pyth_feed list"
  rd_pyth_hermes_url :: string

definition new_oracle_reader ::
    "(string \<Rightarrow> 'w latest_round option) \<Rightarrow> 'w http_get \<Rightarrow> string \<Rightarrow> chainlink_feed list
       \<Rightarrow> pyth_feed list \<Rightarrow> oracle_reader_error + 'w oracle_reader" where
  "new_oracle_reader connect http_get rpc_url chainlink_feeds pyth_feeds =
     (case connect rpc_url of
        None \<Rightarrow> Inl (OrParse ''invalid rpc url'')
      | Some provider \<Rightarrow>
          Inr \<lparr>rd_provider = provider, rd_http_client = http_get, rd_chainlink_feeds = chainlink_feeds,
               rd_pyth_feeds = pyth_feeds, rd_pyth_hermes_url = PYTH_HERMES_URL\<rparr>)"

definition read_chainlink_price ::
    "'w oracle_reader \<Rightarrow> chainlink_feed \<Rightarrow> ('w, oracle_reader_error, u128) act" where
  "read_chainlink_price rd fd = fetch_chainlink (rd_provider rd) fd"

definition read_pyth_price ::
    "'w oracle_reader \<Rightarrow> pyth_feed \<Rightarrow> ('w, oracle_reader_error, u128) act" where
  "read_pyth_price rd fd = fetch_pyth (rd_http_client rd) (rd_pyth_hermes_url rd) fd"

definition read_price :: "'w oracle_reader \<Rightarrow> commodity \<Rightarrow> ('w, oracle_reader_error, u128) act" where
  "read_price rd commodity =
     (case find (\<lambda>fd. cf_commodity fd = commodity) (rd_chainlink_feeds rd) of
        Some fd \<Rightarrow> read_chainlink_price rd fd
      | None \<Rightarrow> (case find (\<lambda>fd. pf_commodity fd = commodity) (rd_pyth_feeds rd) of
            Some fd \<Rightarrow> read_pyth_price rd fd
          | None \<Rightarrow> errE (OrFeedNotFound commodity)))"

text \<open>
  Reading every feed spawns one task per feed and joins them in the order of the feeds. Each task
  makes one external request, so a run is given by the order in which the tasks make theirs; a task
  that is missing from that order was lost (its join failed) and its result is dropped.
\<close>

definition feed_tasks ::
    "'w oracle_reader \<Rightarrow> (commodity \<times> ('w, oracle_reader_error, u128) act) list" where
  "feed_tasks rd =
     map (\<lambda>fd. (cf_commodity fd, fetch_chainlink (rd_provider rd) fd)) (rd_chainlink_feeds rd) @
     map (\<lambda>fd. (pf_commodity fd, fetch_pyth (rd_http_client rd) (rd_pyth_hermes_url rd) fd)) (rd_pyth_feeds rd)"

fun run_tasks ::
    "(commodity \<times> ('w, oracle_reader_error, u128) act) list \<Rightarrow> nat list \<Rightarrow> 'w
       \<Rightarrow> (nat \<Rightarrow> (oracle_reader_error + u128) option) \<times> 'w" where
  "run_tasks tasks [] w = ((\<lambda>i. None), w)"
| "run_tasks tasks (i # order) w =
     (let (r, w') = snd (tasks ! i) w; (finished, w'') = run_tasks tasks order w'
      in (finished(i \<mapsto> r), w''))"

definition read_all_prices ::
    "'w oracle_reader \<Rightarrow> nat list \<Rightarrow> 'w \<Rightarrow> (commodity \<times> (oracle_reader_error + u128)) list \<times> 'w" where
  "read_all_prices rd order w =
     (let tasks = feed_tasks rd; (finished, w') = run_tasks tasks order w
      in (List.map_filter (\<lambda>i. map_option (\<lambda>r. (fst (tasks ! i), r)) (finished i)) [0..<length tasks], w'))"

definition sample_into_twap ::
    "'w oracle_reader \<Rightarrow> datetime \<Rightarrow> commodity \<Rightarrow> twap_calculator \<Rightarrow> 'w
       \<Rightarrow> (oracle_reader_error + unit) \<times> twap_calculator \<times> 'w" where
  "sample_into_twap rd now commodity calc w =
     (case read_price rd commodity w of
        (Inl e, w') \<Rightarrow> (Inl e, calc, w')
      | (Inr price, w') \<Rightarrow>
          (let oracle = (if \<exists>fd \<in> set (rd_chainlink_feeds rd). cf_commodity fd = commodity
                         then Chainlink else Pyth)
           in (Inr (), add_sample calc \<lparr>ps_price = price, ps_sampled_at = now, ps_oracle = oracle\<rparr>, w')))"

section \<open>Properties\<close>

lemma run_tasks_done:
  "i \<in> set order \<Longrightarrow> \<exists>w0. fst (run_tasks tasks order w) i = Some (fst (snd (tasks ! i) w0))"
proof (induction order arbitrary: w)
  case (Cons j order)
  then show ?case by (cases "j = i") (auto simp: split_beta Let_def)
qed simp

text \<open>When no task is lost, every feed is reported once, in the order of the feeds, whatever the order
  in which the tasks ran, and with an answer its own source gave during the call.\<close>

lemma read_all_prices_complete:
  assumes "set order = {..<length (feed_tasks rd)}"
  shows "list_all2 (\<lambda>task (commodity, r). commodity = fst task \<and> (\<exists>w0. r = fst (snd task w0)))
    (feed_tasks rd) (fst (read_all_prices rd order w))"
proof -
  let ?t = "feed_tasks rd" and ?f = "fst (run_tasks (feed_tasks rd) order w)"
  have finished: "\<exists>w0. ?f i = Some (fst (snd (?t ! i) w0))" if "i < length ?t" for i
    using run_tasks_done [of i order ?t w] assms that by simp
  then have "List.map_filter (\<lambda>i. map_option (\<lambda>r. (fst (?t ! i), r)) (?f i)) [0..<length ?t]
    = map (\<lambda>i. (fst (?t ! i), the (?f i))) [0..<length ?t]"
    unfolding map_filter_def by (intro map_cong filter_True arg_cong2 [where f = map]) (auto, fastforce+)
  moreover have "\<exists>w0. the (?f i) = fst (snd (?t ! i) w0)" if "i < length ?t" for i
    using finished [OF that] by force
  ultimately show ?thesis
    by (auto simp: read_all_prices_def Let_def split_beta list_all2_conv_all_nth)
qed

lemma wrap_i32_id: "- (2 ^ 31) \<le> i \<Longrightarrow> i < 2 ^ 31 \<Longrightarrow> wrap_i32 i = i"
  by (simp add: wrap_i32_def)

lemma unat_word_of_int_u128: "0 \<le> i \<Longrightarrow> i < 2 ^ 128 \<Longrightarrow> unat (word_of_int i :: u128) = nat i"
  by (simp add: unsigned_of_int take_bit_int_eq_self)

lemma checked_pow_10: "checked_pow (10 :: u128) n = (if (10::nat) ^ n < 2 ^ 128 then Some (10 ^ n) else None)"
  by (simp add: checked_pow_def)

lemma unat_10_pow: "(10::nat) ^ n < 2 ^ 128 \<Longrightarrow> unat ((10 :: u128) ^ n) = 10 ^ n"
  using unat_power_exact [of "10 :: u128" n] by simp

text \<open>
  Pyth prices are rescaled exactly. A positive price with exponent \<open>expo\<close> becomes the floor of
  \<open>price * 10 ^ (8 + expo)\<close>, for every exponent in range; the conversion refuses exactly the
  non-positive prices, the results that do not fit in 128 bits, and the exponents so small that
  their power of ten does not.
\<close>

theorem pyth_price_rescaled:
  assumes "price < 2 ^ 63" and "- (2 ^ 31) \<le> expo" and "expo < 2 ^ 31 - 8"
  shows "map_option unat (convert_pyth_price price expo) =
    (if price \<le> 0 then None
     else if - 8 \<le> expo
     then (if nat price * 10 ^ nat (8 + expo) < 2 ^ 128 then Some (nat price * 10 ^ nat (8 + expo)) else None)
     else (if (10::nat) ^ nat (- 8 - expo) < 2 ^ 128 then Some (nat price div 10 ^ nat (- 8 - expo)) else None))"
proof (cases "price \<le> 0")
  case True
  then show ?thesis by (simp add: convert_pyth_price_def)
next
  case False
  have w: "wrap_i32 (8 + expo) = 8 + expo" using assms(2,3) by (intro wrap_i32_id) auto
  have p: "unat (word_of_int price :: u128) = nat price"
    using False assms(1) by (intro unat_word_of_int_u128) auto
  show ?thesis
  proof (cases "- 8 \<le> expo")
    case True
    let ?e = "nat (8 + expo)"
    have "1 * (10::nat) ^ ?e \<le> nat price * 10 ^ ?e" using False by (intro mult_le_mono1) simp
    then have "nat price * 10 ^ ?e < 2 ^ 128 \<Longrightarrow> (10::nat) ^ ?e < 2 ^ 128" by linarith
    then show ?thesis
      using False True w p unat_10_pow [of ?e]
      by (auto simp: convert_pyth_price_def TARGET_DECIMALS_def checked_pow_10 checked_mul_def
          unat_mult_exact Let_def)
  next
    case neg: False
    have d: "wrap_i32 (- (8 + expo)) = - 8 - expo" using assms(2) neg by (subst wrap_i32_id) auto
    show ?thesis
      using False neg w d p unat_10_pow [of "nat (- 8 - expo)"]
      by (auto simp: convert_pyth_price_def TARGET_DECIMALS_def checked_pow_10 unat_div_word Let_def)
  qed
qed

theorem pyth_price_rescaled_witness:
  "map_option unat (convert_pyth_price 6512345 (- 5)) = Some 6512345000"
  using pyth_price_rescaled [of 6512345 "- 5"] by simp

lemma override_commodity [simp]: "cf_commodity (override_feed env parse fd) = cf_commodity fd"
  by (simp add: override_feed_def split: option.splits)

lemma fetch_chainlink_result:
  "case fetch_chainlink p fd w of
     (Inl e, w') \<Rightarrow> e \<noteq> OrFeedNotFound c
   | (Inr v, w') \<Rightarrow> \<exists>answer. p (cf_address fd) w = (Inr answer, w') \<and> 0 < answer \<and> answer < 2 ^ 128
                       \<and> v = word_of_int answer"
  by (auto simp: fetch_chainlink_def tryE_def map_errE_def okE_def errE_def map_sum_eq_iff
      split: prod.splits sum.splits if_splits)

lemma fetch_pyth_configured: "fst (fetch_pyth get url fd w) \<noteq> Inl (OrFeedNotFound c)"
  by (auto simp: fetch_pyth_def tryE_def map_errE_def okE_def errE_def map_sum_eq_iff
      split: prod.splits sum.splits list.splits option.splits)

text \<open>
  Sampling is exact about its source. With the default feeds every commodity has exactly one
  source (gold and silver Chainlink, platinum and crude oil Pyth). A failed read leaves the
  session's average untouched; a successful one adds exactly the price that was read, stamped with
  the present time and its source. A Chainlink answer is used only when positive and below
  \<open>2 ^ 128\<close>.
\<close>

theorem sampling_uses_configured_source:
  assumes "rd_chainlink_feeds rd = feeds_from_env_or_default env parse"
    and "rd_pyth_feeds rd = default_pyth_feeds"
  shows "case sample_into_twap rd now c calc w of
     (Inl e, calc', w') \<Rightarrow> calc' = calc \<and> e \<noteq> OrFeedNotFound c
   | (Inr _, calc', w') \<Rightarrow>
       (\<exists>v. calc' = add_sample calc \<lparr>ps_price = v, ps_sampled_at = now,
                ps_oracle = (if c \<in> {Gold, Silver} then Chainlink else Pyth)\<rparr>
          \<and> (if c \<in> {Gold, Silver}
             then (\<exists>addr answer. rd_provider rd addr w = (Inr answer, w')
                     \<and> 0 < answer \<and> answer < 2 ^ 128 \<and> v = word_of_int answer)
             else (\<exists>fd \<in> set default_pyth_feeds. pf_commodity fd = c \<and> read_pyth_price rd fd w = (Inr v, w'))))"
proof (cases "c \<in> {Gold, Silver}")
  case True
  then obtain fd where fd: "find (\<lambda>fd. cf_commodity fd = c) (rd_chainlink_feeds rd) = Some fd"
    by (auto simp: assms(1) feeds_from_env_or_default_def default_chainlink_feeds_def override_commodity)
  have src: "\<exists>fd \<in> set (rd_chainlink_feeds rd). cf_commodity fd = c"
    using fd by (auto simp: find_Some_iff)
  show ?thesis
    using True src fetch_chainlink_result [of c "rd_provider rd" fd w]
    by (auto simp: sample_into_twap_def read_price_def fd read_chainlink_price_def Let_def
        split: prod.splits sum.splits)
next
  case False
  have none: "find (\<lambda>fd. cf_commodity fd = c) (rd_chainlink_feeds rd) = None"
    using False
    by (auto simp: assms(1) feeds_from_env_or_default_def default_chainlink_feeds_def override_commodity
        find_None_iff)
  obtain fd where fd: "find (\<lambda>fd. pf_commodity fd = c) default_pyth_feeds = Some fd"
    using False by (cases c) (auto simp: default_pyth_feeds_def)
  have mem: "fd \<in> set default_pyth_feeds" "pf_commodity fd = c" using fd by (auto simp: find_Some_iff)
  have "read_pyth_price rd fd w \<noteq> (Inl (OrFeedNotFound c), w')" for w'
    unfolding read_pyth_price_def using fetch_pyth_configured by (metis fst_conv)
  moreover have "read_price rd c = read_pyth_price rd fd"
    using none fd by (simp add: read_price_def assms(2))
  moreover have "\<not> (\<exists>fd \<in> set (rd_chainlink_feeds rd). cf_commodity fd = c)"
    using none by (auto simp: find_None_iff)
  ultimately show ?thesis
    using False mem by (auto simp: sample_into_twap_def Let_def split: prod.splits sum.splits)
qed

theorem sampling_uses_configured_source_witness:
  "case sample_into_twap
       \<lparr>rd_provider = (\<lambda>a w. (Inr 265000000000, w)), rd_http_client = (\<lambda>u w. (Inr [], w)),
        rd_chainlink_feeds = feeds_from_env_or_default (\<lambda>v. None) (\<lambda>t. None),
        rd_pyth_feeds = default_pyth_feeds, rd_pyth_hermes_url = PYTH_HERMES_URL\<rparr>
       5 Platinum (twap_new 0) () of
     (Inl e, calc', w') \<Rightarrow> calc' = twap_new 0 \<and> e \<noteq> OrFeedNotFound Platinum
   | (Inr _, calc', w') \<Rightarrow> tc_samples calc' \<noteq> []"
  using sampling_uses_configured_source [where rd =
      "\<lparr>rd_provider = (\<lambda>a w. (Inr 265000000000, w)), rd_http_client = (\<lambda>u w. (Inr [], w)),
        rd_chainlink_feeds = feeds_from_env_or_default (\<lambda>v. None) (\<lambda>t. None),
        rd_pyth_feeds = default_pyth_feeds, rd_pyth_hermes_url = PYTH_HERMES_URL\<rparr>"
      and env = "\<lambda>v. None" and parse = "\<lambda>t. None" and now = 5 and c = Platinum
      and calc = "twap_new 0" and w = "()"]
  by (auto simp: add_sample_def split: prod.splits sum.splits)

end
