(* ===== verification/Payout.thy ===== *)
theory Payout
  imports Common
begin

text \<open>
  \<open>crates/payout-calculator/src/lib.rs\<close>: gross PRM, USD redemption, house edge and staking
  boost, in scaled \<open>u128\<close> integers. The definitions follow the source operator by operator, so
  products wrap at \<open>2 ^ 128\<close> exactly where the release build wraps. The second half states the
  same economics over the natural numbers (\<open>payout_spec\<close>) and gives the input envelope in which
  the machine pipeline computes it.
\<close>

section \<open>Constants and configuration\<close>

definition MULTIPLIER_SCALE :: u128 where "MULTIPLIER_SCALE = 10"

definition PRICE_COEFFICIENT_SCALE :: u128 where "PRICE_COEFFICIENT_SCALE = 1000000000000000"

definition TWAP_DECIMALS_SCALE :: u128 where "TWAP_DECIMALS_SCALE = 100000000"

definition USDC_SCALE :: u128 where "USDC_SCALE = 1000000"

definition BPS_DENOMINATOR :: u128 where "BPS_DENOMINATOR = 10000"

definition GROSS_CALIB_TO_WEI :: u128 where "GROSS_CALIB_TO_WEI = 10000000000000"

definition PRM_REFERENCE_PRICE_8DEC :: u128 where "PRM_REFERENCE_PRICE_8DEC = 10000000"

definition USD_8DEC_TO_CENTS :: u128 where "USD_8DEC_TO_CENTS = 1000000"

definition PRM :: u128 where "PRM = 1000000000000000000"

definition MAX_BOOST_BPS :: u32 where "MAX_BOOST_BPS = 4000"

definition LOCK_MULT_SCALE :: u32 where "LOCK_MULT_SCALE = 100"

lemmas payout_consts =
  MULTIPLIER_SCALE_def PRICE_COEFFICIENT_SCALE_def TWAP_DECIMALS_SCALE_def USDC_SCALE_def
  BPS_DENOMINATOR_def GROSS_CALIB_TO_WEI_def PRM_REFERENCE_PRICE_8DEC_def USD_8DEC_TO_CENTS_def
  PRM_def MAX_BOOST_BPS_def LOCK_MULT_SCALE_def

record payout_config =
  base_coefficient_scaled :: u128
  price_coefficient_scaled :: u128
  house_edge_bps :: u128

definition default_config :: payout_config where
  "default_config =
     \<lparr>base_coefficient_scaled = 1000, price_coefficient_scaled = 1000, house_edge_bps = 1700\<rparr>"

record payout_result =
  pr_gross_prm :: u128
  pr_redemption_usd_scaled :: u128
  pr_net_usdc_scaled :: u128
  pr_house_edge_bps :: u128

section \<open>Operations\<close>

definition gross_calib_to_wei :: "u128 \<Rightarrow> u128" where
  "gross_calib_to_wei gross_calib = saturating_mul gross_calib GROSS_CALIB_TO_WEI"

definition prm_to_usd_cents :: "u128 \<Rightarrow> u128" where
  "prm_to_usd_cents prm_amount = prm_amount * PRM_REFERENCE_PRICE_8DEC div USD_8DEC_TO_CENTS"

fun commodity_multiplier :: "commodity \<Rightarrow> u128" where
  "commodity_multiplier Gold = 32"
| "commodity_multiplier Platinum = 26"
| "commodity_multiplier Silver = 16"
| "commodity_multiplier CrudeOil = 10"

fun commodity_difficulty :: "commodity \<Rightarrow> u128" where
  "commodity_difficulty Gold = 40"
| "commodity_difficulty Platinum = 32"
| "commodity_difficulty Silver = 20"
| "commodity_difficulty CrudeOil = 10"

definition calculate_gross_prm :: "u64 \<Rightarrow> u64 \<Rightarrow> payout_config \<Rightarrow> commodity \<Rightarrow> u128" where
  "calculate_gross_prm hashrate duration_secs config commodity =
     (let numerator = ucast hashrate * ucast duration_secs * base_coefficient_scaled config
      in numerator div commodity_difficulty commodity)"

definition calculate_redemption_usd :: "u128 \<Rightarrow> u128 \<Rightarrow> commodity \<Rightarrow> payout_config \<Rightarrow> u128" where
  "calculate_redemption_usd gross_prm twap_price commodity config =
     (let multiplier = commodity_multiplier commodity
      in gross_prm * twap_price * multiplier * price_coefficient_scaled config * USDC_SCALE
           div MULTIPLIER_SCALE div PRICE_COEFFICIENT_SCALE div TWAP_DECIMALS_SCALE)"

definition apply_house_edge :: "u128 \<Rightarrow> u128 \<Rightarrow> u128" where
  "apply_house_edge redemption_usd_scaled edge_bps =
     redemption_usd_scaled * saturating_sub BPS_DENOMINATOR edge_bps div BPS_DENOMINATOR"

definition apply_staking_boost :: "u128 \<Rightarrow> u32 \<Rightarrow> u128" where
  "apply_staking_boost gross_prm boost_bps =
     gross_prm * (BPS_DENOMINATOR + ucast boost_bps) div BPS_DENOMINATOR"

definition base_boost_bps :: "u128 \<Rightarrow> u32" where
  "base_boost_bps total_staked =
     (if 500000 * PRM \<le> total_staked then 2500
      else if 100000 * PRM \<le> total_staked then 1800
      else if 50000 * PRM \<le> total_staked then 1000
      else if 10000 * PRM \<le> total_staked then 500
      else 0)"

definition lock_multiplier_scaled :: "u8 \<Rightarrow> u32" where
  "lock_multiplier_scaled lock_period =
     (if lock_period = 0 then 100
      else if lock_period = 1 then 130
      else if lock_period = 2 then 160
      else 100)"

definition combined_boost_bps :: "(u128 \<times> u8) option \<Rightarrow> u128 option \<Rightarrow> u32" where
  "combined_boost_bps ethereum_stake polygon_stake =
     (let ethereum_amount = (case ethereum_stake of Some (amount, _) \<Rightarrow> amount | None \<Rightarrow> 0);
          polygon_amount = (case polygon_stake of Some amount \<Rightarrow> amount | None \<Rightarrow> 0);
          total = saturating_add ethereum_amount polygon_amount;
          base = base_boost_bps total;
          lock_mult = (case ethereum_stake of
                         Some (_, lock_period) \<Rightarrow> lock_multiplier_scaled lock_period
                       | None \<Rightarrow> LOCK_MULT_SCALE);
          effective = base * lock_mult div LOCK_MULT_SCALE
      in min effective MAX_BOOST_BPS)"

definition calculate_payout_from_gross ::
    "u128 \<Rightarrow> u128 \<Rightarrow> commodity \<Rightarrow> payout_config \<Rightarrow> payout_result" where
  "calculate_payout_from_gross gross_prm twap_price commodity config =
     (let redemption_usd_scaled = calculate_redemption_usd gross_prm twap_price commodity config;
          net_usdc_scaled = apply_house_edge redemption_usd_scaled (house_edge_bps config)
      in \<lparr>pr_gross_prm = gross_prm,
          pr_redemption_usd_scaled = redemption_usd_scaled,
          pr_net_usdc_scaled = net_usdc_scaled,
          pr_house_edge_bps = house_edge_bps config\<rparr>)"

definition calculate_payout ::
    "u64 \<Rightarrow> u64 \<Rightarrow> u128 \<Rightarrow> commodity \<Rightarrow> payout_config \<Rightarrow> payout_result" where
  "calculate_payout hashrate duration_secs twap_price commodity config =
     (let gross_prm = calculate_gross_prm hashrate duration_secs config commodity
      in calculate_payout_from_gross gross_prm twap_price commodity config)"

section \<open>The economics over the natural numbers\<close>

text \<open>
  The intended figures, with no machine bound: each step is the exact rational product rounded
  down once per division of the source.
\<close>

definition gross_spec :: "nat \<Rightarrow> nat \<Rightarrow> nat \<Rightarrow> commodity \<Rightarrow> nat" where
  "gross_spec hashrate duration coeff c =
     hashrate * duration * coeff div unat (commodity_difficulty c)"

definition redemption_spec :: "nat \<Rightarrow> nat \<Rightarrow> nat \<Rightarrow> commodity \<Rightarrow> nat" where
  "redemption_spec gross twap coeff c =
     gross * twap * unat (commodity_multiplier c) * coeff * 10 ^ 6 div 10 ^ 24"

definition net_spec :: "nat \<Rightarrow> nat \<Rightarrow> nat" where
  "net_spec redemption edge = redemption * (10000 - edge) div 10000"

definition boost_spec :: "nat \<Rightarrow> nat \<Rightarrow> nat" where
  "boost_spec gross boost = gross * (10000 + boost) div 10000"

lemma commodity_multiplier_bounds:
  "10 \<le> unat (commodity_multiplier c)" "unat (commodity_multiplier c) \<le> 32"
  by (cases c; simp)+

lemma commodity_difficulty_bounds:
  "10 \<le> unat (commodity_difficulty c)" "unat (commodity_difficulty c) \<le> 40"
  by (cases c; simp)+

lemmas payout_values = payout_consts default_config_def unat_ucast_up

text \<open>Values of single steps when no intermediate product leaves \<open>u128\<close>.\<close>

lemma unat_gross_prm:
  assumes "unat hashrate * unat duration * unat (base_coefficient_scaled config) < 2 ^ 128"
  shows "unat (calculate_gross_prm hashrate duration config c)
           = gross_spec (unat hashrate) (unat duration) (unat (base_coefficient_scaled config)) c"
proof -
  have hd: "unat hashrate * unat duration < 2 ^ 128"
  proof -
    have "unat hashrate * unat duration < 2 ^ 64 * 2 ^ 64"
      using unsigned_less [of hashrate] unsigned_less [of duration]
      by (intro mult_strict_mono) simp_all
    then show ?thesis by simp
  qed
  then show ?thesis
    using assms
    by (simp add: calculate_gross_prm_def gross_spec_def unat_div_word unat_mult_exact
        unat_ucast_up)
qed

lemma unat_redemption:
  assumes "unat g * unat t * unat (commodity_multiplier c) * unat (price_coefficient_scaled config)
             * 10 ^ 6 < 2 ^ 128"
  shows "unat (calculate_redemption_usd g t c config)
           = redemption_spec (unat g) (unat t) (unat (price_coefficient_scaled config)) c"
proof -
  let ?m = "unat (commodity_multiplier c)" and ?p = "unat (price_coefficient_scaled config)"
  let ?prod = "g * t * commodity_multiplier c * price_coefficient_scaled config * USDC_SCALE"
  have prod: "unat ?prod = unat g * unat t * ?m * ?p * 10 ^ 6"
    if nz: "?p \<noteq> 0"
  proof -
    have m: "1 \<le> ?m" using commodity_multiplier_bounds(1) [of c] by simp
    have p: "1 \<le> ?p" using nz by simp
    have 1: "unat g * unat t * ?m * ?p < 2 ^ 128" using assms by simp
    have 2: "unat g * unat t * ?m < 2 ^ 128"
      using 1 p by (metis le_less_trans mult.right_neutral mult_le_mono2)
    have 3: "unat g * unat t < 2 ^ 128"
      using 2 m by (metis le_less_trans mult.right_neutral mult_le_mono2)
    show ?thesis
      using assms 1 2 3 by (simp add: unat_mult_exact USDC_SCALE_def)
  qed
  have "unat (?prod div 10 div 1000000000000000 div 100000000) = unat ?prod div 10 ^ 24"
    by (simp add: unat_div_word div_mult2_eq [symmetric])
  moreover have "price_coefficient_scaled config = 0 \<Longrightarrow> unat ?prod = 0" by simp
  ultimately show ?thesis
    using prod
    by (cases "?p = 0")
      (simp_all add: calculate_redemption_usd_def redemption_spec_def payout_consts unat_eq_0)
qed

lemma unat_house_edge:
  assumes "unat r * (10000 - unat e) < 2 ^ 128"
  shows "unat (apply_house_edge r e) = net_spec (unat r) (unat e)"
  using assms
  by (simp add: apply_house_edge_def net_spec_def BPS_DENOMINATOR_def unat_div_word
      unat_mult_exact unat_saturating_sub)

lemma unat_staking_boost:
  assumes "unat g * (10000 + unat b) < 2 ^ 128"
  shows "unat (apply_staking_boost g b) = boost_spec (unat g) (unat b)"
proof -
  have "unat b < 2 ^ LENGTH(32)" by (rule unsigned_less)
  then have "10000 + unat b < 2 ^ 128" by simp
  then have "unat (BPS_DENOMINATOR + ucast b :: u128) = 10000 + unat b"
    by (simp add: BPS_DENOMINATOR_def unat_add_exact unat_ucast_up)
  then show ?thesis
    using assms
    by (simp add: apply_staking_boost_def boost_spec_def BPS_DENOMINATOR_def unat_div_word
        unat_mult_exact)
qed

lemma net_spec_le: "net_spec r e \<le> r"
  by (simp add: net_spec_def mult_div_le_self)

lemma net_spec_mono: "r \<le> r' \<Longrightarrow> net_spec r e \<le> net_spec r' e"
  by (simp add: net_spec_def div_le_mono)

lemma redemption_spec_mono:
  "g \<le> g' \<Longrightarrow> t \<le> t' \<Longrightarrow> redemption_spec g t k c \<le> redemption_spec g' t' k c"
  unfolding redemption_spec_def by (intro div_le_mono mult_le_mono) simp_all

lemma boost_spec_bounds: "b \<le> 4000 \<Longrightarrow> g \<le> boost_spec g b \<and> 10 * boost_spec g b \<le> 14 * g"
proof -
  assume "b \<le> 4000"
  then have "g * (10000 + b) \<le> g * 14000" by simp
  moreover have "g * 10000 \<le> g * (10000 + b)" by simp
  ultimately show ?thesis unfolding boost_spec_def by linarith
qed

section \<open>Properties\<close>

text \<open>
  The input envelope of a session: a server-derived hashrate is clamped to at most 5000 H/s, a
  boost is at most 4000 bps, and the session lasts at most a year at a price of at most one
  million dollars (8 decimals).
\<close>

definition in_envelope :: "u64 \<Rightarrow> u64 \<Rightarrow> u128 \<Rightarrow> u32 \<Rightarrow> bool" where
  "in_envelope hashrate duration twap boost \<longleftrightarrow>
     unat hashrate \<le> 5000 \<and> unat duration \<le> 31536000
     \<and> unat twap \<le> 10 ^ 14 \<and> unat boost \<le> 4000"

lemma gross_spec_bound:
  assumes "h \<le> 5000" "d \<le> 31536000"
  shows "gross_spec h d 1000 c \<le> 15768 * 10 ^ 9"
proof -
  have "h * d * 1000 \<le> 5000 * 31536000 * 1000"
    using assms by (intro mult_le_mono) simp_all
  then have "h * d * 1000 div 10 \<le> 5000 * 31536000 * 1000 div 10"
    by (rule div_le_mono)
  moreover have "h * d * 1000 div unat (commodity_difficulty c) \<le> h * d * 1000 div 10"
    using commodity_difficulty_bounds(1) [of c] by (intro div_le_mono2) simp_all
  ultimately show ?thesis by (simp add: gross_spec_def)
qed

lemma redemption_product_bound:
  assumes "10 * g \<le> 14 * (15768 * 10 ^ 9)" "t \<le> 10 ^ 14"
  shows "g * t * unat (commodity_multiplier c) * 1000 * 10 ^ 6 < 2 ^ 128"
proof -
  have "g \<le> 220752 * 10 ^ 8" using assms(1) by simp
  then have "g * t * unat (commodity_multiplier c) * 1000 * 10 ^ 6
      \<le> 220752 * 10 ^ 8 * 10 ^ 14 * 32 * 1000 * 10 ^ 6"
    using assms(2) commodity_multiplier_bounds(2) [of c] by (intro mult_le_mono) simp_all
  then show ?thesis by simp
qed

text \<open>
  C10: inside that envelope the whole payout pipeline of \<open>end_session\<close> (gross PRM, staking boost,
  redemption, house edge, all in wrapping \<open>u128\<close>) computes the exact economics over the natural
  numbers: no intermediate product overflows, for every commodity and every house edge.
\<close>

theorem payout_pipeline_exact:
  assumes "in_envelope hashrate duration twap boost"
    and "config = default_config\<lparr>house_edge_bps := edge\<rparr>"
    and "boosted = apply_staking_boost (calculate_gross_prm hashrate duration config c) boost"
    and "g = boost_spec (gross_spec (unat hashrate) (unat duration) 1000 c) (unat boost)"
  shows "unat (pr_gross_prm (calculate_payout_from_gross boosted twap c config)) = g
    \<and> unat (pr_redemption_usd_scaled (calculate_payout_from_gross boosted twap c config))
        = redemption_spec g (unat twap) 1000 c
    \<and> unat (pr_net_usdc_scaled (calculate_payout_from_gross boosted twap c config))
        = net_spec (redemption_spec g (unat twap) 1000 c) (unat edge)
    \<and> unat (gross_calib_to_wei boosted) = g * 10 ^ 13"
proof -
  let ?gross = "gross_spec (unat hashrate) (unat duration) 1000 c"
  let ?red = "redemption_spec g (unat twap) 1000 c"
  have env: "unat hashrate \<le> 5000" "unat duration \<le> 31536000" "unat twap \<le> 10 ^ 14"
    "unat boost \<le> 4000"
    using assms(1) by (simp_all add: in_envelope_def)
  have cfg: "unat (base_coefficient_scaled config) = 1000"
    "unat (price_coefficient_scaled config) = 1000" "house_edge_bps config = edge"
    by (simp_all add: assms(2) default_config_def)
  have "unat hashrate * unat duration * 1000 \<le> 5000 * 31536000 * 1000"
    using env by (intro mult_le_mono) simp_all
  then have gross: "unat (calculate_gross_prm hashrate duration config c) = ?gross"
    using cfg by (subst unat_gross_prm) simp_all
  have gb: "?gross \<le> 15768 * 10 ^ 9" using env by (intro gross_spec_bound)
  have "?gross * (10000 + unat boost) \<le> 15768 * 10 ^ 9 * 14000"
    using gb env by (intro mult_le_mono) simp_all
  then have boosted: "unat boosted = g"
    using gross assms(3,4) by (subst assms(3), subst unat_staking_boost) simp_all
  have g: "10 * g \<le> 14 * (15768 * 10 ^ 9)"
    using boost_spec_bounds [OF env(4), of ?gross] gb assms(4) by linarith
  then have prod: "g * unat twap * unat (commodity_multiplier c) * 1000 * 10 ^ 6 < 2 ^ 128"
    using env(3) by (rule redemption_product_bound)
  then have red: "unat (calculate_redemption_usd boosted twap c config) = ?red"
    using boosted cfg by (subst unat_redemption) simp_all
  have "?red * 10 ^ 24 < 2 ^ 128"
    using prod by (simp add: redemption_spec_def less_mult_imp_div_less le_less_trans [OF div_times_less_eq_dividend])
  moreover have "10000 - unat edge \<le> 10 ^ 24" by (rule le_trans [OF diff_le_self]) simp
  ultimately have "?red * (10000 - unat edge) < 2 ^ 128"
    by (meson le_less_trans mult_le_mono2)
  then have net: "unat (apply_house_edge (calculate_redemption_usd boosted twap c config) edge)
      = net_spec ?red (unat edge)"
    using red by (subst unat_house_edge) simp_all
  have wei: "unat (gross_calib_to_wei boosted) = g * 10 ^ 13"
    using g boosted by (simp add: gross_calib_to_wei_def GROSS_CALIB_TO_WEI_def unat_saturating_mul)
  show ?thesis
    using boosted red net wei cfg by (simp add: calculate_payout_from_gross_def Let_def)
qed

text \<open>The worked example of Spec 4.6 (Desktop, 8 hours, Gold at $3204, edge 17\<percent>, no boost).\<close>

theorem payout_pipeline_exact_witness:
  "in_envelope 2500 28800 320400000000 0
     \<and> unat (pr_net_usdc_scaled (calculate_payout_from_gross
           (apply_staking_boost (calculate_gross_prm 2500 28800
              (default_config\<lparr>house_edge_bps := 1700\<rparr>) Gold) 0)
           320400000000 Gold (default_config\<lparr>house_edge_bps := 1700\<rparr>))) = 15317683"
proof -
  have e: "in_envelope 2500 28800 320400000000 0" by (simp add: in_envelope_def)
  show ?thesis
    using e payout_pipeline_exact [OF e refl refl refl, of 1700 Gold]
    by (simp add: gross_spec_def boost_spec_def redemption_spec_def net_spec_def)
qed

text \<open>
  The house edge never pays out more than the redemption value, takes the configured share up
  to one unit of rounding in the house's favour, and pays nothing once the edge reaches 100%,
  instead of underflowing. It holds for every redemption value up to \<open>3 * 10 ^ 34\<close>.
\<close>

theorem house_edge_sound:
  assumes "unat r \<le> 3 * 10 ^ 34"
  shows "apply_house_edge r e \<le> r
    \<and> 10000 * unat (apply_house_edge r e) \<le> unat r * (10000 - unat e)
    \<and> unat r * (10000 - unat e) < 10000 * (unat (apply_house_edge r e) + 1)
    \<and> (10000 \<le> unat e \<longrightarrow> apply_house_edge r e = 0)"
proof -
  let ?p = "unat r * (10000 - unat e)"
  have "?p \<le> 3 * 10 ^ 34 * 10000" using assms by (intro mult_le_mono) simp_all
  then have net: "unat (apply_house_edge r e) = net_spec (unat r) (unat e)"
    by (intro unat_house_edge) simp
  have le: "apply_house_edge r e \<le> r"
    using net net_spec_le by (simp add: word_le_nat_alt)
  note floor = floor_div_bounds [of 10000 ?p, simplified]
  have zero: "10000 \<le> unat e \<longrightarrow> apply_house_edge r e = 0"
    using net by (auto simp: net_spec_def unat_eq_0)
  show ?thesis using le floor zero unfolding net net_spec_def by simp
qed

theorem house_edge_sound_witness:
  "unat (1000000::u128) \<le> 3 * 10 ^ 34
     \<and> apply_house_edge 1000000 2200 \<le> 1000000 \<and> apply_house_edge 1000000 12000 = 0"
  using house_edge_sound [of 1000000 2200] house_edge_sound [of 1000000 12000] by simp

subsection \<open>Staking boost\<close>

abbreviation stake_amount :: "(u128 \<times> u8) option \<Rightarrow> u128" where
  "stake_amount e \<equiv> (case e of Some (amount, _) \<Rightarrow> amount | None \<Rightarrow> 0)"

abbreviation polygon_amount :: "u128 option \<Rightarrow> u128" where
  "polygon_amount p \<equiv> (case p of Some amount \<Rightarrow> amount | None \<Rightarrow> 0)"

definition lock_of :: "(u128 \<times> u8) option \<Rightarrow> nat" where
  "lock_of e = (case e of Some (_, l) \<Rightarrow> unat (lock_multiplier_scaled l) | None \<Rightarrow> 100)"

lemma base_boost_range: "unat (base_boost_bps t) \<le> 2500"
  by (simp add: base_boost_bps_def)

lemma lock_of_range: "100 \<le> lock_of e" "lock_of e \<le> 160"
  by (auto simp: lock_of_def lock_multiplier_scaled_def split: option.splits)

lemma base_boost_mono: "s \<le> t \<Longrightarrow> unat (base_boost_bps s) \<le> unat (base_boost_bps t)"
  by (auto simp: base_boost_bps_def PRM_def word_le_nat_alt)

lemma unat_combined_boost:
  "unat (combined_boost_bps e p)
     = min (unat (base_boost_bps (saturating_add (stake_amount e) (polygon_amount p))) * lock_of e
              div 100) 4000"
proof -
  let ?b = "base_boost_bps (saturating_add (stake_amount e) (polygon_amount p))"
  let ?l = "case e of Some (_, lp) \<Rightarrow> lock_multiplier_scaled lp | None \<Rightarrow> LOCK_MULT_SCALE"
  have l: "unat ?l = lock_of e"
    by (auto simp: lock_of_def LOCK_MULT_SCALE_def split: option.splits)
  have "unat ?b * lock_of e \<le> 2500 * 160"
    using base_boost_range lock_of_range by (intro mult_le_mono)
  then have "unat (?b * ?l) = unat ?b * lock_of e"
    using l by (subst unat_mult_exact) simp_all
  then show ?thesis
    by (simp add: combined_boost_bps_def Let_def unat_min_word unat_div_word
        LOCK_MULT_SCALE_def MAX_BOOST_BPS_def)
qed

text \<open>
  The combined cross-chain boost is never above the on-chain cap of 4000 bps, and growing
  either stake, with the Ethereum lock period unchanged, never lowers it. Without an Ethereum
  stake the boost is the plain tier of the Polygon amount: Polygon never contributes a lock
  multiplier.
\<close>

theorem combined_boost_capped_and_monotone:
  assumes "a \<le> a'" and "b \<le> b'"
  shows "combined_boost_bps e p \<le> MAX_BOOST_BPS
    \<and> combined_boost_bps (Some (a, l)) (Some b) \<le> combined_boost_bps (Some (a', l)) (Some b')
    \<and> combined_boost_bps None (Some b) = base_boost_bps b"
proof -
  have sums: "saturating_add a b \<le> saturating_add a' b'"
    using assms by (simp add: word_le_nat_alt unat_saturating_add min_le_iff_disj)
  let ?n = "\<lambda>x y. unat (base_boost_bps (saturating_add x y)) * lock_of (Some (a, l)) div 100"
  have "?n a b \<le> ?n a' b'"
    using base_boost_mono [OF sums] by (intro div_le_mono mult_le_mono1)
  then have mono: "combined_boost_bps (Some (a, l)) (Some b) \<le> combined_boost_bps (Some (a', l)) (Some b')"
    by (simp add: word_le_nat_alt unat_combined_boost lock_of_def)
  have none: "combined_boost_bps None (Some b) = base_boost_bps b"
    using base_boost_range [of b] by (simp add: word_unat_eq_iff unat_combined_boost lock_of_def)
  have cap: "combined_boost_bps e p \<le> MAX_BOOST_BPS"
    by (simp add: word_le_nat_alt unat_combined_boost MAX_BOOST_BPS_def)
  from cap mono none show ?thesis by blast
qed

theorem combined_boost_capped_and_monotone_witness:
  "(100000 * PRM :: u128) \<le> 500000 * PRM
     \<and> combined_boost_bps (Some (100000 * PRM, 2)) (Some 0)
         \<le> combined_boost_bps (Some (500000 * PRM, 2)) (Some 0)"
proof -
  have h: "(100000 * PRM :: u128) \<le> 500000 * PRM" by (simp add: PRM_def)
  show ?thesis
    using h combined_boost_capped_and_monotone [OF h order_refl, of None None 2 0] by simp
qed

text \<open>
  The envelope is needed. With nothing but a longer session (540 billion instead of 530
  billion seconds, a duration \<open>GET /estimate\<close> accepts from the caller) the same hashrate, price
  and edge pay less: a product passes \<open>2 ^ 128\<close> and wraps.
\<close>

theorem payout_wraps_outside_envelope:
  "unat (pr_net_usdc_scaled (calculate_payout 2500 530000000000 320400000000 Gold default_config))
     = 281887920000000
   \<and> unat (pr_net_usdc_scaled (calculate_payout 2500 540000000000 320400000000 Gold default_config))
     = 4772195455620"
  by (simp add: calculate_payout_def calculate_payout_from_gross_def calculate_gross_prm_def
      calculate_redemption_usd_def apply_house_edge_def saturating_sub_def default_config_def
      payout_consts Let_def)

end
