(* ===== verification/Postgres_Store.thy ===== *)
theory Postgres_Store
  imports Common
begin

text \<open>
  \<open>crates/postgres-store/src/lib.rs\<close> with the tables of its migrations: anomaly events and mint
  proposals. A table is the list of its rows in insertion order, and each SQL statement of the
  source is written out over that list: \<open>WHERE\<close> as a filter, \<open>ORDER BY\<close> as a stable sort,
  \<open>SUM\<close> over exact numbers (the column is \<open>NUMERIC\<close>), the \<open>UNIQUE\<close> constraint on the session id
  as a refused insert. The database itself may fail: every operation takes the error, if any, that
  the server answers with, and then changes nothing. JSON and the text forms of addresses and
  signatures are parameters.
\<close>

section \<open>Tables\<close>

datatype postgres_store_error = PgSqlx string | PgSerialization string | PgMigration string

fun pg_error_display :: "postgres_store_error \<Rightarrow> string" where
  "pg_error_display (PgSqlx e) = ''database error: '' @ e"
| "pg_error_display (PgSerialization e) = ''serialization error: '' @ e"
| "pg_error_display (PgMigration e) = ''migration error: '' @ e"

record anomaly_row =
  an_session_id :: string
  an_wallet :: string
  an_score :: int
  an_triggers :: string
  an_level :: string
  an_created_at :: datetime

record proposal_row =
  mr_id :: string
  mr_session_id :: string
  mr_wallet :: string
  mr_gross_prm :: nat
  mr_net_usd_cents :: "int option"
  mr_commodity :: string
  mr_chain :: string
  mr_attestation_json :: string
  mr_backend_sig :: string
  mr_status :: string
  mr_created_at :: datetime
  mr_updated_at :: datetime

record db =
  db_anomalies :: "anomaly_row list"
  db_proposals :: "proposal_row list"

record pg_libs =
  pl_addr_debug :: "address \<Rightarrow> string"
  pl_triggers_json :: "invalid_reason list \<Rightarrow> string + string"
  pl_attestation_json :: "attestation_result \<Rightarrow> string + string"
  pl_sig_display :: "signature \<Rightarrow> string"

type_synonym 'a pg_act = "(db, postgres_store_error, 'a) act"

text \<open>A statement answered by the server, or its error.\<close>

definition sqlE :: "string option \<Rightarrow> 'a pg_act \<Rightarrow> 'a pg_act" where
  "sqlE fault m = (case fault of Some e \<Rightarrow> errE (PgSqlx e) | None \<Rightarrow> m)"

definition queryE :: "string option \<Rightarrow> (db \<Rightarrow> 'a) \<Rightarrow> 'a pg_act" where
  "queryE fault q = sqlE fault (\<lambda>d. (Inr (q d), d))"

section \<open>Writes\<close>

definition insert_anomaly_event :: "pg_libs \<Rightarrow> string option \<Rightarrow> anomaly_event \<Rightarrow> unit pg_act" where
  "insert_anomaly_event L fault event =
     (case pl_triggers_json L (ae_triggers event) of
        Inl e \<Rightarrow> errE (PgSerialization e)
      | Inr triggers \<Rightarrow> sqlE fault (\<lambda>d. (Inr (), d\<lparr>db_anomalies := db_anomalies d @
          [\<lparr>an_session_id = sid_str (ae_session_id event), an_wallet = pl_addr_debug L (ae_wallet event),
            an_score = sint (ae_score event), an_triggers = triggers,
            an_level = level_debug (ae_level event), an_created_at = ae_timestamp event\<rparr>]\<rparr>)))"

definition insert_mint_proposal ::
    "pg_libs \<Rightarrow> string option \<Rightarrow> string \<Rightarrow> datetime \<Rightarrow> mint_proposal \<Rightarrow> unit pg_act" where
  "insert_mint_proposal L fault row_id now proposal =
     (case pl_attestation_json L (mp_attestation proposal) of
        Inl e \<Rightarrow> errE (PgSerialization e)
      | Inr attestation_json \<Rightarrow> sqlE fault (\<lambda>d.
          if sid_str (mp_session_id proposal) \<in> set (map mr_session_id (db_proposals d))
          then (Inl (PgSqlx ''duplicate key value violates unique constraint''), d)
          else (Inr (), d\<lparr>db_proposals := db_proposals d @
            [\<lparr>mr_id = row_id, mr_session_id = sid_str (mp_session_id proposal),
              mr_wallet = pl_addr_debug L (mp_wallet proposal), mr_gross_prm = unat (mp_gross_prm proposal),
              mr_net_usd_cents = mp_net_usd_cents proposal,
              mr_commodity = commodity_debug (mp_commodity proposal),
              mr_chain = chain_as_str (mp_chain proposal), mr_attestation_json = attestation_json,
              mr_backend_sig = pl_sig_display L (mp_backend_sig proposal),
              mr_status = status_debug (mp_status proposal),
              mr_created_at = mp_created_at proposal, mr_updated_at = now\<rparr>]\<rparr>)))"

definition update_proposal_status ::
    "string option \<Rightarrow> datetime \<Rightarrow> session_id \<Rightarrow> proposal_status \<Rightarrow> unit pg_act" where
  "update_proposal_status fault now sid status =
     sqlE fault (\<lambda>d. (Inr (), d\<lparr>db_proposals :=
       map (\<lambda>r. if mr_session_id r = sid_str sid
                then r\<lparr>mr_status := status_debug status, mr_updated_at := now\<rparr> else r) (db_proposals d)\<rparr>))"

section \<open>Queries\<close>

record pending_proposal_row =
  pp_id :: string
  ppr_session_id :: string
  ppr_wallet :: string
  ppr_gross_prm :: string
  ppr_commodity :: string
  ppr_chain :: string
  ppr_status :: string
  ppr_created_at :: datetime

definition get_pending_proposals :: "string option \<Rightarrow> pending_proposal_row list pg_act" where
  "get_pending_proposals fault =
     queryE fault (\<lambda>d. map (\<lambda>r. \<lparr>pp_id = mr_id r, ppr_session_id = mr_session_id r,
         ppr_wallet = mr_wallet r, ppr_gross_prm = show_nat (mr_gross_prm r),
         ppr_commodity = mr_commodity r, ppr_chain = mr_chain r, ppr_status = mr_status r,
         ppr_created_at = mr_created_at r\<rparr>)
       (sort_key mr_created_at (filter (\<lambda>r. mr_status r = ''Pending'') (db_proposals d))))"

record payout_row =
  po_session_id :: string
  po_wallet :: string
  po_gross_prm :: string
  po_net_usd_cents :: "int option"
  po_commodity :: string
  po_chain :: string
  po_status :: string
  po_created_at :: datetime

definition get_payouts_for_wallet :: "string option \<Rightarrow> string \<Rightarrow> int \<Rightarrow> payout_row list pg_act" where
  "get_payouts_for_wallet fault wallet limit =
     queryE fault (\<lambda>d. map (\<lambda>r. \<lparr>po_session_id = mr_session_id r, po_wallet = mr_wallet r,
         po_gross_prm = show_nat (mr_gross_prm r), po_net_usd_cents = mr_net_usd_cents r,
         po_commodity = mr_commodity r, po_chain = mr_chain r, po_status = mr_status r,
         po_created_at = mr_created_at r\<rparr>)
       (take (nat limit) (sort_key (\<lambda>r. - mr_created_at r)
         (filter (\<lambda>r. mr_wallet r = wallet) (db_proposals d)))))"

text \<open>\<open>COALESCE(SUM(net_usd_cents), 0)\<close>: nulls count as nothing.\<close>

definition sum_gross :: "proposal_row list \<Rightarrow> nat" where
  "sum_gross rows = sum_list (map mr_gross_prm rows)"

definition sum_cents :: "proposal_row list \<Rightarrow> int" where
  "sum_cents rows = sum_list (map (\<lambda>r. case mr_net_usd_cents r of Some c \<Rightarrow> c | None \<Rightarrow> 0) rows)"

definition as_bigint :: "int \<Rightarrow> (int \<Rightarrow> 'a pg_act) \<Rightarrow> 'a pg_act" where
  "as_bigint i f = (if in_i64 i then f i else errE (PgSqlx ''bigint out of range''))"

record earnings_row =
  ea_commodity :: string
  ea_session_count :: int
  ea_total_gross_prm :: string
  ea_total_usd_cents :: int

definition get_earnings_by_commodity :: "string option \<Rightarrow> string \<Rightarrow> earnings_row list pg_act" where
  "get_earnings_by_commodity fault wallet =
     sqlE fault (\<lambda>d.
       let mine = filter (\<lambda>r. mr_wallet r = wallet) (db_proposals d);
           rows = map (\<lambda>c. let g = filter (\<lambda>r. mr_commodity r = c) mine in
                       \<lparr>ea_commodity = c, ea_session_count = int (length g),
                        ea_total_gross_prm = show_nat (sum_gross g), ea_total_usd_cents = sum_cents g\<rparr>)
                    (remdups (map mr_commodity mine))
       in if list_all (\<lambda>e. in_i64 (ea_total_usd_cents e)) rows then (Inr rows, d)
          else (Inl (PgSqlx ''bigint out of range''), d))"

definition day_nanos :: int where
  "day_nanos = 86400 * nanos_per_sec"

definition total_minted_wei_24h :: "string option \<Rightarrow> datetime \<Rightarrow> string pg_act" where
  "total_minted_wei_24h fault now =
     queryE fault (\<lambda>d. show_nat (sum_gross (filter
       (\<lambda>r. mr_status r = ''Confirmed'' \<and> now - day_nanos < mr_created_at r) (db_proposals d))))"

definition count_anomaly_events :: "string option \<Rightarrow> int pg_act" where
  "count_anomaly_events fault = queryE fault (\<lambda>d. int (length (db_anomalies d)))"

record earnings_24h =
  e24_total_gross_prm :: string
  e24_total_usd_cents :: int
  e24_payout_count :: int

definition get_earnings_24h :: "string option \<Rightarrow> datetime \<Rightarrow> string \<Rightarrow> earnings_24h pg_act" where
  "get_earnings_24h fault now wallet =
     sqlE fault (\<lambda>d.
       let rows = filter (\<lambda>r. mr_wallet r = wallet \<and> now - day_nanos < mr_created_at r) (db_proposals d)
       in as_bigint (sum_cents rows) (\<lambda>cents.
            okE \<lparr>e24_total_gross_prm = show_nat (sum_gross rows), e24_total_usd_cents = cents,
                 e24_payout_count = int (length rows)\<rparr>) d)"

text \<open>
  A \<open>NUMERIC\<close> quotient is rounded to the scale the server picks, and the cast to \<open>bigint\<close> rounds
  again, both to the nearest. The scale is a parameter.
\<close>

definition round_div :: "nat \<Rightarrow> nat \<Rightarrow> nat" where
  "round_div a b = (2 * a + b) div (2 * b)"

definition share_of :: "nat \<Rightarrow> nat \<Rightarrow> nat \<Rightarrow> nat" where
  "share_of scale company total_prm =
     (if total_prm = 0 then 0 else round_div (round_div (company * 10000 * 10 ^ scale) total_prm) (10 ^ scale))"

record entity_share =
  es_company_prm_wei :: string
  es_total_prm_wei :: string
  es_share_bps :: int

definition company_mining_share :: "nat \<Rightarrow> string option \<Rightarrow> string \<Rightarrow> entity_share pg_act" where
  "company_mining_share scale fault key =
     queryE fault (\<lambda>d.
       let conf = filter (\<lambda>r. mr_status r = ''Confirmed'') (db_proposals d);
           company = sum_gross (filter (\<lambda>r. mr_wallet r = key) conf)
       in \<lparr>es_company_prm_wei = show_nat company, es_total_prm_wei = show_nat (sum_gross conf),
           es_share_bps = int (share_of scale company (sum_gross conf))\<rparr>)"

record review_flag =
  rf_session_id :: string
  rf_created_at :: datetime

definition get_review_flags_for_wallet :: "string option \<Rightarrow> string \<Rightarrow> int \<Rightarrow> review_flag list pg_act" where
  "get_review_flags_for_wallet fault wallet limit =
     queryE fault (\<lambda>d. map (\<lambda>r. \<lparr>rf_session_id = an_session_id r, rf_created_at = an_created_at r\<rparr>)
       (take (nat limit) (sort_key (\<lambda>r. - an_created_at r)
         (filter (\<lambda>r. an_wallet r = wallet) (db_anomalies d)))))"

section \<open>Lemmas\<close>

lemmas pg_defs = sqlE_def queryE_def errE_def okE_def

text \<open>The state the unique constraint keeps: one proposal per session.\<close>

definition one_per_session :: "db \<Rightarrow> bool" where
  "one_per_session d \<longleftrightarrow> distinct (map mr_session_id (db_proposals d))"

datatype pg_write =
    InsertAnomaly "string option" anomaly_event
  | InsertProposal "string option" string datetime mint_proposal
  | UpdateStatus "string option" datetime session_id proposal_status

fun exec_write :: "pg_libs \<Rightarrow> pg_write \<Rightarrow> db \<Rightarrow> db" where
  "exec_write L (InsertAnomaly fault e) d = snd (insert_anomaly_event L fault e d)"
| "exec_write L (InsertProposal fault i now p) d = snd (insert_mint_proposal L fault i now p d)"
| "exec_write L (UpdateStatus fault now sid st) d = snd (update_proposal_status fault now sid st d)"

lemma update_ids:
  "map mr_session_id (db_proposals (snd (update_proposal_status fault now sid st d)))
     = map mr_session_id (db_proposals d)"
  by (cases fault) (auto simp: update_proposal_status_def pg_defs)

lemma exec_write_one_per_session: "one_per_session d \<Longrightarrow> one_per_session (exec_write L w d)"
proof (cases w)
  case (UpdateStatus fault now sid st)
  then show "one_per_session d \<Longrightarrow> one_per_session (exec_write L w d)"
    using update_ids by (simp add: one_per_session_def)
qed (auto simp: one_per_session_def insert_anomaly_event_def insert_mint_proposal_def pg_defs
    split: sum.splits option.splits)

lemma round_div_le: "a \<le> c * b \<Longrightarrow> 0 < b \<Longrightarrow> round_div a b \<le> c"
proof -
  assume "a \<le> c * b" "0 < b"
  then have "2 * a + b < (c + 1) * (2 * b)" by (simp add: algebra_simps)
  then show "round_div a b \<le> c"
    unfolding round_div_def using \<open>0 < b\<close> by (metis less_Suc_eq_le Suc_eq_plus1 less_mult_imp_div_less)
qed

lemma round_div_exact: "0 < b \<Longrightarrow> round_div (c * b) b = c"
proof -
  assume b: "0 < b"
  have "round_div (c * b) b = (b * (2 * c + 1)) div (b * 2)"
    by (simp add: round_div_def algebra_simps)
  also have "\<dots> = (2 * c + 1) div 2" using b by (intro div_mult_mult1) simp
  finally show ?thesis by simp
qed

lemma sum_gross_filter_le: "sum_gross (filter P rows) \<le> sum_gross rows"
  by (induction rows) (simp_all add: sum_gross_def)

lemma share_of_le: "a \<le> b \<Longrightarrow> share_of scale a b \<le> 10000"
proof -
  assume "a \<le> b"
  then have "a * 10000 * 10 ^ scale \<le> (10000 * 10 ^ scale) * b" by simp
  then have "0 < b \<Longrightarrow> round_div (a * 10000 * 10 ^ scale) b \<le> 10000 * 10 ^ scale" by (rule round_div_le)
  then show ?thesis by (auto simp: share_of_def intro: round_div_le)
qed

lemma share_of_self: "b \<noteq> 0 \<Longrightarrow> share_of scale b b = 10000"
  using round_div_exact [of b "10000 * 10 ^ scale"] round_div_exact [of "10 ^ scale" 10000]
  by (simp add: share_of_def ac_simps)

lemma insort_key_map: "insort_key k (f x) (map f xs) = map f (insort_key (\<lambda>a. k (f a)) x xs)"
  by (induction xs) auto

lemma sort_key_map: "sort_key k (map f xs) = map f (sort_key (\<lambda>a. k (f a)) xs)"
  by (induction xs) (simp_all add: insort_key_map)

section \<open>Properties\<close>

text \<open>
  A session is paid at most once. Whatever writes happen, in whatever order and with whatever
  database errors in between, no two proposals are for the same session: an insert for a session
  that has a proposal is refused and changes nothing.
\<close>

theorem one_proposal_per_session:
  assumes "one_per_session d"
  shows "one_per_session (fold (exec_write L) ws d)
    \<and> (sid_str (mp_session_id p) \<in> mr_session_id ` set (db_proposals (fold (exec_write L) ws d))
       \<longrightarrow> (\<exists>e. insert_mint_proposal L fault i now p (fold (exec_write L) ws d)
              = (Inl e, fold (exec_write L) ws d)))"
proof
  show inv: "one_per_session (fold (exec_write L) ws d)"
    using assms by (induction ws arbitrary: d) (simp_all add: exec_write_one_per_session)
  show "sid_str (mp_session_id p) \<in> mr_session_id ` set (db_proposals (fold (exec_write L) ws d))
       \<longrightarrow> (\<exists>e. insert_mint_proposal L fault i now p (fold (exec_write L) ws d)
              = (Inl e, fold (exec_write L) ws d))"
    by (auto simp: insert_mint_proposal_def pg_defs split: sum.splits option.splits)
qed

theorem one_proposal_per_session_witness:
  "one_per_session (fold (exec_write \<lparr>pl_addr_debug = (\<lambda>a. []), pl_triggers_json = (\<lambda>t. Inr []),
      pl_attestation_json = (\<lambda>a. Inr []), pl_sig_display = (\<lambda>s. [])\<rparr>)
      [UpdateStatus None 1 (SessionId ''s'') Confirmed] \<lparr>db_anomalies = [], db_proposals = []\<rparr>)"
  by (rule one_proposal_per_session [THEN conjunct1]) (simp add: one_per_session_def)

definition minted_24h :: "datetime \<Rightarrow> proposal_row list \<Rightarrow> nat" where
  "minted_24h now rows =
     sum_gross (filter (\<lambda>r. mr_status r = ''Confirmed'' \<and> now - day_nanos < mr_created_at r) rows)"

lemma total_minted_eq:
  "fst (total_minted_wei_24h None now d) = Inr (show_nat (minted_24h now (db_proposals d)))"
  by (simp add: total_minted_wei_24h_def minted_24h_def pg_defs)

lemma minted_24h_append: "minted_24h now (xs @ ys) = minted_24h now xs + minted_24h now ys"
  by (simp add: minted_24h_def sum_gross_def)

lemma minted_24h_Cons:
  "minted_24h now (r # rs) =
     (if mr_status r = ''Confirmed'' \<and> now - day_nanos < mr_created_at r then mr_gross_prm r else 0)
       + minted_24h now rs"
  by (simp add: minted_24h_def sum_gross_def)

lemma status_debug_Confirmed: "status_debug st = ''Confirmed'' \<longleftrightarrow> st = Confirmed"
  by (cases st) simp_all

lemma minted_24h_confirm:
  assumes "distinct (map mr_session_id rows)" and "r \<in> set rows" and "mr_status r \<noteq> ''Confirmed''"
    and "now - day_nanos < mr_created_at r"
  shows "minted_24h now (map (\<lambda>x. if mr_session_id x = mr_session_id r
           then x\<lparr>mr_status := ''Confirmed'', mr_updated_at := t\<rparr> else x) rows)
     = minted_24h now rows + mr_gross_prm r"
  using assms
proof (induction rows)
  case (Cons x xs)
  have other: "map (\<lambda>x. if mr_session_id x = mr_session_id r
      then x\<lparr>mr_status := ''Confirmed'', mr_updated_at := t\<rparr> else x) xs = xs"
    if "mr_session_id r \<notin> mr_session_id ` set xs"
    using that by (intro map_idI) (metis imageI)
  show ?case
  proof (cases "x = r")
    case True
    then show ?thesis using Cons.prems other by (simp add: minted_24h_Cons)
  next
    case False
    then have "r \<in> set xs" using Cons.prems(2) by simp
    moreover from this have "mr_session_id x \<noteq> mr_session_id r" using Cons.prems(1) by force
    ultimately show ?thesis using Cons by (simp add: minted_24h_Cons)
  qed
qed simp

text \<open>
  The daily total counts minted PRM only. Recording a proposal that is not confirmed never
  changes it, and confirming a session's proposal of the last day adds exactly its amount.
\<close>

theorem daily_total_counts_confirmed:
  assumes "one_per_session d" and "mp_status p \<noteq> Confirmed"
    and "r \<in> set (db_proposals d)" and "mr_status r \<noteq> ''Confirmed''" and "now - day_nanos < mr_created_at r"
  shows "fst (total_minted_wei_24h None now (snd (insert_mint_proposal L fault i t p d)))
           = fst (total_minted_wei_24h None now d)
     \<and> fst (total_minted_wei_24h None now
           (snd (update_proposal_status None t (SessionId (mr_session_id r)) Confirmed d)))
         = Inr (show_nat (minted_24h now (db_proposals d) + mr_gross_prm r))"
proof -
  have "minted_24h now (db_proposals (snd (insert_mint_proposal L fault i t p d))) = minted_24h now (db_proposals d)"
    using assms(2)
    by (auto simp: insert_mint_proposal_def pg_defs minted_24h_append minted_24h_Cons status_debug_Confirmed
        minted_24h_def [of now "[]"] sum_gross_def split: sum.splits option.splits)
  moreover have "minted_24h now (db_proposals (snd (update_proposal_status None t (SessionId (mr_session_id r)) Confirmed d)))
      = minted_24h now (db_proposals d) + mr_gross_prm r"
    using minted_24h_confirm [OF _ assms(3-5)] assms(1)
    by (simp add: update_proposal_status_def pg_defs one_per_session_def cong: if_cong)
  ultimately show ?thesis by (simp add: total_minted_eq)
qed

definition sample_row :: proposal_row where
  "sample_row = \<lparr>mr_id = ''i'', mr_session_id = ''s'', mr_wallet = ''w'', mr_gross_prm = 5,
     mr_net_usd_cents = None, mr_commodity = ''Gold'', mr_chain = ''ethereum'', mr_attestation_json = [],
     mr_backend_sig = [], mr_status = ''Pending'', mr_created_at = 0, mr_updated_at = 0\<rparr>"

definition sample_mint :: mint_proposal where
  "sample_mint = \<lparr>mp_session_id = SessionId ''t'', mp_wallet = 1, mp_gross_prm = 9, mp_net_usd_cents = None,
     mp_commodity = Gold, mp_chain = Ethereum,
     mp_attestation = \<lparr>ar_session_id = SessionId ''t'', ar_signatures = [], ar_node_ids = [], ar_signers = [],
       ar_proof_hash = [], ar_timestamp = 0\<rparr>,
     mp_backend_sig = (0, 0, False), mp_created_at = 0, mp_status = Pending\<rparr>"

theorem daily_total_counts_confirmed_witness:
  "fst (total_minted_wei_24h None 1 (snd (update_proposal_status None 1 (SessionId ''s'') Confirmed
      \<lparr>db_anomalies = [], db_proposals = [sample_row]\<rparr>))) = Inr (show_nat 5)"
  using daily_total_counts_confirmed [where d = "\<lparr>db_anomalies = [], db_proposals = [sample_row]\<rparr>"
      and p = sample_mint and r = sample_row and now = 1 and t = 1]
  by (simp add: one_per_session_def sample_row_def sample_mint_def day_nanos_def minted_24h_def
      sum_gross_def)

text \<open>
  The company's mining share is a proportion. It lies between 0 and 10000 basis points, is 0
  while nothing is confirmed and 10000 when everything confirmed is the company's, whatever scale
  the server divides at; only confirmed proposals matter.
\<close>

theorem company_share_is_proportion:
  assumes "fst (company_mining_share scale None key d) = Inr sh"
  shows "0 \<le> es_share_bps sh \<and> es_share_bps sh \<le> 10000
     \<and> (list_all (\<lambda>r. mr_status r \<noteq> ''Confirmed'') (db_proposals d) \<longrightarrow> es_share_bps sh = 0)
     \<and> (list_all (\<lambda>r. mr_status r = ''Confirmed'' \<longrightarrow> mr_wallet r = key) (db_proposals d)
          \<and> es_total_prm_wei sh \<noteq> ''0'' \<longrightarrow> es_share_bps sh = 10000)"
proof -
  let ?conf = "filter (\<lambda>r. mr_status r = ''Confirmed'') (db_proposals d)"
  let ?mine = "filter (\<lambda>r. mr_wallet r = key) ?conf"
  have sh: "sh = \<lparr>es_company_prm_wei = show_nat (sum_gross ?mine), es_total_prm_wei = show_nat (sum_gross ?conf),
      es_share_bps = int (share_of scale (sum_gross ?mine) (sum_gross ?conf))\<rparr>"
    using assms by (simp add: company_mining_share_def pg_defs Let_def)
  have le: "sum_gross ?mine \<le> sum_gross ?conf" by (rule sum_gross_filter_le)
  have "share_of scale (sum_gross ?mine) (sum_gross ?conf) \<le> 10000" using le by (rule share_of_le)
  moreover have "share_of scale 0 (sum_gross ?conf) = 0" "share_of scale x 0 = 0" for x
    by (simp_all add: share_of_def round_div_def)
  moreover have "?conf = [] \<Longrightarrow> sum_gross ?conf = 0" by (simp add: sum_gross_def)
  moreover have z: "show_nat 0 = ''0''" by code_simp
  moreover have "?mine = ?conf" if "list_all (\<lambda>r. mr_status r = ''Confirmed'' \<longrightarrow> mr_wallet r = key) (db_proposals d)"
    using that by (intro filter_True) (auto simp: list_all_iff)
  moreover have "show_nat (sum_gross ?conf) \<noteq> ''0'' \<Longrightarrow> share_of scale (sum_gross ?conf) (sum_gross ?conf) = 10000"
    using z by (cases "sum_gross ?conf = 0") (simp_all add: share_of_self)
  ultimately show ?thesis unfolding sh by (auto simp: list_all_iff filter_empty_conv)
qed

theorem company_share_is_proportion_witness:
  "es_share_bps (projr (fst (company_mining_share 16 None ''w''
      \<lparr>db_anomalies = [], db_proposals = [sample_row]\<rparr>))) = 0"
  using company_share_is_proportion [where d = "\<lparr>db_anomalies = [], db_proposals = [sample_row]\<rparr>"
      and scale = 16 and key = "''w''"]
  by (simp add: company_mining_share_def pg_defs sample_row_def Let_def)

text \<open>
  Review flags leak nothing of the detection. Two databases whose anomaly events agree on
  session, wallet and time give every wallet the same flags, whatever the scores, triggers and
  levels; a wallet's flags depend on no other wallet's events.
\<close>

theorem review_flags_reveal_only_sessions:
  assumes "map (\<lambda>r. (an_session_id r, an_created_at r)) (filter (\<lambda>r. an_wallet r = w) (db_anomalies d))
    = map (\<lambda>r. (an_session_id r, an_created_at r)) (filter (\<lambda>r. an_wallet r = w) (db_anomalies d'))"
  shows "fst (get_review_flags_for_wallet fault w limit d) = fst (get_review_flags_for_wallet fault w limit d')"
proof -
  let ?pub = "\<lambda>r. (an_session_id r, an_created_at r)"
  have eq: "fst (get_review_flags_for_wallet fault w limit d0) =
      (case fault of Some e \<Rightarrow> Inl (PgSqlx e) | None \<Rightarrow>
         Inr (map (\<lambda>(i, t). \<lparr>rf_session_id = i, rf_created_at = t\<rparr>) (take (nat limit)
           (sort_key (\<lambda>p. - snd p) (map ?pub (filter (\<lambda>r. an_wallet r = w) (db_anomalies d0)))))))" for d0
    by (simp add: get_review_flags_for_wallet_def pg_defs sort_key_map take_map comp_def split: option.splits)
  show ?thesis unfolding eq assms ..
qed

theorem review_flags_reveal_only_sessions_witness:
  "fst (get_review_flags_for_wallet None ''w'' 10 \<lparr>db_anomalies = [\<lparr>an_session_id = ''s'', an_wallet = ''w'',
      an_score = 5000, an_triggers = ''[1]'', an_level = ''High'', an_created_at = 3\<rparr>], db_proposals = []\<rparr>)
   = fst (get_review_flags_for_wallet None ''w'' 10 \<lparr>db_anomalies = [\<lparr>an_session_id = ''s'', an_wallet = ''w'',
      an_score = 0, an_triggers = ''[]'', an_level = ''Low'', an_created_at = 3\<rparr>], db_proposals = []\<rparr>)"
  by (rule review_flags_reveal_only_sessions) simp

end
