(* ===== verification/Rate_Limiter.thy ===== *)
theory Rate_Limiter
  imports Common Redis
begin

text \<open>
  \<open>crates/rate-limiter/src/lib.rs\<close>: fixed-window limits for wallets, IP addresses and nodes on
  Redis counters. The text form of an address is a parameter.
\<close>

definition WALLET_LIMIT :: u32 where "WALLET_LIMIT = 100"

definition WALLET_WINDOW_SECS :: u64 where "WALLET_WINDOW_SECS = 86400"

definition IP_LIMIT :: u32 where "IP_LIMIT = 200"

definition IP_WINDOW_SECS :: u64 where "IP_WINDOW_SECS = 3600"

definition NODE_LIMIT :: u32 where "NODE_LIMIT = 1000"

definition NODE_WINDOW_SECS :: u64 where "NODE_WINDOW_SECS = 60"

datatype rate_limit_result = Allowed | Denied u32 u64

datatype rate_limiter_error = RateRedis redis_error

definition rate_check ::
    "'r redis_ops \<Rightarrow> string \<Rightarrow> u32 \<Rightarrow> u64 \<Rightarrow> ('r, rate_limiter_error, rate_limit_result) act" where
  "rate_check R key limit window_secs =
     map_errE RateRedis
       (tryE (r_incr R key) (\<lambda>count.
        tryE (if count = 1 then r_expire R key (uint window_secs) else okE ()) (\<lambda>_.
        okE (if uint limit < count then Denied limit window_secs else Allowed))))"

definition check_wallet ::
    "'r redis_ops \<Rightarrow> (address \<Rightarrow> string) \<Rightarrow> address \<Rightarrow> ('r, rate_limiter_error, rate_limit_result) act" where
  "check_wallet R addr_str wallet =
     rate_check R (''rate:wallet:'' @ addr_str wallet) WALLET_LIMIT WALLET_WINDOW_SECS"

definition check_ip ::
    "'r redis_ops \<Rightarrow> string \<Rightarrow> ('r, rate_limiter_error, rate_limit_result) act" where
  "check_ip R ip = rate_check R (''rate:ip:'' @ ip) IP_LIMIT IP_WINDOW_SECS"

definition check_node ::
    "'r redis_ops \<Rightarrow> node_id \<Rightarrow> ('r, rate_limiter_error, rate_limit_result) act" where
  "check_node R n = rate_check R (''rate:node:'' @ nid_str n) NODE_LIMIT NODE_WINDOW_SECS"

definition rate_reset :: "'r redis_ops \<Rightarrow> string \<Rightarrow> ('r, rate_limiter_error, unit) act" where
  "rate_reset R key = map_errE RateRedis (tryE (r_del R [key]) (\<lambda>_. okE ()))"

section \<open>On the reference key space\<close>

context redis
begin

lemma sim_rate_check: "sim view (rate_check R key limit w) (rate_check keyspace_ops key limit w)"
  unfolding rate_check_def keyspace_ops_simps by (intro sim_intros)

end

text \<open>The counter behind a key: its value and the end of its window.\<close>

definition counter :: "keyspace \<Rightarrow> string \<Rightarrow> int \<Rightarrow> int \<Rightarrow> bool" where
  "counter s key n t \<longleftrightarrow> ks_entry s key = Some (show_int n, Some t)"

lemma rate_check_fresh:
  assumes "ks_entry s key = None" and "0 < window"
  shows "\<exists>s'. rate_check keyspace_ops key limit window s
              = (Inr (if uint limit < 1 then Denied limit window else Allowed), s')
           \<and> counter s' key 1 (ks_clock s + uint window) \<and> ks_clock s' = ks_clock s"
proof -
  have "0 < uint window" using assms(2) by (simp add: word_less_def)
  then show ?thesis
    using assms(1)
    by (simp add: rate_check_def r_incr_def map_errE_def tryE_def okE_def ks_cmd_defs in_i64_def
        counter_def)
qed

lemma rate_check_again:
  assumes "counter s key n t" and "1 \<le> n" and "n + 1 < 2 ^ 63"
  shows "\<exists>s'. rate_check keyspace_ops key limit window s
              = (Inr (if uint limit < n + 1 then Denied limit window else Allowed), s')
           \<and> counter s' key (n + 1) t \<and> ks_clock s' = ks_clock s"
proof -
  have live: "ks_clock s < t"
    using assms(1) by (auto simp: counter_def ks_entry_def split: option.splits if_splits)
  have "in_i64 n" "in_i64 (n + 1)" using assms(2,3) by (auto simp: in_i64_def)
  then show ?thesis
    using assms(1,2) live
    by (simp add: rate_check_def r_incr_def map_errE_def tryE_def okE_def ks_cmd_defs in_i64_def
        counter_def)
qed

lemma counter_advance: "counter s key n t \<Longrightarrow> 0 \<le> d \<Longrightarrow> ks_clock s + d < t \<Longrightarrow> counter (ks_advance d s) key n t"
  by (simp add: counter_def ks_entry_advance)

lemma counter_expires: "counter s key n t \<Longrightarrow> 0 \<le> d \<Longrightarrow> t \<le> ks_clock s + d \<Longrightarrow> ks_entry (ks_advance d s) key = None"
  by (simp add: counter_def ks_entry_advance)

section \<open>Sequences of requests\<close>

text \<open>
  Requests for one key over time: before each check the clock advances, by the environment step
  \<open>tick\<close> of the server.
\<close>

fun checks_run ::
    "'r redis_ops \<Rightarrow> (int \<Rightarrow> 'r \<Rightarrow> 'r) \<Rightarrow> string \<Rightarrow> u32 \<Rightarrow> u64 \<Rightarrow> int list \<Rightarrow> 'r
       \<Rightarrow> (rate_limiter_error + rate_limit_result) list \<times> 'r" where
  "checks_run R tick key limit window [] s = ([], s)"
| "checks_run R tick key limit window (d # ds) s =
     (case rate_check R key limit window (tick d s) of (r, s') \<Rightarrow>
        (case checks_run R tick key limit window ds s' of (rs, s'') \<Rightarrow> (r # rs, s'')))"

definition verdict :: "u32 \<Rightarrow> u64 \<Rightarrow> int \<Rightarrow> rate_limit_result" where
  "verdict limit window n = (if uint limit < n then Denied limit window else Allowed)"

lemma checks_run_window:
  assumes "counter s key n t" and "1 \<le> n" and "n + int (length ds) < 2 ^ 63"
    and "\<forall>d \<in> set ds. 0 \<le> d" and "ks_clock s + sum_list ds < t"
  shows "\<exists>s'. checks_run keyspace_ops ks_advance key limit window ds s
              = (map (\<lambda>i. Inr (verdict limit window (n + 1 + int i))) [0..<length ds], s')
           \<and> counter s' key (n + int (length ds)) t \<and> ks_clock s' = ks_clock s + sum_list ds"
  using assms
proof (induction ds arbitrary: s n)
  case (Cons d ds)
  have "0 \<le> sum_list ds" using Cons.prems(4) by (simp add: sum_list_nonneg)
  then have "counter (ks_advance d s) key n t"
    using Cons.prems by (intro counter_advance) auto
  then obtain s1 where s1: "rate_check keyspace_ops key limit window (ks_advance d s)
      = (Inr (verdict limit window (n + 1)), s1)" "counter s1 key (n + 1) t"
      "ks_clock s1 = ks_clock s + d"
    using rate_check_again [of "ks_advance d s" key n t limit window] Cons.prems
    by (auto simp: verdict_def)
  obtain s2 where s2: "checks_run keyspace_ops ks_advance key limit window ds s1
      = (map (\<lambda>i. Inr (verdict limit window (n + 1 + 1 + int i))) [0..<length ds], s2)"
      "counter s2 key (n + 1 + int (length ds)) t" "ks_clock s2 = ks_clock s1 + sum_list ds"
    using Cons.IH [OF s1(2)] Cons.prems s1(3) by auto
  have eq: "map (\<lambda>i. Inr (verdict limit window (n + 1 + int i))) [0..<length (d # ds)]
      = Inr (verdict limit window (n + 1)) #
        map (\<lambda>i. Inr (verdict limit window (n + 1 + 1 + int i))) [0..<length ds]"
    by (auto simp: map_upt_Suc algebra_simps simp del: upt_Suc
        intro!: arg_cong [where f = "verdict limit window"])
  have "counter s2 key (n + int (length (d # ds))) t" "ks_clock s2 = ks_clock s + sum_list (d # ds)"
    using s2(2,3) s1(3) by (simp_all add: algebra_simps)
  then show ?case unfolding eq using s1(1) s2(1) by simp
qed simp

context redis
begin

lemma sim_checks_run:
  assumes "\<And>d s. view (tick d s) = ks_advance d (view s)"
    and "checks_run R tick key limit w ds s = (rs, s')"
  shows "checks_run keyspace_ops ks_advance key limit w ds (view s) = (rs, view s')"
  using assms(2)
proof (induction ds arbitrary: s rs s')
  case (Cons d ds)
  obtain r s1 where 1: "rate_check R key limit w (tick d s) = (r, s1)" by fastforce
  obtain rs1 s2 where 2: "checks_run R tick key limit w ds s1 = (rs1, s2)" by fastforce
  show ?case
    using Cons.prems Cons.IH [OF 2] simD [OF sim_rate_check 1] 1 2 by (simp add: assms(1))
qed simp

lemma checks_in_window:
  assumes tick: "\<And>d s. view (tick d s) = ks_advance d (view s)"
    and fresh: "ks_entry (ks_advance d (view s)) key = None"
    and "0 < window" and "0 < limit"
    and ds: "\<forall>d \<in> set ds. 0 \<le> d" "sum_list ds < uint window" "1 + int (length ds) < 2 ^ 63"
  shows "\<exists>s'. checks_run R tick key limit window (d # ds) s
              = (map (\<lambda>i. Inr (verdict limit window (1 + int i))) [0..<Suc (length ds)], s')
           \<and> counter (view s') key (1 + int (length ds)) (ks_clock (view s) + d + uint window)
           \<and> ks_clock (view s') = ks_clock (view s) + d + sum_list ds"
proof -
  obtain s1 where s1: "rate_check keyspace_ops key limit window (ks_advance d (view s))
      = (Inr (verdict limit window 1), s1)"
      "counter s1 key 1 (ks_clock (view s) + d + uint window)" "ks_clock s1 = ks_clock (view s) + d"
    using rate_check_fresh [OF fresh \<open>0 < window\<close>, of limit] by (auto simp: verdict_def)
  obtain s2 where s2: "checks_run keyspace_ops ks_advance key limit window ds s1
      = (map (\<lambda>i. Inr (verdict limit window (1 + 1 + int i))) [0..<length ds], s2)"
      "counter s2 key (1 + int (length ds)) (ks_clock (view s) + d + uint window)"
      "ks_clock s2 = ks_clock s1 + sum_list ds"
    using checks_run_window [OF s1(2) _ ds(3,1)] ds(2) s1(3) by auto
  obtain rs s' where run: "checks_run R tick key limit window (d # ds) s = (rs, s')" by fastforce
  have "checks_run keyspace_ops ks_advance key limit window (d # ds) (view s) = (rs, view s')"
    by (rule sim_checks_run [OF tick run])
  then show ?thesis using s1 s2 run
    by (simp add: map_upt_Suc del: upt_Suc)
qed

end

section \<open>Properties\<close>

text \<open>
  C31: the limiter is a fixed-window limiter. From the first request for a key without a counter,
  all requests inside the window get the verdict of their position: the first \<open>limit\<close> are allowed
  and all later ones denied, however they are spaced, and the first request after the window's end
  is allowed again.
\<close>

theorem rate_limit_fixed_window:
  assumes "redis R view" and "\<And>d s. view (tick d s) = ks_advance d (view s)"
    and "ks_entry (ks_advance d (view s)) key = None" and "0 < window" and "0 < limit"
    and "\<forall>d \<in> set ds. 0 \<le> d" and "sum_list ds < uint window" and "1 + int (length ds) < 2 ^ 63"
    and "0 \<le> late" and "uint window \<le> sum_list ds + late"
  shows "fst (checks_run R tick key limit window (d # ds) s)
           = map (\<lambda>i. Inr (if i < unat limit then Allowed else Denied limit window)) [0..<Suc (length ds)]
     \<and> fst (rate_check R key limit window
           (tick late (snd (checks_run R tick key limit window (d # ds) s)))) = Inr Allowed"
proof -
  obtain s' where s': "checks_run R tick key limit window (d # ds) s
      = (map (\<lambda>i. Inr (verdict limit window (1 + int i))) [0..<Suc (length ds)], s')"
      "counter (view s') key (1 + int (length ds)) (ks_clock (view s) + d + uint window)"
      "ks_clock (view s') = ks_clock (view s) + d + sum_list ds"
    using redis.checks_in_window [OF assms(1-8)] by blast
  have verdict: "verdict limit window (1 + int i) = (if i < unat limit then Allowed else Denied limit window)" for i
  proof -
    have "int (unat limit) = uint limit" by simp
    then have "uint limit < 1 + int i \<longleftrightarrow> \<not> i < unat limit" by linarith
    then show ?thesis by (simp add: verdict_def)
  qed
  have lim: "\<not> uint limit < 1" using assms(5) by (simp add: word_less_def)
  have "ks_entry (ks_advance late (view s')) key = None"
    using counter_expires [OF s'(2)] assms(9,10) s'(3) by simp
  then obtain s2 where "rate_check keyspace_ops key limit window (view (tick late s')) = (Inr Allowed, s2)"
    using rate_check_fresh [of "ks_advance late (view s')" key window limit] assms(4)
    unfolding assms(2) by (auto simp: lim)
  then have "fst (rate_check R key limit window (tick late s')) = Inr Allowed"
    using redis.sim_rate_check [OF assms(1), of key limit window] by (simp add: sim_def)
  then show ?thesis using s'(1) by (simp add: verdict del: upt_Suc)
qed

theorem rate_limit_fixed_window_witness:
  "fst (checks_run keyspace_ops ks_advance ''rate:ip:x'' 2 60 [0, 10, 10] \<lparr>ks_clock = 0, ks_data = []\<rparr>)
     = [Inr Allowed, Inr Allowed, Inr (Denied 2 60)]"
  using rate_limit_fixed_window [where R = keyspace_ops and view = id and tick = ks_advance and d = 0
      and s = "\<lparr>ks_clock = 0, ks_data = []\<rparr>" and key = "''rate:ip:x''" and window = 60 and limit = 2
      and ds = "[10, 10]" and late = 60, OF keyspace.redis_axioms]
  by (simp add: ks_entry_def ks_advance_def)

text \<open>A check changes only its own key.\<close>

lemma rate_check_frame:
  assumes "rate_check keyspace_ops key limit window s = (r, s')" and "k \<noteq> key"
  shows "ks_entry s' k = ks_entry s k"
  using assms
  by (auto simp: rate_check_def r_incr_def map_errE_def tryE_def okE_def ks_cmd_defs
      split: if_splits option.splits sum.splits prod.splits)

end
