(* ===== verification/Verification_Service.thy ===== *)
theory Verification_Service
  imports Anomaly Grpc_Client Mint_Ceiling Onchain_Client Oracle_Reader Payout Postgres_Store
    Rate_Limiter Session_Manager
begin

text \<open>
  \<open>crates/verification-service/src/lib.rs\<close>: the HTTP handlers, over the components of the other
  theories. The world a handler acts on holds the Redis server, the database, the price averages
  of the running sessions, the cached house edge, the anomaly channel, the session gauge and the
  rest of the outside world (chains, price feeds, nodes). The configuration \<open>app_state\<close> is
  \<open>AppState\<close> with the library functions the handlers call.

  A handler reads the wall clock several times and issues several database statements; \<open>request\<close>
  gives the i-th reading and the i-th statement's failure, if any, together with the fresh UUID and
  the fuel of the scan loop.
\<close>

section \<open>State\<close>

record ('r, 'w, 'ch) world =
  wd_redis :: 'r
  wd_db :: db
  wd_twap :: "string \<Rightarrow> twap_calculator option"
  wd_edge :: "'w house_edge_reader option"
  wd_ext :: 'w
  wd_events :: 'ch
  wd_active :: int

record ('r, 'w, 'ch, 'sk, 'p) app_state =
  st_redis :: "'r redis_ops"
  st_libs :: session_libs
  st_pg :: pg_libs
  st_try_send :: "anomaly_event \<Rightarrow> 'ch \<Rightarrow> (string + unit) \<times> 'ch"
  st_mint_ceiling :: mint_ceiling_calculator
  st_onchain :: "'w onchain_client"
  st_coordinator :: "'w node_coordinator"
  st_signing_key :: 'sk
  st_oracle_reader :: "'w oracle_reader"
  st_submitters :: "(chain \<times> ('w, 'p) oracle_submitter) list"
  st_staking_readers :: "(chain \<times> 'w staking_reader) list"
  st_node_sites :: "string \<Rightarrow> node_site option"
  st_company_wallet :: "address option"
  st_active_users :: u64
  st_avg_daily :: u64
  st_parse_address :: "string \<Rightarrow> address option"
  st_hex_decode :: "string \<Rightarrow> bytes option"
  st_recover :: "signature \<Rightarrow> bytes \<Rightarrow> string + address"
  st_proposal_json :: "mint_proposal \<Rightarrow> string + bytes"
  st_sign :: "'sk \<Rightarrow> bytes \<Rightarrow> string + signature"
  st_as_bytes :: "signature \<Rightarrow> bytes"
  st_parse_signature :: "bytes \<Rightarrow> string + signature"

record request =
  rq_clock :: "nat \<Rightarrow> datetime"
  rq_fault :: "nat \<Rightarrow> string option"
  rq_uuid :: string
  rq_fuel :: nat

datatype api_error =
    BadRequest string
  | NotFound
  | Forbidden string
  | Conflict string
  | RateLimited
  | ApiInternal

fun into_response :: "api_error \<Rightarrow> nat \<times> string" where
  "into_response (BadRequest msg) = (400, msg)"
| "into_response NotFound = (404, ''session not found'')"
| "into_response (Forbidden msg) = (403, msg)"
| "into_response (Conflict msg) = (409, msg)"
| "into_response RateLimited = (429, ''rate limit exceeded'')"
| "into_response ApiInternal = (500, ''internal error'')"

text \<open>Running a component inside the world; an internal failure hides its cause.\<close>

definition onRedis :: "('r, 'e, 'a) act \<Rightarrow> (('r, 'w, 'ch) world, 'e, 'a) act" where
  "onRedis m = (\<lambda>wd. case m (wd_redis wd) of (r, x) \<Rightarrow> (r, wd\<lparr>wd_redis := x\<rparr>))"

definition onDb :: "(db, 'e, 'a) act \<Rightarrow> (('r, 'w, 'ch) world, 'e, 'a) act" where
  "onDb m = (\<lambda>wd. case m (wd_db wd) of (r, x) \<Rightarrow> (r, wd\<lparr>wd_db := x\<rparr>))"

definition onExt :: "('w, 'e, 'a) act \<Rightarrow> (('r, 'w, 'ch) world, 'e, 'a) act" where
  "onExt m = (\<lambda>wd. case m (wd_ext wd) of (r, x) \<Rightarrow> (r, wd\<lparr>wd_ext := x\<rparr>))"

definition apiE :: "('s, 'e, 'a) act \<Rightarrow> ('s, api_error, 'a) act" where
  "apiE m = map_errE (\<lambda>_. ApiInternal) m"

text \<open>\<open>if let Err(e) = m { warn }\<close>: the failure is logged and the handler goes on.\<close>

definition logE :: "('s, 'e, 'a) act \<Rightarrow> ('s, api_error, unit) act" where
  "logE m = attempt m (\<lambda>_. okE ())"

definition requireE :: "'a option \<Rightarrow> api_error \<Rightarrow> ('s, api_error, 'a) act" where
  "requireE v e = (case v of Some a \<Rightarrow> okE a | None \<Rightarrow> errE e)"

section \<open>Parsing\<close>

definition SEED_BLOCK_OFFSET :: u64 where "SEED_BLOCK_OFFSET = 3"

definition NET_USDC_SCALE_TO_CENTS :: u128 where "NET_USDC_SCALE_TO_CENTS = 10000"

definition PRM_WEI :: u128 where "PRM_WEI = 1000000000000000000"

definition parse_client_type :: "string \<Rightarrow> client_type option" where
  "parse_client_type raw =
     (let s = to_lowercase raw in
      if s = ''browser'' then Some Browser
      else if s = ''desktop'' then Some Desktop
      else if s = ''cli'' then Some Cli
      else None)"

definition parse_commodity :: "string \<Rightarrow> commodity" where
  "parse_commodity raw =
     (let s = to_lowercase raw in
      if s = ''silver'' then Silver
      else if s = ''platinum'' then Platinum
      else if s = ''oil'' \<or> s = ''crudeoil'' \<or> s = ''crude_oil'' then CrudeOil
      else Gold)"

definition parse_hash :: "(string \<Rightarrow> bytes option) \<Rightarrow> string \<Rightarrow> bytes option" where
  "parse_hash hex_decode raw =
     (case hex_decode raw of
        None \<Rightarrow> None
      | Some bs \<Rightarrow> if length bs = 32 then Some bs else None)"

definition enforce :: "rate_limit_result \<Rightarrow> ('s, api_error, unit) act" where
  "enforce r = (case r of Allowed \<Rightarrow> okE () | Denied l w \<Rightarrow> errE RateLimited)"

fun result_label :: "validation_result \<Rightarrow> string" where
  "result_label Valid = ''Valid''"
| "result_label (Invalid r) = ''Invalid''"
| "result_label (Suspicious l) = ''Suspicious''"

fun is_invalid :: "validation_result \<Rightarrow> bool" where
  "is_invalid (Invalid r) = True"
| "is_invalid _ = False"

section \<open>Creating a session\<close>

record create_session_request =
  cr_wallet :: string
  cr_client_type :: string
  cr_commit_hash :: string
  cr_assigned_node_id :: "string option"
  cr_commodity :: string
  cr_chain :: string
  cr_cpu_threads :: u32

record create_session_response =
  cs_session_id :: string
  cs_assigned_site :: "node_site option"

definition new_context ::
    "datetime \<Rightarrow> address \<Rightarrow> string \<Rightarrow> client_type \<Rightarrow> u32 \<Rightarrow> node_id option \<Rightarrow> commodity \<Rightarrow> chain
       \<Rightarrow> u32 \<Rightarrow> node_site option \<Rightarrow> session_context" where
  "new_context now wallet ip client_type active node commodity target_chain threads site =
     \<lparr>sc_wallet = wallet, sc_ip = Some ip, sc_client_type = client_type,
      sc_active_sessions_count = active, sc_started_at = now, sc_last_submission_at = None,
      sc_assigned_node_id = node, sc_commodity = commodity, sc_target_chain = target_chain,
      sc_cpu_threads = threads, sc_assigned_site = site\<rparr>"

definition handle_create_session ::
    "('r, 'w, 'ch, 'sk, 'p) app_state \<Rightarrow> request \<Rightarrow> string \<Rightarrow> create_session_request
       \<Rightarrow> (('r, 'w, 'ch) world, api_error, create_session_response option) act" where
  "handle_create_session st rq ip body =
     tryE (requireE (st_parse_address st (cr_wallet body)) (BadRequest ''invalid wallet address'')) (\<lambda>wallet.
     tryE (requireE (parse_client_type (cr_client_type body)) (BadRequest ''unknown client_type'')) (\<lambda>client_type.
     tryE (requireE (parse_hash (st_hex_decode st) (cr_commit_hash body)) (BadRequest ''invalid commit_hash'')) (\<lambda>commit_hash.
     let commodity = parse_commodity (cr_commodity body) in
     tryE (requireE (from_str_id (cr_chain body))
        (BadRequest ''invalid or missing chain (expected ethereum or polygon)'')) (\<lambda>target_chain.
     let assigned_site = Option.bind (cr_assigned_node_id body) (st_node_sites st);
         assigned_node_id = map_option NodeId (cr_assigned_node_id body) in
     tryE (apiE (onRedis (check_wallet (st_redis st) (sl_addr (st_libs st)) wallet))) (\<lambda>r.
     tryE (enforce r) (\<lambda>_.
     tryE (apiE (onRedis (check_ip (st_redis st) ip))) (\<lambda>r.
     tryE (enforce r) (\<lambda>_.
     tryE (apiE (onRedis (get_active_session_count (rq_fuel rq) (st_redis st) (st_libs st) wallet))) (\<lambda>n.
     case n of None \<Rightarrow> okE None | Some active_sessions_count \<Rightarrow>
     let ctx = new_context (rq_clock rq 0) wallet ip client_type active_sessions_count assigned_node_id
                 commodity target_chain (cr_cpu_threads body) assigned_site in
     tryE (apiE (onRedis (create_session (st_redis st) (st_libs st) (rq_uuid rq) ctx))) (\<lambda>sid.
     tryE (apiE (onRedis (set_commit (st_redis st) (st_libs st) sid commit_hash))) (\<lambda>_.
     (\<lambda>wd. (Inr (Some \<lparr>cs_session_id = sid_str sid, cs_assigned_site = assigned_site\<rparr>),
        wd\<lparr>wd_twap := (wd_twap wd)(sid_str sid \<mapsto> twap_new (rq_clock rq 1)),
           wd_active := wd_active wd + 1\<rparr>)))))))))))))"

section \<open>Submitting a proof\<close>

record submit_proof_request =
  sp_sequence :: u32
  sp_hashrate :: u64
  sp_proof_hash :: string
  sp_proof_input :: string
  sp_difficulty :: u64

record submit_proof_response =
  sr_accepted :: bool
  sr_suspicion_level :: string

definition decode_input ::
    "(string \<Rightarrow> bytes option) \<Rightarrow> string \<Rightarrow> bytes option" where
  "decode_input hex_decode raw = (if raw = [] then Some [] else hex_decode raw)"

definition submitted_proof ::
    "session_id \<Rightarrow> address \<Rightarrow> submit_proof_request \<Rightarrow> bytes \<Rightarrow> bytes \<Rightarrow> datetime \<Rightarrow> partial_proof" where
  "submitted_proof sid wallet body proof_hash proof_input now =
     \<lparr>pp_session_id = sid, pp_wallet = wallet, pp_sequence = sp_sequence body,
      pp_hashrate = sp_hashrate body, pp_proof_hash = proof_hash, pp_proof_input = proof_input,
      pp_difficulty = sp_difficulty body, pp_submitted_at = now, pp_signature = None\<rparr>"

text \<open>The counters and the work record; every failure is logged only.\<close>

definition count_proof ::
    "('r, 'w, 'ch, 'sk, 'p) app_state \<Rightarrow> request \<Rightarrow> session_id \<Rightarrow> u64 \<Rightarrow> validation_result
       \<Rightarrow> (('r, 'w, 'ch) world, api_error, unit) act" where
  "count_proof st rq sid difficulty result =
     tryE (logE (onRedis (increment_proof_count (st_redis st) sid))) (\<lambda>_.
     if \<not> is_invalid result
     then tryE (logE (onRedis (record_accepted_proof (st_redis st) sid difficulty
              (rq_clock rq 1 div nanos_per_sec)))) (\<lambda>_.
          tryE (logE (onRedis (touch_last_activity (st_redis st) (rq_clock rq 2) sid))) (\<lambda>_.
          logE (onRedis (increment_verified_proof_count (st_redis st) sid))))
     else logE (onRedis (increment_rejected_proof_count (st_redis st) sid)))"

definition assess_proof ::
    "('r, 'w, 'ch, 'sk, 'p) app_state \<Rightarrow> request \<Rightarrow> session_id \<Rightarrow> address \<Rightarrow> validation_result
       \<Rightarrow> (('r, 'w, 'ch) world, api_error, suspicion_level) act" where
  "assess_proof st rq sid wallet result =
     (\<lambda>wd. case process (st_try_send st) (rq_clock rq 3) sid wallet [result] (wd_events wd) of
        (assessment, ch) \<Rightarrow>
          let level = as_level assessment;
              triggers = (case result of Invalid reason \<Rightarrow> [reason] | _ \<Rightarrow> []);
              wd' = wd\<lparr>wd_events := ch\<rparr>
          in if level \<noteq> Low
             then tryE (logE (onDb (insert_anomaly_event (st_pg st) (rq_fault rq 0)
                    \<lparr>ae_session_id = sid, ae_wallet = wallet, ae_score = as_score_bps assessment,
                     ae_triggers = triggers, ae_level = level, ae_timestamp = rq_clock rq 4\<rparr>)))
                  (\<lambda>_. okE level) wd'
             else (Inr level, wd'))"

definition sample_session ::
    "('r, 'w, 'ch, 'sk, 'p) app_state \<Rightarrow> request \<Rightarrow> session_id \<Rightarrow> commodity
       \<Rightarrow> (('r, 'w, 'ch) world, api_error, unit) act" where
  "sample_session st rq sid commodity =
     (\<lambda>wd. case wd_twap wd (sid_str sid) of
        None \<Rightarrow> (Inr (), wd)
      | Some calculator \<Rightarrow>
          (case sample_into_twap (st_oracle_reader st) (rq_clock rq 5) commodity calculator (wd_ext wd) of
             (r, calculator', w') \<Rightarrow>
               (Inr (), wd\<lparr>wd_twap := (wd_twap wd)(sid_str sid \<mapsto> calculator'), wd_ext := w'\<rparr>)))"

definition handle_submit_proof ::
    "('r, 'w, 'ch, 'sk, 'p) app_state \<Rightarrow> request \<Rightarrow> string \<Rightarrow> submit_proof_request
       \<Rightarrow> (('r, 'w, 'ch) world, api_error, submit_proof_response) act" where
  "handle_submit_proof st rq sid_raw body =
     (let sid = SessionId sid_raw in
     tryE (apiE (onRedis (get_session (st_redis st) (st_libs st) sid))) (\<lambda>c.
     tryE (requireE c NotFound) (\<lambda>ctx.
     tryE (apiE (onRedis (is_paused (st_redis st) sid))) (\<lambda>paused.
     if paused then errE (Conflict ''session paused'') else
     tryE (requireE (parse_hash (st_hex_decode st) (sp_proof_hash body)) (BadRequest ''invalid proof_hash'')) (\<lambda>proof_hash.
     tryE (requireE (decode_input (st_hex_decode st) (sp_proof_input body)) (BadRequest ''invalid proof_input'')) (\<lambda>proof_input.
     let pr = submitted_proof sid (sc_wallet ctx) body proof_hash proof_input (rq_clock rq 0);
         result = prefilter_validate pr PreFilter ctx in
     tryE (count_proof st rq sid (sp_difficulty body) result) (\<lambda>_.
     tryE (apiE (onRedis (store_proof (st_redis st) (st_libs st) sid pr))) (\<lambda>_.
     tryE (assess_proof st rq sid (sc_wallet ctx) result) (\<lambda>level.
     tryE (sample_session st rq sid (sc_commodity ctx)) (\<lambda>_.
     okE \<lparr>sr_accepted = (\<not> is_invalid result), sr_suspicion_level = level_debug level\<rparr>))))))))))"

section \<open>Staking and the live edge\<close>

record chain_stake =
  ck_chain :: chain
  ck_amount :: string
  ck_lock_period :: u8
  ck_active :: bool

record staking_summary =
  sm_chains :: "chain_stake list"
  sm_total_staked :: string
  sm_effective_boost_bps :: u32

definition resolve_chain_stake ::
    "chain \<Rightarrow> (onchain_client_error + stake_info) option \<Rightarrow> chain_stake list
       \<Rightarrow> (u128 \<times> u8) option \<times> chain_stake list" where
  "resolve_chain_stake c result acc =
     (case result of
        None \<Rightarrow> (None, acc)
      | Some (Inr stake) \<Rightarrow>
          (if si_active stake then Some (si_amount stake, si_lock_period stake) else None,
           acc @ [\<lparr>ck_chain = c, ck_amount = show_nat (unat (si_amount stake)),
                      ck_lock_period = si_lock_period stake, ck_active = si_active stake\<rparr>])
      | Some (Inl e) \<Rightarrow>
          (None, acc @ [\<lparr>ck_chain = c, ck_amount = ''0'', ck_lock_period = 0, ck_active = False\<rparr>]))"

definition build_summary ::
    "(onchain_client_error + stake_info) option \<Rightarrow> (onchain_client_error + stake_info) option
       \<Rightarrow> staking_summary" where
  "build_summary ethereum_result polygon_result =
     (let (ethereum_stake, chains1) = resolve_chain_stake Ethereum ethereum_result [];
          (polygon_stake, chains2) = resolve_chain_stake Polygon polygon_result chains1;
          polygon_amount = map_option fst polygon_stake;
          boost = combined_boost_bps ethereum_stake polygon_amount;
          staked = saturating_add (case ethereum_stake of Some (a, _) \<Rightarrow> a | None \<Rightarrow> 0)
                     (case polygon_amount of Some a \<Rightarrow> a | None \<Rightarrow> 0)
      in \<lparr>sm_chains = chains2, sm_total_staked = show_nat (unat staked), sm_effective_boost_bps = boost\<rparr>)"

definition read_configured ::
    "(chain \<times> 'w staking_reader) list \<Rightarrow> chain \<Rightarrow> address \<Rightarrow> 'w
       \<Rightarrow> (onchain_client_error + stake_info) option \<times> 'w" where
  "read_configured readers c wallet w =
     (case find (\<lambda>r. fst r = c) readers of
        None \<Rightarrow> (None, w)
      | Some r \<Rightarrow> (case read_stake (snd r) wallet w of (res, w') \<Rightarrow> (Some res, w')))"

definition staking_summary ::
    "('r, 'w, 'ch, 'sk, 'p) app_state \<Rightarrow> address \<Rightarrow> (('r, 'w, 'ch) world, 'e, staking_summary) act" where
  "staking_summary st wallet =
     (\<lambda>wd. case read_configured (st_staking_readers st) Ethereum wallet (wd_ext wd) of (eth, w1) \<Rightarrow>
       (case read_configured (st_staking_readers st) Polygon wallet w1 of (pol, w2) \<Rightarrow>
          (Inr (build_summary eth pol), wd\<lparr>wd_ext := w2\<rparr>)))"

definition payout_config_with_live_edge ::
    "request \<Rightarrow> (('r, 'w, 'ch) world, 'e, payout_config) act" where
  "payout_config_with_live_edge rq =
     (\<lambda>wd. case wd_edge wd of
        None \<Rightarrow> (Inr default_config, wd)
      | Some reader \<Rightarrow>
          (case current_edge_bps (rq_clock rq 6) (rq_clock rq 7) reader (wd_ext wd) of
             (r, reader', w') \<Rightarrow>
               (Inr (case r of Inr edge \<Rightarrow> default_config\<lparr>house_edge_bps := edge\<rparr> | Inl e \<Rightarrow> default_config),
                wd\<lparr>wd_edge := Some reader', wd_ext := w'\<rparr>)))"

section \<open>Ending a session\<close>

type_synonym end_response = "nat \<times> string"

definition take_calculator :: "session_id \<Rightarrow> (('r, 'w, 'ch) world, 'e, twap_calculator option) act" where
  "take_calculator sid =
     (\<lambda>wd. (Inr (wd_twap wd (sid_str sid)), wd\<lparr>wd_twap := (wd_twap wd)(sid_str sid := None)\<rparr>))"

fun submit_all ::
    "(chain \<times> ('w, 'p) oracle_submitter) list \<Rightarrow> u8 \<Rightarrow> u128 \<Rightarrow> (('r, 'w, 'ch) world, api_error, unit) act" where
  "submit_all [] commodity price = okE ()"
| "submit_all ((c, submitter) # rest) commodity price =
     tryE (logE (onExt (submit_price submitter commodity price))) (\<lambda>_. submit_all rest commodity price)"

definition to_cents :: "u128 \<Rightarrow> int option" where
  "to_cents net_usdc_scaled =
     (let c = unat (net_usdc_scaled div NET_USDC_SCALE_TO_CENTS) in if c < 2 ^ 63 then Some (int c) else None)"

definition daily_ceiling_wei :: "('r, 'w, 'ch, 'sk, 'p) app_state \<Rightarrow> u128" where
  "daily_ceiling_wei st =
     saturating_mul (ucast (daily_ceiling (st_mint_ceiling st) (st_active_users st) (st_avg_daily st))) PRM_WEI"

definition unsigned_proposal ::
    "session_id \<Rightarrow> session_context \<Rightarrow> u128 \<Rightarrow> int option \<Rightarrow> attestation_result \<Rightarrow> datetime \<Rightarrow> mint_proposal" where
  "unsigned_proposal sid ctx amount cents attestation now =
     \<lparr>mp_session_id = sid, mp_wallet = sc_wallet ctx, mp_gross_prm = amount, mp_net_usd_cents = cents,
      mp_commodity = sc_commodity ctx, mp_chain = sc_target_chain ctx, mp_attestation = attestation,
      mp_backend_sig = (0, 0, False), mp_created_at = now, mp_status = Pending\<rparr>"

definition sign_and_store ::
    "('r, 'w, 'ch, 'sk, 'p) app_state \<Rightarrow> request \<Rightarrow> session_id \<Rightarrow> session_context \<Rightarrow> mint_proposal
       \<Rightarrow> (('r, 'w, 'ch) world, api_error, end_response) act" where
  "sign_and_store st rq sid ctx proposal =
     (case sign_proposal (st_proposal_json st) (st_sign st) (st_as_bytes st) proposal (st_signing_key st) of
        Inl e \<Rightarrow> errE ApiInternal
      | Inr signature_bytes \<Rightarrow> (case st_parse_signature st signature_bytes of
            Inl e \<Rightarrow> errE ApiInternal
          | Inr backend_sig \<Rightarrow>
              tryE (logE (onDb (insert_mint_proposal (st_pg st) (rq_fault rq 2) (rq_uuid rq) (rq_clock rq 10)
                     (proposal\<lparr>mp_backend_sig := backend_sig\<rparr>)))) (\<lambda>_.
              tryE (\<lambda>wd. (Inr (), wd\<lparr>wd_active := wd_active wd - 1\<rparr>)) (\<lambda>_.
              tryE (apiE (onRedis (delete_session (st_redis st) (st_libs st) (sc_wallet ctx) sid))) (\<lambda>_.
              okE (200, ''completed''))))))"

definition settle_session ::
    "('r, 'w, 'ch, 'sk, 'p) app_state \<Rightarrow> request \<Rightarrow> session_id \<Rightarrow> session_context \<Rightarrow> twap_result
       \<Rightarrow> attestation_result \<Rightarrow> (('r, 'w, 'ch) world, api_error, end_response) act" where
  "settle_session st rq sid ctx twap attestation =
     (let duration_secs = clamp_u64 (num_seconds (tr_session_end twap - tr_session_start twap)) in
     tryE (payout_config_with_live_edge rq) (\<lambda>config.
     tryE (attempt (onRedis (get_session_hashrate (st_redis st) sid (sc_client_type ctx)))
        (\<lambda>r. okE (case r of Inr h \<Rightarrow> h | Inl e \<Rightarrow> 0))) (\<lambda>avg_hashrate.
     let base_gross = calculate_gross_prm avg_hashrate duration_secs config (sc_commodity ctx) in
     tryE (staking_summary st (sc_wallet ctx)) (\<lambda>summary.
     let boosted_gross = apply_staking_boost base_gross (sm_effective_boost_bps summary);
         payout = calculate_payout_from_gross boosted_gross (tr_twap twap) (sc_commodity ctx) config;
         mint_amount_wei = gross_calib_to_wei boosted_gross;
         net_usd_cents = to_cents (pr_net_usdc_scaled payout) in
     attempt (onDb (total_minted_wei_24h (rq_fault rq 1) (rq_clock rq 8))) (\<lambda>r. case r of
         Inl e \<Rightarrow> okE (200, ''mint_ceiling_unverified'')
       | Inr text \<Rightarrow>
           let minted_24h_wei = (case parse_u128 text of Some v \<Rightarrow> v | None \<Rightarrow> - 1) in
           if daily_ceiling_wei st < saturating_add minted_24h_wei mint_amount_wei
           then okE (200, ''mint_ceiling_exceeded'')
           else sign_and_store st rq sid ctx
                  (unsigned_proposal sid ctx mint_amount_wei net_usd_cents attestation (rq_clock rq 9)))))))"

definition handle_end_session ::
    "('r, 'w, 'ch, 'sk, 'p) app_state \<Rightarrow> request \<Rightarrow> string \<Rightarrow> string
       \<Rightarrow> (('r, 'w, 'ch) world, api_error, end_response) act" where
  "handle_end_session st rq sid_raw nonce_raw =
     (let sid = SessionId sid_raw in
     tryE (apiE (onRedis (get_session (st_redis st) (st_libs st) sid))) (\<lambda>c.
     tryE (requireE c NotFound) (\<lambda>ctx.
     tryE (requireE (st_hex_decode st nonce_raw) (BadRequest ''invalid nonce'')) (\<lambda>nonce.
     tryE (apiE (onRedis (verify_reveal (st_redis st) (st_libs st) sid nonce))) (\<lambda>verified.
     if \<not> verified then okE (400, ''rejected'')
     else (case sc_assigned_node_id ctx of
         None \<Rightarrow> okE (400, ''no_assigned_node'')
       | Some assigned \<Rightarrow>
     tryE (take_calculator sid) (\<lambda>calculator.
     case Option.bind calculator (\<lambda>c. finalize c (rq_clock rq 0)) of
         None \<Rightarrow> okE (400, ''no_samples'')
       | Some twap \<Rightarrow>
     tryE (submit_all (st_submitters st) (commodity_to_u8 (sc_commodity ctx)) (tr_twap twap)) (\<lambda>_.
     tryE (apiE (onRedis (get_proofs (st_redis st) (st_libs st) sid))) (\<lambda>proof_set.
     tryE (apiE (onExt (get_block_number (st_onchain st)))) (\<lambda>block_number.
     tryE (apiE (onExt (get_block_hash (st_onchain st) (saturating_sub block_number SEED_BLOCK_OFFSET)))) (\<lambda>h.
     let seed = (case h of Some b \<Rightarrow> b | None \<Rightarrow> replicate 32 0) in
     attempt (onExt (coordinate_attestation (st_coordinator st) (st_recover st) (sl_sha256 (st_libs st))
        (rq_clock rq 1) sid proof_set seed assigned)) (\<lambda>att. case att of
         Inl e \<Rightarrow> okE (500, ''attestation_failed'')
       | Inr attestation \<Rightarrow> settle_session st rq sid ctx twap attestation))))))))))))"

section \<open>Pausing and resuming\<close>

definition parse_wallet ::
    "('r, 'w, 'ch, 'sk, 'p) app_state \<Rightarrow> string \<Rightarrow> ('s, api_error, address) act" where
  "parse_wallet st raw = requireE (st_parse_address st raw) (BadRequest ''invalid wallet address'')"

definition authorize_session_owner ::
    "('r, 'w, 'ch, 'sk, 'p) app_state \<Rightarrow> session_id \<Rightarrow> string
       \<Rightarrow> (('r, 'w, 'ch) world, api_error, unit) act" where
  "authorize_session_owner st sid wallet_raw =
     tryE (apiE (onRedis (get_session (st_redis st) (st_libs st) sid))) (\<lambda>c.
     tryE (requireE c NotFound) (\<lambda>ctx.
     tryE (parse_wallet st wallet_raw) (\<lambda>wallet.
     if wallet \<noteq> sc_wallet ctx then errE (Forbidden ''wallet does not own this session'') else okE ())))"

definition pause_session ::
    "('r, 'w, 'ch, 'sk, 'p) app_state \<Rightarrow> string \<Rightarrow> string \<Rightarrow> (('r, 'w, 'ch) world, api_error, bool) act" where
  "pause_session st sid_raw wallet_raw =
     tryE (authorize_session_owner st (SessionId sid_raw) wallet_raw) (\<lambda>_.
     tryE (apiE (onRedis (set_paused (st_redis st) (SessionId sid_raw)))) (\<lambda>_. okE True))"

definition resume_session ::
    "('r, 'w, 'ch, 'sk, 'p) app_state \<Rightarrow> string \<Rightarrow> string \<Rightarrow> (('r, 'w, 'ch) world, api_error, bool) act" where
  "resume_session st sid_raw wallet_raw =
     tryE (authorize_session_owner st (SessionId sid_raw) wallet_raw) (\<lambda>_.
     tryE (apiE (onRedis (clear_paused (st_redis st) (SessionId sid_raw)))) (\<lambda>_. okE False))"

end
