(* ===== verification/Service_Frame.thy ===== *)
theory Service_Frame
  imports Verification_Service
begin

text \<open>
  Reasoning about the handlers of \<open>Verification_Service\<close>: frame rules that say which part of the world a
  computation leaves alone, inversion rules for runs, and runs of Redis operations through the
  contract of \<open>Redis\<close>.
\<close>

section \<open>What a computation leaves alone\<close>

abbreviation keeps :: "('s \<Rightarrow> 'v) \<Rightarrow> ('s, 'e, 'a) act \<Rightarrow> bool" where
  "keeps f \<equiv> within (same f)"

lemmas keeps_def = within_def same_def

lemmas keepsD = within_sameD

named_theorems keeps_intros \<open>frame rules\<close>

context frame
begin

lemma apiE: "within P m \<Longrightarrow> within P (apiE m)"
  unfolding apiE_def by (rule map_errE)

lemma logE: "within P m \<Longrightarrow> within P (logE m)"
  unfolding logE_def by (rule attempt) (simp_all add: okE)

lemma requireE: "within P (requireE v e)"
  by (cases v) (simp_all add: requireE_def okE errE)

lemma enforce: "within P (enforce r)"
  by (cases r) (simp_all add: enforce_def okE errE)

lemma parse_wallet: "within P (parse_wallet st raw)"
  by (simp add: parse_wallet_def requireE)

lemmas combinators = basics apiE logE requireE enforce parse_wallet

end

declare same.combinators [keeps_intros]

lemma keeps_onRedis [keeps_intros]:
  "keeps wd_db (onRedis m)" "keeps wd_twap (onRedis m)" "keeps wd_ext (onRedis m)" "keeps wd_active (onRedis m)"
  by (simp_all add: keeps_def onRedis_def split: prod.splits)

lemma keeps_onExt [keeps_intros]:
  "keeps wd_db (onExt m)" "keeps wd_twap (onExt m)" "keeps wd_redis (onExt m)" "keeps wd_active (onExt m)"
  by (simp_all add: keeps_def onExt_def split: prod.splits)

lemma keeps_onDb [keeps_intros]:
  "keeps wd_redis (onDb m)" "keeps wd_twap (onDb m)" "keeps wd_ext (onDb m)" "keeps wd_active (onDb m)"
  by (simp_all add: keeps_def onDb_def split: prod.splits)

lemma keeps_take_calculator [keeps_intros]:
  "keeps wd_db (take_calculator sid)" "keeps wd_redis (take_calculator sid)"
  by (simp_all add: keeps_def take_calculator_def)

lemma keeps_submit_all [keeps_intros]:
  "keeps wd_db (submit_all xs c p)" "keeps wd_twap (submit_all xs c p)" "keeps wd_redis (submit_all xs c p)"
  "keeps wd_active (submit_all xs c p)"
  by (induction xs; auto intro!: keeps_intros)+

lemma keeps_live_edge [keeps_intros]:
  "keeps wd_db (payout_config_with_live_edge rq)" "keeps wd_twap (payout_config_with_live_edge rq)"
  "keeps wd_redis (payout_config_with_live_edge rq)"
  by (simp_all add: keeps_def payout_config_with_live_edge_def split: option.splits prod.splits)

lemma keeps_staking_summary [keeps_intros]:
  "keeps wd_db (staking_summary st w)" "keeps wd_twap (staking_summary st w)"
  "keeps wd_redis (staking_summary st w)"
  by (simp_all add: keeps_def staking_summary_def split: prod.splits)

text \<open>A query leaves the database as it is.\<close>

lemma keeps_total_minted [keeps_intros]: "keeps wd_db (onDb (total_minted_wei_24h fault now))"
  by (cases fault) (simp_all add: keeps_def onDb_def total_minted_wei_24h_def pg_defs)

lemma requireE_Inr: "requireE v e s = (Inr a, s') \<longleftrightarrow> v = Some a \<and> s' = s"
  by (cases v) (auto simp: requireE_def okE_def errE_def)

lemma apiE_onRedis_Inr:
  "apiE (onRedis m) wd = (Inr a, wd') \<longleftrightarrow> (\<exists>x. m (wd_redis wd) = (Inr a, x) \<and> wd' = wd\<lparr>wd_redis := x\<rparr>)"
  by (auto simp: apiE_def map_errE_def onRedis_def map_sum_eq_iff split: prod.splits)

lemma onExt_run: "onExt m wd = (r, wd') \<longleftrightarrow> (\<exists>x. m (wd_ext wd) = (r, x) \<and> wd' = wd\<lparr>wd_ext := x\<rparr>)"
  by (auto simp: onExt_def split: prod.splits)

lemma apiE_onExt_Inr:
  "apiE (onExt m) wd = (Inr a, wd') \<longleftrightarrow> (\<exists>x. m (wd_ext wd) = (Inr a, x) \<and> wd' = wd\<lparr>wd_ext := x\<rparr>)"
  by (auto simp: apiE_def map_errE_def onExt_def map_sum_eq_iff split: prod.splits)

text \<open>Reading leaves a server that behaves like Redis as it is.\<close>

lemma ks_reads_pure:
  "snd (get_session keyspace_ops L sid s) = s" "snd (verify_reveal keyspace_ops L sid nonce s) = s"
  "snd (get_proofs keyspace_ops L sid s) = s" "snd (get_session_hashrate keyspace_ops sid c s) = s"
  "snd (is_paused keyspace_ops sid s) = s"
  by (simp_all add: get_session_def verify_reveal_def get_proofs_def get_session_hashrate_def is_paused_def
      act_eval split: option.splits sum.splits)

lemma redis_read:
  assumes "sim view m m'" and "fst (m' (view s)) = Inr a" and "snd (m' (view s)) = view s"
  obtains s' where "m s = (Inr a, s')" "view s' = view s"
  using assms sim_fst [OF assms(1), of s] sim_snd [OF assms(1), of s] by (metis prod.collapse)

lemma redis_run:
  assumes "sim view m m'"
  obtains r s' where "m s = (r, s')" "fst (m' (view s)) = r" "view s' = snd (m' (view s))"
  using sim_fst [OF assms, of s] sim_snd [OF assms, of s] by (metis prod.collapse)

lemma logE_onRedis: "logE (onRedis m) wd = (Inr (), wd\<lparr>wd_redis := snd (m (wd_redis wd))\<rparr>)"
  by (simp add: logE_def attempt_def onRedis_def okE_def split: prod.splits)

lemma enforce_Inr: "enforce r s = (Inr u, s') \<longleftrightarrow> r = Allowed \<and> s' = s"
  by (cases r) (auto simp: enforce_def okE_def errE_def)

end
