(* ===== verification/Service_Demo.thy ===== *)
theory Service_Demo
  imports Service_Frame
begin

text \<open>
  A deployment on the reference key space with the sample nodes, and a session with recorded work
  that is about to end: the instances at which the properties of the handlers are exercised.
\<close>

definition demo_pg :: pg_libs where
  "demo_pg = \<lparr>pl_addr_debug = (\<lambda>a. ''0x7''), pl_triggers_json = (\<lambda>t. Inr ''[]''),
      pl_attestation_json = (\<lambda>a. Inr ''{}''), pl_sig_display = (\<lambda>s. ''sig'')\<rparr>"

definition demo_prices :: "unit oracle_reader" where
  "demo_prices = \<lparr>rd_provider = (\<lambda>a w. (Inr 250000000000, w)), rd_http_client = (\<lambda>url w. (Inl [], w)),
     rd_chainlink_feeds = default_chainlink_feeds, rd_pyth_feeds = [], rd_pyth_hermes_url = []\<rparr>"

definition demo_session :: session_context where
  "demo_session = demo_ctx\<lparr>sc_assigned_node_id := Some (NodeId ''a'')\<rparr>"

definition demo_service_libs :: session_libs where
  "demo_service_libs = demo_session_libs\<lparr>sl_ctx_parse := (\<lambda>t. Inr demo_session),
     sl_proofs_parse := (\<lambda>t. Inr [sample_proof])\<rparr>"

definition demo_state :: "(keyspace, unit, unit, unit, unit) app_state" where
  "demo_state = \<lparr>st_redis = keyspace_ops, st_libs = demo_service_libs, st_pg = demo_pg,
     st_try_send = (\<lambda>e ch. (Inr (), ch)), st_mint_ceiling = new_calculator,
     st_onchain = \<lparr>oc_block_number = (\<lambda>w. (Inr 10, w)),
       oc_block_by_number = (\<lambda>n w. (Inr (Some (replicate 32 0)), w)), oc_chain_id = 1\<rparr>,
     st_coordinator = sample_coordinator, st_signing_key = (), st_oracle_reader = demo_prices,
     st_submitters = [], st_staking_readers = [], st_node_sites = (\<lambda>n. None), st_company_wallet = None,
     st_active_users = 1000, st_avg_daily = 10, st_parse_address = (\<lambda>s. if s = ''0x7'' then Some 7 else None),
     st_hex_decode = (\<lambda>s. if s = ''nonce'' then Some [1, 2] else Some (replicate 32 7)),
     st_recover = sample_recover, st_proposal_json = (\<lambda>p. Inr []), st_sign = (\<lambda>sk m. Inr (1, 2, False)),
     st_as_bytes = (\<lambda>s. []), st_parse_signature = (\<lambda>bs. Inr (1, 2, False))\<rparr>"

definition demo_request :: "int \<Rightarrow> request" where
  "demo_request secs = \<lparr>rq_clock = (\<lambda>i. secs * nanos_per_sec), rq_fault = (\<lambda>i. None), rq_uuid = ''s'',
     rq_fuel = 5\<rparr>"

definition demo_keys :: keyspace where
  "demo_keys = \<lparr>ks_clock = 0, ks_data =
     [(lookup_key (SessionId ''s''), (''0x7'', None)),
      (session_key ''0x7'' (SessionId ''s''), (''ctx'', None)),
      (commit_key (SessionId ''s''), (hex_encode [2, 1], None)),
      (proofs_key (SessionId ''s''), (''proofs'', None)),
      (first_at_key (SessionId ''s''), (''1'', None)),
      (activity_key (SessionId ''s''), (''2'', None)),
      (hashes_key (SessionId ''s''), (''3'', None))]\<rparr>"

definition demo_calculator :: twap_calculator where
  "demo_calculator = \<lparr>tc_samples = [\<lparr>ps_price = 250000000000, ps_sampled_at = 0, ps_oracle = Chainlink\<rparr>],
     tc_session_start = 0\<rparr>"

definition demo_world :: "(keyspace, unit, unit) world" where
  "demo_world = \<lparr>wd_redis = demo_keys, wd_db = \<lparr>db_anomalies = [], db_proposals = []\<rparr>,
     wd_twap = [''s'' \<mapsto> demo_calculator], wd_edge = None, wd_ext = (), wd_events = (), wd_active = 1\<rparr>"

lemma demo_reads:
  "get_session keyspace_ops demo_service_libs (SessionId ''s'') demo_keys = (Inr (Some demo_session), demo_keys)"
  "verify_reveal keyspace_ops demo_service_libs (SessionId ''s'') [1, 2] demo_keys = (Inr True, demo_keys)"
  "get_proofs keyspace_ops demo_service_libs (SessionId ''s'') demo_keys = (Inr [sample_proof], demo_keys)"
  "get_session_hashrate keyspace_ops (SessionId ''s'') Cli demo_keys = (Inr 3, demo_keys)"
  by code_simp+

lemma demo_sels:
  "st_libs demo_state = demo_service_libs" "st_redis demo_state = keyspace_ops"
  "st_hex_decode demo_state ''nonce'' = Some [1, 2]" "st_coordinator demo_state = sample_coordinator"
  "st_recover demo_state = sample_recover" "wd_redis demo_world = demo_keys"
  "sc_client_type demo_session = Cli" "sc_assigned_node_id demo_session = Some (NodeId ''a'')"
  "sc_commodity demo_session = Gold" "sc_wallet demo_session = 7"
  "st_parse_address demo_state = (\<lambda>s. if s = ''0x7'' then Some 7 else None)"
  by (simp_all add: demo_state_def demo_world_def demo_session_def demo_ctx_def)

end
