(* ===== verification/Service_Sessions.thy ===== *)
theory Service_Sessions
  imports Service_Demo
begin

text \<open>
  What creating a session, submitting work and pausing guarantee.
\<close>

section \<open>Pausing\<close>

text \<open>A request is the owner's when it names the wallet on the session's record.\<close>

definition by_owner :: "('r, 'w, 'ch, 'sk, 'p) app_state \<Rightarrow> string \<Rightarrow> string \<Rightarrow> keyspace \<Rightarrow> bool" where
  "by_owner st sid_raw wallet_raw k \<longleftrightarrow>
     (\<exists>ctx. fst (get_session keyspace_ops (st_libs st) (SessionId sid_raw) k) = Inr (Some ctx)
        \<and> st_parse_address st wallet_raw = Some (sc_wallet ctx))"

lemma authorize_run:
  assumes "redis (st_redis st) view"
  obtains r where "view r = view (wd_redis wd)"
    "by_owner st sid_raw wallet_raw (view (wd_redis wd)) \<Longrightarrow>
       authorize_session_owner st (SessionId sid_raw) wallet_raw wd = (Inr (), wd\<lparr>wd_redis := r\<rparr>)"
    "\<not> by_owner st sid_raw wallet_raw (view (wd_redis wd)) \<Longrightarrow>
       \<exists>e. authorize_session_owner st (SessionId sid_raw) wallet_raw wd = (Inl e, wd\<lparr>wd_redis := r\<rparr>)"
proof -
  obtain c r where c: "get_session (st_redis st) (st_libs st) (SessionId sid_raw) (wd_redis wd) = (c, r)"
      "fst (get_session keyspace_ops (st_libs st) (SessionId sid_raw) (view (wd_redis wd))) = c"
      "view r = view (wd_redis wd)"
    using redis_run [OF redis.sim_session_ops(2) [OF assms]] ks_reads_pure(1) by metis
  show ?thesis
    using that [of r] c
    by (cases c; cases "projr c"; cases "st_parse_address st wallet_raw")
       (auto simp: by_owner_def authorize_session_owner_def parse_wallet_def requireE_def tryE_def apiE_def map_errE_def
          onRedis_def okE_def errE_def)
qed

lemma ks_pause:
  "set_paused keyspace_ops sid s = (Inr (), ks_put (paused_key sid) (''1'', Some (ks_clock s + 3600)) s)"
  by (simp add: set_paused_def act_eval)

lemma ks_resume: "clear_paused keyspace_ops sid s = (Inr (), ks_drop (paused_key sid) s)"
  by (simp add: clear_paused_def act_eval)

lemma paused_key_neq [simp]:
  "lookup_key i \<noteq> paused_key j" "session_key w i \<noteq> paused_key j"
  by (simp_all add: key_defs)

lemma get_session_paused:
  "fst (get_session keyspace_ops L sid (ks_put (paused_key sid) e s)) = fst (get_session keyspace_ops L sid s)"
  "fst (get_session keyspace_ops L sid (ks_drop (paused_key sid) s)) = fst (get_session keyspace_ops L sid s)"
  by (simp_all add: get_session_ks ks_value_def split: option.splits)

lemma submit_paused:
  assumes "redis (st_redis st) view"
    and "fst (get_session keyspace_ops (st_libs st) (SessionId sid_raw) (view (wd_redis wd))) = Inr (Some ctx)"
    and "fst (is_paused keyspace_ops (SessionId sid_raw) (view (wd_redis wd))) = Inr True"
  shows "\<exists>r. handle_submit_proof st rq sid_raw body wd = (Inl (Conflict ''session paused''), wd\<lparr>wd_redis := r\<rparr>)
    \<and> view r = view (wd_redis wd)"
proof -
  note sims = redis.sim_session_ops [OF assms(1)]
  obtain r1 where r1: "get_session (st_redis st) (st_libs st) (SessionId sid_raw) (wd_redis wd) = (Inr (Some ctx), r1)"
      "view r1 = view (wd_redis wd)"
    by (rule redis_read [OF sims(2) assms(2) ks_reads_pure(1)])
  obtain r2 where r2: "is_paused (st_redis st) (SessionId sid_raw) r1 = (Inr True, r2)" "view r2 = view r1"
    by (rule redis_read [where s = r1, OF sims(19) _ ks_reads_pure(5)]) (use assms(3) r1 in simp)
  show ?thesis
    using r1 r2
    by (intro exI [of _ r2])
       (simp add: handle_submit_proof_def Let_def tryE_def apiE_def map_errE_def onRedis_def requireE_def okE_def errE_def)
qed

text \<open>
  Only the owner pauses a session, and a paused session takes no work. A pause request succeeds
  exactly when it names the wallet on record; otherwise Redis is as before. After a successful pause
  every proof submission is refused with a conflict and changes nothing, and the owner's resume
  lifts the pause.
\<close>

theorem pause_by_owner_only:
  fixes st :: "('r, 'w, 'ch, 'sk, 'p) app_state" and wd :: "('r, 'w, 'ch) world"
  assumes "redis (st_redis st) view"
  shows "let paused = snd (pause_session st sid_raw wallet_raw wd) in
    (fst (pause_session st sid_raw wallet_raw wd) = Inr True
            \<longleftrightarrow> by_owner st sid_raw wallet_raw (view (wd_redis wd)))
    \<and> (if by_owner st sid_raw wallet_raw (view (wd_redis wd))
       then fst (handle_submit_proof st rq sid_raw body paused) = Inl (Conflict ''session paused'')
         \<and> view (wd_redis (snd (handle_submit_proof st rq sid_raw body paused))) = view (wd_redis paused)
         \<and> fst (resume_session st sid_raw wallet_raw paused) = Inr False
         \<and> fst (is_paused keyspace_ops (SessionId sid_raw)
              (view (wd_redis (snd (resume_session st sid_raw wallet_raw paused))))) = Inr False
       else view (wd_redis paused) = view (wd_redis wd))"
proof (cases "by_owner st sid_raw wallet_raw (view (wd_redis wd))")
  case False
  obtain r where "view r = view (wd_redis wd)"
    "\<exists>e. authorize_session_owner st (SessionId sid_raw) wallet_raw wd = (Inl e, wd\<lparr>wd_redis := r\<rparr>)"
    using authorize_run [OF assms(1), of wd sid_raw wallet_raw] False by metis
  with False show ?thesis by (auto simp: Let_def pause_session_def tryE_def)
next
  case True
  note sims = redis.sim_session_ops [OF assms(1)]
  let ?sid = "SessionId sid_raw"
  obtain r where r: "view r = view (wd_redis wd)"
    "authorize_session_owner st ?sid wallet_raw wd = (Inr (), wd\<lparr>wd_redis := r\<rparr>)"
    using authorize_run [OF assms(1), of wd sid_raw wallet_raw] True by metis
  obtain r' where r': "set_paused (st_redis st) ?sid r = (Inr (), r')"
    "view r' = ks_put (paused_key ?sid) (''1'', Some (ks_clock (view r) + 3600)) (view r)"
    using redis_run [OF sims(17)] ks_pause by (metis fst_conv snd_conv)
  have run: "pause_session st sid_raw wallet_raw wd = (Inr True, wd\<lparr>wd_redis := r'\<rparr>)"
    using r(2) r' by (simp add: pause_session_def tryE_def apiE_def map_errE_def onRedis_def okE_def)
  define paused where "paused = snd (pause_session st sid_raw wallet_raw wd)"
  then have paused: "paused = wd\<lparr>wd_redis := r'\<rparr>" using run by simp
  have same: "fst (get_session keyspace_ops (st_libs st) ?sid (view r'))
      = fst (get_session keyspace_ops (st_libs st) ?sid (view (wd_redis wd)))"
    using r' r(1) by (simp add: get_session_paused)
  then have owner': "by_owner st sid_raw wallet_raw (view (wd_redis paused))"
    using True by (simp add: by_owner_def paused)
  obtain q where q: "view q = view (wd_redis paused)"
    "authorize_session_owner st ?sid wallet_raw paused = (Inr (), paused\<lparr>wd_redis := q\<rparr>)"
    using authorize_run [OF assms(1), of paused sid_raw wallet_raw] owner' by metis
  obtain q' where q': "clear_paused (st_redis st) ?sid q = (Inr (), q')" "view q' = ks_drop (paused_key ?sid) (view q)"
    using redis_run [OF sims(18)] ks_resume by (metis fst_conv snd_conv)
  have resume: "resume_session st sid_raw wallet_raw paused = (Inr False, paused\<lparr>wd_redis := q'\<rparr>)"
    using q(2) q' by (simp add: resume_session_def tryE_def apiE_def map_errE_def onRedis_def okE_def)
  obtain ctx where "fst (get_session keyspace_ops (st_libs st) ?sid (view (wd_redis paused))) = Inr (Some ctx)"
    using owner' by (auto simp: by_owner_def)
  moreover have "fst (is_paused keyspace_ops ?sid (view (wd_redis paused))) = Inr True"
    by (simp add: paused r' is_paused_ks)
  ultimately obtain s where "handle_submit_proof st rq sid_raw body paused
      = (Inl (Conflict ''session paused''), paused\<lparr>wd_redis := s\<rparr>)" "view s = view (wd_redis paused)"
    using submit_paused [OF assms(1)] by metis
  then show ?thesis unfolding Let_def paused_def [symmetric] using True run resume q' by (simp add: is_paused_ks)
qed

section \<open>Submitting work\<close>

lemma counters_frame:
  assumes "k \<notin> {count_key sid, verified_key sid, rejected_key sid, first_at_key sid, hashes_key sid, activity_key sid}"
  shows "ks_entry (snd (increment_proof_count keyspace_ops sid s)) k = ks_entry s k"
    "ks_entry (snd (record_accepted_proof keyspace_ops sid d t s)) k = ks_entry s k"
    "ks_entry (snd (touch_last_activity keyspace_ops now sid s)) k = ks_entry s k"
    "ks_entry (snd (increment_verified_proof_count keyspace_ops sid s)) k = ks_entry s k"
    "ks_entry (snd (increment_rejected_proof_count keyspace_ops sid s)) k = ks_entry s k"
  using assms
  by (auto simp: increment_proof_count_def record_accepted_proof_def touch_last_activity_def
      increment_verified_proof_count_def increment_rejected_proof_count_def incr_session_counter_def act_eval
      split: option.splits sum.splits if_splits)

lemma count_proof_run:
  assumes "redis (st_redis st) view"
    and "k \<notin> {count_key sid, verified_key sid, rejected_key sid, first_at_key sid, hashes_key sid, activity_key sid}"
  obtains r where "count_proof st rq sid d v wd = (Inr (), wd\<lparr>wd_redis := r\<rparr>)"
    "ks_entry (view r) k = ks_entry (view (wd_redis wd)) k"
proof -
  note sims = redis.sim_session_ops [OF assms(1), THEN sim_snd]
  show ?thesis
    by (rule that [of "wd_redis (snd (count_proof st rq sid d v wd))"])
       (cases "is_invalid v"; simp add: count_proof_def tryE_def logE_onRedis sims counters_frame [OF assms(2)])+
qed

lemma store_proof_ks:
  assumes "fst (get_proofs keyspace_ops L sid s) = Inr old" and "sl_proofs_json L (old @ [pr]) = Inr p"
  shows "store_proof keyspace_ops L sid pr s = (Inr (), ks_put (proofs_key sid) (p, Some (ks_clock s + 3600)) s)"
  using assms by (auto simp: get_proofs_ks store_proof_def act_eval split: option.splits sum.splits)

lemma prefilter_level:
  "level_for (signals [prefilter_validate pr mode ctx])
     = (if prefilter_validate pr mode ctx = Valid then Low else Medium)"
  by (auto simp: prefilter_validate_def prefilter_checks_eq signals_def level_for_def)

lemma assess_proof_run:
  "\<exists>wd'. assess_proof st rq sid wallet v wd = (Inr (level_for (signals [v])), wd')
     \<and> wd_redis wd' = wd_redis wd \<and> db_proposals (wd_db wd') = db_proposals (wd_db wd)
     \<and> (signals [v] = 0 \<longrightarrow> wd_db wd' = wd_db wd)"
proof -
  obtain ch where "process (st_try_send st) (rq_clock rq 3) sid wallet [v] (wd_events wd)
      = (\<lparr>as_level = level_for (signals [v]), as_score_bps = anomaly_score_bps (signals [v])\<rparr>, ch)"
    using process_assessment by (metis prod.collapse)
  then show ?thesis
    by (auto simp: assess_proof_def Let_def level_for_def tryE_def logE_def attempt_def onDb_def okE_def
        insert_anomaly_event_def pg_defs split: prod.splits sum.splits option.splits)
qed

lemma sample_session_run:
  "\<exists>wd'. sample_session st rq sid c wd = (Inr (), wd') \<and> wd_redis wd' = wd_redis wd \<and> wd_db wd' = wd_db wd"
  by (auto simp: sample_session_def split: option.splits prod.splits)

text \<open>
  C24: what a submission does. For a running session with well-formed input the proof is judged by
  the pre-filter, answered as accepted unless the verdict is a rejection, and appended to the
  session's proofs whatever the verdict. The level reported is Low for a clean proof and Medium for
  any other; since each proof is scored on its own it is never High. No mint proposal changes, and
  a clean proof writes nothing to the database.
\<close>

theorem submit_proof_effect:
  fixes st :: "('r, 'w, 'ch, 'sk, 'p) app_state" and wd :: "('r, 'w, 'ch) world"
  assumes "redis (st_redis st) view"
    and "fst (get_session keyspace_ops (st_libs st) (SessionId sid_raw) (view (wd_redis wd))) = Inr (Some ctx)"
    and "fst (is_paused keyspace_ops (SessionId sid_raw) (view (wd_redis wd))) = Inr False"
    and "parse_hash (st_hex_decode st) (sp_proof_hash body) = Some hash"
    and "decode_input (st_hex_decode st) (sp_proof_input body) = Some input"
    and pr: "pr = submitted_proof (SessionId sid_raw) (sc_wallet ctx) body hash input (rq_clock rq 0)"
    and v: "v = prefilter_validate pr PreFilter ctx"
    and "fst (get_proofs keyspace_ops (st_libs st) (SessionId sid_raw) (view (wd_redis wd))) = Inr old"
    and "sl_proofs_json (st_libs st) (old @ [pr]) = Inr payload"
    and "sl_proofs_parse (st_libs st) payload = Inr (old @ [pr])"
  shows "\<exists>wd'. handle_submit_proof st rq sid_raw body wd
      = (Inr \<lparr>sr_accepted = (\<not> is_invalid v), sr_suspicion_level = (if v = Valid then ''Low'' else ''Medium'')\<rparr>, wd')
    \<and> fst (get_proofs keyspace_ops (st_libs st) (SessionId sid_raw) (view (wd_redis wd'))) = Inr (old @ [pr])
    \<and> db_proposals (wd_db wd') = db_proposals (wd_db wd)
    \<and> (v = Valid \<longrightarrow> wd_db wd' = wd_db wd)"
proof -
  note sims = redis.sim_session_ops [OF assms(1)]
  let ?L = "st_libs st" and ?sid = "SessionId sid_raw"
  obtain r1 where r1: "get_session (st_redis st) ?L ?sid (wd_redis wd) = (Inr (Some ctx), r1)" "view r1 = view (wd_redis wd)"
    by (rule redis_read [OF sims(2) assms(2) ks_reads_pure(1)])
  obtain r2 where r2: "is_paused (st_redis st) ?sid r1 = (Inr False, r2)" "view r2 = view r1"
    by (rule redis_read [where s = r1, OF sims(19) _ ks_reads_pure(5)]) (use assms(3) r1 in simp)
  obtain r3 where r3: "count_proof st rq ?sid (sp_difficulty body) v (wd\<lparr>wd_redis := r2\<rparr>) = (Inr (), wd\<lparr>wd_redis := r3\<rparr>)"
      "ks_entry (view r3) (proofs_key ?sid) = ks_entry (view r2) (proofs_key ?sid)"
    using count_proof_run [OF assms(1), of "proofs_key ?sid" ?sid rq "sp_difficulty body" v "wd\<lparr>wd_redis := r2\<rparr>"]
    by (auto simp: key_defs)
  have "fst (get_proofs keyspace_ops ?L ?sid (view r3)) = Inr old"
    using r1 r2 r3(2) assms(8) by (simp add: get_proofs_ks ks_value_def)
  from store_proof_ks [OF this assms(9)] obtain r4 where r4: "store_proof (st_redis st) ?L ?sid pr r3 = (Inr (), r4)"
      "view r4 = ks_put (proofs_key ?sid) (payload, Some (ks_clock (view r3) + 3600)) (view r3)"
    using redis_run [OF sims(6)] by (metis fst_conv snd_conv)
  have stored: "fst (get_proofs keyspace_ops ?L ?sid (view r4)) = Inr (old @ [pr])"
    using r4(2) assms(10) by (simp add: get_proofs_ks ks_value_def)
  obtain wd5 where wd5: "assess_proof st rq ?sid (sc_wallet ctx) v (wd\<lparr>wd_redis := r4\<rparr>) = (Inr (level_for (signals [v])), wd5)"
      "wd_redis wd5 = r4" "db_proposals (wd_db wd5) = db_proposals (wd_db wd)" "signals [v] = 0 \<longrightarrow> wd_db wd5 = wd_db wd"
    using assess_proof_run [of st rq ?sid "sc_wallet ctx" v "wd\<lparr>wd_redis := r4\<rparr>"] by auto
  obtain wd6 where wd6: "sample_session st rq ?sid (sc_commodity ctx) wd5 = (Inr (), wd6)"
      "wd_redis wd6 = r4" "wd_db wd6 = wd_db wd5"
    using sample_session_run [of st rq ?sid "sc_commodity ctx" wd5] wd5(2) by metis
  have "handle_submit_proof st rq sid_raw body wd = (Inr \<lparr>sr_accepted = (\<not> is_invalid v),
      sr_suspicion_level = level_debug (level_for (signals [v]))\<rparr>, wd6)"
    using r1 r2 r3(1) r4(1) wd5(1) wd6(1) assms(4,5)
    by (simp add: handle_submit_proof_def Let_def tryE_def apiE_def map_errE_def onRedis_def requireE_def okE_def
        pr [symmetric] v [symmetric])
  moreover have "level_for (signals [v]) = (if v = Valid then Low else Medium)"
    unfolding v by (rule prefilter_level)
  moreover have "v = Valid \<Longrightarrow> signals [v] = 0" by (simp add: signals_def)
  ultimately show ?thesis using stored wd5 wd6 by auto
qed

section \<open>Creating sessions\<close>

lemma create_session_success:
  assumes "handle_create_session st rq ip body wd = (Inr (Some resp), wd')"
  obtains wallet ct commit ch n r1 r2 r3 r4 r5 sid where
    "st_parse_address st (cr_wallet body) = Some wallet" "parse_client_type (cr_client_type body) = Some ct"
    "parse_hash (st_hex_decode st) (cr_commit_hash body) = Some commit" "from_str_id (cr_chain body) = Some ch"
    "check_wallet (st_redis st) (sl_addr (st_libs st)) wallet (wd_redis wd) = (Inr Allowed, r1)"
    "check_ip (st_redis st) ip r1 = (Inr Allowed, r2)"
    "get_active_session_count (rq_fuel rq) (st_redis st) (st_libs st) wallet r2 = (Inr (Some n), r3)"
    "create_session (st_redis st) (st_libs st) (rq_uuid rq)
       (new_context (rq_clock rq 0) wallet ip ct n (map_option NodeId (cr_assigned_node_id body))
          (parse_commodity (cr_commodity body)) ch (cr_cpu_threads body)
          (Option.bind (cr_assigned_node_id body) (st_node_sites st))) r3 = (Inr sid, r4)"
    "set_commit (st_redis st) (st_libs st) sid commit r4 = (Inr (), r5)"
    "cs_session_id resp = sid_str sid"
    "wd' = wd\<lparr>wd_redis := r5, wd_twap := (wd_twap wd)(sid_str sid \<mapsto> twap_new (rq_clock rq 1)), wd_active := wd_active wd + 1\<rparr>"
  using assms unfolding handle_create_session_def Let_def
  apply -
  apply (erule tryE_InrE)+
  apply (split option.split_asm, simp add: okE_def)
  apply (erule tryE_InrE)+
  apply (simp only: requireE_Inr apiE_onRedis_Inr enforce_Inr)
  apply clarsimp
  done

lemma create_session_ks_Inr:
  assumes "create_session keyspace_ops L uuid ctx s = (Inr sid, s')"
  obtains p where "sl_ctx_json L ctx = Inr p" "sid = SessionId uuid"
    "s' = (let w = sl_addr L (sc_wallet ctx); t = Some (ks_clock s + 3600) in
      ks_put (commit_key sid) (''pending'', t)
        (ks_put (lookup_key sid) (w, t) (ks_put (session_key w sid) (p, t) s)))"
proof (cases "sl_ctx_json L ctx")
  case (Inl e)
  then show ?thesis using assms by (simp add: create_session_def Let_def tryE_def serdeE_def errE_def)
next
  case (Inr p)
  with assms create_session_ks [OF Inr, of uuid s] that show ?thesis by (auto simp: Let_def)
qed

text \<open>
  C25: a created session is ready. When creation answers with a session, the input was well formed
  and both rate limits allowed it; the record reads back with the wallet, client, commodity, chain
  and node of the request, every preimage of the committed hash opens the commitment and no other
  nonce does, an empty price average is running, the gauge went up by one and the database is
  untouched.
\<close>

theorem create_session_ready:
  fixes st :: "('r, 'w, 'ch, 'sk, 'p) app_state" and wd :: "('r, 'w, 'ch) world"
  assumes "redis (st_redis st) view"
    and "handle_create_session st rq ip body wd = (Inr (Some resp), wd')"
    and json: "\<And>c p. sl_ctx_json (st_libs st) c = Inr p \<Longrightarrow> sl_ctx_parse (st_libs st) p = Inr c"
    and hex: "inj (sl_hex (st_libs st))" "\<And>b. sl_hex (st_libs st) b \<noteq> ''pending''"
  shows "\<exists>wallet ct commit ch n.
       st_parse_address st (cr_wallet body) = Some wallet \<and> parse_client_type (cr_client_type body) = Some ct
     \<and> parse_hash (st_hex_decode st) (cr_commit_hash body) = Some commit \<and> from_str_id (cr_chain body) = Some ch
     \<and> fst (check_wallet (st_redis st) (sl_addr (st_libs st)) wallet (wd_redis wd)) = Inr Allowed
     \<and> fst (get_session keyspace_ops (st_libs st) (SessionId (cs_session_id resp)) (view (wd_redis wd')))
         = Inr (Some (new_context (rq_clock rq 0) wallet ip ct n (map_option NodeId (cr_assigned_node_id body))
             (parse_commodity (cr_commodity body)) ch (cr_cpu_threads body)
             (Option.bind (cr_assigned_node_id body) (st_node_sites st))))
     \<and> (\<forall>nonce. fst (verify_reveal keyspace_ops (st_libs st) (SessionId (cs_session_id resp)) nonce (view (wd_redis wd')))
         = Inr (sl_sha256 (st_libs st) nonce = commit))
     \<and> wd_twap wd' (cs_session_id resp) = Some (twap_new (rq_clock rq 1))
     \<and> wd_active wd' = wd_active wd + 1 \<and> wd_db wd' = wd_db wd"
proof -
  note sims = redis.sim_session_ops [OF assms(1)]
  let ?L = "st_libs st"
  obtain wallet ct commit ch n r1 r2 r3 r4 r5 sid where *:
    "st_parse_address st (cr_wallet body) = Some wallet" "parse_client_type (cr_client_type body) = Some ct"
    "parse_hash (st_hex_decode st) (cr_commit_hash body) = Some commit" "from_str_id (cr_chain body) = Some ch"
    "check_wallet (st_redis st) (sl_addr ?L) wallet (wd_redis wd) = (Inr Allowed, r1)"
    and run: "create_session (st_redis st) ?L (rq_uuid rq)
       (new_context (rq_clock rq 0) wallet ip ct n (map_option NodeId (cr_assigned_node_id body))
          (parse_commodity (cr_commodity body)) ch (cr_cpu_threads body)
          (Option.bind (cr_assigned_node_id body) (st_node_sites st))) r3 = (Inr sid, r4)"
    and com: "set_commit (st_redis st) ?L sid commit r4 = (Inr (), r5)"
    and resp: "cs_session_id resp = sid_str sid"
    and wd': "wd' = wd\<lparr>wd_redis := r5, wd_twap := (wd_twap wd)(sid_str sid \<mapsto> twap_new (rq_clock rq 1)),
        wd_active := wd_active wd + 1\<rparr>"
    by (rule create_session_success [OF assms(2)]) blast
  let ?ctx = "new_context (rq_clock rq 0) wallet ip ct n (map_option NodeId (cr_assigned_node_id body))
    (parse_commodity (cr_commodity body)) ch (cr_cpu_threads body) (Option.bind (cr_assigned_node_id body) (st_node_sites st))"
  obtain p where p: "sl_ctx_json ?L ?ctx = Inr p" "sid = SessionId (rq_uuid rq)"
    and v4: "view r4 = (let w = sl_addr ?L (sc_wallet ?ctx); t = Some (ks_clock (view r3) + 3600) in
      ks_put (commit_key sid) (''pending'', t) (ks_put (lookup_key sid) (w, t) (ks_put (session_key w sid) (p, t) (view r3))))"
    by (rule create_session_ks_Inr [OF simD [OF sims(1) run]])
  have v5: "view r5 = ks_put (commit_key sid) (sl_hex ?L commit, Some (ks_clock (view r4) + 3600)) (view r4)"
    using simD [OF sims(3) com] by (simp add: set_commit_def act_eval)
  have "fst (get_session keyspace_ops ?L sid (view r5)) = Inr (Some ?ctx)"
    using json [OF p(1)] by (simp add: get_session_ks ks_value_def v5 v4 Let_def key_defs)
  moreover have "fst (verify_reveal keyspace_ops ?L sid nonce (view r5)) = Inr (sl_sha256 ?L nonce = commit)" for nonce
    using hex(2) [of commit] inj_eq [OF hex(1)] by (simp add: verify_reveal_ks ks_value_def v5)
  moreover have "SessionId (cs_session_id resp) = sid" using resp by simp
  ultimately show ?thesis using * wd' resp by (simp (no_asm_simp)) blast
qed

theorem pause_by_owner_only_witness:
  "fst (pause_session demo_state ''s'' ''0x7'' demo_world) = Inr True
     \<and> fst (pause_session demo_state ''s'' ''0x8'' demo_world) \<noteq> Inr True"
proof -
  have "redis (st_redis demo_state) id" using keyspace.redis_axioms by (simp add: demo_sels)
  from pause_by_owner_only [OF this, of "''s''" "''0x7''" demo_world] pause_by_owner_only [OF this, of "''s''" "''0x8''" demo_world]
  show ?thesis using demo_reads(1) by (simp add: by_owner_def demo_sels Let_def)
qed

definition demo_submission :: submit_proof_request where
  "demo_submission = \<lparr>sp_sequence = 0, sp_hashrate = 1000, sp_proof_hash = ''hash'', sp_proof_input = [],
     sp_difficulty = 1\<rparr>"

text \<open>A deployment whose encoding of proof lists is exact on the lists it meets.\<close>

definition fresh_state :: "(keyspace, unit, unit, unit, unit) app_state" where
  "fresh_state = demo_state\<lparr>st_libs := demo_service_libs\<lparr>sl_proofs_parse := (\<lambda>t. Inr [submitted_proof (SessionId ''s'') 7
     demo_submission (replicate 32 7) [] (5 * nanos_per_sec)])\<rparr>\<rparr>"

definition fresh_world :: "(keyspace, unit, unit) world" where
  "fresh_world = demo_world\<lparr>wd_redis := ks_drop (proofs_key (SessionId ''s'')) demo_keys\<rparr>"

theorem submit_proof_effect_witness:
  "map_sum id sr_suspicion_level (fst (handle_submit_proof fresh_state (demo_request 5) ''s'' demo_submission fresh_world))
     = Inr ''Low''"
proof -
  let ?pr = "submitted_proof (SessionId ''s'') 7 demo_submission (replicate 32 7) [] (5 * nanos_per_sec)"
  have "redis (st_redis fresh_state) id" using keyspace.redis_axioms by (simp add: fresh_state_def demo_sels)
  moreover have "fst (get_session keyspace_ops (st_libs fresh_state) (SessionId ''s'') (wd_redis fresh_world)) = Inr (Some demo_session)"
    "fst (is_paused keyspace_ops (SessionId ''s'') (wd_redis fresh_world)) = Inr False"
    "fst (get_proofs keyspace_ops (st_libs fresh_state) (SessionId ''s'') (wd_redis fresh_world)) = Inr []"
    by code_simp+
  moreover have "prefilter_validate ?pr PreFilter demo_session = Valid" by code_simp
  moreover have "parse_hash (st_hex_decode fresh_state) (sp_proof_hash demo_submission) = Some (replicate 32 7)"
    "decode_input (st_hex_decode fresh_state) (sp_proof_input demo_submission) = Some []"
    by (simp_all add: parse_hash_def decode_input_def fresh_state_def demo_state_def demo_submission_def del: replicate.simps)
  moreover have "sl_proofs_json (st_libs fresh_state) [?pr] = Inr ''proofs''"
    "sl_proofs_parse (st_libs fresh_state) ''proofs'' = Inr [?pr]"
    by (simp_all add: fresh_state_def demo_service_libs_def demo_session_libs_def)
  ultimately show ?thesis
    using submit_proof_effect [where st = fresh_state and view = id and sid_raw = "''s''" and wd = fresh_world
        and ctx = demo_session and body = demo_submission and hash = "replicate 32 7" and input = "[]"
        and rq = "demo_request 5" and pr = ?pr and old = "[]" and payload = "''proofs''" and v = Valid]
    by (auto simp: demo_sels demo_request_def)
qed

text \<open>A deployment whose encoding of contexts knows exactly one context.\<close>

definition created_context :: session_context where
  "created_context = new_context 0 7 ''ip'' Cli 0 (Some (NodeId ''a'')) Gold Polygon 8 None"

definition create_state :: "(keyspace, unit, unit, unit, unit) app_state" where
  "create_state = demo_state\<lparr>st_libs := demo_service_libs\<lparr>
     sl_ctx_json := (\<lambda>c. if c = created_context then Inr ''ctx'' else Inl ''unknown''),
     sl_ctx_parse := (\<lambda>t. Inr created_context)\<rparr>\<rparr>"

definition demo_creation :: create_session_request where
  "demo_creation = \<lparr>cr_wallet = ''0x7'', cr_client_type = ''cli'', cr_commit_hash = ''commit'',
     cr_assigned_node_id = Some ''a'', cr_commodity = ''gold'', cr_chain = ''polygon'', cr_cpu_threads = 8\<rparr>"

definition empty_world :: "(keyspace, unit, unit) world" where
  "empty_world = \<lparr>wd_redis = empty_ks, wd_db = \<lparr>db_anomalies = [], db_proposals = []\<rparr>,
     wd_twap = Map.empty, wd_edge = None, wd_ext = (), wd_events = (), wd_active = 0\<rparr>"

lemma demo_created:
  "fst (handle_create_session create_state (demo_request 0) ''ip'' demo_creation empty_world)
     = Inr (Some \<lparr>cs_session_id = ''s'', cs_assigned_site = None\<rparr>)"
  by code_simp

lemma hex_encode_not_pending: "hex_encode b \<noteq> ''pending''"
proof
  assume "hex_encode b = ''pending''"
  then have "2 * length b = 7" using length_hex_encode [of b] by simp
  then show False by presburger
qed

theorem create_session_ready_witness:
  "fst (verify_reveal keyspace_ops (st_libs create_state) (SessionId ''s'') (replicate 32 7)
      (wd_redis (snd (handle_create_session create_state (demo_request 0) ''ip'' demo_creation empty_world)))) = Inr True"
proof -
  let ?r = "handle_create_session create_state (demo_request 0) ''ip'' demo_creation empty_world"
  have "redis (st_redis create_state) id" using keyspace.redis_axioms by (simp add: create_state_def demo_sels)
  moreover have "?r = (Inr (Some \<lparr>cs_session_id = ''s'', cs_assigned_site = None\<rparr>), snd ?r)"
    using demo_created by (metis prod.collapse)
  moreover have "inj (sl_hex (st_libs create_state))" "sl_hex (st_libs create_state) b \<noteq> ''pending''"
    "sl_ctx_json (st_libs create_state) c = Inr p \<Longrightarrow> sl_ctx_parse (st_libs create_state) p = Inr c" for b c p
    by (auto simp: create_state_def demo_service_libs_def demo_session_libs_def inj_def hex_encode_inj
        hex_encode_not_pending split: if_splits)
  ultimately have "\<exists>commit. parse_hash (st_hex_decode create_state) ''commit'' = Some commit
      \<and> fst (verify_reveal keyspace_ops (st_libs create_state) (SessionId ''s'') (replicate 32 7) (id (wd_redis (snd ?r))))
          = Inr (sl_sha256 (st_libs create_state) (replicate 32 7) = commit)"
    using create_session_ready [of create_state id "demo_request 0" "''ip''" demo_creation empty_world
        "\<lparr>cs_session_id = ''s'', cs_assigned_site = None\<rparr>" "snd ?r"]
    by (fastforce simp: demo_creation_def simp del: replicate.simps)
  then show ?thesis
    by (auto simp: parse_hash_def create_state_def demo_state_def demo_service_libs_def demo_session_libs_def
        simp del: replicate.simps)
qed

end
