(* ===== verification/Text.thy ===== *)
theory Text
  imports Prelude "HOL-Library.Sublist"
begin

text \<open>
  The string operations of Rust's standard library the sources use. A string is the list of its
  bytes; white space is the ASCII white space (the sources trim configuration entries and message
  fields, which are ASCII).
\<close>

section \<open>Operations\<close>

definition is_whitespace :: "char \<Rightarrow> bool" where
  "is_whitespace c \<longleftrightarrow> (let n = of_char c :: nat in n = 32 \<or> (9 \<le> n \<and> n \<le> 13))"

definition trim_start :: "string \<Rightarrow> string" where
  "trim_start s = dropWhile is_whitespace s"

definition trim :: "string \<Rightarrow> string" where
  "trim s = rev (trim_start (rev (trim_start s)))"

definition str_bytes :: "string \<Rightarrow> bytes" where
  "str_bytes s = map of_char s"

text \<open>\<open>split\<close> at a separator: the parts between its occurrences, one more than there are occurrences.\<close>

fun split_on :: "char \<Rightarrow> string \<Rightarrow> string list" where
  "split_on c [] = [[]]"
| "split_on c (x # xs) =
     (if x = c then [] # split_on c xs
      else (case split_on c xs of p # ps \<Rightarrow> (x # p) # ps | [] \<Rightarrow> [[x]]))"

fun split_once :: "char \<Rightarrow> string \<Rightarrow> (string \<times> string) option" where
  "split_once c [] = None"
| "split_once c (x # xs) =
     (if x = c then Some ([], xs)
      else (case split_once c xs of None \<Rightarrow> None | Some (a, b) \<Rightarrow> Some (x # a, b)))"

definition strip_prefix_of :: "string \<Rightarrow> string \<Rightarrow> string option" where
  "strip_prefix_of p s = (if prefix p s then Some (drop (length p) s) else None)"

definition strip_suffix_of :: "string \<Rightarrow> string \<Rightarrow> string option" where
  "strip_suffix_of p s = (if suffix p s then Some (take (length s - length p) s) else None)"

text \<open>\<open>trim_start_matches\<close>: the prefix is removed as often as it occurs; the empty prefix never.\<close>

function trim_start_matches :: "string \<Rightarrow> string \<Rightarrow> string" where
  "trim_start_matches p s =
     (if p \<noteq> [] \<and> prefix p s then trim_start_matches p (drop (length p) s) else s)"
  by pat_completeness auto

termination
  by (relation "measure (\<lambda>(p, s). length s)") (auto simp: prefix_def)

declare trim_start_matches.simps [simp del]

text \<open>
  \<open>lines\<close>: cut after line feeds, dropping each line feed and a carriage return before it; there is no
  empty line after a final line feed, and a last line without line feed is kept as it is.
\<close>

definition strip_cr :: "string \<Rightarrow> string" where
  "strip_cr l = (if l \<noteq> [] \<and> last l = CHR 0x0D then butlast l else l)"

definition str_lines :: "string \<Rightarrow> string list" where
  "str_lines s =
     (let parts = split_on (CHR 0x0A) s
      in map strip_cr (butlast parts) @ (if last parts = [] then [] else [last parts]))"

text \<open>The entries of a comma-separated list: trimmed, empty ones dropped.\<close>

definition comma_entries :: "string \<Rightarrow> string list" where
  "comma_entries raw = filter (\<lambda>e. e \<noteq> []) (map trim (split_on (CHR '','') raw))"

section \<open>Laws\<close>

lemma split_on_ne [simp]: "split_on c s \<noteq> []"
  by (induction s) (auto split: list.splits)

lemma split_on_append:
  assumes "c \<notin> set a"
  shows "split_on c (a @ c # b) = a # split_on c b"
  using assms by (induction a) auto

lemma split_on_single: "c \<notin> set a \<Longrightarrow> split_on c a = [a]"
  by (induction a) auto

lemma split_once_append: "c \<notin> set a \<Longrightarrow> split_once c (a @ c # b) = Some (a, b)"
  by (induction a) auto

lemma split_once_SomeD: "split_once c s = Some (a, b) \<Longrightarrow> s = a @ c # b \<and> c \<notin> set a"
  by (induction s arbitrary: a) (auto split: if_splits option.splits)

lemma split_once_Some: "split_once c s = Some (a, b) \<longleftrightarrow> s = a @ c # b \<and> c \<notin> set a"
  using split_once_SomeD split_once_append by metis

lemma strip_prefix_append [simp]: "strip_prefix_of p (p @ s) = Some s"
  by (simp add: strip_prefix_of_def)

lemma strip_suffix_append [simp]: "strip_suffix_of p (s @ p) = Some s"
  by (simp add: strip_suffix_of_def suffix_def)

lemma strip_suffix_Some: "strip_suffix_of p s = Some t \<longleftrightarrow> s = t @ p"
  by (auto simp: strip_suffix_of_def suffix_def)

lemma strip_prefix_Some: "strip_prefix_of p s = Some t \<longleftrightarrow> s = p @ t"
  by (auto simp: strip_prefix_of_def prefix_def)

lemma trim_start_id: "s = [] \<or> \<not> is_whitespace (hd s) \<Longrightarrow> trim_start s = s"
  by (cases s) (auto simp: trim_start_def)

lemma trim_start_none: "\<forall>c \<in> set s. \<not> is_whitespace c \<Longrightarrow> trim_start s = s"
  by (cases s) (auto simp: trim_start_def)

lemma trim_id: "\<forall>c \<in> set s. \<not> is_whitespace c \<Longrightarrow> trim s = s"
  by (simp add: trim_def trim_start_none)

lemma trim_space: "\<forall>c \<in> set s. \<not> is_whitespace c \<Longrightarrow> trim (CHR '' '' # s) = s"
proof -
  have "is_whitespace (CHR '' '')" by (simp add: is_whitespace_def)
  moreover assume "\<forall>c \<in> set s. \<not> is_whitespace c"
  ultimately show ?thesis using trim_id [of s] by (simp add: trim_def trim_start_def)
qed

end
