(* ===== verification/Admin_Auth.thy ===== *)
theory Admin_Auth
  imports Common Text "HOL-Library.AList"
begin

text \<open>
  \<open>crates/verification-service/src/admin.rs\<close>: sign-in with Ethereum for operators. Login nonces live
  in an in-memory store (an association list from nonce to the instant of its issue), a login checks a
  signed message, an operator list and the nonce, and hands out an HMAC-signed token that a guard
  checks on every later request. The libraries (address and hexadecimal text, JSON, ECDSA recovery,
  HMAC-SHA256, RFC 3339 times) are parameters.
\<close>

section \<open>Data\<close>

definition NONCE_TTL :: int where "NONCE_TTL = 300 * nanos_per_sec"

definition SIWE_HEADER_SUFFIX :: string where
  "SIWE_HEADER_SUFFIX = '' wants you to sign in with your Ethereum account:''"

datatype auth_error = Unauthorized | AuthInternal

fun auth_response :: "auth_error \<Rightarrow> nat \<times> string" where
  "auth_response AuthInternal = (500, ''internal error'')"
| "auth_response Unauthorized = (401, ''unauthorized'')"

record session_claims =
  cl_addr :: string
  cl_exp :: u64

record admin_libs =
  al_parse_address :: "string \<Rightarrow> address option"
  al_addr_debug :: "address \<Rightarrow> string"
  al_hex_encode :: "bytes \<Rightarrow> string"
  al_hex_decode :: "string \<Rightarrow> bytes option"
  al_claims_json :: "session_claims \<Rightarrow> bytes option"
  al_claims_parse :: "bytes \<Rightarrow> session_claims option"
  al_hmac :: "bytes \<Rightarrow> bytes \<Rightarrow> bytes option"
  al_parse_signature :: "bytes \<Rightarrow> signature option"
  al_recover :: "signature \<Rightarrow> bytes \<Rightarrow> address option"
  al_parse_rfc3339 :: "string \<Rightarrow> int option"
  al_to_rfc3339 :: "datetime \<Rightarrow> string"

record admin_config =
  ad_wallets :: "address set"
  ad_session_secret :: "bytes option"
  ad_domain :: string
  ad_session_ttl :: u64

definition parse_admin_wallets :: "admin_libs \<Rightarrow> string \<Rightarrow> address set" where
  "parse_admin_wallets L raw = set (List.map_filter (al_parse_address L) (comma_entries raw))"

section \<open>Nonces\<close>

type_synonym nonce_store = "(string \<times> int) list"

definition duration_since :: "int \<Rightarrow> int \<Rightarrow> int" where
  "duration_since later earlier = max 0 (later - earlier)"

definition issue_nonce :: "string \<Rightarrow> int \<Rightarrow> nonce_store \<Rightarrow> string \<times> nonce_store" where
  "issue_nonce nonce now store =
     (nonce, AList.update nonce now (filter (\<lambda>(_, issued). duration_since now issued < NONCE_TTL) store))"

definition consume_nonce :: "string \<Rightarrow> int \<Rightarrow> nonce_store \<Rightarrow> bool \<times> nonce_store" where
  "consume_nonce nonce now store =
     (case map_of store nonce of
        Some issued \<Rightarrow> (duration_since now issued < NONCE_TTL, AList.delete nonce store)
      | None \<Rightarrow> (False, store))"

section \<open>Tokens\<close>

definition issue_session_token ::
    "admin_libs \<Rightarrow> bytes \<Rightarrow> address \<Rightarrow> u64 \<Rightarrow> u64 \<Rightarrow> auth_error + string" where
  "issue_session_token L secret addr ttl now_unix =
     (let claims = \<lparr>cl_addr = al_addr_debug L addr, cl_exp = saturating_add now_unix ttl\<rparr> in
      case al_claims_json L claims of
        None \<Rightarrow> Inl AuthInternal
      | Some payload \<Rightarrow> (case al_hmac L secret payload of
            None \<Rightarrow> Inl AuthInternal
          | Some sig \<Rightarrow> Inr (al_hex_encode L payload @ ''.'' @ al_hex_encode L sig)))"

definition verify_session_token :: "admin_libs \<Rightarrow> bytes \<Rightarrow> string \<Rightarrow> u64 \<Rightarrow> address option" where
  "verify_session_token L secret token now_unix =
     Option.bind (split_once (CHR ''.'') token) (\<lambda>(payload_hex, sig_hex).
     Option.bind (al_hex_decode L payload_hex) (\<lambda>payload.
     Option.bind (al_hex_decode L sig_hex) (\<lambda>sig.
     Option.bind (al_hmac L secret payload) (\<lambda>mac.
     if mac \<noteq> sig then None
     else Option.bind (al_claims_parse L payload) (\<lambda>claims.
       if cl_exp claims \<le> now_unix then None
       else al_parse_address L (cl_addr claims))))))"

section \<open>Signed messages\<close>

record siwe_verified =
  sv_address :: address
  sv_nonce :: string

definition siwe_field :: "string \<Rightarrow> string \<Rightarrow> string option" where
  "siwe_field message p =
     (case List.map_filter (strip_prefix_of p) (str_lines message) of
        [] \<Rightarrow> None
      | v # _ \<Rightarrow> Some (trim v))"

definition unauth :: "'a option \<Rightarrow> auth_error + 'a" where
  "unauth v = (case v of None \<Rightarrow> Inl Unauthorized | Some a \<Rightarrow> Inr a)"

definition bind_auth :: "auth_error + 'a \<Rightarrow> ('a \<Rightarrow> auth_error + 'b) \<Rightarrow> auth_error + 'b" where
  "bind_auth r f = (case r of Inl e \<Rightarrow> Inl e | Inr a \<Rightarrow> f a)"

definition verify_siwe ::
    "admin_libs \<Rightarrow> string \<Rightarrow> string \<Rightarrow> string \<Rightarrow> u64 \<Rightarrow> auth_error + siwe_verified" where
  "verify_siwe L message signature_hex expected_domain now_unix =
     bind_auth (unauth (al_hex_decode L (trim_start_matches ''0x'' (trim signature_hex)))) (\<lambda>sig_bytes.
     bind_auth (unauth (al_parse_signature L sig_bytes)) (\<lambda>signature.
     bind_auth (unauth (al_recover L signature (str_bytes message))) (\<lambda>recovered.
     case str_lines message of
       [] \<Rightarrow> Inl Unauthorized
     | header # rest \<Rightarrow>
     bind_auth (unauth (strip_suffix_of SIWE_HEADER_SUFFIX header)) (\<lambda>before.
     if trim before \<noteq> expected_domain then Inl Unauthorized
     else (case rest of
       [] \<Rightarrow> Inl Unauthorized
     | addr_line # _ \<Rightarrow>
     bind_auth (unauth (al_parse_address L (trim addr_line))) (\<lambda>declared.
     if declared \<noteq> recovered then Inl Unauthorized
     else bind_auth (unauth (siwe_field message ''Nonce:'')) (\<lambda>nonce.
     if nonce = [] then Inl Unauthorized
     else (case siwe_field message ''Expiration Time:'' of
         None \<Rightarrow> Inr \<lparr>sv_address = recovered, sv_nonce = nonce\<rparr>
       | Some expiration \<Rightarrow>
           bind_auth (unauth (al_parse_rfc3339 L expiration)) (\<lambda>exp.
           if exp \<le> wrap_i64 (uint now_unix) then Inl Unauthorized
           else Inr \<lparr>sv_address = recovered, sv_nonce = nonce\<rparr>)))))))))"

definition now_unix :: "datetime \<Rightarrow> u64" where
  "now_unix now = clamp_u64 (now div nanos_per_sec)"

section \<open>Handlers\<close>

record nonce_response =
  nr_nonce :: string
  nr_domain :: string
  nr_uri :: string
  nr_version :: string
  nr_statement :: string
  nr_issued_at :: string
  nr_expiration_time :: string

definition admin_disabled :: "admin_config \<Rightarrow> bool" where
  "admin_disabled cfg \<longleftrightarrow> ad_wallets cfg = {} \<or> ad_session_secret cfg = None"

definition handle_nonce ::
    "admin_libs \<Rightarrow> admin_config \<Rightarrow> string \<Rightarrow> int \<Rightarrow> datetime \<Rightarrow> nonce_store
       \<Rightarrow> (auth_error + nonce_response) \<times> nonce_store" where
  "handle_nonce L cfg fresh instant now store =
     (if admin_disabled cfg then (Inl Unauthorized, store)
      else (case issue_nonce fresh instant store of (nonce, store') \<Rightarrow>
        (Inr \<lparr>nr_nonce = nonce, nr_domain = ad_domain cfg, nr_uri = ''https://'' @ ad_domain cfg,
              nr_version = ''1'', nr_statement = ''Sign in to the Primora admin console.'',
              nr_issued_at = al_to_rfc3339 L now, nr_expiration_time = al_to_rfc3339 L (now + NONCE_TTL)\<rparr>,
         store')))"

record login_request =
  lr_message :: string
  lr_signature :: string

record login_response =
  lp_token :: string
  lp_expires_in :: u64

definition handle_login ::
    "admin_libs \<Rightarrow> admin_config \<Rightarrow> int \<Rightarrow> datetime \<Rightarrow> login_request \<Rightarrow> nonce_store
       \<Rightarrow> (auth_error + login_response) \<times> nonce_store" where
  "handle_login L cfg instant now body store =
     (case ad_session_secret cfg of
        None \<Rightarrow> (Inl Unauthorized, store)
      | Some secret \<Rightarrow>
          if ad_wallets cfg = {} then (Inl Unauthorized, store)
          else (case verify_siwe L (lr_message body) (lr_signature body) (ad_domain cfg) (now_unix now) of
              Inl e \<Rightarrow> (Inl e, store)
            | Inr verified \<Rightarrow>
                if sv_address verified \<notin> ad_wallets cfg then (Inl Unauthorized, store)
                else (case consume_nonce (sv_nonce verified) instant store of
                    (False, store') \<Rightarrow> (Inl Unauthorized, store')
                  | (True, store') \<Rightarrow>
                      (bind_auth (issue_session_token L secret (sv_address verified) (ad_session_ttl cfg) (now_unix now))
                         (\<lambda>token. Inr \<lparr>lp_token = token, lp_expires_in = ad_session_ttl cfg\<rparr>), store'))))"

text \<open>The guard in front of a handler: \<open>header\<close> is the text of the authorization header, if any.\<close>

definition admin_guard ::
    "admin_libs \<Rightarrow> admin_config \<Rightarrow> datetime \<Rightarrow> string option \<Rightarrow> auth_error + 'a \<Rightarrow> auth_error + 'a" where
  "admin_guard L cfg now header next_run =
     (case ad_session_secret cfg of
        None \<Rightarrow> Inl Unauthorized
      | Some secret \<Rightarrow>
          if ad_wallets cfg = {} then Inl Unauthorized
          else (case Option.bind (Option.bind header (strip_prefix_of ''Bearer ''))
                       (\<lambda>token. verify_session_token L secret token (now_unix now)) of
              Some address \<Rightarrow> if address \<in> ad_wallets cfg then next_run else Inl Unauthorized
            | None \<Rightarrow> Inl Unauthorized))"

definition logout :: nat where "logout = 204"

section \<open>Single use of nonces\<close>

text \<open>
  The history of a nonce store, and what it should remember: the instant of the latest issue of each
  nonce that has not been consumed since. The store also prunes; the reference does not.
\<close>

datatype nonce_event = Issued string int | Consumed string int

fun event_time :: "nonce_event \<Rightarrow> int" where
  "event_time (Issued n t) = t"
| "event_time (Consumed n t) = t"

fun nonce_step :: "nonce_event \<Rightarrow> nonce_store \<Rightarrow> nonce_store" where
  "nonce_step (Issued n t) store = snd (issue_nonce n t store)"
| "nonce_step (Consumed n t) store = snd (consume_nonce n t store)"

fun outstanding_step :: "nonce_event \<Rightarrow> (string \<Rightarrow> int option) \<Rightarrow> string \<Rightarrow> int option" where
  "outstanding_step (Issued n t) m = m(n \<mapsto> t)"
| "outstanding_step (Consumed n t) m = m(n := None)"

definition outstanding :: "nonce_event list \<Rightarrow> string \<Rightarrow> int option" where
  "outstanding evs = fold outstanding_step evs Map.empty"

text \<open>At time \<open>now\<close> the store agrees with the reference up to pruned nonces, which have expired.\<close>

definition nonce_sim :: "int \<Rightarrow> nonce_store \<Rightarrow> (string \<Rightarrow> int option) \<Rightarrow> bool" where
  "nonce_sim now store m \<longleftrightarrow> distinct (map fst store) \<and> (\<forall>n t. m n = Some t \<longrightarrow> t \<le> now)
     \<and> (\<forall>n. map_of store n = m n \<or> map_of store n = None \<and> (\<exists>t. m n = Some t \<and> NONCE_TTL \<le> now - t))"

lemma map_of_pruned:
  "distinct (map fst store) \<Longrightarrow>
     map_of (filter (\<lambda>(_, t). P t) store) n = (case map_of store n of Some t \<Rightarrow> if P t then Some t else None | None \<Rightarrow> None)"
  by (induction store) (auto split: option.splits simp: map_of_eq_None_iff rev_image_eqI)

lemma distinct_pruned: "distinct (map fst store) \<Longrightarrow> distinct (map fst (filter P store))"
  by (induction store) auto

lemma nonce_sim_step:
  assumes "nonce_sim t store m" and "t \<le> event_time e"
  shows "nonce_sim (event_time e) (nonce_step e store) (outstanding_step e m)"
proof (cases e)
  case (Issued n now)
  have m: "m k = Some u \<Longrightarrow> u \<le> now" for k u using assms Issued by (fastforce simp: nonce_sim_def)
  have "map_of (filter (\<lambda>(_, u). duration_since now u < NONCE_TTL) store) k = m k
      \<or> map_of (filter (\<lambda>(_, u). duration_since now u < NONCE_TTL) store) k = None \<and> (\<exists>u. m k = Some u \<and> NONCE_TTL \<le> now - u)" for k
  proof -
    have d: "distinct (map fst store)"
      and k: "map_of store k = m k \<or> map_of store k = None \<and> (\<exists>u. m k = Some u \<and> NONCE_TTL \<le> t - u)"
      using assms(1) by (auto simp: nonce_sim_def)
    show ?thesis
    proof (cases "map_of store k")
      case None
      with k have "m k = None \<or> (\<exists>u. m k = Some u \<and> NONCE_TTL \<le> now - u)" using assms(2) Issued by auto
      with None show ?thesis by (simp add: map_of_pruned [OF d, of "\<lambda>u. duration_since now u < NONCE_TTL"] eq_commute)
    next
      case (Some u)
      with k have "m k = Some u" by auto
      with m have "u \<le> now" by blast
      with Some \<open>m k = Some u\<close> show ?thesis
        by (auto simp: map_of_pruned [OF d, of "\<lambda>u. duration_since now u < NONCE_TTL"])
           (simp add: duration_since_def)
    qed
  qed
  then show ?thesis using assms(1) m Issued
    by (auto simp: nonce_sim_def issue_nonce_def update_conv distinct_update distinct_pruned)
next
  case (Consumed n now)
  then show ?thesis using assms
    by (auto simp: nonce_sim_def consume_nonce_def delete_conv distinct_delete split: option.splits)
       (smt (verit) option.distinct(1))+
qed

lemma nonce_sim_history:
  assumes "sorted (map event_time evs)"
  shows "nonce_sim (if evs = [] then t else event_time (last evs)) (fold nonce_step evs []) (outstanding evs)"
  using assms
proof (induction evs rule: rev_induct)
  case Nil
  then show ?case by (simp add: nonce_sim_def outstanding_def)
next
  case (snoc e evs)
  then have "sorted (map event_time evs)" and le: "evs \<noteq> [] \<Longrightarrow> event_time (last evs) \<le> event_time e"
    by (auto simp: sorted_append)
  with snoc.IH have "nonce_sim (if evs = [] then t else event_time (last evs)) (fold nonce_step evs []) (outstanding evs)" by simp
  moreover have "nonce_sim (event_time e) [] Map.empty" by (simp add: nonce_sim_def)
  ultimately show ?case
    using nonce_sim_step [of _ "fold nonce_step evs []" "outstanding evs" e] le
      nonce_sim_step [of "event_time e" "[]" Map.empty e]
    by (cases "evs = []") (auto simp: outstanding_def)
qed

lemma outstanding_none: "m n = None \<Longrightarrow> \<forall>t. Issued n t \<notin> set es \<Longrightarrow> fold outstanding_step es m n = None"
proof (induction es arbitrary: m)
  case (Cons e es)
  then show ?case by (cases e) auto
qed simp

lemma consume_sim:
  assumes "nonce_sim t store m" and "t \<le> now"
  shows "fst (consume_nonce n now store) \<longleftrightarrow> (\<exists>u. m n = Some u \<and> now - u < NONCE_TTL)"
proof -
  have le: "m n = Some u \<Longrightarrow> u \<le> now" for u using assms by (fastforce simp: nonce_sim_def)
  consider "map_of store n = m n" | u where "map_of store n = None" "m n = Some u" "NONCE_TTL \<le> t - u"
    using assms(1) unfolding nonce_sim_def by blast
  then show ?thesis
    using le assms(2)
    by cases (auto simp: consume_nonce_def duration_since_def max_def split: option.splits)
qed

text \<open>
  C21: The nonce store, with its lazy pruning, answers like an ideal store that forgets nothing: after any
  history of issues and consumptions in time order, a nonce is accepted exactly if its latest issue has
  not been consumed since and is less than five minutes old; and once consumed, a nonce stays refused
  at any time until it is issued again, whatever else happens to other nonces.
\<close>

theorem nonces_single_use:
  assumes "sorted (map event_time evs)" and "\<forall>e \<in> set evs. event_time e \<le> now"
  shows "(fst (consume_nonce n now (fold nonce_step evs [])) \<longleftrightarrow>
            (\<exists>u. outstanding evs n = Some u \<and> now - u < NONCE_TTL))
       \<and> (\<forall>before t after. evs = before @ Consumed n t # after \<and> (\<forall>t. Issued n t \<notin> set after)
            \<longrightarrow> \<not> fst (consume_nonce n now (fold nonce_step evs [])))"
proof -
  have hist: "fst (consume_nonce n now (fold nonce_step evs [])) \<longleftrightarrow> (\<exists>u. outstanding evs n = Some u \<and> now - u < NONCE_TTL)"
    using consume_sim [OF nonce_sim_history [OF assms(1), of now]] assms(2) by (cases "evs = []") auto
  moreover have "outstanding evs n = None"
    if "evs = before @ Consumed n t # after" "\<forall>t. Issued n t \<notin> set after" for before t after
    using that outstanding_none [of _ n after] by (simp add: outstanding_def)
  ultimately show ?thesis by auto
qed

theorem nonces_single_use_witness:
  "fst (consume_nonce ''n'' 5 (fold nonce_step [Issued ''n'' 1, Issued ''m'' 2, Consumed ''m'' 3] []))
 \<and> \<not> fst (consume_nonce ''m'' 5 (fold nonce_step [Issued ''n'' 1, Issued ''m'' 2, Consumed ''m'' 3] []))"
  using nonces_single_use [of "[Issued ''n'' 1, Issued ''m'' 2, Consumed ''m'' 3]" 5 "''n''"]
    nonces_single_use [of "[Issued ''n'' 1, Issued ''m'' 2, Consumed ''m'' 3]" 5 "''m''"]
  by (simp add: outstanding_def NONCE_TTL_def)

section \<open>Logins and tokens\<close>

lemma unauth_Inr [simp]: "unauth v = Inr a \<longleftrightarrow> v = Some a"
  by (auto simp: unauth_def split: option.splits)

lemma bind_auth_Inr: "bind_auth r f = Inr b \<longleftrightarrow> (\<exists>a. r = Inr a \<and> f a = Inr b)"
  by (auto simp: bind_auth_def split: sum.splits)

lemma consume_deletes: "snd (consume_nonce n now store) = AList.delete n store"
  by (auto simp: consume_nonce_def delete_id map_of_eq_None_iff split: option.splits)

lemma consume_gone: "\<not> fst (consume_nonce n later (AList.delete n store))"
  by (simp add: consume_nonce_def delete_conv')

text \<open>What a message must say to be accepted as a sign-in of \<open>a\<close> with nonce \<open>n\<close>.\<close>

definition signed_in :: "admin_libs \<Rightarrow> string \<Rightarrow> string \<Rightarrow> string \<Rightarrow> u64 \<Rightarrow> address \<Rightarrow> string \<Rightarrow> bool" where
  "signed_in L message signature_hex domain now a n \<longleftrightarrow>
     (\<exists>raw sig before addr_line rest.
        al_hex_decode L (trim_start_matches ''0x'' (trim signature_hex)) = Some raw
      \<and> al_parse_signature L raw = Some sig
      \<and> al_recover L sig (str_bytes message) = Some a
      \<and> str_lines message = (before @ SIWE_HEADER_SUFFIX) # addr_line # rest
      \<and> trim before = domain
      \<and> al_parse_address L (trim addr_line) = Some a)
   \<and> siwe_field message ''Nonce:'' = Some n \<and> n \<noteq> []
   \<and> (\<forall>e. siwe_field message ''Expiration Time:'' = Some e \<longrightarrow>
         (\<exists>x. al_parse_rfc3339 L e = Some x \<and> wrap_i64 (uint now) < x))"

lemma if_Inl_Inr [simp]: "(if c then Inl e else x) = Inr b \<longleftrightarrow> \<not> c \<and> x = Inr b"
  by simp

lemma verify_siwe_Inr:
  "verify_siwe L message signature_hex domain now = Inr v \<longleftrightarrow>
     signed_in L message signature_hex domain now (sv_address v) (sv_nonce v)"
proof -
  obtain a n where v: "v = \<lparr>sv_address = a, sv_nonce = n\<rparr>" by (cases v)
  have sign: "(let r = (case siwe_field message ''Expiration Time:'' of
         None \<Rightarrow> Inr \<lparr>sv_address = b, sv_nonce = m\<rparr>
       | Some expiration \<Rightarrow>
           bind_auth (unauth (al_parse_rfc3339 L expiration)) (\<lambda>exp.
           if exp \<le> wrap_i64 (uint now) then Inl Unauthorized
           else Inr \<lparr>sv_address = b, sv_nonce = m\<rparr>)) in r = Inr v) \<longleftrightarrow>
      b = a \<and> m = n \<and> (\<forall>e. siwe_field message ''Expiration Time:'' = Some e \<longrightarrow>
         (\<exists>x. al_parse_rfc3339 L e = Some x \<and> wrap_i64 (uint now) < x))" for b m
    by (auto simp: v bind_auth_Inr not_le split: option.splits)
  show ?thesis
  proof (cases "\<exists>header addr_line rest. str_lines message = header # addr_line # rest")
    case True
    then obtain header addr_line rest where l: "str_lines message = header # addr_line # rest" by blast
    show ?thesis
      unfolding verify_siwe_def signed_in_def bind_auth_Inr unauth_Inr l list.case if_Inl_Inr sign [unfolded Let_def]
        strip_suffix_Some
      by (auto simp: v)
  next
    case False
    then consider "str_lines message = []" | h where "str_lines message = [h]"
      by (metis list.exhaust)
    then show ?thesis
      by cases (auto simp: verify_siwe_def signed_in_def bind_auth_Inr)
  qed
qed

lemma handle_login_Inr:
  "fst (handle_login L cfg instant now body store) = Inr r \<longleftrightarrow>
     (\<exists>secret a n. ad_session_secret cfg = Some secret \<and> a \<in> ad_wallets cfg
        \<and> signed_in L (lr_message body) (lr_signature body) (ad_domain cfg) (now_unix now) a n
        \<and> fst (consume_nonce n instant store)
        \<and> issue_session_token L secret a (ad_session_ttl cfg) (now_unix now) = Inr (lp_token r)
        \<and> lp_expires_in r = ad_session_ttl cfg)" (is "?l \<longleftrightarrow> ?r")
proof
  assume ?l
  then show ?r
    apply (cases r)
    apply (auto simp: handle_login_def verify_siwe_Inr bind_auth_Inr split: option.splits if_splits sum.splits prod.splits bool.splits)
    apply (metis fst_conv)
    done
next
  assume ?r
  then obtain secret a n where h: "ad_session_secret cfg = Some secret" "a \<in> ad_wallets cfg"
    "signed_in L (lr_message body) (lr_signature body) (ad_domain cfg) (now_unix now) a n"
    "fst (consume_nonce n instant store)"
    "issue_session_token L secret a (ad_session_ttl cfg) (now_unix now) = Inr (lp_token r)"
    "lp_expires_in r = ad_session_ttl cfg" by blast
  have "verify_siwe L (lr_message body) (lr_signature body) (ad_domain cfg) (now_unix now)
      = Inr \<lparr>sv_address = a, sv_nonce = n\<rparr>" using h(3) by (simp add: verify_siwe_Inr)
  with h show ?l
    by (cases r; cases "consume_nonce n instant store") (auto simp: handle_login_def bind_auth_def)
qed

lemma unauth_Inl [simp]: "unauth v = Inl e \<longleftrightarrow> v = None \<and> e = Unauthorized"
  by (auto simp: unauth_def split: option.splits)

lemma verify_siwe_Inl: "verify_siwe L message signature_hex domain now = Inl e \<Longrightarrow> e = Unauthorized"
  by (auto simp: verify_siwe_def bind_auth_def split: sum.splits list.splits if_splits option.splits)

lemma login_store:
  assumes "ad_session_secret cfg = Some secret" and "a \<in> ad_wallets cfg"
    and "signed_in L (lr_message body) (lr_signature body) (ad_domain cfg) (now_unix now) a n"
  shows "snd (handle_login L cfg instant now body store) = AList.delete n store"
proof -
  have "verify_siwe L (lr_message body) (lr_signature body) (ad_domain cfg) (now_unix now)
      = Inr \<lparr>sv_address = a, sv_nonce = n\<rparr>" using assms(3) by (simp add: verify_siwe_Inr)
  then show ?thesis
    using assms(1,2) consume_deletes [of n instant store]
    by (auto simp: handle_login_def split: prod.splits bool.splits)
qed

lemma login_without_nonce:
  assumes "siwe_field (lr_message body) ''Nonce:'' = Some n" and "\<not> fst (consume_nonce n instant store)"
  shows "fst (handle_login L cfg instant now body store) = Inl Unauthorized"
proof -
  have "sv_nonce v = n" if "verify_siwe L (lr_message body) (lr_signature body) (ad_domain cfg) (now_unix now) = Inr v" for v
    using that assms(1) by (simp add: verify_siwe_Inr signed_in_def)
  moreover obtain s where "consume_nonce n instant store = (False, s)" using assms(2)
    by (cases "consume_nonce n instant store") auto
  ultimately show ?thesis
    by (auto simp: handle_login_def dest: verify_siwe_Inl split: option.splits sum.splits)
qed

text \<open>
  C15: A login that succeeds was a sign-in by one of the configured operators: the secret is configured,
  the signature recovers over the exact message to a listed wallet which the message declares, the
  message names this deployment's domain, has not expired and carries a nonce that was live; the nonce
  is removed from the store, so that the same request sent again, at any time, is refused.
\<close>

theorem login_is_signed_and_not_replayable:
  assumes "handle_login L cfg instant now body store = (Inr r, store')"
  shows "\<exists>secret a n. ad_session_secret cfg = Some secret \<and> a \<in> ad_wallets cfg
       \<and> signed_in L (lr_message body) (lr_signature body) (ad_domain cfg) (now_unix now) a n
       \<and> (\<exists>issued. map_of store n = Some issued \<and> duration_since instant issued < NONCE_TTL)
       \<and> store' = AList.delete n store
       \<and> (\<forall>later later_utc. fst (handle_login L cfg later later_utc body store') = Inl Unauthorized)"
proof -
  obtain secret a n where h: "ad_session_secret cfg = Some secret" "a \<in> ad_wallets cfg"
    "signed_in L (lr_message body) (lr_signature body) (ad_domain cfg) (now_unix now) a n"
    "fst (consume_nonce n instant store)"
    using assms handle_login_Inr [of L cfg instant now body store r] by auto
  have s: "store' = AList.delete n store"
    using assms login_store [OF h(1-3), of instant store] by simp
  have "siwe_field (lr_message body) ''Nonce:'' = Some n" using h(3) by (simp add: signed_in_def)
  then have "fst (handle_login L cfg later later_utc body store') = Inl Unauthorized" for later later_utc
    using login_without_nonce consume_gone s by blast
  moreover have "\<exists>issued. map_of store n = Some issued \<and> duration_since instant issued < NONCE_TTL"
    using h(4) by (auto simp: consume_nonce_def split: option.splits)
  ultimately show ?thesis using h(1-3) s by blast
qed

text \<open>What the codecs promise: each text form of an address, of bytes or of claims reads back.\<close>

definition codec_laws :: "admin_libs \<Rightarrow> bool" where
  "codec_laws L \<longleftrightarrow> (\<forall>a. al_parse_address L (al_addr_debug L a) = Some a)
     \<and> (\<forall>b. al_hex_decode L (al_hex_encode L b) = Some b \<and> CHR ''.'' \<notin> set (al_hex_encode L b))
     \<and> (\<forall>c j. al_claims_json L c = Some j \<longrightarrow> al_claims_parse L j = Some c)"

lemma token_roundtrip:
  assumes "codec_laws L" and "issue_session_token L secret a ttl issued = Inr token"
  shows "verify_session_token L secret token now =
           (if now < saturating_add issued ttl then Some a else None)"
proof -
  define claims where "claims = \<lparr>cl_addr = al_addr_debug L a, cl_exp = saturating_add issued ttl\<rparr>"
  obtain payload sig where p: "al_claims_json L claims = Some payload" "al_hmac L secret payload = Some sig"
    "token = al_hex_encode L payload @ CHR ''.'' # al_hex_encode L sig"
    using assms(2) unfolding issue_session_token_def claims_def [symmetric] Let_def
    by (auto split: option.splits)
  have "al_claims_parse L payload = Some claims" using assms(1) p(1) by (simp add: codec_laws_def)
  moreover have "split_once (CHR ''.'') token = Some (al_hex_encode L payload, al_hex_encode L sig)"
    unfolding p(3) using assms(1) by (intro split_once_append) (simp add: codec_laws_def)
  ultimately show ?thesis
    using assms(1) p(2) by (auto simp: verify_session_token_def codec_laws_def claims_def)
qed

text \<open>
  The token of a login opens the guard for exactly as long as it should: at any later moment the
  guard runs the request it protects if the token's lifetime, counted in seconds from the login and
  saturating at the largest 64-bit value, has not passed and the wallet that logged in is on the
  current list, and answers 401 otherwise.
\<close>

theorem login_token_opens_guard:
  assumes "codec_laws L" and "handle_login L cfg instant now body store = (Inr r, store')"
  shows "\<exists>a \<in> ad_wallets cfg.
           \<forall>wallets later. admin_guard L (cfg\<lparr>ad_wallets := wallets\<rparr>) later (Some (''Bearer '' @ lp_token r)) next_run =
             (if a \<in> wallets \<and> now_unix later < saturating_add (now_unix now) (ad_session_ttl cfg)
              then next_run else Inl Unauthorized)"
proof -
  obtain secret a where h: "ad_session_secret cfg = Some secret" "a \<in> ad_wallets cfg"
    "issue_session_token L secret a (ad_session_ttl cfg) (now_unix now) = Inr (lp_token r)"
    using assms(2) handle_login_Inr [of L cfg instant now body store r] by auto
  have "admin_guard L (cfg\<lparr>ad_wallets := wallets\<rparr>) later (Some (''Bearer '' @ lp_token r)) next_run =
      (if a \<in> wallets \<and> now_unix later < saturating_add (now_unix now) (ad_session_ttl cfg)
       then next_run else Inl Unauthorized)" for wallets later
    unfolding admin_guard_def bind.bind_lunit strip_prefix_append
    using h(1) by (auto simp: token_roundtrip [OF assms(1) h(3)])
  with h(2) show ?thesis by blast
qed

section \<open>An instance\<close>

definition hex_value :: "char \<Rightarrow> nat option" where
  "hex_value c = find (\<lambda>n. hex_digit n = c) [0..<16]"

fun hex_decode :: "string \<Rightarrow> bytes option" where
  "hex_decode [] = Some []"
| "hex_decode [c] = None"
| "hex_decode (c # d # cs) =
     (case (hex_value c, hex_value d, hex_decode cs) of
        (Some m, Some n, Some bs) \<Rightarrow> Some (of_nat (16 * m + n) # bs)
      | _ \<Rightarrow> None)"

lemma hex_value_digit: "n < 16 \<Longrightarrow> hex_value (hex_digit n) = Some n"
proof -
  assume "n < 16"
  then have "n \<in> set [0..<16]" by simp
  moreover have "\<forall>n \<in> set [0..<16]. hex_value (hex_digit n) = Some n" by code_simp
  ultimately show ?thesis by blast
qed

lemma hex_decode_encode: "hex_decode (hex_encode bs) = Some bs"
proof (induction bs)
  case (Cons b bs)
  have "unat b < 256" using unsigned_less [of b, where ?'a = nat] by simp
  then have "unat b div 16 < 16" "unat b mod 16 < 16" by simp_all
  with Cons show ?case by (simp add: hex_encode_def hex_value_digit)
qed (simp add: hex_encode_def)

lemma dot_not_hex: "CHR ''.'' \<notin> set (hex_encode bs)"
proof -
  have d: "hex_digit n \<noteq> CHR ''.''" if "n < 16" for n
  proof -
    have "n \<in> set [0..<16]" using that by simp
    moreover have "\<forall>n \<in> set [0..<16]. hex_digit n \<noteq> CHR ''.''" by code_simp
    ultimately show ?thesis by blast
  qed
  have "hex_digit (unat b div 16) \<noteq> CHR ''.''" "hex_digit (unat b mod 16) \<noteq> CHR ''.''" for b :: "8 word"
    using unsigned_less [of b, where ?'a = nat] by (auto intro!: d)
  then show ?thesis by (force simp: hex_encode_def)
qed

definition demo_claims :: session_claims where
  "demo_claims = \<lparr>cl_addr = ''xxxxxxx'', cl_exp = 3601\<rparr>"

definition demo_admin_libs :: admin_libs where
  "demo_admin_libs = \<lparr>al_parse_address = (\<lambda>s. Some (of_nat (length s))), al_addr_debug = (\<lambda>a. replicate (unat a) (CHR ''x'')),
     al_hex_encode = hex_encode, al_hex_decode = hex_decode,
     al_claims_json = (\<lambda>c. if c = demo_claims then Some [1] else None),
     al_claims_parse = (\<lambda>b. if b = [1] then Some demo_claims else None),
     al_hmac = (\<lambda>secret payload. Some (secret @ payload)),
     al_parse_signature = (\<lambda>b. if b = [0xab] then Some (1, 2, False) else None),
     al_recover = (\<lambda>sig m. Some 7), al_parse_rfc3339 = (\<lambda>s. Some 100), al_to_rfc3339 = (\<lambda>t. [])\<rparr>"

definition demo_admin :: admin_config where
  "demo_admin = \<lparr>ad_wallets = {7}, ad_session_secret = Some [5], ad_domain = ''d'', ad_session_ttl = 3600\<rparr>"

definition demo_login :: login_request where
  "demo_login = \<lparr>lr_message = ''d wants you to sign in with your Ethereum account:'' @ CHR 0x0A # ''xxxxxxx'' @ CHR 0x0A # ''Nonce: n''
     @ CHR 0x0A # ''Expiration Time: later'', lr_signature = ''0xab''\<rparr>"

definition demo_token :: string where
  "demo_token = ''01.0501''"

lemma demo_now: "now_unix nanos_per_sec = 1"
  by code_simp

lemma demo_lines: "str_lines (lr_message demo_login) = [''d wants you to sign in with your Ethereum account:'', ''xxxxxxx'', ''Nonce: n'', ''Expiration Time: later'']"
  by code_simp

lemma demo_fields: "siwe_field (lr_message demo_login) ''Nonce:'' = Some ''n''" "siwe_field (lr_message demo_login) ''Expiration Time:'' = Some ''later''"
  by code_simp+

lemma demo_verified: "verify_siwe demo_admin_libs (lr_message demo_login) (lr_signature demo_login) ''d'' 1 = Inr \<lparr>sv_address = 7, sv_nonce = ''n''\<rparr>"
  by code_simp

lemma demo_issued: "issue_session_token demo_admin_libs [5] 7 3600 1 = Inr demo_token"
proof -
  have "saturating_add 1 3600 = (3601 :: u64)" by (simp add: saturating_add_def)
  moreover have "replicate (unat (7 :: address)) (CHR ''x'') = ''xxxxxxx''" "hex_encode [1] = ''01''" "hex_encode [5, 1] = ''0501''"
    by code_simp+
  ultimately show ?thesis
    by (simp add: issue_session_token_def demo_admin_libs_def demo_claims_def demo_token_def)
qed

lemma demo_login_run:
  "handle_login demo_admin_libs demo_admin 3 nanos_per_sec demo_login [(''n'', 1)] =
     (Inr \<lparr>lp_token = demo_token, lp_expires_in = 3600\<rparr>, [])"
  by (simp add: handle_login_def demo_admin_def demo_now demo_verified demo_issued bind_auth_def consume_nonce_def duration_since_def NONCE_TTL_def)

lemma demo_codec_laws: "codec_laws demo_admin_libs"
  by (simp add: codec_laws_def demo_admin_libs_def hex_decode_encode dot_not_hex)

theorem login_is_signed_and_not_replayable_witness:
  "fst (handle_login demo_admin_libs demo_admin 9 (2 * nanos_per_sec) demo_login []) = Inl Unauthorized"
  using login_is_signed_and_not_replayable [OF demo_login_run] by blast

theorem login_token_opens_guard_witness:
  "\<exists>a \<in> {7}. admin_guard demo_admin_libs (demo_admin\<lparr>ad_wallets := {7, 8}\<rparr>) (2 * nanos_per_sec) (Some (''Bearer '' @ demo_token)) (Inr ())
     = (if a \<in> {7, 8} \<and> now_unix (2 * nanos_per_sec) < saturating_add (now_unix nanos_per_sec) 3600 then Inr () else Inl Unauthorized)"
  using login_token_opens_guard [OF demo_codec_laws demo_login_run, of "Inr ()"] by (simp add: demo_admin_def)

end
