(* ===== verification/Service_Queries.thy ===== *)
theory Service_Queries
  imports Service_Frame Admin_Auth "HOL-Library.List_Lexorder" "HOL-Library.Char_ord"
begin

text \<open>
  The reading half of \<open>crates/verification-service/src/lib.rs\<close> and the overview of \<open>admin.rs\<close>: payouts,
  earnings, live sessions, staking, alerts, the company's share, the reserves, the parameters of the
  commodities and the estimate before a session. The caches of the treasury readers are state and are
  threaded through; \<open>clock\<close> gives the successive readings of the monotonic clock. The scale at which
  the database rounds a quotient is a parameter of the queries that divide.
\<close>

section \<open>Constants\<close>

definition DEFAULT_PAYOUT_LIMIT :: int where "DEFAULT_PAYOUT_LIMIT = 50"

definition MAX_PAYOUT_LIMIT :: int where "MAX_PAYOUT_LIMIT = 200"

definition ALERTS_LIMIT :: int where "ALERTS_LIMIT = 50"

definition ESTIMATE_DEFAULT_DURATION_SECS :: u64 where "ESTIMATE_DEFAULT_DURATION_SECS = 3600"

definition REF_HASHRATE_DESKTOP :: u64 where "REF_HASHRATE_DESKTOP = 2500"

definition REF_HASHRATE_CLI :: u64 where "REF_HASHRATE_CLI = 3000"

definition REF_HASHRATE_BROWSER :: u64 where "REF_HASHRATE_BROWSER = 200"

section \<open>A wallet's history\<close>

definition wallet_db_key :: "('r, 'w, 'ch, 'sk, 'p) app_state \<Rightarrow> address \<Rightarrow> string" where
  "wallet_db_key st wallet = pl_addr_debug (st_pg st) wallet"

definition clamp :: "int \<Rightarrow> int \<Rightarrow> int \<Rightarrow> int" where
  "clamp lo hi v = (if v < lo then lo else if hi < v then hi else v)"

definition wallet_payouts ::
    "('r, 'w, 'ch, 'sk, 'p) app_state \<Rightarrow> request \<Rightarrow> string \<Rightarrow> int option
       \<Rightarrow> (('r, 'w, 'ch) world, api_error, payout_row list) act" where
  "wallet_payouts st rq wallet_raw limit_param =
     tryE (parse_wallet st wallet_raw) (\<lambda>address.
     let limit = clamp 1 MAX_PAYOUT_LIMIT (case limit_param of Some l \<Rightarrow> l | None \<Rightarrow> DEFAULT_PAYOUT_LIMIT) in
     apiE (onDb (get_payouts_for_wallet (rq_fault rq 0) (wallet_db_key st address) limit)))"

definition wallet_earnings ::
    "('r, 'w, 'ch, 'sk, 'p) app_state \<Rightarrow> request \<Rightarrow> string
       \<Rightarrow> (('r, 'w, 'ch) world, api_error, earnings_row list) act" where
  "wallet_earnings st rq wallet_raw =
     tryE (parse_wallet st wallet_raw) (\<lambda>address.
     apiE (onDb (get_earnings_by_commodity (rq_fault rq 0) (wallet_db_key st address))))"

definition wallet_earnings_24h ::
    "('r, 'w, 'ch, 'sk, 'p) app_state \<Rightarrow> request \<Rightarrow> string
       \<Rightarrow> (('r, 'w, 'ch) world, api_error, earnings_24h) act" where
  "wallet_earnings_24h st rq wallet_raw =
     tryE (parse_wallet st wallet_raw) (\<lambda>address.
     apiE (onDb (get_earnings_24h (rq_fault rq 0) (rq_clock rq 0) (wallet_db_key st address))))"

definition wallet_staking ::
    "('r, 'w, 'ch, 'sk, 'p) app_state \<Rightarrow> string \<Rightarrow> (('r, 'w, 'ch) world, api_error, staking_summary) act" where
  "wallet_staking st wallet_raw = tryE (parse_wallet st wallet_raw) (\<lambda>address. staking_summary st address)"

section \<open>Live sessions\<close>

definition estimate_row ::
    "u32 \<Rightarrow> payout_config \<Rightarrow> datetime \<Rightarrow> (string \<Rightarrow> twap_calculator option) \<Rightarrow> session_summary
       \<Rightarrow> session_summary" where
  "estimate_row boost_bps config now twap_map row =
     (let elapsed_secs = clamp_u64 (num_seconds (now - ss_started_at row)) in
      if elapsed_secs = 0 \<or> ss_avg_hashrate row = 0 then row
      else (case Option.bind (twap_map (ss_session_id row)) twap_calculate of
          None \<Rightarrow> row
        | Some twap_price \<Rightarrow>
            (let commodity = parse_commodity (ss_commodity row);
                 base_gross = calculate_gross_prm (ss_avg_hashrate row) elapsed_secs config commodity;
                 boosted_gross = apply_staking_boost base_gross boost_bps;
                 payout = calculate_payout_from_gross boosted_gross twap_price commodity config
             in case to_cents (pr_net_usdc_scaled payout) of
                  Some cents \<Rightarrow> row\<lparr>ss_est_net_usd_cents := cents\<rparr>
                | None \<Rightarrow> row)))"

definition wallet_sessions ::
    "('r, 'w, 'ch, 'sk, 'p) app_state \<Rightarrow> request \<Rightarrow> string
       \<Rightarrow> (('r, 'w, 'ch) world, api_error, session_summary list option) act" where
  "wallet_sessions st rq wallet_raw =
     tryE (parse_wallet st wallet_raw) (\<lambda>address.
     tryE (apiE (onRedis (list_sessions_for_wallet (rq_fuel rq) (st_redis st) (st_libs st)
        (sl_addr (st_libs st) address)))) (\<lambda>rs. case rs of
         None \<Rightarrow> okE None
       | Some rows \<Rightarrow>
           if rows = [] then okE (Some [])
           else tryE (staking_summary st address) (\<lambda>summary.
                tryE (payout_config_with_live_edge rq) (\<lambda>config.
                (\<lambda>wd. (Inr (Some (map (estimate_row (sm_effective_boost_bps summary) config (rq_clock rq 0) (wd_twap wd)) rows)),
                       wd))))))"

section \<open>Shares and reserves\<close>

record company_mining_share_response =
  cm_company_prm_wei :: string
  cm_total_prm_wei :: string
  cm_share_bps :: u32
  cm_company_wallet :: "string option"

definition try_u32 :: "int \<Rightarrow> u32 option" where
  "try_u32 i = (if 0 \<le> i \<and> i < 2 ^ 32 then Some (word_of_int i) else None)"

definition handle_entity_share ::
    "nat \<Rightarrow> ('r, 'w, 'ch, 'sk, 'p) app_state \<Rightarrow> request
       \<Rightarrow> (('r, 'w, 'ch) world, api_error, company_mining_share_response) act" where
  "handle_entity_share scale st rq =
     (let company_key = map_option (wallet_db_key st) (st_company_wallet st) in
     tryE (apiE (onDb (company_mining_share scale (rq_fault rq 0) (case company_key of Some k \<Rightarrow> k | None \<Rightarrow> [])))) (\<lambda>share.
     okE \<lparr>cm_company_prm_wei = es_company_prm_wei share, cm_total_prm_wei = es_total_prm_wei share,
          cm_share_bps = (case try_u32 (es_share_bps share) of Some b \<Rightarrow> b | None \<Rightarrow> 0),
          cm_company_wallet = company_key\<rparr>))"

type_synonym 'w treasuries = "(chain \<times> 'w treasury_reader) list"

text \<open>Asking every treasury in order; the \<open>i\<close>-th question reads the clock before and after its call.\<close>

fun ask_treasuries ::
    "(nat \<Rightarrow> int) \<Rightarrow> nat \<Rightarrow> 'w treasuries \<Rightarrow> 'w
       \<Rightarrow> (chain \<times> (onchain_client_error + reserve_balances)) list \<times> 'w treasuries \<times> 'w" where
  "ask_treasuries clock i [] w = ([], [], w)"
| "ask_treasuries clock i ((c, reader) # rest) w =
     (case current_reserve_balances (clock (2 * i)) (clock (2 * i + 1)) reader w of (r, reader', w') \<Rightarrow>
       (case ask_treasuries clock (Suc i) rest w' of (rs, rest', w'') \<Rightarrow> ((c, r) # rs, (c, reader') # rest', w'')))"

record chain_reserve =
  cr_reserve_chain :: chain
  cr_usdc :: string
  cr_usdt :: string
  cr_total_usd :: string
  cr_total_redeemed_usd :: string
  cr_available :: bool

record reserve_response =
  rr_chains :: "chain_reserve list"
  rr_total_reserve_usd :: string
  rr_total_redeemed_usd :: string

definition show_u128 :: "u128 \<Rightarrow> string" where
  "show_u128 v = show_nat (unat v)"

fun reserve_step ::
    "chain_reserve list \<times> u128 \<times> u128 \<Rightarrow> chain \<times> (onchain_client_error + reserve_balances)
       \<Rightarrow> chain_reserve list \<times> u128 \<times> u128" where
  "reserve_step (entries, total_reserve, total_redeemed) (c, Inr b) =
     (entries @ [\<lparr>cr_reserve_chain = c, cr_usdc = show_u128 (rb_usdc b), cr_usdt = show_u128 (rb_usdt b),
         cr_total_usd = show_u128 (rb_total_reserve_usd b),
         cr_total_redeemed_usd = show_u128 (rb_total_redeemed_usd b), cr_available = True\<rparr>],
      saturating_add total_reserve (rb_total_reserve_usd b),
      saturating_add total_redeemed (rb_total_redeemed_usd b))"
| "reserve_step (entries, total_reserve, total_redeemed) (c, Inl e) =
     (entries @ [\<lparr>cr_reserve_chain = c, cr_usdc = ''0'', cr_usdt = ''0'', cr_total_usd = ''0'',
         cr_total_redeemed_usd = ''0'', cr_available = False\<rparr>],
      total_reserve, total_redeemed)"

definition reserve :: "(nat \<Rightarrow> int) \<Rightarrow> 'w treasuries \<Rightarrow> 'w \<Rightarrow> reserve_response \<times> 'w treasuries \<times> 'w" where
  "reserve clock readers w =
     (case ask_treasuries clock 0 readers w of (answers, readers', w') \<Rightarrow>
       (case foldl reserve_step ([], 0, 0) answers of (entries, total_reserve, total_redeemed) \<Rightarrow>
          (\<lparr>rr_chains = entries, rr_total_reserve_usd = show_u128 total_reserve,
            rr_total_redeemed_usd = show_u128 total_redeemed\<rparr>, readers', w')))"

section \<open>Alerts\<close>

record wallet_alert =
  wa_session_id :: string
  wa_kind :: string
  wa_message :: string
  wa_timestamp :: datetime

text \<open>The dash of the messages is U+2014 in UTF-8.\<close>

definition em_dash :: string where "em_dash = [CHR 0xE2, CHR 0x80, CHR 0x94]"

definition payout_alert :: "string \<Rightarrow> string \<Rightarrow> string \<times> string" where
  "payout_alert status commodity =
     (if status = ''Confirmed''
      then (''payout_confirmed'', ''Payout confirmed '' @ em_dash @ '' PRM minted for your '' @ commodity @ '' session.'')
      else if status = ''Rejected''
      then (''payout_rejected'', ''A payout for your '' @ commodity @ '' session was not approved.'')
      else (''payout_processing'', ''Payout for your '' @ commodity @ '' session is being processed.''))"

definition flag_alert :: "review_flag \<Rightarrow> wallet_alert" where
  "flag_alert fl = \<lparr>wa_session_id = rf_session_id fl, wa_kind = ''under_review'',
     wa_message = ''A mining session is under review '' @ em_dash @ '' any payout may be held pending verification.'',
     wa_timestamp = rf_created_at fl\<rparr>"

definition payout_to_alert :: "payout_row \<Rightarrow> wallet_alert" where
  "payout_to_alert p = (case payout_alert (po_status p) (po_commodity p) of (kind, message) \<Rightarrow>
     \<lparr>wa_session_id = po_session_id p, wa_kind = kind, wa_message = message, wa_timestamp = po_created_at p\<rparr>)"

definition wallet_alerts ::
    "('r, 'w, 'ch, 'sk, 'p) app_state \<Rightarrow> request \<Rightarrow> string
       \<Rightarrow> (('r, 'w, 'ch) world, api_error, wallet_alert list) act" where
  "wallet_alerts st rq wallet_raw =
     tryE (parse_wallet st wallet_raw) (\<lambda>address.
     let key = wallet_db_key st address in
     tryE (apiE (onDb (get_review_flags_for_wallet (rq_fault rq 0) key ALERTS_LIMIT))) (\<lambda>flags.
     tryE (apiE (onDb (get_payouts_for_wallet (rq_fault rq 1) key ALERTS_LIMIT))) (\<lambda>payouts.
     okE (sort_key (\<lambda>a. - wa_timestamp a) (map flag_alert flags @ map payout_to_alert payouts)))))"

section \<open>Commodities and sites\<close>

record commodity_params =
  co_commodity :: string
  co_difficulty :: string
  co_multiplier :: string

definition scaled10 :: "u128 \<Rightarrow> string" where
  "scaled10 v = show_u128 (v div 10) @ ''.'' @ show_u128 (v mod 10)"

definition commodities :: "commodity_params list" where
  "commodities = map (\<lambda>c. \<lparr>co_commodity = commodity_debug c, co_difficulty = scaled10 (commodity_difficulty c),
     co_multiplier = scaled10 (commodity_multiplier c)\<rparr>) [Gold, Platinum, Silver, CrudeOil]"

text \<open>\<open>entries\<close> are the entries of the site table in the order its iterator gives them.\<close>

definition sites :: "(string \<times> node_site) list \<Rightarrow> node_site list" where
  "sites entries = sort_key site_code (map snd entries)"

definition health_check :: "nat \<times> (string \<times> string) list" where
  "health_check = (200, [(''status'', ''ok''), (''service'', ''primora-verification'')])"

section \<open>Estimates\<close>

record estimate_query =
  eq_commodity :: string
  eq_duration_secs :: "u64 option"
  eq_wallet :: "string option"
  eq_client_type :: "string option"

record estimate_response =
  er_commodity :: string
  er_hashrate_used :: u64
  er_hashrate_basis :: string
  er_duration_secs :: u64
  er_spot_price :: "string option"
  er_house_edge_bps :: u128
  er_effective_boost_bps :: u32
  er_gross_prm_wei :: string
  er_net_usd_cents :: "int option"
  er_is_estimate :: bool

definition reference_hashrate :: "string \<Rightarrow> u64" where
  "reference_hashrate client_type =
     (if client_type = ''cli'' then REF_HASHRATE_CLI
      else if client_type = ''browser'' then REF_HASHRATE_BROWSER
      else REF_HASHRATE_DESKTOP)"

definition estimate_hashrate ::
    "('r, 'w, 'ch, 'sk, 'p) app_state \<Rightarrow> request \<Rightarrow> address option \<Rightarrow> string
       \<Rightarrow> (('r, 'w, 'ch) world, api_error, (u64 \<times> string) option) act" where
  "estimate_hashrate st rq wallet client_type =
     (case wallet of
        None \<Rightarrow> okE (Some (reference_hashrate client_type, ''reference''))
      | Some addr \<Rightarrow>
          attempt (onRedis (list_sessions_for_wallet (rq_fuel rq) (st_redis st) (st_libs st) (sl_addr (st_libs st) addr)))
            (\<lambda>r. case r of
               Inl e \<Rightarrow> okE (Some (reference_hashrate client_type, ''reference''))
             | Inr None \<Rightarrow> okE None
             | Inr (Some rows) \<Rightarrow>
                 (let best = foldl max 0 (map ss_avg_hashrate rows) in
                  if 0 < best then okE (Some (best, ''personal''))
                  else okE (Some (reference_hashrate client_type, ''reference'')))))"

definition estimate ::
    "('r, 'w, 'ch, 'sk, 'p) app_state \<Rightarrow> request \<Rightarrow> estimate_query
       \<Rightarrow> (('r, 'w, 'ch) world, api_error, estimate_response option) act" where
  "estimate st rq params =
     (let commodity = parse_commodity (eq_commodity params);
          duration_secs = (case eq_duration_secs params of Some d \<Rightarrow> d | None \<Rightarrow> ESTIMATE_DEFAULT_DURATION_SECS);
          client_type = (case eq_client_type params of Some c \<Rightarrow> c | None \<Rightarrow> ''desktop'') in
     tryE (case eq_wallet params of
             Some raw \<Rightarrow> tryE (parse_wallet st raw) (\<lambda>a. okE (Some a))
           | None \<Rightarrow> okE None) (\<lambda>wallet.
     tryE (estimate_hashrate st rq wallet client_type) (\<lambda>h. case h of
         None \<Rightarrow> okE None
       | Some (hashrate, basis) \<Rightarrow>
     tryE (payout_config_with_live_edge rq) (\<lambda>config.
     tryE (case wallet of
             Some addr \<Rightarrow> tryE (staking_summary st addr) (\<lambda>s. okE (sm_effective_boost_bps s))
           | None \<Rightarrow> okE 0) (\<lambda>boost_bps.
     let base_gross = calculate_gross_prm hashrate duration_secs config commodity;
         boosted_gross = apply_staking_boost base_gross boost_bps;
         gross_prm_wei = gross_calib_to_wei boosted_gross in
     attempt (onExt (read_price (st_oracle_reader st) commodity)) (\<lambda>r.
     let (spot_price, net_usd_cents) = (case r of
           Inr price \<Rightarrow>
             (Some (show_u128 price),
              to_cents (pr_net_usdc_scaled (calculate_payout_from_gross boosted_gross price commodity config)))
         | Inl e \<Rightarrow> (None, None)) in
     okE (Some \<lparr>er_commodity = commodity_debug commodity, er_hashrate_used = hashrate, er_hashrate_basis = basis,
          er_duration_secs = duration_secs, er_spot_price = spot_price, er_house_edge_bps = house_edge_bps config,
          er_effective_boost_bps = boost_bps, er_gross_prm_wei = show_u128 gross_prm_wei,
          er_net_usd_cents = net_usd_cents, er_is_estimate = True\<rparr>)))))))"

section \<open>The operator's overview\<close>

record admin_overview =
  ao_active_sessions :: int
  ao_reserve_total_usd :: string
  ao_total_redeemed_usd :: string
  ao_company_mining_share_bps :: u32
  ao_flagged_events :: int
  ao_daily_mint_ceiling_prm :: u64

fun overview_step ::
    "u128 \<times> u128 \<Rightarrow> chain \<times> (onchain_client_error + reserve_balances) \<Rightarrow> u128 \<times> u128" where
  "overview_step (reserve_total, redeemed_total) (c, Inr b) =
     (saturating_add reserve_total (rb_total_reserve_usd b), saturating_add redeemed_total (rb_total_redeemed_usd b))"
| "overview_step (reserve_total, redeemed_total) (c, Inl e) = (reserve_total, redeemed_total)"

definition internalE :: "('s, 'e, 'a) act \<Rightarrow> ('s, auth_error, 'a) act" where
  "internalE m = map_errE (\<lambda>_. AuthInternal) m"

definition overview ::
    "nat \<Rightarrow> ('r, 'w, 'ch, 'sk, 'p) app_state \<Rightarrow> request \<Rightarrow> (nat \<Rightarrow> int)
       \<Rightarrow> ('r, 'w, 'ch) world \<times> 'w treasuries
       \<Rightarrow> (auth_error + admin_overview) \<times> ('r, 'w, 'ch) world \<times> 'w treasuries" where
  "overview scale st rq clock = (\<lambda>(wd, readers).
     let active_sessions = wd_active wd in
     case ask_treasuries clock 0 readers (wd_ext wd) of (answers, readers', w') \<Rightarrow>
     case foldl overview_step (0, 0) answers of (reserve_total, redeemed_total) \<Rightarrow>
     let company_key = map_option (wallet_db_key st) (st_company_wallet st);
         (r, wd') =
           tryE (internalE (onDb (company_mining_share scale (rq_fault rq 0) (case company_key of Some k \<Rightarrow> k | None \<Rightarrow> []))))
             (\<lambda>share.
           tryE (internalE (onDb (count_anomaly_events (rq_fault rq 1)))) (\<lambda>flagged_events.
           okE \<lparr>ao_active_sessions = active_sessions, ao_reserve_total_usd = show_u128 reserve_total,
                ao_total_redeemed_usd = show_u128 redeemed_total,
                ao_company_mining_share_bps = (case try_u32 (es_share_bps share) of Some b \<Rightarrow> b | None \<Rightarrow> 0),
                ao_flagged_events = flagged_events,
                ao_daily_mint_ceiling_prm = daily_ceiling (st_mint_ceiling st) (st_active_users st) (st_avg_daily st)\<rparr>))
           (wd\<lparr>wd_ext := w'\<rparr>)
     in (r, wd', readers'))"

end
