(* ===== verification/Service_End.thy ===== *)
theory Service_End
  imports Service_Demo
begin

text \<open>
  What \<open>end_session\<close> guarantees: when a mint proposal comes into being, that it does when it should,
  and what becomes of a session whose end fails.
\<close>

section \<open>When the database changes\<close>

lemma insert_mint_changed:
  assumes "snd (insert_mint_proposal L fault i now p d) \<noteq> d"
  shows "sid_str (mp_session_id p) \<notin> mr_session_id ` set (db_proposals d)
    \<and> (\<exists>row. snd (insert_mint_proposal L fault i now p d) = d\<lparr>db_proposals := db_proposals d @ [row]\<rparr>
         \<and> mr_session_id row = sid_str (mp_session_id p) \<and> mr_wallet row = pl_addr_debug L (mp_wallet p)
         \<and> mr_gross_prm row = unat (mp_gross_prm p) \<and> mr_net_usd_cents row = mp_net_usd_cents p
         \<and> mr_chain row = chain_as_str (mp_chain p) \<and> mr_status row = status_debug (mp_status p))"
  using assms
  by (auto simp: insert_mint_proposal_def pg_defs split: sum.splits option.splits if_splits)

lemma sign_and_store_changed:
  assumes "wd_db (snd (sign_and_store st rq sid ctx p wd)) \<noteq> wd_db wd"
  shows "\<exists>sig. wd_db (snd (sign_and_store st rq sid ctx p wd))
     = snd (insert_mint_proposal (st_pg st) (rq_fault rq 2) (rq_uuid rq) (rq_clock rq 10)
         (p\<lparr>mp_backend_sig := sig\<rparr>) (wd_db wd))"
  using assms
  by (auto simp: sign_and_store_def errE_def tryE_def logE_def attempt_def okE_def onDb_def apiE_def
      map_errE_def onRedis_def split: sum.splits prod.splits) (metis snd_conv)+

section \<open>What is minted\<close>

text \<open>The configured ceiling in wei: the scaling by \<open>10^18\<close> never reaches the end of \<open>u128\<close>.\<close>

lemma unat_daily_ceiling_wei:
  "unat (daily_ceiling_wei st)
     = unat (daily_ceiling (st_mint_ceiling st) (st_active_users st) (st_avg_daily st)) * 10 ^ 18"
proof -
  let ?c = "daily_ceiling (st_mint_ceiling st) (st_active_users st) (st_avg_daily st)"
  have "unat (ucast ?c :: u128) = unat ?c" by (simp add: unat_ucast_up)
  moreover have "unat ?c * 10 ^ 18 < 2 ^ 128"
    using unsigned_less [of ?c, where ?'a = nat] by simp
  ultimately show ?thesis
    by (simp add: daily_ceiling_wei_def unat_saturating_mul PRM_WEI_def)
qed

text \<open>
  Passing the ceiling check means the sum, taken without wrap-around, is within the ceiling; a total
  too large for \<open>u128\<close> never passes.
\<close>

lemma ceiling_check_iff:
  "\<not> daily_ceiling_wei st < saturating_add (case parse_u128 (show_nat n) of Some v \<Rightarrow> v | None \<Rightarrow> - 1) a
     \<longleftrightarrow> n + unat a \<le> unat (daily_ceiling (st_mint_ceiling st) (st_active_users st) (st_avg_daily st)) * 10 ^ 18"
proof -
  let ?c = "daily_ceiling (st_mint_ceiling st) (st_active_users st) (st_avg_daily st)"
  have lim: "unat ?c * 10 ^ 18 < 2 ^ 128 - 1" using unsigned_less [of ?c, where ?'a = nat] by simp
  show ?thesis
  proof (cases "n < 2 ^ 128")
    case True
    then have "unat (of_nat n :: u128) = n" by (simp add: unsigned_of_nat take_bit_nat_eq_self)
    with True lim show ?thesis
      by (auto simp: parse_unsigned_show_nat word_less_nat_alt unat_daily_ceiling_wei unat_saturating_add min_def)
  next
    case False
    with lim show ?thesis
      by (auto simp: parse_unsigned_show_nat word_less_nat_alt unat_daily_ceiling_wei unat_saturating_add
          unat_max_word min_def)
  qed
qed

text \<open>The amount a session earns: the hashrate of its accepted work over the time its price was
  observed, raised by the staking boost.\<close>

definition earned_wei :: "u64 \<Rightarrow> twap_result \<Rightarrow> commodity \<Rightarrow> u32 \<Rightarrow> u128" where
  "earned_wei hashrate twap commodity boost =
     gross_calib_to_wei (apply_staking_boost (calculate_gross_prm hashrate
       (clamp_u64 (num_seconds (tr_session_end twap - tr_session_start twap))) default_config commodity) boost)"

text \<open>The settlement from the ceiling check on.\<close>

definition mint_if_within ::
    "('r, 'w, 'ch, 'sk, 'p) app_state \<Rightarrow> request \<Rightarrow> session_id \<Rightarrow> session_context \<Rightarrow> attestation_result
       \<Rightarrow> int option \<Rightarrow> u128 \<Rightarrow> postgres_store_error + string
       \<Rightarrow> (('r, 'w, 'ch) world, api_error, end_response) act" where
  "mint_if_within st rq sid ctx att cents amount daily =
     (case daily of
         Inl e \<Rightarrow> okE (200, ''mint_ceiling_unverified'')
       | Inr t \<Rightarrow>
           if daily_ceiling_wei st < saturating_add (case parse_u128 t of Some v \<Rightarrow> v | None \<Rightarrow> - 1) amount
           then okE (200, ''mint_ceiling_exceeded'')
           else sign_and_store st rq sid ctx (unsigned_proposal sid ctx amount cents att (rq_clock rq 9)))"

definition measured_hashrate ::
    "('r, 'w, 'ch, 'sk, 'p) app_state \<Rightarrow> session_id \<Rightarrow> session_context \<Rightarrow> 'r \<Rightarrow> u64" where
  "measured_hashrate st sid ctx r =
     (case fst (get_session_hashrate (st_redis st) sid (sc_client_type ctx) r) of Inr h \<Rightarrow> h | Inl e \<Rightarrow> 0)"

lemma unat_earned_wei:
  assumes "unat h \<le> 5000" and "unat boost \<le> 4000"
    and "unat (clamp_u64 (num_seconds (tr_session_end twap - tr_session_start twap))) \<le> 31536000"
  shows "unat (earned_wei h twap c boost) = boost_spec (gross_spec (unat h)
    (unat (clamp_u64 (num_seconds (tr_session_end twap - tr_session_start twap)))) 1000 c) (unat boost) * 10 ^ 13"
proof -
  let ?d = "clamp_u64 (num_seconds (tr_session_end twap - tr_session_start twap))"
  let ?g = "gross_spec (unat h) (unat ?d) 1000 c"
  have coeff: "unat (base_coefficient_scaled default_config) = 1000" by (simp add: default_config_def)
  have "unat h * unat ?d * 1000 \<le> 5000 * 31536000 * 1000"
    using assms by (intro mult_le_mono) simp_all
  then have g: "unat (calculate_gross_prm h ?d default_config c) = ?g"
    by (subst unat_gross_prm) (simp_all add: coeff)
  have bound: "?g \<le> 15768 * 10 ^ 9" using assms gross_spec_bound by blast
  then have "?g * (10000 + unat boost) \<le> 15768 * 10 ^ 9 * 14000"
    using assms(2) by (intro mult_le_mono) simp_all
  then have b: "unat (apply_staking_boost (calculate_gross_prm h ?d default_config c) boost) = boost_spec ?g (unat boost)"
    using unat_staking_boost [of "calculate_gross_prm h ?d default_config c" boost] g by simp
  have "boost_spec ?g (unat boost) * 10 ^ 13 < 2 ^ 128 - 1"
    using boost_spec_bounds [OF assms(2), of ?g] bound by simp
  then show ?thesis
    using b by (simp add: earned_wei_def gross_calib_to_wei_def unat_saturating_mul GROSS_CALIB_TO_WEI_def)
qed

lemma live_edge_gross:
  "payout_config_with_live_edge rq wd = (Inr config, wd') \<Longrightarrow>
     calculate_gross_prm h d config c = calculate_gross_prm h d default_config c"
  by (auto simp: payout_config_with_live_edge_def calculate_gross_prm_def
      split: option.splits prod.splits sum.splits)

lemma staking_summary_boost:
  "staking_summary st w wd = (Inr sm, wd') \<Longrightarrow> unat (sm_effective_boost_bps sm) \<le> 4000"
  by (auto simp: staking_summary_def build_summary_def combined_boost_bps_def Let_def MAX_BOOST_BPS_def
      unat_min_word split: prod.splits)

lemma total_minted_run:
  "total_minted_wei_24h fault now d = (Inr text, d') \<longleftrightarrow>
     fault = None \<and> text = show_nat (minted_24h now (db_proposals d)) \<and> d' = d"
  by (cases fault) (auto simp: total_minted_wei_24h_def minted_24h_def pg_defs)

definition settled_cents :: "payout_config \<Rightarrow> u64 \<Rightarrow> twap_result \<Rightarrow> commodity \<Rightarrow> u32 \<Rightarrow> int option" where
  "settled_cents config hashrate twap commodity boost =
     to_cents (pr_net_usdc_scaled (calculate_payout_from_gross (apply_staking_boost (calculate_gross_prm hashrate
       (clamp_u64 (num_seconds (tr_session_end twap - tr_session_start twap))) config commodity) boost)
       (tr_twap twap) commodity config))"

text \<open>The run of the settlement up to the ceiling check: the edge, the hashrate and the boost are read.\<close>

lemma live_edge_succeeds:
  obtains config wd1 where "payout_config_with_live_edge rq wd = (Inr config :: api_error + _, wd1)"
  by (cases "payout_config_with_live_edge rq wd :: (api_error + _) \<times> _")
     (auto simp: payout_config_with_live_edge_def split: option.splits prod.splits)

lemma staking_summary_succeeds:
  obtains sm wd1 where "staking_summary st wallet wd = (Inr sm :: api_error + _, wd1)"
  by (cases "staking_summary st wallet wd :: (api_error + _) \<times> _") (auto simp: staking_summary_def split: prod.splits)

lemma settle_session_exact:
  assumes 1: "payout_config_with_live_edge rq wd = (Inr config :: api_error + _, wd1)"
    and 2: "get_session_hashrate (st_redis st) sid (sc_client_type ctx) (wd_redis wd) = (r, red)"
    and 3: "staking_summary st (sc_wallet ctx) (wd1\<lparr>wd_redis := red\<rparr>) = (Inr sm :: api_error + _, wd3)"
  shows "wd_db wd3 = wd_db wd" "wd_redis wd3 = red"
    "settle_session st rq sid ctx twap att wd =
       mint_if_within st rq sid ctx att
         (settled_cents config (case r of Inr h \<Rightarrow> h | Inl e \<Rightarrow> 0) twap (sc_commodity ctx) (sm_effective_boost_bps sm))
         (earned_wei (case r of Inr h \<Rightarrow> h | Inl e \<Rightarrow> 0) twap (sc_commodity ctx) (sm_effective_boost_bps sm))
         (fst (total_minted_wei_24h (rq_fault rq 1) (rq_clock rq 8) (wd_db wd))) wd3"
proof -
  have same: "wd_redis wd1 = wd_redis wd" "wd_db wd1 = wd_db wd"
    by (rule keepsD [where f = wd_redis, OF keeps_live_edge(3) 1])
       (rule keepsD [where f = wd_db, OF keeps_live_edge(1) 1])
  show same3: "wd_db wd3 = wd_db wd" "wd_redis wd3 = red"
    using keepsD [where f = wd_db, OF keeps_staking_summary(1) 3]
      keepsD [where f = wd_redis, OF keeps_staking_summary(3) 3] same by simp_all
  have 4: "total_minted_wei_24h f t d = (fst (total_minted_wei_24h f t d), d)" for f t d
    by (cases f) (simp_all add: total_minted_wei_24h_def pg_defs)
  define daily where "daily = fst (total_minted_wei_24h (rq_fault rq 1) (rq_clock rq 8) (wd_db wd))"
  have 5: "total_minted_wei_24h (rq_fault rq 1) (rq_clock rq 8) (wd_db wd) = (daily, wd_db wd)"
    using 4 by (simp add: daily_def)
  have refl3: "wd3\<lparr>wd_db := wd_db wd\<rparr> = wd3" using same3(1) by (metis world.surjective world.update_convs(2))
  show "settle_session st rq sid ctx twap att wd =
       mint_if_within st rq sid ctx att
         (settled_cents config (case r of Inr h \<Rightarrow> h | Inl e \<Rightarrow> 0) twap (sc_commodity ctx) (sm_effective_boost_bps sm))
         (earned_wei (case r of Inr h \<Rightarrow> h | Inl e \<Rightarrow> 0) twap (sc_commodity ctx) (sm_effective_boost_bps sm))
         (fst (total_minted_wei_24h (rq_fault rq 1) (rq_clock rq 8) (wd_db wd))) wd3"
    using 2 5 unfolding daily_def [symmetric]
    by (simp add: settle_session_def mint_if_within_def tryE_def 1 3 Let_def attempt_def onRedis_def onDb_def
        same same3(1) refl3 live_edge_gross [OF 1] settled_cents_def earned_wei_def okE_def split: sum.splits)
qed

lemma settle_session_run:
  obtains boost wd1 cents where "unat boost \<le> 4000" "wd_db wd1 = wd_db wd"
    "wd_redis wd1 = snd (get_session_hashrate (st_redis st) sid (sc_client_type ctx) (wd_redis wd))"
    "settle_session st rq sid ctx twap att wd =
       mint_if_within st rq sid ctx att cents
         (earned_wei (measured_hashrate st sid ctx (wd_redis wd)) twap (sc_commodity ctx) boost)
         (fst (total_minted_wei_24h (rq_fault rq 1) (rq_clock rq 8) (wd_db wd))) wd1"
proof -
  obtain config wd1 where 1: "payout_config_with_live_edge rq wd = (Inr config :: api_error + _, wd1)"
    by (rule live_edge_succeeds)
  obtain r red where 2: "get_session_hashrate (st_redis st) sid (sc_client_type ctx) (wd_redis wd) = (r, red)"
    by fastforce
  obtain sm wd3 where 3: "staking_summary st (sc_wallet ctx) (wd1\<lparr>wd_redis := red\<rparr>) = (Inr sm :: api_error + _, wd3)"
    by (rule staking_summary_succeeds)
  show ?thesis
    by (rule that [OF staking_summary_boost [OF 3] settle_session_exact(1) [OF 1 2 3]])
       (simp_all add: settle_session_exact [OF 1 2 3] 2 measured_hashrate_def)
qed

lemma settle_session_changed:
  assumes "wd_db (snd (settle_session st rq sid ctx twap att wd)) \<noteq> wd_db wd"
  shows "\<exists>boost row. unat boost \<le> 4000
    \<and> mr_gross_prm row = unat (earned_wei (measured_hashrate st sid ctx (wd_redis wd)) twap (sc_commodity ctx) boost)
    \<and> minted_24h (rq_clock rq 8) (db_proposals (wd_db wd)) + mr_gross_prm row
        \<le> unat (daily_ceiling (st_mint_ceiling st) (st_active_users st) (st_avg_daily st)) * 10 ^ 18
    \<and> sid_str sid \<notin> mr_session_id ` set (db_proposals (wd_db wd))
    \<and> wd_db (snd (settle_session st rq sid ctx twap att wd))
        = (wd_db wd)\<lparr>db_proposals := db_proposals (wd_db wd) @ [row]\<rparr>
    \<and> mr_session_id row = sid_str sid \<and> mr_wallet row = pl_addr_debug (st_pg st) (sc_wallet ctx)
    \<and> mr_chain row = chain_as_str (sc_target_chain ctx) \<and> mr_status row = ''Pending''"
proof -
  let ?h = "measured_hashrate st sid ctx (wd_redis wd)"
  obtain boost wd1 cents where b: "unat boost \<le> 4000" and db1: "wd_db wd1 = wd_db wd"
    and run: "settle_session st rq sid ctx twap att wd =
       mint_if_within st rq sid ctx att cents (earned_wei ?h twap (sc_commodity ctx) boost)
         (fst (total_minted_wei_24h (rq_fault rq 1) (rq_clock rq 8) (wd_db wd))) wd1"
    by (rule settle_session_run)
  let ?amt = "earned_wei ?h twap (sc_commodity ctx) boost"
  let ?p = "unsigned_proposal sid ctx ?amt cents att (rq_clock rq 9)"
  obtain t where t: "fst (total_minted_wei_24h (rq_fault rq 1) (rq_clock rq 8) (wd_db wd)) = Inr t"
    and c: "\<not> daily_ceiling_wei st < saturating_add (case parse_u128 t of Some v \<Rightarrow> v | None \<Rightarrow> - 1) ?amt"
    using assms db1 unfolding run by (auto simp: mint_if_within_def okE_def split: sum.splits if_splits)
  have eq: "settle_session st rq sid ctx twap att wd = sign_and_store st rq sid ctx ?p wd1"
    unfolding run t using c by (simp add: mint_if_within_def)
  have "t = show_nat (minted_24h (rq_clock rq 8) (db_proposals (wd_db wd)))"
    using t total_minted_run by (metis prod.collapse)
  then have cap: "minted_24h (rq_clock rq 8) (db_proposals (wd_db wd)) + unat ?amt
      \<le> unat (daily_ceiling (st_mint_ceiling st) (st_active_users st) (st_avg_daily st)) * 10 ^ 18"
    using ceiling_check_iff c by metis
  obtain sig where "wd_db (snd (settle_session st rq sid ctx twap att wd))
     = snd (insert_mint_proposal (st_pg st) (rq_fault rq 2) (rq_uuid rq) (rq_clock rq 10)
         (?p\<lparr>mp_backend_sig := sig\<rparr>) (wd_db wd))"
    using sign_and_store_changed [of st rq sid ctx ?p wd1] assms eq db1 by metis
  then show ?thesis
    using insert_mint_changed [of "st_pg st" "rq_fault rq 2" "rq_uuid rq" "rq_clock rq 10"
        "?p\<lparr>mp_backend_sig := sig\<rparr>" "wd_db wd"] assms b cap
    by (auto simp: unsigned_proposal_def intro!: exI [of _ boost])
qed

text \<open>The seed and the outside world an attestation round starts from: the price has been submitted
  and the block hash read.\<close>

definition attestation_start ::
    "('r, 'w, 'ch, 'sk, 'p) app_state \<Rightarrow> commodity \<Rightarrow> u128 \<Rightarrow> ('r, 'w, 'ch) world \<Rightarrow> (bytes \<times> 'w) option" where
  "attestation_start st commodity price wd =
     (case get_block_number (st_onchain st)
             (wd_ext (snd (submit_all (st_submitters st) (commodity_to_u8 commodity) price wd))) of
        (Inl e, w) \<Rightarrow> None
      | (Inr n, w) \<Rightarrow>
          (case get_block_hash (st_onchain st) (saturating_sub n SEED_BLOCK_OFFSET) w of
             (Inl e, w') \<Rightarrow> None
           | (Inr h, w') \<Rightarrow> Some (case h of Some b \<Rightarrow> b | None \<Rightarrow> replicate 32 0, w')))"

lemma submit_all_ext:
  "wd_ext wd = wd_ext wd' \<Longrightarrow> wd_ext (snd (submit_all xs c p wd)) = wd_ext (snd (submit_all xs c p wd'))"
proof (induction xs c p arbitrary: wd wd' rule: submit_all.induct)
  case (2 c submitter rest commodity price)
  obtain r x where "submit_price submitter commodity price (wd_ext wd) = (r, x)" by fastforce
  with 2 show ?case
    by (simp add: tryE_def logE_def attempt_def onExt_def okE_def)
qed (simp add: okE_def)

lemma submit_all_run:
  assumes "submit_all xs c p wd0 = (r, wd1)" and "wd_ext wd0 = wd_ext wd"
  shows "wd_redis wd1 = wd_redis wd0 \<and> wd_ext wd1 = wd_ext (snd (submit_all xs c p wd))"
  using keepsD [where f = wd_redis, OF keeps_submit_all(3) assms(1)] submit_all_ext [OF assms(2), of xs c p] assms(1)
  by simp

text \<open>
  The handler changes the database only through the settlement, and reaches the settlement only
  past every guard.
\<close>

lemma end_session_settles:
  fixes st :: "('r, 'w, 'ch, 'sk, 'p) app_state" and wd :: "('r, 'w, 'ch) world"
  assumes "wd_db (snd (handle_end_session st rq sid_raw nonce_raw wd)) \<noteq> wd_db wd"
  shows "\<exists>ctx nonce assigned twap proof_set att seed w wd' r1 r2.
    get_session (st_redis st) (st_libs st) (SessionId sid_raw) (wd_redis wd) = (Inr (Some ctx), r1)
    \<and> st_hex_decode st nonce_raw = Some nonce
    \<and> verify_reveal (st_redis st) (st_libs st) (SessionId sid_raw) nonce r1 = (Inr True, r2)
    \<and> sc_assigned_node_id ctx = Some assigned
    \<and> Option.bind (wd_twap wd sid_raw) (\<lambda>c. finalize c (rq_clock rq 0)) = Some twap
    \<and> get_proofs (st_redis st) (st_libs st) (SessionId sid_raw) r2 = (Inr proof_set, wd_redis wd')
    \<and> attestation_start st (sc_commodity ctx) (tr_twap twap) wd = Some (seed, w)
    \<and> fst (coordinate_attestation (st_coordinator st) (st_recover st) (sl_sha256 (st_libs st))
        (rq_clock rq 1) (SessionId sid_raw) proof_set seed assigned w) = Inr att
    \<and> wd_db wd' = wd_db wd
    \<and> handle_end_session st rq sid_raw nonce_raw wd = settle_session st rq (SessionId sid_raw) ctx twap att wd'"
proof -
  define X d where "X = handle_end_session st rq sid_raw nonce_raw wd" and "d = wd_db wd"
  then have X: "handle_end_session st rq sid_raw nonce_raw wd = X" and d: "wd_db wd = d"
    and changed: "wd_db (snd X) \<noteq> d" using assms by simp_all
  show ?thesis unfolding X using X [unfolded handle_end_session_def Let_def] changed d
    apply -
    apply (erule tryE_runE, assumption, assumption, (intro keeps_intros)[1])+
    apply (split if_split_asm, simp add: okE_def, metis snd_conv)
    apply (split option.split_asm, simp add: okE_def, metis snd_conv)
    apply (erule tryE_runE, assumption, assumption, (intro keeps_intros)[1])+
    apply (split option.split_asm, simp add: okE_def, metis snd_conv)
    apply (erule tryE_runE, assumption, assumption, (intro keeps_intros)[1])+
    apply (erule attempt_runE, assumption, assumption, (intro keeps_intros)[1])+
    apply (split sum.split_asm, simp add: okE_def, metis snd_conv)
    apply (simp only: apiE_onRedis_Inr requireE_Inr apiE_onExt_Inr onExt_run)
    apply (elim exE conjE)
    apply hypsubst
    apply (simp add: take_calculator_def)
    apply (drule submit_all_run [where wd = wd], simp)
    apply (clarsimp simp: attestation_start_def)
    apply (intro exI conjI)
      prefer 3 apply (rule refl)
     apply simp_all
    done
qed

text \<open>Past the guards, the handler runs the round and, if it succeeds, the settlement.\<close>

lemma end_session_run:
  fixes st :: "('r, 'w, 'ch, 'sk, 'p) app_state" and wd :: "('r, 'w, 'ch) world"
  assumes "get_session (st_redis st) (st_libs st) (SessionId sid_raw) (wd_redis wd) = (Inr (Some ctx), r1)"
    and "st_hex_decode st nonce_raw = Some nonce"
    and "verify_reveal (st_redis st) (st_libs st) (SessionId sid_raw) nonce r1 = (Inr True, r2)"
    and "sc_assigned_node_id ctx = Some assigned"
    and "Option.bind (wd_twap wd sid_raw) (\<lambda>c. finalize c (rq_clock rq 0)) = Some twap"
    and "get_proofs (st_redis st) (st_libs st) (SessionId sid_raw) r2 = (Inr proof_set, r3)"
    and "attestation_start st (sc_commodity ctx) (tr_twap twap) wd = Some (seed, w)"
    and "coordinate_attestation (st_coordinator st) (st_recover st) (sl_sha256 (st_libs st))
        (rq_clock rq 1) (SessionId sid_raw) proof_set seed assigned w = (att, w')"
  obtains wd' where "wd_redis wd' = r3" "wd_db wd' = wd_db wd" "wd_active wd' = wd_active wd" "wd_twap wd' sid_raw = None"
    "handle_end_session st rq sid_raw nonce_raw wd =
       (case att of Inl e \<Rightarrow> (Inr (500, ''attestation_failed''), wd')
        | Inr a \<Rightarrow> settle_session st rq (SessionId sid_raw) ctx twap a wd')"
proof -
  let ?wd1 = "wd\<lparr>wd_redis := r2, wd_twap := (wd_twap wd)(sid_raw := None)\<rparr>"
  let ?sub = "submit_all (st_submitters st) (commodity_to_u8 (sc_commodity ctx)) (tr_twap twap)"
  have "fst (submit_all xs c p v) = Inr ()" for xs c p and v :: "('r, 'w, 'ch) world"
    by (induction xs c p arbitrary: v rule: submit_all.induct)
       (simp_all add: okE_def tryE_def logE_def attempt_def split: prod.splits)
  then obtain wd2 where sub: "?sub ?wd1 = (Inr (), wd2)" by (metis prod.collapse)
  have wd2: "wd_redis wd2 = r2" "wd_ext wd2 = wd_ext (snd (?sub wd))" "wd_db wd2 = wd_db wd"
      "wd_active wd2 = wd_active wd" "wd_twap wd2 sid_raw = None"
    using submit_all_run [OF sub, of wd] keepsD [where f = wd_db, OF keeps_submit_all(1) sub]
      keepsD [where f = wd_active, OF keeps_submit_all(4) sub] keepsD [where f = wd_twap, OF keeps_submit_all(2) sub]
    by simp_all
  obtain n w0 h where n: "get_block_number (st_onchain st) (wd_ext wd2) = (Inr n, w0)"
    and h: "get_block_hash (st_onchain st) (saturating_sub n SEED_BLOCK_OFFSET) w0 = (Inr h, w)"
    and seed: "seed = (case h of Some b \<Rightarrow> b | None \<Rightarrow> replicate 32 0)"
    using assms(7) wd2(2) by (auto simp: attestation_start_def split: prod.splits sum.splits)
  show ?thesis
    by (rule that [of "wd2\<lparr>wd_redis := r3, wd_ext := w'\<rparr>"])
       (use assms(1-6,8) sub wd2(1,3-5) n h in \<open>simp_all add: handle_end_session_def Let_def tryE_def apiE_def map_errE_def
          onRedis_def onExt_def requireE_def okE_def attempt_def take_calculator_def seed
          split: sum.splits\<close>)
qed

lemma sign_and_store_run:
  assumes "sign_proposal (st_proposal_json st) (st_sign st) (st_as_bytes st) p (st_signing_key st) = Inr sb"
    and "st_parse_signature st sb = Inr sig"
    and "pl_attestation_json (st_pg st) (mp_attestation p) = Inr json" and "rq_fault rq 2 = None"
    and "sid_str (mp_session_id p) \<notin> mr_session_id ` set (db_proposals (wd_db wd))"
    and "delete_session (st_redis st) (st_libs st) (sc_wallet ctx) sid (wd_redis wd) = (Inr (), r)"
  shows "\<exists>row wd'. sign_and_store st rq sid ctx p wd = (Inr (200, ''completed''), wd')
    \<and> wd_db wd' = (wd_db wd)\<lparr>db_proposals := db_proposals (wd_db wd) @ [row]\<rparr> \<and> wd_redis wd' = r
    \<and> mr_session_id row = sid_str (mp_session_id p) \<and> mr_gross_prm row = unat (mp_gross_prm p)
    \<and> mr_wallet row = pl_addr_debug (st_pg st) (mp_wallet p)"
  using assms
  by (simp add: sign_and_store_def insert_mint_proposal_def pg_defs tryE_def logE_def attempt_def onDb_def
      apiE_def map_errE_def onRedis_def) (intro exI conjI, rule refl, simp_all)

lemma end_session_completes_core:
  fixes st :: "('r, 'w, 'ch, 'sk, 'p) app_state" and wd :: "('r, 'w, 'ch) world"
  assumes "get_session (st_redis st) (st_libs st) (SessionId sid_raw) (wd_redis wd) = (Inr (Some ctx), r1)"
    and "st_hex_decode st nonce_raw = Some nonce"
    and "verify_reveal (st_redis st) (st_libs st) (SessionId sid_raw) nonce r1 = (Inr True, r2)"
    and "sc_assigned_node_id ctx = Some assigned"
    and "Option.bind (wd_twap wd sid_raw) (\<lambda>c. finalize c (rq_clock rq 0)) = Some twap"
    and "get_proofs (st_redis st) (st_libs st) (SessionId sid_raw) r2 = (Inr proof_set, r3)"
    and "attestation_start st (sc_commodity ctx) (tr_twap twap) wd = Some (seed, w)"
    and "3 \<le> card (round_signers (st_coordinator st) (st_recover st) proof_set seed assigned w)"
    and "get_session_hashrate (st_redis st) (SessionId sid_raw) (sc_client_type ctx) r3 = (Inr h, r4)"
    and "delete_session (st_redis st) (st_libs st) (sc_wallet ctx) (SessionId sid_raw) r4 = (Inr (), r5)"
    and "\<And>boost. unat boost \<le> 4000 \<Longrightarrow>
      minted_24h (rq_clock rq 8) (db_proposals (wd_db wd)) + unat (earned_wei h twap (sc_commodity ctx) boost)
        \<le> unat (daily_ceiling (st_mint_ceiling st) (st_active_users st) (st_avg_daily st)) * 10 ^ 18"
    and "\<And>p. \<exists>sb sig. sign_proposal (st_proposal_json st) (st_sign st) (st_as_bytes st) p (st_signing_key st) = Inr sb
      \<and> st_parse_signature st sb = Inr sig"
    and "\<And>a. \<exists>json. pl_attestation_json (st_pg st) a = Inr json"
    and "rq_fault rq 1 = None" and "rq_fault rq 2 = None"
    and "sid_raw \<notin> mr_session_id ` set (db_proposals (wd_db wd))"
  shows "\<exists>row wd' boost. handle_end_session st rq sid_raw nonce_raw wd = (Inr (200, ''completed''), wd')
    \<and> wd_db wd' = (wd_db wd)\<lparr>db_proposals := db_proposals (wd_db wd) @ [row]\<rparr> \<and> wd_redis wd' = r5
    \<and> mr_session_id row = sid_raw \<and> mr_wallet row = pl_addr_debug (st_pg st) (sc_wallet ctx)
    \<and> unat boost \<le> 4000 \<and> mr_gross_prm row = unat (earned_wei h twap (sc_commodity ctx) boost)"
proof -
  obtain att w' where att: "coordinate_attestation (st_coordinator st) (st_recover st) (sl_sha256 (st_libs st))
      (rq_clock rq 1) (SessionId sid_raw) proof_set seed assigned w = (Inr att, w')"
    using coordinate_succeeds [OF assms(8)] by blast
  obtain wd0 where wd0: "wd_redis wd0 = r3" "wd_db wd0 = wd_db wd"
    and run0: "handle_end_session st rq sid_raw nonce_raw wd
      = settle_session st rq (SessionId sid_raw) ctx twap att wd0"
    by (rule end_session_run [OF assms(1-7) att]) simp
  have h: "measured_hashrate st (SessionId sid_raw) ctx r3 = h"
    using assms(9) by (simp add: measured_hashrate_def)
  obtain boost wd1 cents where b: "unat boost \<le> 4000" and wd1: "wd_db wd1 = wd_db wd0"
      "wd_redis wd1 = snd (get_session_hashrate (st_redis st) (SessionId sid_raw) (sc_client_type ctx) (wd_redis wd0))"
    and run1: "settle_session st rq (SessionId sid_raw) ctx twap att wd0 =
       mint_if_within st rq (SessionId sid_raw) ctx att cents
         (earned_wei (measured_hashrate st (SessionId sid_raw) ctx (wd_redis wd0)) twap (sc_commodity ctx) boost)
         (fst (total_minted_wei_24h (rq_fault rq 1) (rq_clock rq 8) (wd_db wd0))) wd1"
    by (rule settle_session_run)
  let ?p = "unsigned_proposal (SessionId sid_raw) ctx (earned_wei h twap (sc_commodity ctx) boost) cents att (rq_clock rq 9)"
  have "handle_end_session st rq sid_raw nonce_raw wd = sign_and_store st rq (SessionId sid_raw) ctx ?p wd1"
    using assms(11) [OF b] unfolding run0 run1 wd0 h assms(14) total_minted_eq ceiling_check_iff [symmetric]
    by (simp add: mint_if_within_def)
  moreover have "\<exists>row wd'. sign_and_store st rq (SessionId sid_raw) ctx ?p wd1 = (Inr (200, ''completed''), wd')
    \<and> wd_db wd' = (wd_db wd1)\<lparr>db_proposals := db_proposals (wd_db wd1) @ [row]\<rparr> \<and> wd_redis wd' = r5
    \<and> mr_session_id row = sid_str (mp_session_id ?p) \<and> mr_gross_prm row = unat (mp_gross_prm ?p)
    \<and> mr_wallet row = pl_addr_debug (st_pg st) (mp_wallet ?p)"
  proof -
    obtain sb sig where "sign_proposal (st_proposal_json st) (st_sign st) (st_as_bytes st) ?p (st_signing_key st) = Inr sb"
      "st_parse_signature st sb = Inr sig" using assms(12) by blast
    moreover obtain json where "pl_attestation_json (st_pg st) (mp_attestation ?p) = Inr json" using assms(13) by blast
    ultimately show ?thesis
      by (rule sign_and_store_run) (use assms(9,10,15,16) wd1 wd0 in \<open>simp_all add: unsigned_proposal_def\<close>)
  qed
  ultimately show ?thesis using b wd0 wd1 by (auto simp: unsigned_proposal_def)
qed

text \<open>
  C1: a mint proposal comes into being only for a session that earned it. Whenever ending a session
  changes the database, it appends exactly one pending row, for a session that had none; its
  context was on record and names an assigned node; the nonce opens the recorded commitment; the
  price average had samples; at least three distinct registered addresses signed the first of the
  recorded proofs in a round run on the block hash read there; the wallet, chain and amount are those of
  the context, the measured hashrate and a boost of at most 40\<open>%\<close>; and the amount together with
  everything confirmed in the last 24 hours is within the daily ceiling, as exact sums.
\<close>

theorem mint_is_attested_and_capped:
  fixes st :: "('r, 'w, 'ch, 'sk, 'p) app_state" and wd :: "('r, 'w, 'ch) world"
  assumes "wd_db (snd (handle_end_session st rq sid_raw nonce_raw wd)) \<noteq> wd_db wd"
  shows "\<exists>ctx nonce assigned twap proof_set seed w boost row r1 r2 r3.
    get_session (st_redis st) (st_libs st) (SessionId sid_raw) (wd_redis wd) = (Inr (Some ctx), r1)
    \<and> st_hex_decode st nonce_raw = Some nonce
    \<and> verify_reveal (st_redis st) (st_libs st) (SessionId sid_raw) nonce r1 = (Inr True, r2)
    \<and> sc_assigned_node_id ctx = Some assigned
    \<and> Option.bind (wd_twap wd sid_raw) (\<lambda>c. finalize c (rq_clock rq 0)) = Some twap
    \<and> get_proofs (st_redis st) (st_libs st) (SessionId sid_raw) r2 = (Inr proof_set, r3)
    \<and> attestation_start st (sc_commodity ctx) (tr_twap twap) wd = Some (seed, w)
    \<and> 3 \<le> card (round_signers (st_coordinator st) (st_recover st) proof_set seed assigned w)
    \<and> wd_db (snd (handle_end_session st rq sid_raw nonce_raw wd))
        = (wd_db wd)\<lparr>db_proposals := db_proposals (wd_db wd) @ [row]\<rparr>
    \<and> sid_raw \<notin> mr_session_id ` set (db_proposals (wd_db wd)) \<and> mr_session_id row = sid_raw
    \<and> mr_wallet row = pl_addr_debug (st_pg st) (sc_wallet ctx)
    \<and> mr_chain row = chain_as_str (sc_target_chain ctx) \<and> mr_status row = ''Pending''
    \<and> unat boost \<le> 4000
    \<and> mr_gross_prm row = unat (earned_wei (measured_hashrate st (SessionId sid_raw) ctx r3) twap (sc_commodity ctx) boost)
    \<and> minted_24h (rq_clock rq 8) (db_proposals (wd_db wd)) + mr_gross_prm row
        \<le> unat (daily_ceiling (st_mint_ceiling st) (st_active_users st) (st_avg_daily st)) * 10 ^ 18"
proof -
  obtain ctx nonce assigned twap proof_set att seed w wd' r1 r2 where *:
    "get_session (st_redis st) (st_libs st) (SessionId sid_raw) (wd_redis wd) = (Inr (Some ctx), r1)"
    "st_hex_decode st nonce_raw = Some nonce"
    "verify_reveal (st_redis st) (st_libs st) (SessionId sid_raw) nonce r1 = (Inr True, r2)"
    "sc_assigned_node_id ctx = Some assigned"
    "Option.bind (wd_twap wd sid_raw) (\<lambda>c. finalize c (rq_clock rq 0)) = Some twap"
    "get_proofs (st_redis st) (st_libs st) (SessionId sid_raw) r2 = (Inr proof_set, wd_redis wd')"
    "attestation_start st (sc_commodity ctx) (tr_twap twap) wd = Some (seed, w)"
    and att: "fst (coordinate_attestation (st_coordinator st) (st_recover st) (sl_sha256 (st_libs st))
        (rq_clock rq 1) (SessionId sid_raw) proof_set seed assigned w) = Inr att"
    and db: "wd_db wd' = wd_db wd"
    and run: "handle_end_session st rq sid_raw nonce_raw wd = settle_session st rq (SessionId sid_raw) ctx twap att wd'"
    using end_session_settles [OF assms] by blast
  have "3 \<le> card (round_signers (st_coordinator st) (st_recover st) proof_set seed assigned w)"
    using attestation_outcome_facts [OF att] distinct_card by metis
  moreover note settle_session_changed [of st rq "SessionId sid_raw" ctx twap att wd']
  ultimately show ?thesis
    using * assms unfolding run db by (simp del: bex_simps) blast
qed

text \<open>
  C8: ending a session works when it should. If Redis answers, the session is on record, the nonce
  opens its commitment, a node is assigned, the price average has samples, the chain answers, three
  distinct registered signers reply genuinely, every boost keeps the amount within the daily ceiling,
  signing and the database work and the session has no proposal yet, then the session ends as
  completed, exactly one row with the earned amount is recorded, and the session is gone.
\<close>

theorem end_session_completes:
  fixes st :: "('r, 'w, 'ch, 'sk, 'p) app_state" and wd :: "('r, 'w, 'ch) world"
  assumes "redis (st_redis st) view"
    and "fst (get_session keyspace_ops (st_libs st) (SessionId sid_raw) (view (wd_redis wd))) = Inr (Some ctx)"
    and "st_hex_decode st nonce_raw = Some nonce"
    and "fst (verify_reveal keyspace_ops (st_libs st) (SessionId sid_raw) nonce (view (wd_redis wd))) = Inr True"
    and "sc_assigned_node_id ctx = Some assigned"
    and "Option.bind (wd_twap wd sid_raw) (\<lambda>c. finalize c (rq_clock rq 0)) = Some twap"
    and "fst (get_proofs keyspace_ops (st_libs st) (SessionId sid_raw) (view (wd_redis wd))) = Inr proof_set"
    and "attestation_start st (sc_commodity ctx) (tr_twap twap) wd = Some (seed, w)"
    and "3 \<le> card (round_signers (st_coordinator st) (st_recover st) proof_set seed assigned w)"
    and "fst (get_session_hashrate keyspace_ops (SessionId sid_raw) (sc_client_type ctx) (view (wd_redis wd))) = Inr h"
    and "\<And>boost. unat boost \<le> 4000 \<Longrightarrow>
      minted_24h (rq_clock rq 8) (db_proposals (wd_db wd)) + unat (earned_wei h twap (sc_commodity ctx) boost)
        \<le> unat (daily_ceiling (st_mint_ceiling st) (st_active_users st) (st_avg_daily st)) * 10 ^ 18"
    and "\<And>p. \<exists>sb sig. sign_proposal (st_proposal_json st) (st_sign st) (st_as_bytes st) p (st_signing_key st) = Inr sb
      \<and> st_parse_signature st sb = Inr sig"
    and "\<And>a. \<exists>json. pl_attestation_json (st_pg st) a = Inr json"
    and "rq_fault rq 1 = None" and "rq_fault rq 2 = None"
    and "sid_raw \<notin> mr_session_id ` set (db_proposals (wd_db wd))"
  shows "\<exists>row wd' boost. handle_end_session st rq sid_raw nonce_raw wd = (Inr (200, ''completed''), wd')
    \<and> wd_db wd' = (wd_db wd)\<lparr>db_proposals := db_proposals (wd_db wd) @ [row]\<rparr>
    \<and> mr_session_id row = sid_raw \<and> mr_wallet row = pl_addr_debug (st_pg st) (sc_wallet ctx)
    \<and> unat boost \<le> 4000 \<and> mr_gross_prm row = unat (earned_wei h twap (sc_commodity ctx) boost)
    \<and> fst (get_session keyspace_ops (st_libs st) (SessionId sid_raw) (view (wd_redis wd'))) = Inr None"
proof -
  note sims = redis.sim_session_ops [OF assms(1)]
  let ?L = "st_libs st" and ?sid = "SessionId sid_raw" and ?v = "view (wd_redis wd)"
  obtain r1 where r1: "get_session (st_redis st) ?L ?sid (wd_redis wd) = (Inr (Some ctx), r1)" "view r1 = ?v"
    by (rule redis_read [OF sims(2) assms(2) ks_reads_pure(1)])
  obtain r2 where r2: "verify_reveal (st_redis st) ?L ?sid nonce r1 = (Inr True, r2)" "view r2 = view r1"
    by (rule redis_read [where s = r1, OF sims(4) _ ks_reads_pure(2)]) (use assms(4) r1 in simp)
  obtain r3 where r3: "get_proofs (st_redis st) ?L ?sid r2 = (Inr proof_set, r3)" "view r3 = view r2"
    by (rule redis_read [where s = r2, OF sims(5) _ ks_reads_pure(3)]) (use assms(7) r1 r2 in simp)
  obtain r4 where r4: "get_session_hashrate (st_redis st) ?sid (sc_client_type ctx) r3 = (Inr h, r4)" "view r4 = view r3"
    by (rule redis_read [where s = r3, OF sims(8) _ ks_reads_pure(4)]) (use assms(10) r1 r2 r3 in simp)
  obtain r5 where r5: "delete_session (st_redis st) ?L (sc_wallet ctx) ?sid r4 = (Inr (), r5)"
    using sim_fst [OF sims(20), of ?L "sc_wallet ctx" ?sid r4] delete_session_ks by (metis fst_conv prod.collapse)
  have "ks_entry (view r5) (lookup_key ?sid) = None"
    using sim_snd [OF sims(20), of ?L "sc_wallet ctx" ?sid r4] r5
    unfolding delete_session_ks snd_conv by (simp only: snd_conv ks_entry_fold_drop) simp
  then have "fst (get_session keyspace_ops ?L ?sid (view r5)) = Inr None"
    by (simp add: get_session_ks ks_value_def)
  then show ?thesis
    using end_session_completes_core [OF r1(1) assms(3) r2(1) assms(5,6) r3(1) assms(8,9) r4(1) r5 assms(11-16)]
    by metis
qed

section \<open>Ends that do not mint\<close>

text \<open>
  A wrong nonce costs nothing. If the nonce does not open the commitment, the answer is
  \<open>rejected\<close> and nothing changes: the records in Redis, the database, the price average, the gauge
  and the outside world are as before, so the right nonce still ends the session.
\<close>

theorem wrong_nonce_changes_nothing:
  fixes st :: "('r, 'w, 'ch, 'sk, 'p) app_state" and wd :: "('r, 'w, 'ch) world"
  assumes "redis (st_redis st) view"
    and "fst (get_session keyspace_ops (st_libs st) (SessionId sid_raw) (view (wd_redis wd))) = Inr (Some ctx)"
    and "st_hex_decode st nonce_raw = Some nonce"
    and "fst (verify_reveal keyspace_ops (st_libs st) (SessionId sid_raw) nonce (view (wd_redis wd))) = Inr False"
  shows "\<exists>r. handle_end_session st rq sid_raw nonce_raw wd = (Inr (400, ''rejected''), wd\<lparr>wd_redis := r\<rparr>)
    \<and> view r = view (wd_redis wd)"
proof -
  note sims = redis.sim_session_ops [OF assms(1)]
  obtain r1 where r1: "get_session (st_redis st) (st_libs st) (SessionId sid_raw) (wd_redis wd) = (Inr (Some ctx), r1)"
      "view r1 = view (wd_redis wd)"
    by (rule redis_read [OF sims(2) assms(2) ks_reads_pure(1)])
  obtain r2 where r2: "verify_reveal (st_redis st) (st_libs st) (SessionId sid_raw) nonce r1 = (Inr False, r2)"
      "view r2 = view r1"
    by (rule redis_read [where s = r1, OF sims(4) _ ks_reads_pure(2)]) (use assms(4) r1 in simp)
  show ?thesis
    using r1 r2 assms(3)
    by (intro exI [of _ r2])
       (simp add: handle_end_session_def Let_def tryE_def apiE_def map_errE_def onRedis_def requireE_def okE_def)
qed

text \<open>
  The last statement of an end is the insertion of the proposal, and its failure is only logged. Two
  computations are compared that differ in the tables alone.
\<close>

definition unwritten ::
    "(('r, 'w, 'ch) world, 'e, 'a) act \<Rightarrow> (('r, 'w, 'ch) world, 'e, 'a) act \<Rightarrow> bool" where
  "unwritten m' m \<longleftrightarrow> (\<forall>wd. m' wd = (fst (m wd), (snd (m wd))\<lparr>wd_db := wd_db wd\<rparr>))"

lemma unwritten_refl: "keeps wd_db m \<Longrightarrow> unwritten m m"
  by (simp add: unwritten_def keeps_def) (metis prod.collapse world.surjective world.update_convs(2))

lemma unwritten_attempt:
  assumes "keeps wd_db m" and "\<And>r. unwritten (k' r) (k r)"
  shows "unwritten (attempt m k') (attempt m k)"
  using assms by (simp add: unwritten_def keeps_def attempt_def split_beta)

lemma unwritten_tryE:
  assumes "keeps wd_db m" and "\<And>a. unwritten (k' a) (k a)"
  shows "unwritten (tryE m k') (tryE m k)"
proof -
  have "wd_db wd = wd_db s'" if "m wd = (r, s')" for wd r s'
    using assms(1) that by (auto simp: keeps_def dest: spec [of _ wd])
  then show ?thesis
    using assms(2) by (auto simp: unwritten_def tryE_def split: prod.split sum.split)
qed

lemma unwritten_cases:
  "unwritten p' p \<Longrightarrow> unwritten q' q \<Longrightarrow> unwritten (if b then p' else q') (if b then p else q)"
  "unwritten p' p \<Longrightarrow> (\<And>x. unwritten (f' x) (f x))
     \<Longrightarrow> unwritten (case v of None \<Rightarrow> p' | Some x \<Rightarrow> f' x) (case v of None \<Rightarrow> p | Some x \<Rightarrow> f x)"
  "(\<And>e. unwritten (g' e) (g e)) \<Longrightarrow> (\<And>y. unwritten (h' y) (h y))
     \<Longrightarrow> unwritten (case r of Inl e \<Rightarrow> g' e | Inr y \<Rightarrow> h' y) (case r of Inl e \<Rightarrow> g e | Inr y \<Rightarrow> h y)"
  by (simp_all split: option.split sum.split)

lemma unwritten_sign:
  "unwritten (sign_and_store st (rq\<lparr>rq_fault := (rq_fault rq)(2 := Some e)\<rparr>) sid ctx p) (sign_and_store st rq sid ctx p)"
  by (auto simp: unwritten_def sign_and_store_def tryE_def apiE_def map_errE_def logE_def attempt_def onDb_def onRedis_def
      okE_def errE_def insert_mint_proposal_def pg_defs split: sum.splits option.splits prod.splits)

lemma unwritten_settle:
  "unwritten (settle_session st (rq\<lparr>rq_fault := (rq_fault rq)(2 := Some e)\<rparr>) sid ctx twap a)
     (settle_session st rq sid ctx twap a)"
proof -
  have "payout_config_with_live_edge (rq\<lparr>rq_fault := (rq_fault rq)(2 := Some e)\<rparr>)
      = (payout_config_with_live_edge rq :: (('a, 'b, 'c) world, api_error, payout_config) act)"
    by (simp add: payout_config_with_live_edge_def cong: option.case_cong)
  then show ?thesis
    by (auto simp: settle_session_def Let_def
        intro!: unwritten_tryE unwritten_attempt unwritten_cases unwritten_sign unwritten_refl keeps_intros)
qed

text \<open>
  C38: The last database statement of an end is the insertion of the mint proposal, and the handler
  only logs its failure. If the statement fails, the miner receives the response it would have
  received anyway, the session and its price average are removed and every other part of the world
  is as after a run in which the statement succeeded, but the tables are as before: what the session
  earned is recorded nowhere.
\<close>

theorem failed_insert_goes_unnoticed:
  "handle_end_session st (rq\<lparr>rq_fault := (rq_fault rq)(2 := Some e)\<rparr>) sid nonce wd
     = (fst (handle_end_session st rq sid nonce wd),
        (snd (handle_end_session st rq sid nonce wd))\<lparr>wd_db := wd_db wd\<rparr>)"
proof -
  have "unwritten (handle_end_session st (rq\<lparr>rq_fault := (rq_fault rq)(2 := Some e)\<rparr>) sid nonce)
      (handle_end_session st rq sid nonce)"
    by (auto simp: handle_end_session_def Let_def
        intro!: unwritten_tryE unwritten_attempt unwritten_cases unwritten_settle unwritten_refl keeps_intros)
  then show ?thesis by (simp add: unwritten_def)
qed

text \<open>The price average of a session is gone once an end has taken it.\<close>

lemma end_session_no_samples:
  fixes st :: "('r, 'w, 'ch, 'sk, 'p) app_state" and wd :: "('r, 'w, 'ch) world"
  assumes "redis (st_redis st) view"
    and "fst (get_session keyspace_ops (st_libs st) (SessionId sid_raw) (view (wd_redis wd))) = Inr (Some ctx)"
    and "st_hex_decode st nonce_raw = Some nonce"
    and "fst (verify_reveal keyspace_ops (st_libs st) (SessionId sid_raw) nonce (view (wd_redis wd))) = Inr True"
    and "sc_assigned_node_id ctx = Some assigned" and "wd_twap wd sid_raw = None"
  shows "fst (handle_end_session st rq sid_raw nonce_raw wd) = Inr (400, ''no_samples'')"
proof -
  note sims = redis.sim_session_ops [OF assms(1)]
  obtain r1 where r1: "get_session (st_redis st) (st_libs st) (SessionId sid_raw) (wd_redis wd) = (Inr (Some ctx), r1)"
      "view r1 = view (wd_redis wd)"
    by (rule redis_read [OF sims(2) assms(2) ks_reads_pure(1)])
  obtain r2 where "verify_reveal (st_redis st) (st_libs st) (SessionId sid_raw) nonce r1 = (Inr True, r2)"
    by (rule redis_read [where s = r1, OF sims(4) _ ks_reads_pure(2)]) (use assms(4) r1 in simp)
  then show ?thesis
    using r1 assms(3,5,6)
    by (simp add: handle_end_session_def Let_def tryE_def apiE_def map_errE_def onRedis_def requireE_def okE_def
        take_calculator_def)
qed

lemma coordinate_fails:
  assumes "card (round_signers c recover proof_set seed assigned w) < 3"
  shows "\<exists>e w'. coordinate_attestation c recover sha256 now sid proof_set seed assigned w = (Inl e, w')"
proof (cases "fst (coordinate_attestation c recover sha256 now sid proof_set seed assigned w)")
  case (Inr res)
  from attestation_outcome_facts [OF this] assms show ?thesis by (metis distinct_card not_le)
qed (metis prod.collapse)

text \<open>
  A failed attestation discards the average. If the nonce is right but fewer than three registered signers
  reply genuinely, nothing is minted and the session and its gauge stay, but its price average is gone.
\<close>

lemma failed_attestation_discards:
  fixes st :: "('r, 'w, 'ch, 'sk, 'p) app_state" and wd :: "('r, 'w, 'ch) world"
  assumes "redis (st_redis st) view"
    and "fst (get_session keyspace_ops (st_libs st) (SessionId sid_raw) (view (wd_redis wd))) = Inr (Some ctx)"
    and "st_hex_decode st nonce_raw = Some nonce"
    and "fst (verify_reveal keyspace_ops (st_libs st) (SessionId sid_raw) nonce (view (wd_redis wd))) = Inr True"
    and "sc_assigned_node_id ctx = Some assigned"
    and "Option.bind (wd_twap wd sid_raw) (\<lambda>c. finalize c (rq_clock rq 0)) = Some twap"
    and "fst (get_proofs keyspace_ops (st_libs st) (SessionId sid_raw) (view (wd_redis wd))) = Inr proof_set"
    and "attestation_start st (sc_commodity ctx) (tr_twap twap) wd = Some (seed, w)"
    and "card (round_signers (st_coordinator st) (st_recover st) proof_set seed assigned w) < 3"
  shows "\<exists>wd'. handle_end_session st rq sid_raw nonce_raw wd = (Inr (500, ''attestation_failed''), wd')
    \<and> wd_db wd' = wd_db wd \<and> view (wd_redis wd') = view (wd_redis wd) \<and> wd_active wd' = wd_active wd
    \<and> wd_twap wd' sid_raw = None"
proof -
  note sims = redis.sim_session_ops [OF assms(1)]
  let ?L = "st_libs st" and ?sid = "SessionId sid_raw"
  obtain r1 where r1: "get_session (st_redis st) ?L ?sid (wd_redis wd) = (Inr (Some ctx), r1)" "view r1 = view (wd_redis wd)"
    by (rule redis_read [OF sims(2) assms(2) ks_reads_pure(1)])
  obtain r2 where r2: "verify_reveal (st_redis st) ?L ?sid nonce r1 = (Inr True, r2)" "view r2 = view r1"
    by (rule redis_read [where s = r1, OF sims(4) _ ks_reads_pure(2)]) (use assms(4) r1 in simp)
  obtain r3 where r3: "get_proofs (st_redis st) ?L ?sid r2 = (Inr proof_set, r3)" "view r3 = view r2"
    by (rule redis_read [where s = r2, OF sims(5) _ ks_reads_pure(3)]) (use assms(7) r1 r2 in simp)
  obtain e w' where e: "coordinate_attestation (st_coordinator st) (st_recover st) (sl_sha256 ?L) (rq_clock rq 1) ?sid
      proof_set seed assigned w = (Inl e, w')"
    using coordinate_fails [OF assms(9)] by blast
  obtain wd' where wd': "wd_redis wd' = r3" "wd_db wd' = wd_db wd" "wd_active wd' = wd_active wd" "wd_twap wd' sid_raw = None"
    and run: "handle_end_session st rq sid_raw nonce_raw wd = (Inr (500, ''attestation_failed''), wd')"
    by (rule end_session_run [OF r1(1) assms(3) r2(1) assms(5,6) r3(1) assms(8) e]) simp
  have v: "view (wd_redis wd') = view (wd_redis wd)" using wd' r1 r2 r3 by simp
  with wd' run v show ?thesis by blast
qed

definition demo_twap :: twap_result where
  "demo_twap = \<lparr>tr_twap = 250000000000, tr_sample_count = 1, tr_session_start = 0,
     tr_session_end = 700 * nanos_per_sec, tr_is_valid = False\<rparr>"

lemma demo_finalize:
  "Option.bind (wd_twap demo_world ''s'') (\<lambda>c. finalize c (rq_clock (demo_request 700) 0)) = Some demo_twap"
  by (simp add: demo_world_def demo_calculator_def demo_twap_def demo_request_def finalize_def twap_calculate_def
      twap_is_valid_def num_seconds_def MIN_VALID_SESSION_SECS_def)

lemma demo_start: "attestation_start demo_state Gold p demo_world = Some (replicate 32 0, ())"
  by (simp add: attestation_start_def demo_state_def get_block_number_def get_block_hash_def map_errE_def)

lemma demo_signers:
  "3 \<le> card (round_signers sample_coordinator sample_recover [sample_proof] (replicate 32 0) (NodeId ''a'') ())"
proof -
  let ?r = "fst (coordinate_attestation sample_coordinator sample_recover id 0
      (SessionId ''s'') [sample_proof] (replicate 32 0) (NodeId ''a'') ())"
  have "?r = Inr (projr ?r)" using sample_round by (simp add: sum.collapse)
  then show ?thesis
    using attestation_outcome_facts [of sample_coordinator sample_recover id 0 "SessionId ''s''" "[sample_proof]"
        "replicate 32 0" "NodeId ''a''" "()" "projr ?r"] distinct_card by metis
qed

lemma demo_within_ceiling:
  assumes "unat boost \<le> 4000"
  shows "minted_24h t (db_proposals (wd_db demo_world)) + unat (earned_wei 3 demo_twap Gold boost)
    \<le> unat (daily_ceiling (st_mint_ceiling demo_state) (st_active_users demo_state) (st_avg_daily demo_state)) * 10 ^ 18"
proof -
  have d: "unat (clamp_u64 (num_seconds (tr_session_end demo_twap - tr_session_start demo_twap))) = 700"
    by (simp add: demo_twap_def unat_clamp_u64 num_seconds_def)
  have e: "unat (earned_wei 3 demo_twap Gold boost) = boost_spec (gross_spec 3 700 1000 Gold) (unat boost) * 10 ^ 13"
    using unat_earned_wei [of 3 boost demo_twap Gold] assms by (simp add: d)
  have "gross_spec 3 700 1000 Gold \<le> 210000" by (simp add: gross_spec_def)
  then have "boost_spec (gross_spec 3 700 1000 Gold) (unat boost) \<le> 294000"
    using boost_spec_bounds [OF assms, of "gross_spec 3 700 1000 Gold"] by linarith
  moreover have "unat (daily_ceiling new_calculator 1000 10) = 30000"
    using daily_ceiling_saturates [of 1000 10] by simp
  ultimately show ?thesis
    by (simp add: e demo_world_def demo_state_def minted_24h_def sum_gross_def)
qed

lemma demo_libraries:
  "\<exists>sb sig. sign_proposal (st_proposal_json demo_state) (st_sign demo_state) (st_as_bytes demo_state) p
     (st_signing_key demo_state) = Inr sb \<and> st_parse_signature demo_state sb = Inr sig"
  "\<exists>json. pl_attestation_json (st_pg demo_state) a = Inr json"
  "rq_fault (demo_request t) i = None"
  "''s'' \<notin> mr_session_id ` set (db_proposals (wd_db demo_world))"
  by (auto simp: demo_state_def demo_pg_def sign_proposal_def demo_request_def demo_world_def)

theorem end_session_completes_witness:
  "\<exists>row wd'. handle_end_session demo_state (demo_request 700) ''s'' ''nonce'' demo_world = (Inr (200, ''completed''), wd')
     \<and> db_proposals (wd_db wd') = [row]"
proof -
  have "redis (st_redis demo_state) id" using keyspace.redis_axioms by (simp add: demo_sels)
  from end_session_completes [OF this, where sid_raw = "''s''" and nonce_raw = "''nonce''" and wd = demo_world
      and rq = "demo_request 700" and ctx = demo_session and twap = demo_twap and h = 3 and seed = "replicate 32 0"
      and w = "()" and proof_set = "[sample_proof]" and assigned = "NodeId ''a''" and nonce = "[1, 2]",
      OF _ _ _ _ demo_finalize]
  show ?thesis
    using demo_reads demo_start demo_signers demo_within_ceiling demo_libraries
    by (fastforce simp: demo_sels demo_world_def)
qed

lemma demo_delete:
  "\<exists>r. delete_session keyspace_ops demo_service_libs 7 (SessionId ''s'') demo_keys = (Inr (), r)"
  by (simp add: delete_session_ks)

lemma demo_completes:
  "\<exists>row wd'. handle_end_session demo_state (demo_request 700) ''s'' ''nonce'' demo_world = (Inr (200, ''completed''), wd')
     \<and> wd_db wd' = (wd_db demo_world)\<lparr>db_proposals := [row]\<rparr>"
proof -
  obtain r5 where "delete_session keyspace_ops demo_service_libs 7 (SessionId ''s'') demo_keys = (Inr (), r5)"
    using demo_delete by blast
  then have "\<exists>row wd' boost. handle_end_session demo_state (demo_request 700) ''s'' ''nonce'' demo_world
        = (Inr (200, ''completed''), wd')
      \<and> wd_db wd' = (wd_db demo_world)\<lparr>db_proposals := db_proposals (wd_db demo_world) @ [row]\<rparr> \<and> wd_redis wd' = r5
      \<and> mr_session_id row = ''s'' \<and> mr_wallet row = pl_addr_debug (st_pg demo_state) (sc_wallet demo_session)
      \<and> unat boost \<le> 4000 \<and> mr_gross_prm row = unat (earned_wei 3 demo_twap (sc_commodity demo_session) boost)"
    using demo_reads demo_start demo_signers demo_within_ceiling demo_libraries
    by (intro end_session_completes_core [where nonce = "[1, 2]" and assigned = "NodeId ''a''" and seed = "replicate 32 0"
        and proof_set = "[sample_proof]" and w = "()" and ?r1.0 = demo_keys and ?r2.0 = demo_keys and ?r3.0 = demo_keys
        and ?r4.0 = demo_keys, OF _ _ _ _ demo_finalize]) (simp_all add: demo_sels)
  then show ?thesis by (auto simp: demo_world_def)
qed

theorem mint_is_attested_and_capped_witness:
  "\<exists>row. wd_db (snd (handle_end_session demo_state (demo_request 700) ''s'' ''nonce'' demo_world))
      = (wd_db demo_world)\<lparr>db_proposals := [row]\<rparr>
     \<and> mr_session_id row = ''s'' \<and> mr_status row = ''Pending''"
proof -
  have "wd_db (snd (handle_end_session demo_state (demo_request 700) ''s'' ''nonce'' demo_world)) \<noteq> wd_db demo_world"
    using demo_completes by (auto simp: demo_world_def)
  from mint_is_attested_and_capped [OF this] show ?thesis by (auto simp: demo_world_def)
qed

theorem wrong_nonce_changes_nothing_witness:
  "fst (handle_end_session demo_state (demo_request 700) ''s'' ''guess'' demo_world) = Inr (400, ''rejected'')"
proof -
  have "redis (st_redis demo_state) id" using keyspace.redis_axioms by (simp add: demo_sels)
  moreover have "fst (verify_reveal keyspace_ops demo_service_libs (SessionId ''s'') (replicate 32 7) demo_keys) = Inr False"
    by code_simp
  ultimately show ?thesis
    using wrong_nonce_changes_nothing [of demo_state id "''s''" demo_world demo_session "''guess''" "replicate 32 7"
        "demo_request 700"] demo_reads(1)
    by (auto simp: demo_sels demo_state_def simp del: replicate.simps)
qed

text \<open>The same deployment with no node reachable.\<close>

definition deaf_state :: "(keyspace, unit, unit, unit, unit) app_state" where
  "deaf_state = demo_state\<lparr>st_coordinator := new_coordinator (\<lambda>n. None) sample_nodes (\<lambda>n. None)\<rparr>"

lemma deaf_reads:
  "redis (st_redis deaf_state) id" "round_signers (st_coordinator deaf_state) rc ps seed assigned () = {}"
  "attestation_start deaf_state Gold p demo_world = Some (replicate 32 0, ())"
  using keyspace.redis_axioms round_signers_registered [of "st_coordinator deaf_state" rc ps seed assigned "()"]
  by (simp_all add: deaf_state_def new_coordinator_def demo_sels attestation_start_def demo_state_def get_block_number_def
      get_block_hash_def map_errE_def)

end
