(* ===== verification/Service_Views.thy ===== *)
theory Service_Views
  imports Service_Queries Service_End
begin

text \<open>
  What the reading endpoints guarantee: the value shown for a running session is what its settlement
  records, up to the two clock readings they start from, the reserves are the sum of what the treasuries answer, and alerts reveal nothing of the
  detection.
\<close>

section \<open>Previews\<close>

lemma parse_commodity_debug: "parse_commodity (commodity_debug c) = c"
proof -
  have "parse_commodity ''Gold'' = Gold" "parse_commodity ''Platinum'' = Platinum"
    "parse_commodity ''Silver'' = Silver" "parse_commodity ''CrudeOil'' = CrudeOil" by code_simp+
  then show ?thesis by (cases c) simp_all
qed

lemma gross_zero: "calculate_gross_prm 0 d config c = 0" "calculate_gross_prm h 0 config c = 0"
  by (simp_all add: calculate_gross_prm_def)

lemma no_work_no_value:
  "h = 0 \<or> clamp_u64 (num_seconds (tr_session_end twap - tr_session_start twap)) = 0 \<Longrightarrow>
     settled_cents config h twap c boost = Some 0"
  by (auto simp: settled_cents_def gross_zero apply_staking_boost_def calculate_payout_from_gross_def
      calculate_redemption_usd_def apply_house_edge_def to_cents_def Let_def)

lemma estimate_row_settles:
  assumes "finalize calc now = Some twap" and "twap_map (ss_session_id row) = Some calc"
    and "ss_commodity row = commodity_debug c" and "ss_est_net_usd_cents row = 0"
  shows "ss_est_net_usd_cents (estimate_row boost config now twap_map row) =
           (case settled_cents config (ss_avg_hashrate row) (twap\<lparr>tr_session_start := ss_started_at row\<rparr>) c boost of
              Some v \<Rightarrow> v | None \<Rightarrow> 0)"
proof -
  let ?d = "clamp_u64 (num_seconds (now - ss_started_at row))"
  let ?twap = "twap\<lparr>tr_session_start := ss_started_at row\<rparr>"
  obtain price where p: "twap_calculate calc = Some price" "tr_twap ?twap = price"
    "clamp_u64 (num_seconds (tr_session_end ?twap - tr_session_start ?twap)) = ?d"
    using assms(1) by (auto simp: finalize_def split: option.splits)
  show ?thesis
  proof (cases "ss_avg_hashrate row = 0 \<or> ?d = 0")
    case True
    then show ?thesis
      using no_work_no_value [of "ss_avg_hashrate row" ?twap] assms(4) p(3) by (simp add: estimate_row_def disj_commute)
  next
    case False
    then show ?thesis
      using assms p by (simp add: estimate_row_def settled_cents_def parse_commodity_debug Let_def split: option.splits)
  qed
qed

lemma num_seconds_nonneg: "0 \<le> d \<Longrightarrow> num_seconds d = d div nanos_per_sec"
  by (cases "d = 0") (simp_all add: num_seconds_def)

text \<open>How far apart two clock readings put the number of whole seconds up to a moment.\<close>

lemma num_seconds_apart:
  assumes "a \<le> b" and "b \<le> now"
  shows "num_seconds (now - b) \<le> num_seconds (now - a)"
    and "num_seconds (now - a) \<le> num_seconds (now - b) + num_seconds (b - a) + 1"
proof -
  have "now - a = (now - b) + (b - a)" by simp
  then have "(now - a) div nanos_per_sec = ((now - b) + (b - a)) div nanos_per_sec" by (rule arg_cong)
  then show "num_seconds (now - b) \<le> num_seconds (now - a)"
    "num_seconds (now - a) \<le> num_seconds (now - b) + num_seconds (b - a) + 1"
    using assms by (simp_all add: num_seconds_nonneg zdiv_mono1)
qed

lemma settled_cents_start:
  assumes "num_seconds (tr_session_end twap - t) = num_seconds (tr_session_end twap - tr_session_start twap)"
  shows "settled_cents config h (twap\<lparr>tr_session_start := t\<rparr>) c boost = settled_cents config h twap c boost"
  using assms by (simp add: settled_cents_def)

lemma settle_session_cents:
  assumes "payout_config_with_live_edge rq wd = (Inr config :: api_error + _, wd1)"
    and "get_session_hashrate (st_redis st) sid (sc_client_type ctx) (wd_redis wd) = (Inr h, red)"
    and "staking_summary st (sc_wallet ctx) (wd1\<lparr>wd_redis := red\<rparr>) = (Inr sm :: api_error + _, wd3)"
    and "wd_db (snd (settle_session st rq sid ctx twap att wd)) \<noteq> wd_db wd"
  shows "\<exists>prop. wd_db (snd (settle_session st rq sid ctx twap att wd))
        = (wd_db wd)\<lparr>db_proposals := db_proposals (wd_db wd) @ [prop]\<rparr>
      \<and> mr_session_id prop = sid_str sid
      \<and> mr_net_usd_cents prop = settled_cents config h twap (sc_commodity ctx) (sm_effective_boost_bps sm)"
proof -
  note db3 = settle_session_exact(1) [OF assms(1-3)]
  note run = settle_session_exact(3) [OF assms(1-3), of twap att, unfolded sum.case]
  let ?p = "unsigned_proposal sid ctx (earned_wei h twap (sc_commodity ctx) (sm_effective_boost_bps sm))
     (settled_cents config h twap (sc_commodity ctx) (sm_effective_boost_bps sm)) att (rq_clock rq 9)"
  have eq: "settle_session st rq sid ctx twap att wd = sign_and_store st rq sid ctx ?p wd3"
    using assms(4) db3 unfolding run by (auto simp: mint_if_within_def okE_def split: sum.splits if_splits)
  obtain sig where "wd_db (snd (settle_session st rq sid ctx twap att wd))
     = snd (insert_mint_proposal (st_pg st) (rq_fault rq 2) (rq_uuid rq) (rq_clock rq 10)
         (?p\<lparr>mp_backend_sig := sig\<rparr>) (wd_db wd))"
    using sign_and_store_changed [of st rq sid ctx ?p wd3] assms(4) eq db3 by metis
  then show ?thesis
    using insert_mint_changed [of "st_pg st" "rq_fault rq 2" "rq_uuid rq" "rq_clock rq 10"
        "?p\<lparr>mp_backend_sig := sig\<rparr>" "wd_db wd"] assms(4)
    by (auto simp: unsigned_proposal_def)
qed

text \<open>
  C14: The value shown for a running session is the value its settlement records, up to when each of them starts
  the clock. Given the same house edge, boost, hashrate and price average, and the same moment, the session list
  shows what the settlement would record if it counted the seconds from the start of the session; the settlement
  counts them from the start of the price average, which the service opens with a later reading of the clock. So the
  two are equal to the cent whenever both starts give the same number of whole seconds, and the list counts at most
  one second more than lies between the two readings. A value too large for the column is shown as zero and recorded
  as null.
\<close>

theorem preview_is_what_settlement_records:
  fixes st :: "('r, 'w, 'ch, 'sk, 'p) app_state"
  assumes "payout_config_with_live_edge rq wd = (Inr config :: api_error + _, wd1)"
    and "get_session_hashrate (st_redis st) sid (sc_client_type ctx) (wd_redis wd) = (Inr (ss_avg_hashrate row), red)"
    and "staking_summary st (sc_wallet ctx) (wd1\<lparr>wd_redis := red\<rparr>) = (Inr sm :: api_error + _, wd3)"
    and "finalize calc now = Some twap" and "twap_map (ss_session_id row) = Some calc"
    and "ss_commodity row = commodity_debug (sc_commodity ctx)" and "ss_est_net_usd_cents row = 0"
    and "wd_db (snd (settle_session st rq sid ctx twap att wd)) \<noteq> wd_db wd"
  shows "\<exists>prop. wd_db (snd (settle_session st rq sid ctx twap att wd))
        = (wd_db wd)\<lparr>db_proposals := db_proposals (wd_db wd) @ [prop]\<rparr>
      \<and> mr_net_usd_cents prop
        = settled_cents config (ss_avg_hashrate row) twap (sc_commodity ctx) (sm_effective_boost_bps sm)
      \<and> ss_est_net_usd_cents (estimate_row (sm_effective_boost_bps sm) config now twap_map row)
        = (case settled_cents config (ss_avg_hashrate row) (twap\<lparr>tr_session_start := ss_started_at row\<rparr>) (sc_commodity ctx)
             (sm_effective_boost_bps sm) of Some c \<Rightarrow> c | None \<Rightarrow> 0)
      \<and> (num_seconds (now - ss_started_at row) = num_seconds (now - tc_session_start calc) \<longrightarrow>
           ss_est_net_usd_cents (estimate_row (sm_effective_boost_bps sm) config now twap_map row)
           = (case mr_net_usd_cents prop of Some c \<Rightarrow> c | None \<Rightarrow> 0))
      \<and> (ss_started_at row \<le> tc_session_start calc \<and> tc_session_start calc \<le> now \<longrightarrow>
           num_seconds (now - tc_session_start calc) \<le> num_seconds (now - ss_started_at row)
           \<and> num_seconds (now - ss_started_at row)
             \<le> num_seconds (now - tc_session_start calc) + num_seconds (tc_session_start calc - ss_started_at row) + 1)"
proof -
  obtain pr where new: "wd_db (snd (settle_session st rq sid ctx twap att wd))
        = (wd_db wd)\<lparr>db_proposals := db_proposals (wd_db wd) @ [pr]\<rparr>"
      "mr_net_usd_cents pr = settled_cents config (ss_avg_hashrate row) twap (sc_commodity ctx) (sm_effective_boost_bps sm)"
    using settle_session_cents [OF assms(1-3,8)] by blast
  have ends: "tr_session_end twap = now" "tr_session_start twap = tc_session_start calc"
    using assms(4) by (auto simp: finalize_def split: option.splits)
  note shown = estimate_row_settles [where row = row and twap_map = twap_map and calc = calc and c = "sc_commodity ctx"
      and boost = "sm_effective_boost_bps sm" and config = config, OF assms(4-7)]
  have "ss_est_net_usd_cents (estimate_row (sm_effective_boost_bps sm) config now twap_map row)
      = (case mr_net_usd_cents pr of Some c \<Rightarrow> c | None \<Rightarrow> 0)"
    if "num_seconds (now - ss_started_at row) = num_seconds (now - tc_session_start calc)"
    unfolding shown new(2) using settled_cents_start [of twap "ss_started_at row"] that by (simp add: ends)
  with new shown show ?thesis using num_seconds_apart by blast
qed

section \<open>Reserves\<close>

fun answered :: "onchain_client_error + reserve_balances \<Rightarrow> reserve_balances list" where
  "answered (Inr b) = [b]"
| "answered (Inl e) = []"

definition answers :: "(chain \<times> (onchain_client_error + reserve_balances)) list \<Rightarrow> reserve_balances list" where
  "answers rs = concat (map (\<lambda>r. answered (snd r)) rs)"

lemma sat_add_min:
  fixes a b :: u128
  assumes "unat a = min n (2 ^ 128 - 1)"
  shows "unat (saturating_add a b) = min (n + unat b) (2 ^ 128 - 1)"
  using assms unsigned_less [of b, where ?'a = nat] by (auto simp: unat_saturating_add min_def)

lemma reserve_fold:
  assumes "unat (fst (snd acc)) = min m (2 ^ 128 - 1)" and "unat (snd (snd acc)) = min n (2 ^ 128 - 1)"
  shows "unat (fst (snd (foldl reserve_step acc rs))) = min (m + (\<Sum>b \<leftarrow> answers rs. unat (rb_total_reserve_usd b))) (2 ^ 128 - 1)
    \<and> unat (snd (snd (foldl reserve_step acc rs))) = min (n + (\<Sum>b \<leftarrow> answers rs. unat (rb_total_redeemed_usd b))) (2 ^ 128 - 1)
    \<and> map (\<lambda>e. (cr_reserve_chain e, cr_available e)) (fst (foldl reserve_step acc rs))
       = map (\<lambda>e. (cr_reserve_chain e, cr_available e)) (fst acc) @ map (\<lambda>(c, r). (c, \<not> isl r)) rs"
  using assms
proof (induction rs arbitrary: acc m n)
  case (Cons cr rs)
  obtain entries a b c r where x: "acc = (entries, a, b)" "cr = (c, r)" by (cases acc, cases cr)
  show ?case
  proof (cases r)
    case (Inl e)
    with Cons x show ?thesis by (simp add: answers_def)
  next
    case (Inr v)
    have "unat (saturating_add a (rb_total_reserve_usd v)) = min (m + unat (rb_total_reserve_usd v)) (2 ^ 128 - 1)"
      by (rule sat_add_min) (use Cons.prems x in simp)
    moreover have "unat (saturating_add b (rb_total_redeemed_usd v)) = min (n + unat (rb_total_redeemed_usd v)) (2 ^ 128 - 1)"
      by (rule sat_add_min) (use Cons.prems x in simp)
    ultimately show ?thesis
      using Cons.IH [of "reserve_step acc cr" "m + unat (rb_total_reserve_usd v)" "n + unat (rb_total_redeemed_usd v)"] x Inr
      by (simp add: answers_def add.assoc)
  qed
qed (simp add: answers_def)

lemma overview_fold: "foldl overview_step (a, b) rs = snd (foldl reserve_step (entries, a, b) rs)"
proof (induction rs arbitrary: a b entries)
  case (Cons r rs)
  then show ?case by (cases r; cases "snd r") auto
qed simp

text \<open>
  The reserve endpoint answers for every configured treasury, in order, and marks exactly those that
  answered as available; the combined totals are the exact sums over the treasuries that answered,
  capped at the largest 128-bit value and never wrapped, and the operator's overview shows the same totals.
\<close>

theorem reserve_totals_exact:
  assumes "ask_treasuries clock 0 readers w = (rs, readers', w')"
  shows "let res = fst (reserve clock readers w);
             total = min (\<Sum>b \<leftarrow> answers rs. unat (rb_total_reserve_usd b)) (2 ^ 128 - 1);
             redeemed = min (\<Sum>b \<leftarrow> answers rs. unat (rb_total_redeemed_usd b)) (2 ^ 128 - 1) in
         map (\<lambda>e. (cr_reserve_chain e, cr_available e)) (rr_chains res) = map (\<lambda>(c, r). (c, \<not> isl r)) rs
       \<and> map fst rs = map fst readers
       \<and> rr_total_reserve_usd res = show_nat total \<and> rr_total_redeemed_usd res = show_nat redeemed
       \<and> (\<forall>scale st rq wd ov. wd_ext wd = w \<longrightarrow> fst (overview scale st rq clock (wd, readers)) = Inr ov
            \<longrightarrow> ao_reserve_total_usd ov = show_nat total \<and> ao_total_redeemed_usd ov = show_nat redeemed)"
proof -
  obtain entries a b where f: "foldl reserve_step ([], 0, 0) rs = (entries, a, b)" by (cases "foldl reserve_step ([], 0, 0) rs")
  have sums: "unat a = min (\<Sum>b \<leftarrow> answers rs. unat (rb_total_reserve_usd b)) (2 ^ 128 - 1)"
    "unat b = min (\<Sum>b \<leftarrow> answers rs. unat (rb_total_redeemed_usd b)) (2 ^ 128 - 1)"
    "map (\<lambda>e. (cr_reserve_chain e, cr_available e)) entries = map (\<lambda>(c, r). (c, \<not> isl r)) rs"
    using reserve_fold [of "([], 0, 0)" 0 0 rs] by (simp_all add: f)
  have "map fst rs = map fst readers" if "ask_treasuries clock i readers w = (rs, readers', w')" for i
    using that by (induction clock i readers w arbitrary: rs readers' w' rule: ask_treasuries.induct) (auto split: prod.splits)
  moreover have "foldl overview_step (0, 0) rs = (a, b)" using overview_fold [of 0 0 rs "[]"] f by simp
  ultimately show ?thesis
    using assms sums
    by (auto simp: reserve_def f show_u128_def overview_def Let_def tryE_def okE_def split: prod.splits sum.splits)
qed

section \<open>Alerts\<close>

lemma wallet_alerts_run:
  assumes "st_parse_address st raw = Some a"
  shows "fst (wallet_alerts st rq raw wd) =
    (case fst (get_review_flags_for_wallet (rq_fault rq 0) (wallet_db_key st a) ALERTS_LIMIT (wd_db wd)) of
       Inl e \<Rightarrow> Inl ApiInternal
     | Inr flags \<Rightarrow> (case fst (get_payouts_for_wallet (rq_fault rq 1) (wallet_db_key st a) ALERTS_LIMIT (wd_db wd)) of
         Inl e \<Rightarrow> Inl ApiInternal
       | Inr payouts \<Rightarrow> Inr (sort_key (\<lambda>a. - wa_timestamp a) (map flag_alert flags @ map payout_to_alert payouts))))"
proof -
  let ?k = "wallet_db_key st a"
  obtain fl where 1: "get_review_flags_for_wallet (rq_fault rq 0) ?k ALERTS_LIMIT (wd_db wd) = (fl, wd_db wd)"
    by (cases "rq_fault rq 0") (auto simp: get_review_flags_for_wallet_def pg_defs)
  obtain py where 2: "get_payouts_for_wallet (rq_fault rq 1) ?k ALERTS_LIMIT (wd_db wd) = (py, wd_db wd)"
    by (cases "rq_fault rq 1") (auto simp: get_payouts_for_wallet_def pg_defs)
  show ?thesis
    using assms 1 2
    by (cases fl; cases py) (simp_all add: wallet_alerts_def parse_wallet_def requireE_def tryE_def okE_def apiE_def
        map_errE_def onDb_def Let_def)
qed

lemma get_payouts_Inr:
  "fst (get_payouts_for_wallet f k l d) = Inr ps \<Longrightarrow> length ps \<le> nat l \<and> (\<forall>p \<in> set ps. po_wallet p = k
     \<and> (\<exists>r \<in> set (db_proposals d). mr_wallet r = k \<and> mr_session_id r = po_session_id p))"
  by (auto simp: get_payouts_for_wallet_def pg_defs split: option.splits dest!: in_set_takeD) blast

lemma get_flags_Inr:
  "fst (get_review_flags_for_wallet f k l d) = Inr fs \<Longrightarrow> length fs \<le> nat l \<and> (\<forall>x \<in> set fs.
     \<exists>r \<in> set (db_anomalies d). an_wallet r = k \<and> an_session_id r = rf_session_id x)"
  by (auto simp: get_review_flags_for_wallet_def pg_defs split: option.splits dest!: in_set_takeD) blast

text \<open>
  A wallet's alerts are its own, neutral and newest first. They do not change with the scores, triggers
  and levels of the anomaly events nor with the rows of other wallets; there are at most a hundred,
  sorted by time descending; each concerns a session with a row of this wallet and its kind is one of
  four words.
\<close>

theorem alerts_own_and_neutral:
  assumes "st_parse_address st raw = Some a"
    and "map (\<lambda>r. (an_session_id r, an_created_at r)) (filter (\<lambda>r. an_wallet r = wallet_db_key st a) (db_anomalies (wd_db wd)))
       = map (\<lambda>r. (an_session_id r, an_created_at r)) (filter (\<lambda>r. an_wallet r = wallet_db_key st a) (db_anomalies (wd_db wd')))"
    and "filter (\<lambda>r. mr_wallet r = wallet_db_key st a) (db_proposals (wd_db wd))
       = filter (\<lambda>r. mr_wallet r = wallet_db_key st a) (db_proposals (wd_db wd'))"
  shows "fst (wallet_alerts st rq raw wd) = fst (wallet_alerts st rq raw wd')
     \<and> (\<forall>alerts. fst (wallet_alerts st rq raw wd) = Inr alerts \<longrightarrow>
          sorted (map (\<lambda>al. - wa_timestamp al) alerts) \<and> length alerts \<le> 100
        \<and> (\<forall>al \<in> set alerts. wa_kind al \<in> {''under_review'', ''payout_confirmed'', ''payout_rejected'', ''payout_processing''}
            \<and> ((\<exists>r \<in> set (db_anomalies (wd_db wd)). an_wallet r = wallet_db_key st a \<and> an_session_id r = wa_session_id al)
             \<or> (\<exists>r \<in> set (db_proposals (wd_db wd)). mr_wallet r = wallet_db_key st a \<and> mr_session_id r = wa_session_id al))))"
proof -
  have same: "fst (wallet_alerts st rq raw wd) = fst (wallet_alerts st rq raw wd')"
    unfolding wallet_alerts_run [OF assms(1)] review_flags_reveal_only_sessions [OF assms(2)]
    by (simp add: get_payouts_for_wallet_def pg_defs assms(3) split: option.splits sum.splits)
  have "sorted (map (\<lambda>al. - wa_timestamp al) alerts) \<and> length alerts \<le> 100
        \<and> (\<forall>al \<in> set alerts. wa_kind al \<in> {''under_review'', ''payout_confirmed'', ''payout_rejected'', ''payout_processing''}
            \<and> ((\<exists>r \<in> set (db_anomalies (wd_db wd)). an_wallet r = wallet_db_key st a \<and> an_session_id r = wa_session_id al)
             \<or> (\<exists>r \<in> set (db_proposals (wd_db wd)). mr_wallet r = wallet_db_key st a \<and> mr_session_id r = wa_session_id al)))"
    if ok: "fst (wallet_alerts st rq raw wd) = Inr alerts" for alerts
  proof -
    obtain flags payouts where run:
      "fst (get_review_flags_for_wallet (rq_fault rq 0) (wallet_db_key st a) ALERTS_LIMIT (wd_db wd)) = Inr flags"
      "fst (get_payouts_for_wallet (rq_fault rq 1) (wallet_db_key st a) ALERTS_LIMIT (wd_db wd)) = Inr payouts"
      "alerts = sort_key (\<lambda>a. - wa_timestamp a) (map flag_alert flags @ map payout_to_alert payouts)"
      using ok unfolding wallet_alerts_run [OF assms(1)] by (auto split: sum.splits)
    have "sorted (map (\<lambda>al. - wa_timestamp al) alerts)" unfolding run(3) by simp
    moreover have "length alerts \<le> 100"
      using get_flags_Inr [OF run(1)] get_payouts_Inr [OF run(2)] by (simp add: run(3) ALERTS_LIMIT_def)
    moreover have "wa_kind (flag_alert fl) = ''under_review''" "wa_session_id (flag_alert fl) = rf_session_id fl"
      "wa_kind (payout_to_alert p) \<in> {''payout_confirmed'', ''payout_rejected'', ''payout_processing''}"
      "wa_session_id (payout_to_alert p) = po_session_id p" for fl p
      by (simp_all add: flag_alert_def payout_to_alert_def payout_alert_def)
    ultimately show ?thesis
      using get_flags_Inr [OF run(1)] get_payouts_Inr [OF run(2)] by (fastforce simp: run(3))
  qed
  with same show ?thesis by blast
qed

section \<open>Instances\<close>

definition demo_row :: session_summary where
  "demo_row = \<lparr>ss_session_id = ''s'', ss_commodity = ''Gold'', ss_proof_count = 1, ss_avg_hashrate = 3,
     ss_client_type = ''cli'', ss_target_chain = Ethereum, ss_started_at = 0, ss_last_submission_at = None,
     ss_status = ''active'', ss_cpu_threads = 1, ss_verified_proof_count = 0, ss_rejected_proof_count = 0,
     ss_est_net_usd_cents = 0, ss_site_code = None, ss_site_city = None, ss_paused = False\<rparr>"

definition demo_attestation :: attestation_result where
  "demo_attestation = \<lparr>ar_session_id = SessionId ''s'', ar_signatures = [], ar_node_ids = [], ar_signers = [],
     ar_proof_hash = [], ar_timestamp = 0\<rparr>"

lemma demo_settle_reads:
  "payout_config_with_live_edge (demo_request 700) demo_world = (Inr default_config, demo_world)"
  "demo_world\<lparr>wd_redis := demo_keys\<rparr> = demo_world"
  "staking_summary demo_state 7 demo_world = (Inr (build_summary None None), demo_world)"
  by (simp_all add: payout_config_with_live_edge_def demo_world_def staking_summary_def demo_state_def read_configured_def)

lemma demo_settles:
  "wd_db (snd (settle_session demo_state (demo_request 700) (SessionId ''s'') demo_session demo_twap demo_attestation demo_world))
     \<noteq> wd_db demo_world"
proof -
  let ?b = "sm_effective_boost_bps (build_summary None None)"
  let ?p = "unsigned_proposal (SessionId ''s'') demo_session (earned_wei 3 demo_twap Gold ?b)
     (settled_cents default_config 3 demo_twap Gold ?b) demo_attestation (rq_clock (demo_request 700) 9)"
  have 2: "get_session_hashrate (st_redis demo_state) (SessionId ''s'') (sc_client_type demo_session) (wd_redis demo_world)
      = (Inr 3, demo_keys)" using demo_reads(4) by (simp add: demo_sels)
  have 3: "staking_summary demo_state (sc_wallet demo_session) (demo_world\<lparr>wd_redis := demo_keys\<rparr>) =
      (Inr (build_summary None None) :: api_error + _, demo_world)" by (simp only: demo_settle_reads demo_sels)
  have boost: "unat ?b \<le> 4000" by (rule staking_summary_boost [OF 3])
  have tot: "fst (total_minted_wei_24h (rq_fault (demo_request 700) 1) (rq_clock (demo_request 700) 8) (wd_db demo_world))
      = Inr (show_nat (minted_24h (rq_clock (demo_request 700) 8) (db_proposals (wd_db demo_world))))"
    using total_minted_run [of None] by (metis demo_libraries(3) fst_conv)
  have within: "\<not> daily_ceiling_wei demo_state < saturating_add
      (case parse_u128 (show_nat (minted_24h (rq_clock (demo_request 700) 8) (db_proposals (wd_db demo_world)))) of
         Some v \<Rightarrow> v | None \<Rightarrow> - 1) (earned_wei 3 demo_twap Gold ?b)"
    unfolding ceiling_check_iff by (rule demo_within_ceiling [OF boost])
  have eq: "settle_session demo_state (demo_request 700) (SessionId ''s'') demo_session demo_twap demo_attestation demo_world
      = sign_and_store demo_state (demo_request 700) (SessionId ''s'') demo_session ?p demo_world"
    unfolding settle_session_exact(3) [OF demo_settle_reads(1) 2 3, of demo_twap demo_attestation] tot
    using within by (simp add: mint_if_within_def demo_sels)
  obtain r where "delete_session keyspace_ops demo_service_libs 7 (SessionId ''s'') demo_keys = (Inr (), r)"
    using demo_delete by blast
  then have "\<exists>row wd'. sign_and_store demo_state (demo_request 700) (SessionId ''s'') demo_session ?p demo_world
        = (Inr (200, ''completed''), wd')
      \<and> wd_db wd' = (wd_db demo_world)\<lparr>db_proposals := db_proposals (wd_db demo_world) @ [row]\<rparr> \<and> wd_redis wd' = r
      \<and> mr_session_id row = sid_str (mp_session_id ?p) \<and> mr_gross_prm row = unat (mp_gross_prm ?p)
      \<and> mr_wallet row = pl_addr_debug (st_pg demo_state) (mp_wallet ?p)"
    using demo_libraries(1) [of ?p] demo_libraries(2) [of "mp_attestation ?p"] demo_libraries(3,4)
    by (elim exE conjE) (rule sign_and_store_run, auto simp: demo_sels unsigned_proposal_def)
  then show ?thesis unfolding eq by (auto simp: demo_world_def)
qed

theorem preview_is_what_settlement_records_witness:
  "\<exists>prop. wd_db (snd (settle_session demo_state (demo_request 700) (SessionId ''s'') demo_session demo_twap demo_attestation demo_world))
       = (wd_db demo_world)\<lparr>db_proposals := db_proposals (wd_db demo_world) @ [prop]\<rparr>
     \<and> ss_est_net_usd_cents (estimate_row (sm_effective_boost_bps (build_summary None None)) default_config
         (700 * nanos_per_sec) (wd_twap demo_world) demo_row)
       = (case mr_net_usd_cents prop of Some c \<Rightarrow> c | None \<Rightarrow> 0)"
proof -
  have reads: "get_session_hashrate (st_redis demo_state) (SessionId ''s'') (sc_client_type demo_session) (wd_redis demo_world)
      = (Inr (ss_avg_hashrate demo_row), demo_keys)" using demo_reads(4) by (simp add: demo_sels demo_row_def)
  have boost: "staking_summary demo_state (sc_wallet demo_session) (demo_world\<lparr>wd_redis := demo_keys\<rparr>) =
      (Inr (build_summary None None) :: api_error + _, demo_world)" by (simp only: demo_settle_reads demo_sels)
  have average: "finalize demo_calculator (700 * nanos_per_sec) = Some demo_twap"
      "wd_twap demo_world (ss_session_id demo_row) = Some demo_calculator"
    using demo_finalize by (simp_all add: demo_world_def demo_request_def demo_row_def)
  have row: "ss_commodity demo_row = commodity_debug (sc_commodity demo_session)" "ss_est_net_usd_cents demo_row = 0"
    by (simp_all add: demo_row_def demo_sels)
  have "num_seconds (700 * nanos_per_sec - ss_started_at demo_row) = num_seconds (700 * nanos_per_sec - tc_session_start demo_calculator)"
    by (simp add: demo_row_def demo_calculator_def)
  then show ?thesis
    using preview_is_what_settlement_records [where row = demo_row and twap_map = "wd_twap demo_world" and calc = demo_calculator,
        OF demo_settle_reads(1) reads boost average row demo_settles] by blast
qed

definition demo_treasury :: "unit treasury_reader" where
  "demo_treasury = \<lparr>tr_usdc = (\<lambda>w. (Inr 1, w)), tr_usdt = (\<lambda>w. (Inr 2, w)), tr_balance_of = (\<lambda>t a w. (Inr 5, w)),
     tr_total_reserve_usd = (\<lambda>w. (Inr 10, w)), tr_total_redeemed_usd = (\<lambda>w. (Inr 4, w)), tr_treasury_address = 9,
     tr_ttl = 60, tr_cache = None\<rparr>"

definition silent_treasury :: "unit treasury_reader" where
  "silent_treasury = demo_treasury\<lparr>tr_usdt := (\<lambda>w. (Inl ''timeout'', w))\<rparr>"

theorem reserve_totals_exact_witness:
  "let res = fst (reserve (\<lambda>i. 0) [(Ethereum, demo_treasury), (Polygon, silent_treasury)] ()) in
     map (\<lambda>e. (cr_reserve_chain e, cr_available e)) (rr_chains res) = [(Ethereum, True), (Polygon, False)]
   \<and> rr_total_reserve_usd res = ''10''"
proof -
  obtain readers' where a: "ask_treasuries (\<lambda>i. 0) 0 [(Ethereum, demo_treasury), (Polygon, silent_treasury)] () =
      ([(Ethereum, Inr \<lparr>rb_usdc = 5, rb_usdt = 5, rb_total_reserve_usd = 10, rb_total_redeemed_usd = 4\<rparr>),
        (Polygon, Inl (OcContract ''timeout''))], readers', ())"
    by (simp add: demo_treasury_def silent_treasury_def current_reserve_balances_def read_balances_def tryE_def callE_def
        map_errE_def orE_def try_u128_def okE_def)
  have "show_nat 10 = ''10''" by code_simp
  then show ?thesis using reserve_totals_exact [OF a] unfolding Let_def by (elim conjE) (simp add: answers_def)
qed

definition flagged :: "int \<Rightarrow> string \<Rightarrow> string \<Rightarrow> (keyspace, unit, unit) world" where
  "flagged score triggers level = demo_world\<lparr>wd_db := \<lparr>db_anomalies = [\<lparr>an_session_id = ''s'', an_wallet = ''0x7'',
     an_score = score, an_triggers = triggers, an_level = level, an_created_at = 3\<rparr>], db_proposals = []\<rparr>\<rparr>"

theorem alerts_own_and_neutral_witness:
  "\<exists>alerts. fst (wallet_alerts demo_state (demo_request 1) ''0x7'' (flagged 5000 ''[1]'' ''High'')) = Inr alerts
   \<and> fst (wallet_alerts demo_state (demo_request 1) ''0x7'' (flagged 0 ''[]'' ''Low'')) = Inr alerts
   \<and> length alerts = 1 \<and> (\<forall>al \<in> set alerts. wa_kind al \<in>
       {''under_review'', ''payout_confirmed'', ''payout_rejected'', ''payout_processing''})"
proof -
  have p: "st_parse_address demo_state ''0x7'' = Some 7" by (simp add: demo_sels)
  let ?hi = "flagged 5000 ''[1]'' ''High''" and ?lo = "flagged 0 ''[]'' ''Low''"
  have "map (\<lambda>r. (an_session_id r, an_created_at r)) (filter (\<lambda>r. an_wallet r = wallet_db_key demo_state 7) (db_anomalies (wd_db ?hi)))
      = map (\<lambda>r. (an_session_id r, an_created_at r)) (filter (\<lambda>r. an_wallet r = wallet_db_key demo_state 7) (db_anomalies (wd_db ?lo)))"
    "filter (\<lambda>r. mr_wallet r = wallet_db_key demo_state 7) (db_proposals (wd_db ?hi))
      = filter (\<lambda>r. mr_wallet r = wallet_db_key demo_state 7) (db_proposals (wd_db ?lo))"
    by (simp_all add: flagged_def)
  note t = alerts_own_and_neutral [OF p this, of "demo_request 1"]
  have same: "fst (wallet_alerts demo_state (demo_request 1) ''0x7'' ?lo) = fst (wallet_alerts demo_state (demo_request 1) ''0x7'' ?hi)"
    by (rule conjunct1 [OF t, symmetric])
  have kinds: "wa_kind al \<in> {''under_review'', ''payout_confirmed'', ''payout_rejected'', ''payout_processing''}"
    if "fst (wallet_alerts demo_state (demo_request 1) ''0x7'' ?hi) = Inr alerts" "al \<in> set alerts" for al alerts
    using conjunct2 [OF t, THEN spec, THEN mp, OF that(1)] that(2) by blast
  have "\<exists>al. fst (wallet_alerts demo_state (demo_request 1) ''0x7'' (flagged 5000 ''[1]'' ''High'')) = Inr [al]"
    unfolding wallet_alerts_run [OF p]
    by (simp add: get_review_flags_for_wallet_def get_payouts_for_wallet_def pg_defs demo_request_def flagged_def
        wallet_db_key_def demo_state_def demo_pg_def ALERTS_LIMIT_def)
  then obtain al where al: "fst (wallet_alerts demo_state (demo_request 1) ''0x7'' (flagged 5000 ''[1]'' ''High'')) = Inr [al]" ..
  show ?thesis using same kinds [OF al] al by (intro exI [of _ "[al]"]) simp
qed

end
