(* ===== verification/Interleaving.thy ===== *)
theory Interleaving
  imports Prelude
begin

text \<open>
  Requests that run at the same time. A program is a result or a step on the shared state that leaves the
  rest of the program; a pool of programs runs by taking one step of one of them at a time, with steps
  of the environment in between. Run alone, a program is one of the computations of \<open>Prelude\<close>, so that a
  handler written step by step can be compared with the handler written as one computation. The frame
  rules carry over to every interleaving, and tickets bound how many programs of a pool can succeed.
\<close>

section \<open>Programs\<close>

datatype ('s, 'e, 'a) prog = Done "'e + 'a" | Step "'s \<Rightarrow> ('s, 'e, 'a) prog \<times> 's"

lemma prog_induct [case_names Done Step]:
  assumes "\<And>r. P (Done r)" and "\<And>f. (\<And>t. P (fst (f t))) \<Longrightarrow> P (Step f)"
  shows "P p"
proof (induction p)
  case (Step f)
  have "P (fst (f s))" for s by (rule Step [of "f s"]) (auto simp: fsts.simps)
  then show ?case by (rule assms(2))
qed (rule assms(1))

primrec runP :: "('s, 'e, 'a) prog \<Rightarrow> ('s, 'e, 'a) act" where
  "runP (Done r) = (\<lambda>s. (r, s))"
| "runP (Step f) = (\<lambda>s. case map_prod runP id (f s) of (run, s') \<Rightarrow> run s')"

definition okP :: "'a \<Rightarrow> ('s, 'e, 'a) prog" where "okP a = Done (Inr a)"

definition errP :: "'e \<Rightarrow> ('s, 'e, 'a) prog" where "errP e = Done (Inl e)"

definition atomicP :: "('s, 'e, 'a) act \<Rightarrow> ('s, 'e, 'a) prog" where
  "atomicP m = Step (\<lambda>s. case m s of (r, s') \<Rightarrow> (Done r, s'))"

primrec attemptP :: "('s, 'e, 'a) prog \<Rightarrow> ('e + 'a \<Rightarrow> ('s, 'f, 'b) prog) \<Rightarrow> ('s, 'f, 'b) prog" where
  "attemptP (Done r) k = k r"
| "attemptP (Step f) k = Step (\<lambda>s. map_prod (\<lambda>p. attemptP p k) id (f s))"

definition tryP :: "('s, 'e, 'a) prog \<Rightarrow> ('a \<Rightarrow> ('s, 'e, 'b) prog) \<Rightarrow> ('s, 'e, 'b) prog" where
  "tryP p k = attemptP p (\<lambda>r. case r of Inl e \<Rightarrow> errP e | Inr a \<Rightarrow> k a)"

definition map_errP :: "('e \<Rightarrow> 'f) \<Rightarrow> ('s, 'e, 'a) prog \<Rightarrow> ('s, 'f, 'a) prog" where
  "map_errP g p = attemptP p (\<lambda>r. Done (map_sum g id r))"

text \<open>A program on a part of the state, \<open>get\<close> and \<open>put\<close> being the field.\<close>

primrec focusP :: "('s \<Rightarrow> 't) \<Rightarrow> ('t \<Rightarrow> 's \<Rightarrow> 's) \<Rightarrow> ('t, 'e, 'a) prog \<Rightarrow> ('s, 'e, 'a) prog" where
  "focusP get put (Done r) = Done r"
| "focusP get put (Step f) = Step (\<lambda>s. case map_prod (focusP get put) id (f (get s)) of (p, x) \<Rightarrow> (p, put x s))"

section \<open>Running alone\<close>

named_theorems runP_simps \<open>what a program computes when it runs alone\<close>

lemma runP_Step: "runP (Step f) s = runP (fst (f s)) (snd (f s))"
  by (cases "f s") simp

lemma runP_basic [runP_simps]:
  "runP (okP a) = okE a" "runP (errP e) = errE e" "runP (atomicP m) = m" "runP (Done r) = (\<lambda>s. (r, s))"
  by (auto simp: okP_def errP_def okE_def errE_def atomicP_def fun_eq_iff split: prod.splits)

lemma runP_attemptP [runP_simps]: "runP (attemptP p k) = attempt (runP p) (\<lambda>r. runP (k r))"
proof (induction p rule: prog_induct)
  case (Step f)
  show ?case
  proof
    fix s
    show "runP (attemptP (Step f) k) s = attempt (runP (Step f)) (\<lambda>r. runP (k r)) s"
      using fun_cong [OF Step [of s], of "snd (f s)"] by (simp add: runP_Step attempt_def del: runP.simps(2))
  qed
qed (simp add: attempt_def fun_eq_iff)

lemma runP_tryP [runP_simps]: "runP (tryP p k) = tryE (runP p) (\<lambda>a. runP (k a))"
  by (auto simp: tryP_def runP_simps tryE_def attempt_def errE_def fun_eq_iff split: prod.splits sum.splits)

lemma runP_map_errP [runP_simps]: "runP (map_errP g p) = map_errE g (runP p)"
  by (auto simp: map_errP_def runP_simps map_errE_def attempt_def fun_eq_iff)

lemma runP_focusP:
  assumes "\<And>x s. get (put x s) = x" and "\<And>x y s. put y (put x s) = put y s" and "\<And>s. put (get s) s = s"
  shows "runP (focusP get put p) s = (case runP p (get s) of (r, x) \<Rightarrow> (r, put x s))"
proof (induction p arbitrary: s rule: prog_induct)
  case (Step f)
  show ?case
    using Step [of "get s" "put (snd (f (get s))) s"] assms by (simp add: runP_Step split_beta del: runP.simps(2))
qed (simp add: assms)

lemma runP_case [runP_simps]:
  "runP (if b then p else q) = (if b then runP p else runP q)"
  "runP (case v of None \<Rightarrow> p | Some x \<Rightarrow> f x) = (case v of None \<Rightarrow> runP p | Some x \<Rightarrow> runP (f x))"
  "runP (case r of Inl e \<Rightarrow> g e | Inr y \<Rightarrow> h y) = (case r of Inl e \<Rightarrow> runP (g e) | Inr y \<Rightarrow> runP (h y))"
  "runP (case yz of (y, z) \<Rightarrow> j y z) = (case yz of (y, z) \<Rightarrow> runP (j y z))"
  by (cases v; cases r; cases yz; simp)+

section \<open>Interleaved runs\<close>

type_synonym ('s, 'e, 'a) pool = "('s, 'e, 'a) prog list \<times> 's"

inductive pstep :: "('s \<Rightarrow> 's \<Rightarrow> bool) \<Rightarrow> ('s, 'e, 'a) pool \<Rightarrow> ('s, 'e, 'a) pool \<Rightarrow> bool"
  for E :: "'s \<Rightarrow> 's \<Rightarrow> bool" where
  turn: "i < length ps \<Longrightarrow> ps ! i = Step f \<Longrightarrow> f s = (p, s') \<Longrightarrow> pstep E (ps, s) (ps[i := p], s')"
| outside: "E s s' \<Longrightarrow> pstep E (ps, s) (ps, s')"

lemma pstepE [consumes 1, case_names turn outside]:
  assumes "pstep E (ps, s) (ps', s')"
  obtains i f p where "ps' = ps[i := p]" "i < length ps" "ps ! i = Step f" "f s = (p, s')"
  | "ps' = ps" "E s s'"
  using assms by (auto elim: pstep.cases)

abbreviation interleaves :: "('s \<Rightarrow> 's \<Rightarrow> bool) \<Rightarrow> ('s, 'e, 'a) pool \<Rightarrow> ('s, 'e, 'a) pool \<Rightarrow> bool" where
  "interleaves E \<equiv> (pstep E)\<^sup>*\<^sup>*"

text \<open>An interleaving given by the indices that take their turn; one that is done passes.\<close>

fun schedule :: "nat list \<Rightarrow> ('s, 'e, 'a) pool \<Rightarrow> ('s, 'e, 'a) pool" where
  "schedule [] c = c"
| "schedule (i # is) (ps, s) =
     (case ps ! i of Done r \<Rightarrow> schedule is (ps, s)
      | Step f \<Rightarrow> (case f s of (p, s') \<Rightarrow> schedule is (ps[i := p], s')))"

lemma schedule_length: "length (fst (schedule is c)) = length (fst c)"
  by (induction "is" c rule: schedule.induct) (auto split: prog.splits prod.splits)

lemma interleaves_schedule:
  "\<forall>i \<in> set is. i < length (fst c) \<Longrightarrow> interleaves E c (schedule is c)"
proof (induction "is" c rule: schedule.induct)
  case (2 i "is" ps s)
  show ?case
  proof (cases "ps ! i")
    case (Done r)
    then show ?thesis using 2 by simp
  next
    case (Step f)
    obtain p s' where f: "f s = (p, s')" by fastforce
    have "pstep E (ps, s) (ps[i := p], s')" using 2(3) Step f by (auto intro: turn)
    moreover have "interleaves E (ps[i := p], s') (schedule is (ps[i := p], s'))"
      using 2(2) [OF Step f [symmetric]] 2(3) by simp
    ultimately show ?thesis using Step f by simp
  qed
qed simp

text \<open>A program that is left alone comes to what it computes: running one after the other is one of the
  interleavings.\<close>

lemma interleaves_alone:
  assumes "i < length ps" and "ps ! i = p" and "runP p s = (r, s')"
  shows "interleaves E (ps, s) (ps[i := Done r], s')"
  using assms
proof (induction p arbitrary: ps s rule: prog_induct)
  case (Done q)
  then show ?case using list_update_id [of ps i] by auto
next
  case (Step f)
  obtain p1 s1 where f: "f s = (p1, s1)" by fastforce
  have "interleaves E (ps[i := p1], s1) ((ps[i := p1])[i := Done r], s')"
    using Step.prems f by (intro Step.IH [where t = s]) (simp_all add: runP_Step del: runP.simps(2))
  then show ?case
    using turn [OF Step.prems(1,2) f, of E] by (simp add: converse_rtranclp_into_rtranclp)
qed

section \<open>Frames of interleaved runs\<close>

primrec withinP :: "('s \<Rightarrow> 's \<Rightarrow> bool) \<Rightarrow> ('s, 'e, 'a) prog \<Rightarrow> bool" where
  "withinP P (Done r) \<longleftrightarrow> True"
| "withinP P (Step f) \<longleftrightarrow> (\<forall>s. case map_prod (withinP P) id (f s) of (b, s') \<Rightarrow> b \<and> P s s')"

lemma withinP_Step: "withinP P (Step f) \<longleftrightarrow> (\<forall>s. withinP P (fst (f s)) \<and> P s (snd (f s)))"
  by (simp add: split_beta)

declare withinP.simps(2) [simp del]

lemma withinP_atomicP: "within P m \<Longrightarrow> withinP P (atomicP m)"
  by (simp add: atomicP_def withinP_Step within_def split_beta)

lemma withinP_attemptP: "withinP P p \<Longrightarrow> (\<And>r. withinP P (k r)) \<Longrightarrow> withinP P (attemptP p k)"
  by (induction p rule: prog_induct) (simp_all add: withinP_Step)

lemma withinP_tryP: "withinP P p \<Longrightarrow> (\<And>a. withinP P (k a)) \<Longrightarrow> withinP P (tryP p k)"
  unfolding tryP_def by (rule withinP_attemptP) (simp_all add: errP_def split: sum.split)

lemma withinP_done: "withinP P (okP a)" "withinP P (errP e)" "withinP P (Done r)"
  by (simp_all add: okP_def errP_def)

lemma withinP_map_errP: "withinP P p \<Longrightarrow> withinP P (map_errP g p)"
  unfolding map_errP_def by (rule withinP_attemptP) simp_all

lemma withinP_focusP:
  "withinP P' p \<Longrightarrow> (\<And>s x. P' (get s) x \<Longrightarrow> P s (put x s)) \<Longrightarrow> withinP P (focusP get put p)"
  by (induction p rule: prog_induct) (simp_all add: withinP_Step split_beta)

lemma withinP_cases:
  "withinP P p \<Longrightarrow> withinP P q \<Longrightarrow> withinP P (if b then p else q)"
  "withinP P p \<Longrightarrow> (\<And>x. withinP P (f x)) \<Longrightarrow> withinP P (case v of None \<Rightarrow> p | Some x \<Rightarrow> f x)"
  "(\<And>e. withinP P (g e)) \<Longrightarrow> (\<And>y. withinP P (h y)) \<Longrightarrow> withinP P (case r of Inl e \<Rightarrow> g e | Inr y \<Rightarrow> h y)"
  "(\<And>y z. withinP P (j y z)) \<Longrightarrow> withinP P (case yz of (y, z) \<Rightarrow> j y z)"
  by (cases v; cases r; cases yz; simp)+

lemmas withinP_intros = withinP_done withinP_tryP withinP_attemptP withinP_map_errP withinP_cases

text \<open>What a program can return, whatever the state does in between, and the rule that uses it.\<close>

primrec returns :: "('e + 'a \<Rightarrow> bool) \<Rightarrow> ('s, 'e, 'a) prog \<Rightarrow> bool" where
  "returns R (Done r) \<longleftrightarrow> R r"
| "returns R (Step f) \<longleftrightarrow> (\<forall>s. fst (map_prod (returns R) id (f s)))"

lemma returns_attemptP: "returns R' p \<Longrightarrow> (\<And>r. R' r \<Longrightarrow> returns R (k r)) \<Longrightarrow> returns R (attemptP p k)"
  by (induction p rule: prog_induct) simp_all

lemma returns_True: "returns (\<lambda>_. True) p"
  by (induction p rule: prog_induct) simp_all

lemma returns_focusP: "returns R p \<Longrightarrow> returns R (focusP get put p)"
  by (induction p rule: prog_induct) (simp_all add: split_beta)

lemma withinP_attemptP_returns:
  "withinP P p \<Longrightarrow> returns R p \<Longrightarrow> (\<And>r. R r \<Longrightarrow> withinP P (k r)) \<Longrightarrow> withinP P (attemptP p k)"
  by (induction p rule: prog_induct) (simp_all add: withinP_Step)

lemma withinP_tryP_returns:
  assumes "withinP P p" and "returns (\<lambda>r. \<forall>a. r = Inr a \<longrightarrow> R a) p" and "\<And>a. R a \<Longrightarrow> withinP P (k a)"
  shows "withinP P (tryP p k)"
  unfolding tryP_def
  by (rule withinP_attemptP_returns [OF assms(1,2)]) (auto simp: withinP_done assms(3) split: sum.split)

lemma withinP_True: "withinP (\<lambda>_ _. True) p"
  by (induction p rule: prog_induct) (simp_all add: withinP_Step)

context frame
begin

lemma interleaved:
  assumes "interleaves E (ps, s) (ps', s')" and "\<forall>p \<in> set ps. withinP P p" and "\<And>s s'. E s s' \<Longrightarrow> P s s'"
  shows "P s s' \<and> (\<forall>p \<in> set ps'. withinP P p)"
  using assms(1)
proof (induction "(ps', s')" arbitrary: ps' s' rule: rtranclp_induct)
  case base
  then show ?case using assms(2) stays by simp
next
  case (step c)
  obtain qs t where c: "c = (qs, t)" by fastforce
  have IH: "P s t" "\<forall>p \<in> set qs. withinP P p" using step(3) c by auto
  from step(2) [unfolded c] show ?case
  proof (cases rule: pstepE)
    case (turn i f p)
    then have "withinP P (Step f)" using IH(2) nth_mem by metis
    then have "withinP P p" "P t s'" using turn by (auto simp: withinP_Step) (metis fst_conv, metis snd_conv)
    with turn IH show ?thesis using steps set_update_subset_insert [of qs i p] by auto
  next
    case outside
    with IH show ?thesis using assms(3) steps by blast
  qed
qed

end

section \<open>Steps that rely on what has happened\<close>

text \<open>
  A step may be right only because of an earlier step of the same program. Between the two, others move;
  what the program knows has to survive every step that keeps the relation. A program that is guarded by
  such knowledge keeps the relation with each of its steps, as in rely-guarantee reasoning where all
  components guarantee what all rely on.
\<close>

definition stable :: "('s \<Rightarrow> 's \<Rightarrow> bool) \<Rightarrow> ('s \<Rightarrow> bool) \<Rightarrow> bool" where
  "stable P K \<longleftrightarrow> (\<forall>s s'. K s \<longrightarrow> P s s' \<longrightarrow> K s')"

lemma stableD: "stable P K \<Longrightarrow> K s \<Longrightarrow> P s s' \<Longrightarrow> K s'"
  by (simp add: stable_def)

lemma stable_True: "stable P (\<lambda>_. True)"
  by (simp add: stable_def)

primrec guarded_by :: "('s \<Rightarrow> 's \<Rightarrow> bool) \<Rightarrow> ('s, 'e, 'a) prog \<Rightarrow> ('s \<Rightarrow> bool) \<Rightarrow> bool" where
  "guarded_by P (Done r) = (\<lambda>K. True)"
| "guarded_by P (Step f) = (\<lambda>K. \<forall>s. K s \<longrightarrow> (case map_prod (guarded_by P) id (f s) of (g, s') \<Rightarrow>
     P s s' \<and> (\<exists>K'. stable P K' \<and> K' s' \<and> g K')))"

lemma guarded_by_Step:
  "guarded_by P (Step f) K \<longleftrightarrow>
     (\<forall>s. K s \<longrightarrow> P s (snd (f s)) \<and> (\<exists>K'. stable P K' \<and> K' (snd (f s)) \<and> guarded_by P (fst (f s)) K'))"
  by (simp add: split_beta)

declare guarded_by.simps(2) [simp del]

lemma guarded_by_withinP: "withinP P p \<Longrightarrow> guarded_by P p K"
proof (induction p arbitrary: K rule: prog_induct)
  case (Step f)
  then show ?case unfolding guarded_by_Step withinP_Step using stable_True by blast
qed simp

lemma guarded_by_done: "guarded_by P (okP a) K" "guarded_by P (errP e) K" "guarded_by P (Done r) K"
  by (simp_all add: okP_def errP_def)

lemma guarded_by_tryP:
  assumes "\<And>s. K s \<Longrightarrow> P s (snd (m s))"
    and "\<And>s a s'. K s \<Longrightarrow> m s = (Inr a, s') \<Longrightarrow> \<exists>K'. stable P K' \<and> K' s' \<and> guarded_by P (k a) K'"
  shows "guarded_by P (tryP (atomicP m) k) K"
  unfolding tryP_def atomicP_def attemptP.simps guarded_by_Step
proof (intro allI impI conjI)
  fix s assume K: "K s"
  obtain r s' where m: "m s = (r, s')" by fastforce
  show "P s (snd (map_prod (\<lambda>p. attemptP p (case_sum errP k)) id (case m s of (r, s') \<Rightarrow> (Done r, s'))))"
    using assms(1) [OF K] by (simp add: m)
  show "\<exists>K'. stable P K' \<and> K' (snd (map_prod (\<lambda>p. attemptP p (case_sum errP k)) id (case m s of (r, s') \<Rightarrow> (Done r, s'))))
      \<and> guarded_by P (fst (map_prod (\<lambda>p. attemptP p (case_sum errP k)) id (case m s of (r, s') \<Rightarrow> (Done r, s')))) K'"
  proof (cases r)
    case (Inl e)
    then show ?thesis using stable_True [of P] by (auto simp: m guarded_by_done)
  next
    case (Inr a)
    then show ?thesis using assms(2) [OF K m [unfolded Inr]] by (simp add: m)
  qed
qed

text \<open>A part of the program that relies on nothing passes the knowledge on.\<close>

lemma guarded_by_after:
  assumes "withinP P p" and "stable P K" and "\<And>a. guarded_by P (k a) K"
  shows "guarded_by P (tryP p k) K"
  using assms(1)
proof (induction p rule: prog_induct)
  case (Done r)
  then show ?case using assms(3) by (cases r) (simp_all add: tryP_def guarded_by_done)
next
  case (Step f)
  then have "P s (snd (f s))" "guarded_by P (tryP (fst (f s)) k) K" for s by (simp_all add: withinP_Step)
  then show ?case using assms(2) stableD unfolding tryP_def attemptP.simps guarded_by_Step by fastforce
qed

text \<open>Translating the result of a program leaves its steps as they are.\<close>

lemma guarded_by_result:
  "guarded_by P p K \<Longrightarrow> guarded_by P (attemptP p (\<lambda>r. Done (g r))) K"
  by (induction p arbitrary: K rule: prog_induct) (simp_all add: guarded_by_Step, blast)

lemma guarded_by_focusP:
  assumes "guarded_by P' p K" and get_put: "\<And>s x. get (put x s) = x" and "\<And>s s'. P s s' \<Longrightarrow> P' (get s) (get s')"
    and "\<And>s x. P' (get s) x \<Longrightarrow> P s (put x s)"
  shows "guarded_by P (focusP get put p) (\<lambda>s. K (get s))"
  using assms(1)
proof (induction p arbitrary: K rule: prog_induct)
  case (Step f)
  show ?case
    unfolding focusP.simps guarded_by_Step
  proof (intro allI impI conjI)
    fix s assume "K (get s)"
    then obtain K' where K': "P' (get s) (snd (f (get s)))" "stable P' K'" "K' (snd (f (get s)))" "guarded_by P' (fst (f (get s))) K'"
      using Step.prems unfolding guarded_by_Step by blast
    show "P s (snd (case map_prod (focusP get put) id (f (get s)) of (p, x) \<Rightarrow> (p, put x s)))"
      using assms(4) [OF K'(1)] by (simp add: split_beta)
    have "stable P (\<lambda>s. K' (get s))" using K'(2) assms(3) by (auto simp: stable_def)
    then show "\<exists>K'. stable P K' \<and> K' (snd (case map_prod (focusP get put) id (f (get s)) of (p, x) \<Rightarrow> (p, put x s)))
        \<and> guarded_by P (fst (case map_prod (focusP get put) id (f (get s)) of (p, x) \<Rightarrow> (p, put x s))) K'"
      using Step.IH [OF K'(4)] K'(3) by (intro exI [of _ "\<lambda>s. K' (get s)"]) (simp add: split_beta get_put)
  qed
qed simp

context frame
begin

lemma interleaved_guarded:
  assumes "interleaves E (ps, s) (ps', s')" and "\<forall>p \<in> set ps. guarded_by P p (\<lambda>_. True)" and "\<And>s s'. E s s' \<Longrightarrow> P s s'"
  shows "P s s'"
proof -
  have "P s s' \<and> (\<forall>p \<in> set ps'. \<exists>K. stable P K \<and> K s' \<and> guarded_by P p K)"
    using assms(1)
  proof (induction "(ps', s')" arbitrary: ps' s' rule: rtranclp_induct)
    case base
    then show ?case using assms(2) stays stable_True [of P] by blast
  next
    case (step c)
    obtain qs t where c: "c = (qs, t)" by fastforce
    have IH: "P s t" "\<forall>p \<in> set qs. \<exists>K. stable P K \<and> K t \<and> guarded_by P p K" using step(3) c by auto
    have moved: "P s s' \<and> (\<forall>p \<in> set qs. \<exists>K. stable P K \<and> K s' \<and> guarded_by P p K)" if "P t s'"
      using IH that steps stableD by meson
    from step(2) [unfolded c] show ?case
    proof (cases rule: pstepE)
      case (turn i f p)
      then obtain K where "stable P K" "K t" "guarded_by P (Step f) K" using IH(2) nth_mem by metis
      then obtain K' where "P t s'" "stable P K'" "K' s'" "guarded_by P p K'"
        using turn(4) unfolding guarded_by_Step by (metis fst_conv snd_conv)
      with moved turn(1) show ?thesis using set_update_subset_insert [of qs i p] by blast
    next
      case outside
      then show ?thesis using moved assms(3) by simp
    qed
  qed
  then show ?thesis ..
qed

end

lemma withinP_conj: "withinP P p \<Longrightarrow> withinP Q p \<Longrightarrow> withinP (\<lambda>s s'. P s s' \<and> Q s s') p"
  by (induction p rule: prog_induct) (simp_all add: withinP_Step)

lemma withinP_mono: "withinP P p \<Longrightarrow> (\<And>s s'. P s s' \<Longrightarrow> Q s s') \<Longrightarrow> withinP Q p"
  by (induction p rule: prog_induct) (simp_all add: withinP_Step)

section \<open>Tickets\<close>

text \<open>
  A measure that no step lowers, up to a bound, and programs that cannot succeed before one of their own
  steps has raised it within the bound: then at most as many of them succeed, however they are
  interleaved, as there is room below the bound.
\<close>

definition rises :: "('s \<Rightarrow> nat) \<Rightarrow> 's \<Rightarrow> 's \<Rightarrow> bool" where
  "rises \<mu> s s' \<longleftrightarrow> \<mu> s \<le> \<mu> s'"

interpretation rises: frame "rises \<mu>" for \<mu>
  by unfold_locales (auto simp: rises_def)

primrec pays :: "('s \<Rightarrow> nat) \<Rightarrow> nat \<Rightarrow> ('e + 'a \<Rightarrow> bool) \<Rightarrow> ('s, 'e, 'a) prog \<Rightarrow> bool" where
  "pays \<mu> B Q (Done r) \<longleftrightarrow> \<not> Q r"
| "pays \<mu> B Q (Step f) \<longleftrightarrow> (\<forall>s. case map_prod (pays \<mu> B Q) id (f s) of (b, s') \<Rightarrow> b \<or> \<mu> s < \<mu> s' \<and> \<mu> s' \<le> B)"

lemma pays_Step: "pays \<mu> B Q (Step f) \<longleftrightarrow> (\<forall>s. pays \<mu> B Q (fst (f s)) \<or> \<mu> s < \<mu> (snd (f s)) \<and> \<mu> (snd (f s)) \<le> B)"
  by (simp add: split_beta)

declare pays.simps(2) [simp del]

lemma pays_attemptP: "(\<And>r. pays \<mu> B Q (k r)) \<Longrightarrow> pays \<mu> B Q (attemptP p k)"
  by (induction p rule: prog_induct) (simp_all add: pays_Step)

lemma pays_tryP: "(\<And>e. \<not> Q (Inl e)) \<Longrightarrow> (\<And>a. pays \<mu> B Q (k a)) \<Longrightarrow> pays \<mu> B Q (tryP p k)"
  unfolding tryP_def by (rule pays_attemptP) (simp add: errP_def split: sum.split)

lemma pays_ticket:
  assumes "\<And>e. \<not> Q (Inl e)"
    and "\<And>s a s'. m s = (Inr a, s') \<Longrightarrow> pays \<mu> B Q (k a) \<or> \<mu> s < \<mu> s' \<and> \<mu> s' \<le> B"
  shows "pays \<mu> B Q (tryP (atomicP m) k)"
  using assms by (auto simp: tryP_def atomicP_def pays_Step errP_def split: prod.splits sum.splits)

text \<open>Turning the result of a paying program into a reply: a reply that counts comes from a result that does.\<close>

lemma pays_attemptP_result:
  "pays \<mu> B Q p \<Longrightarrow> (\<And>r. \<not> Q r \<Longrightarrow> pays \<mu> B Q' (k r)) \<Longrightarrow> pays \<mu> B Q' (attemptP p k)"
  by (induction p rule: prog_induct) (auto simp: pays_Step)

lemma pays_done: "(\<And>e. \<not> Q (Inl e)) \<Longrightarrow> pays \<mu> B Q (errP e)" "\<not> Q (Inr a) \<Longrightarrow> pays \<mu> B Q (okP a)"
  by (simp_all add: errP_def okP_def)

locale tickets =
  fixes \<mu> :: "'s \<Rightarrow> nat" and B :: nat and E :: "'s \<Rightarrow> 's \<Rightarrow> bool"
  assumes rely: "E s s' \<Longrightarrow> \<mu> s \<le> \<mu> s'"
begin

definition sold :: "(nat \<Rightarrow> 'e + 'a \<Rightarrow> bool) \<Rightarrow> nat \<Rightarrow> ('s, 'e, 'a) pool \<Rightarrow> nat set \<Rightarrow> bool" where
  "sold Q start c paid \<longleftrightarrow> (case c of (ps, s) \<Rightarrow>
     finite paid \<and> start \<le> \<mu> s \<and> card paid \<le> min (\<mu> s) B - start
     \<and> (\<forall>i < length ps. i \<notin> paid \<longrightarrow> pays \<mu> B (Q i) (ps ! i)) \<and> (\<forall>p \<in> set ps. withinP (rises \<mu>) p))"

lemma sold_step:
  assumes "pstep E (ps, s) (ps', s')" and "sold Q start (ps, s) paid"
  shows "\<exists>paid'. sold Q start (ps', s') paid'"
proof -
  from assms(1) show ?thesis
  proof (cases rule: pstepE)
    case (turn i f p)
    have "withinP (rises \<mu>) (Step f)" using assms(2) turn by (auto simp: sold_def) (metis nth_mem)
    then have up: "\<mu> s \<le> \<mu> s'" "withinP (rises \<mu>) p"
      using turn by (auto simp: withinP_Step rises_def) (metis snd_conv, metis fst_conv)
    have rest: "\<forall>q \<in> set (ps[i := p]). withinP (rises \<mu>) q"
      using assms(2) up(2) set_update_subset_insert [of ps i p] by (auto simp: sold_def)
    show ?thesis
    proof (cases "i \<in> paid \<or> pays \<mu> B (Q i) p")
      case True
      then have "sold Q start (ps[i := p], s') paid"
        using assms(2) up rest turn(2) by (auto simp: sold_def nth_list_update)
      then show ?thesis using turn by blast
    next
      case False
      then have "pays \<mu> B (Q i) (Step f)" using assms(2) turn by (auto simp: sold_def)
      then have "\<mu> s < \<mu> s'" "\<mu> s' \<le> B" using False turn by (auto simp: pays_Step) (metis fst_conv snd_conv)+
      then have "sold Q start (ps[i := p], s') (insert i paid)"
        using assms(2) rest False turn(2) by (auto simp: sold_def nth_list_update)
      then show ?thesis using turn by blast
    qed
  next
    case outside
    then have "sold Q start (ps, s') paid" using assms(2) rely by (fastforce simp: sold_def)
    then show ?thesis using outside by blast
  qed
qed

lemma at_most:
  assumes "interleaves E (ps, s) (ps', s')"
    and "\<forall>p \<in> set ps. withinP (rises \<mu>) p" and "\<forall>i < length ps. pays \<mu> B (Q i) (ps ! i)"
  shows "card {i. i < length ps' \<and> (\<exists>r. ps' ! i = Done r \<and> Q i r)} \<le> B - \<mu> s"
proof -
  have "\<exists>paid. sold Q (\<mu> s) c paid" if "interleaves E (ps, s) c" for c
    using that
  proof (induction rule: rtranclp_induct)
    case base
    have "sold Q (\<mu> s) (ps, s) {}" using assms(2,3) by (auto simp: sold_def)
    then show ?case by blast
  next
    case (step c c')
    then show ?case using sold_step by (cases c; cases c') blast
  qed
  then obtain paid where paid: "sold Q (\<mu> s) (ps', s') paid" using assms(1) by blast
  then have "{i. i < length ps' \<and> (\<exists>r. ps' ! i = Done r \<and> Q i r)} \<subseteq> paid" by (auto simp: sold_def)
  then have "card {i. i < length ps' \<and> (\<exists>r. ps' ! i = Done r \<and> Q i r)} \<le> card paid"
    using paid by (intro card_mono) (auto simp: sold_def)
  with paid show ?thesis by (auto simp: sold_def)
qed

end

section \<open>Who did what\<close>

text \<open>
  A run with the record of its turns: which program moved, from which state to which. A program awaits a
  ticket when, until one of its own steps takes it, each of its steps keeps a relation and it does not
  come to a result that counts.
\<close>

inductive recorded :: "('s \<Rightarrow> 's \<Rightarrow> bool) \<Rightarrow> ('s, 'e, 'a) pool \<Rightarrow> (nat \<times> 's \<times> 's) list \<Rightarrow> ('s, 'e, 'a) pool \<Rightarrow> bool"
  for E :: "'s \<Rightarrow> 's \<Rightarrow> bool" and c :: "('s, 'e, 'a) pool" where
  start: "recorded E c [] c"
| turn: "recorded E c h (ps, s) \<Longrightarrow> i < length ps \<Longrightarrow> ps ! i = Step f \<Longrightarrow> f s = (p, s')
    \<Longrightarrow> recorded E c (h @ [(i, s, s')]) (ps[i := p], s')"
| outside: "recorded E c h (ps, s) \<Longrightarrow> E s s' \<Longrightarrow> recorded E c h (ps, s')"

lemma recorded_interleaves: "recorded E c h c' \<Longrightarrow> interleaves E c c'"
  by (induction rule: recorded.induct) (auto intro: rtranclp.rtrancl_into_rtrancl pstep.intros)

lemma interleaves_recorded: "interleaves E c c' \<Longrightarrow> \<exists>h. recorded E c h c'"
proof (induction rule: rtranclp_induct)
  case base
  show ?case using recorded.start by blast
next
  case (step d d')
  then show ?case by (cases d; cases d') (auto elim!: pstepE intro: recorded.turn recorded.outside)
qed

lemma recorded_index:
  "recorded E (ps, s) h (ps', s') \<Longrightarrow> length ps' = length ps \<and> (\<forall>i a b. (i, a, b) \<in> set h \<longrightarrow> i < length ps)"
  by (induction h "(ps', s')" arbitrary: ps' s' rule: recorded.induct) auto

primrec awaits :: "('s \<Rightarrow> 's \<Rightarrow> bool) \<Rightarrow> ('s \<Rightarrow> 's \<Rightarrow> bool) \<Rightarrow> ('e + 'a \<Rightarrow> bool) \<Rightarrow> ('s, 'e, 'a) prog \<Rightarrow> bool" where
  "awaits T N Q (Done r) \<longleftrightarrow> \<not> Q r"
| "awaits T N Q (Step f) \<longleftrightarrow> (\<forall>s. case map_prod (awaits T N Q) id (f s) of (b, s') \<Rightarrow> T s s' \<or> N s s' \<and> b)"

lemma awaits_Step: "awaits T N Q (Step f) \<longleftrightarrow> (\<forall>s. T s (snd (f s)) \<or> N s (snd (f s)) \<and> awaits T N Q (fst (f s)))"
  by (simp add: split_beta)

declare awaits.simps(2) [simp del]

lemma awaits_done: "(\<And>e. \<not> Q (Inl e)) \<Longrightarrow> awaits T N Q (errP e)" "\<not> Q (Inr a) \<Longrightarrow> awaits T N Q (okP a)"
  by (simp_all add: errP_def okP_def)

lemma awaits_tryP:
  assumes "withinP N p" and "\<And>e. \<not> Q (Inl e)" and "\<And>a. awaits T N Q (k a)"
  shows "awaits T N Q (tryP p k)"
  using assms(1) unfolding tryP_def
proof (induction p rule: prog_induct)
  case (Done r)
  then show ?case using assms(2,3) by (cases r) (simp_all add: errP_def)
qed (simp add: withinP_Step awaits_Step)

lemma awaits_ticket:
  assumes "\<And>e. \<not> Q (Inl e)"
    and "\<And>s r s'. m s = (r, s') \<Longrightarrow> T s s' \<or> N s s' \<and> (\<forall>a. r = Inr a \<longrightarrow> awaits T N Q (k a))"
  shows "awaits T N Q (tryP (atomicP m) k)"
  unfolding tryP_def atomicP_def attemptP.simps awaits_Step
proof
  fix s
  obtain r s' where m: "m s = (r, s')" by fastforce
  show "T s (snd (map_prod (\<lambda>p. attemptP p (case_sum errP k)) id (case m s of (r, s') \<Rightarrow> (Done r, s'))))
      \<or> N s (snd (map_prod (\<lambda>p. attemptP p (case_sum errP k)) id (case m s of (r, s') \<Rightarrow> (Done r, s'))))
        \<and> awaits T N Q (fst (map_prod (\<lambda>p. attemptP p (case_sum errP k)) id (case m s of (r, s') \<Rightarrow> (Done r, s'))))"
    using assms(2) [OF m] assms(1) by (cases r) (auto simp: m errP_def)
qed

lemma awaits_focusP:
  assumes "awaits T' N' Q p" and "\<And>s x. T' (get s) x \<Longrightarrow> T s (put x s)" and "\<And>s x. N' (get s) x \<Longrightarrow> N s (put x s)"
  shows "awaits T N Q (focusP get put p)"
  using assms(1) by (induction p rule: prog_induct) (simp_all add: awaits_Step split_beta, metis assms(2,3))

lemma awaits_result:
  "awaits T N Q p \<Longrightarrow> (\<And>r. \<not> Q r \<Longrightarrow> awaits T N Q' (k r)) \<Longrightarrow> awaits T N Q' (attemptP p k)"
  by (induction p rule: prog_induct) (auto simp: awaits_Step)

text \<open>In every run, a program that awaits and has not taken the ticket has kept the relation and still awaits.\<close>

lemma recorded_awaits:
  assumes "recorded E (ps, s) h (ps', s')" and "i < length ps" and "awaits T N Q (ps ! i)"
    and "\<forall>a b. (i, a, b) \<in> set h \<longrightarrow> \<not> T a b"
  shows "(\<forall>a b. (i, a, b) \<in> set h \<longrightarrow> N a b) \<and> awaits T N Q (ps' ! i)"
  using assms
proof (induction h "(ps', s')" arbitrary: ps' s' rule: recorded.induct)
  case (turn h qs t j f p t')
  have IH: "\<forall>a b. (i, a, b) \<in> set h \<longrightarrow> N a b" "awaits T N Q (qs ! i)" using turn by simp_all
  have "N t t' \<and> awaits T N Q p" if "j = i"
    using IH(2) turn.hyps that turn.prems(3) by (auto simp: awaits_Step) (metis fst_conv snd_conv)+
  with IH turn.hyps show ?case by (cases "j = i") auto
qed auto

text \<open>What a program never does, nobody has recorded of it.\<close>

lemma recorded_within:
  assumes "recorded E (ps, s) h (ps', s')" and "i < length ps" and "withinP P (ps ! i)"
  shows "(\<forall>a b. (i, a, b) \<in> set h \<longrightarrow> P a b) \<and> withinP P (ps' ! i)"
  using assms
proof (induction h "(ps', s')" arbitrary: ps' s' rule: recorded.induct)
  case (turn h qs t j f p t')
  have IH: "\<forall>a b. (i, a, b) \<in> set h \<longrightarrow> P a b" "withinP P (qs ! i)" using turn by simp_all
  have "P t t' \<and> withinP P p" if "j = i"
    using IH(2) turn.hyps that by (auto simp: withinP_Step) (metis fst_conv snd_conv)+
  with IH turn.hyps show ?case by (cases "j = i") auto
qed auto

context frame
begin

lemma recorded_frame:
  assumes "recorded E (ps, s) h (ps', s')" and "\<forall>(i, a, b) \<in> set h. P a b" and "\<And>s s'. E s s' \<Longrightarrow> P s s'"
  shows "P s s'"
  using assms(1,2)
proof (induction h "(ps', s')" arbitrary: ps' s' rule: recorded.induct)
  case (turn h qs t j f p t')
  then show ?case using steps [of s t t'] by simp
next
  case (outside h qs t t')
  then show ?case using steps [of s t t'] assms(3) by simp
qed (rule stays)

end

definition risers :: "('s \<Rightarrow> nat) \<Rightarrow> (nat \<times> 's \<times> 's) list \<Rightarrow> nat set" where
  "risers \<mu> h = {i. \<exists>a b. (i, a, b) \<in> set h \<and> \<mu> a < \<mu> b}"

lemma risers_append:
  "risers \<mu> [] = {}" "risers \<mu> (h @ [(i, a, b)]) = (if \<mu> a < \<mu> b then insert i (risers \<mu> h) else risers \<mu> h)"
  by (auto simp: risers_def)

context tickets
begin

lemma recorded_risers:
  assumes "recorded E (ps, s) h (ps', s')" and "\<forall>p \<in> set ps. withinP (rises \<mu>) p"
  shows "finite (risers \<mu> h) \<and> card (risers \<mu> h) + \<mu> s \<le> \<mu> s' \<and> (\<forall>p \<in> set ps'. withinP (rises \<mu>) p)"
  using assms
proof (induction h "(ps', s')" arbitrary: ps' s' rule: recorded.induct)
  case (turn h qs t j f p t')
  have IH: "finite (risers \<mu> h)" "card (risers \<mu> h) + \<mu> s \<le> \<mu> t" "\<forall>p \<in> set qs. withinP (rises \<mu>) p"
    using turn by simp_all
  have "withinP (rises \<mu>) (Step f)" using IH(3) turn.hyps nth_mem by metis
  then have up: "\<mu> t \<le> \<mu> t'" "withinP (rises \<mu>) p"
    using turn.hyps by (auto simp: withinP_Step rises_def) (metis snd_conv, metis fst_conv)
  have "\<forall>q \<in> set (qs[j := p]). withinP (rises \<mu>) q" using IH(3) up(2) set_update_subset_insert [of qs j p] by auto
  with IH up show ?case by (auto simp: risers_append card_insert_if)
next
  case (outside h qs t t')
  then show ?case using rely [of t t'] by auto
qed (simp add: risers_append)

end

end
