(* ===== verification/Service_Router.thy ===== *)
theory Service_Router
  imports Service_Queries Service_End
begin

text \<open>
  The router of \<open>crates/verification-service/src/lib.rs\<close>: which call runs which handler on which part of
  the service's state, with the guard in front of the operators' routes, and what holds of the service
  after any sequence of calls. A call is taken as one step. Extracting the path, the query and the JSON
  body of a request is the web framework's work: a call carries what it extracts.
\<close>

section \<open>Calls and replies\<close>

record ('r, 'w, 'ch) service =
  sv_world :: "('r, 'w, 'ch) world"
  sv_treasuries :: "'w treasuries"
  sv_nonces :: nonce_store

datatype call =
    AdminNonce
  | AdminLogin login_request
  | AdminOverview "string option"
  | AdminLogout "string option"
  | CreateSession create_session_request
  | SubmitProof string submit_proof_request
  | EndSession string string
  | PauseSession string string
  | ResumeSession string string
  | WalletPayouts string "int option"
  | WalletEarnings string
  | WalletEarnings24h string
  | WalletSessions string
  | WalletStaking string
  | WalletAlerts string
  | EntityShare
  | Reserve
  | Sites
  | Commodities
  | Estimate estimate_query
  | Health
  | Metrics

datatype reply =
    Failed nat string
  | NoContent nat
  | NonceIssued nonce_response
  | LoggedIn login_response
  | Overview admin_overview
  | Created create_session_response
  | ProofTaken submit_proof_response
  | Ended nat string
  | Paused bool
  | Payouts "payout_row list"
  | Earnings "earnings_row list"
  | Earnings24h earnings_24h
  | Sessions "session_summary list"
  | Staking staking_summary
  | Alerts "wallet_alert list"
  | Share company_mining_share_response
  | Reserves reserve_response
  | Roster "node_site list"
  | Parameters "commodity_params list"
  | Estimated estimate_response
  | Healthy "nat \<times> (string \<times> string) list"
  | MetricsText nat string
  | StillScanning

text \<open>
  What the environment supplies with a call: the peer's address, the readings of the clocks, the fresh
  nonce, the order in which the site table is iterated, the scale of the database's quotients and the
  text that \<open>metrics_handler\<close> of \<open>Metrics\<close> returned.
\<close>

record arrival =
  av_request :: request
  av_ip :: string
  av_instants :: "nat \<Rightarrow> int"
  av_fresh :: string
  av_site_order :: "(string \<times> node_site) list"
  av_scale :: nat
  av_metrics :: string

definition api_reply :: "('a \<Rightarrow> reply) \<Rightarrow> api_error + 'a \<Rightarrow> reply" where
  "api_reply f r = (case r of Inl e \<Rightarrow> Failed (fst (into_response e)) (snd (into_response e)) | Inr a \<Rightarrow> f a)"

definition auth_reply :: "('a \<Rightarrow> reply) \<Rightarrow> auth_error + 'a \<Rightarrow> reply" where
  "auth_reply f r = (case r of Inl e \<Rightarrow> Failed (fst (auth_response e)) (snd (auth_response e)) | Inr a \<Rightarrow> f a)"

definition scanned :: "('a \<Rightarrow> reply) \<Rightarrow> 'a option \<Rightarrow> reply" where
  "scanned f r = (case r of None \<Rightarrow> StillScanning | Some a \<Rightarrow> f a)"

definition on_world ::
    "(('r, 'w, 'ch) world, api_error, 'a) act \<Rightarrow> ('a \<Rightarrow> reply) \<Rightarrow> ('r, 'w, 'ch) service \<Rightarrow> reply \<times> ('r, 'w, 'ch) service" where
  "on_world m f sv = (case m (sv_world sv) of (r, wd) \<Rightarrow> (api_reply f r, sv\<lparr>sv_world := wd\<rparr>))"

definition serve_overview ::
    "('r, 'w, 'ch, 'sk, 'p) app_state \<Rightarrow> arrival \<Rightarrow> ('r, 'w, 'ch) service \<Rightarrow> reply \<times> ('r, 'w, 'ch) service" where
  "serve_overview st av sv =
     (case overview (av_scale av) st (av_request av) (av_instants av) (sv_world sv, sv_treasuries sv) of (r, wd, ts) \<Rightarrow>
        (auth_reply Overview r, sv\<lparr>sv_world := wd, sv_treasuries := ts\<rparr>))"

definition serve_reserve ::
    "arrival \<Rightarrow> ('r, 'w, 'ch) service \<Rightarrow> reply \<times> ('r, 'w, 'ch) service" where
  "serve_reserve av sv =
     (case reserve (av_instants av) (sv_treasuries sv) (wd_ext (sv_world sv)) of (r, ts, w) \<Rightarrow>
        (Reserves r, sv\<lparr>sv_world := (sv_world sv)\<lparr>wd_ext := w\<rparr>, sv_treasuries := ts\<rparr>))"

definition guarded ::
    "admin_libs \<Rightarrow> admin_config \<Rightarrow> arrival \<Rightarrow> string option
       \<Rightarrow> (('r, 'w, 'ch) service \<Rightarrow> reply \<times> ('r, 'w, 'ch) service)
       \<Rightarrow> ('r, 'w, 'ch) service \<Rightarrow> reply \<times> ('r, 'w, 'ch) service" where
  "guarded L cfg av header run sv =
     (case admin_guard L cfg (rq_clock (av_request av) 0) header (Inr ()) of
        Inl e \<Rightarrow> (Failed (fst (auth_response e)) (snd (auth_response e)), sv)
      | Inr u \<Rightarrow> run sv)"

fun dispatch ::
    "('r, 'w, 'ch, 'sk, 'p) app_state \<Rightarrow> admin_libs \<Rightarrow> admin_config \<Rightarrow> arrival \<Rightarrow> call
       \<Rightarrow> ('r, 'w, 'ch) service \<Rightarrow> reply \<times> ('r, 'w, 'ch) service" where
  "dispatch st L cfg av AdminNonce sv =
     (case handle_nonce L cfg (av_fresh av) (av_instants av 0) (rq_clock (av_request av) 0) (sv_nonces sv) of (r, ns) \<Rightarrow>
        (auth_reply NonceIssued r, sv\<lparr>sv_nonces := ns\<rparr>))"
| "dispatch st L cfg av (AdminLogin body) sv =
     (case handle_login L cfg (av_instants av 0) (rq_clock (av_request av) 0) body (sv_nonces sv) of (r, ns) \<Rightarrow>
        (auth_reply LoggedIn r, sv\<lparr>sv_nonces := ns\<rparr>))"
| "dispatch st L cfg av (AdminOverview header) sv = guarded L cfg av header (serve_overview st av) sv"
| "dispatch st L cfg av (AdminLogout header) sv = guarded L cfg av header (\<lambda>sv. (NoContent logout, sv)) sv"
| "dispatch st L cfg av (CreateSession body) sv =
     on_world (handle_create_session st (av_request av) (av_ip av) body) (scanned Created) sv"
| "dispatch st L cfg av (SubmitProof sid body) sv =
     on_world (handle_submit_proof st (av_request av) sid body) ProofTaken sv"
| "dispatch st L cfg av (EndSession sid nonce) sv =
     on_world (handle_end_session st (av_request av) sid nonce) (\<lambda>(status, msg). Ended status msg) sv"
| "dispatch st L cfg av (PauseSession sid wallet) sv = on_world (pause_session st sid wallet) Paused sv"
| "dispatch st L cfg av (ResumeSession sid wallet) sv = on_world (resume_session st sid wallet) Paused sv"
| "dispatch st L cfg av (WalletPayouts wallet limit) sv =
     on_world (wallet_payouts st (av_request av) wallet limit) Payouts sv"
| "dispatch st L cfg av (WalletEarnings wallet) sv = on_world (wallet_earnings st (av_request av) wallet) Earnings sv"
| "dispatch st L cfg av (WalletEarnings24h wallet) sv =
     on_world (wallet_earnings_24h st (av_request av) wallet) Earnings24h sv"
| "dispatch st L cfg av (WalletSessions wallet) sv =
     on_world (wallet_sessions st (av_request av) wallet) (scanned Sessions) sv"
| "dispatch st L cfg av (WalletStaking wallet) sv = on_world (wallet_staking st wallet) Staking sv"
| "dispatch st L cfg av (WalletAlerts wallet) sv = on_world (wallet_alerts st (av_request av) wallet) Alerts sv"
| "dispatch st L cfg av EntityShare sv = on_world (handle_entity_share (av_scale av) st (av_request av)) Share sv"
| "dispatch st L cfg av Reserve sv = serve_reserve av sv"
| "dispatch st L cfg av Sites sv = (Roster (sites (av_site_order av)), sv)"
| "dispatch st L cfg av Commodities sv = (Parameters commodities, sv)"
| "dispatch st L cfg av (Estimate params) sv = on_world (estimate st (av_request av) params) (scanned Estimated) sv"
| "dispatch st L cfg av Health sv = (Healthy health_check, sv)"
| "dispatch st L cfg av Metrics sv = (MetricsText 200 (av_metrics av), sv)"

text \<open>The service after a sequence of calls.\<close>

definition serve ::
    "('r, 'w, 'ch, 'sk, 'p) app_state \<Rightarrow> admin_libs \<Rightarrow> admin_config \<Rightarrow> (arrival \<times> call) list
       \<Rightarrow> ('r, 'w, 'ch) service \<Rightarrow> ('r, 'w, 'ch) service" where
  "serve st L cfg calls sv = fold (\<lambda>(av, c) sv. snd (dispatch st L cfg av c sv)) calls sv"

section \<open>The ledger grows\<close>

text \<open>
  From one state of the world to a later one: proposals and anomaly events are only appended, the new
  proposals are pending, and the two invariants, at most one proposal per session and no price sample
  from before its session, are kept.
\<close>

definition averages_ok :: "('r, 'w, 'ch) world \<Rightarrow> bool" where
  "averages_ok wd \<longleftrightarrow> (\<forall>sid c. wd_twap wd sid = Some c \<longrightarrow> twap_inv c)"

definition appended :: "db \<Rightarrow> db \<Rightarrow> bool" where
  "appended d d' \<longleftrightarrow> (\<exists>ps. db_proposals d' = db_proposals d @ ps \<and> (\<forall>p \<in> set ps. mr_status p = ''Pending''))
     \<and> (\<exists>as. db_anomalies d' = db_anomalies d @ as) \<and> (one_per_session d \<longrightarrow> one_per_session d')"

definition grows :: "('r, 'w, 'ch) world \<Rightarrow> ('r, 'w, 'ch) world \<Rightarrow> bool" where
  "grows wd wd' \<longleftrightarrow> appended (wd_db wd) (wd_db wd') \<and> (averages_ok wd \<longrightarrow> averages_ok wd')"

lemma appended_refl [simp]: "appended d d"
  by (simp add: appended_def)

lemma appended_trans: "appended a b \<Longrightarrow> appended b c \<Longrightarrow> appended a c"
  unfolding appended_def by fastforce

interpretation grows: frame grows
  by unfold_locales (auto simp: grows_def intro: appended_trans)

lemma within_parts:
  "within grows (onRedis m)" "within grows (onExt m)"
  by (simp_all add: within_def grows_def averages_ok_def onRedis_def onExt_def split: prod.splits)

lemma within_onDb: "(\<And>d. appended d (snd (m d))) \<Longrightarrow> within grows (onDb m)"
  by (auto simp: within_def grows_def averages_ok_def onDb_def split: prod.splits) (metis snd_conv)

lemma queries_append:
  "appended d (snd (get_payouts_for_wallet f k l d))" "appended d (snd (get_earnings_by_commodity f k d))"
  "appended d (snd (get_earnings_24h f now k d))" "appended d (snd (company_mining_share scale f k d))"
  "appended d (snd (get_review_flags_for_wallet f k l d))" "appended d (snd (count_anomaly_events f d))"
  "appended d (snd (total_minted_wei_24h f now d))"
  by (auto simp: get_payouts_for_wallet_def get_earnings_by_commodity_def get_earnings_24h_def company_mining_share_def
      get_review_flags_for_wallet_def count_anomaly_events_def total_minted_wei_24h_def as_bigint_def pg_defs Let_def
      split: option.splits)

lemma inserts_append:
  "appended d (snd (insert_anomaly_event L f e d))"
  "mp_status p = Pending \<Longrightarrow> appended d (snd (insert_mint_proposal L f i now p d))"
  by (auto simp: insert_anomaly_event_def insert_mint_proposal_def pg_defs appended_def one_per_session_def
      split: option.splits sum.splits)

lemma within_steps:
  "within grows (take_calculator sid)" "within grows (payout_config_with_live_edge rq)" "within grows (staking_summary st w)"
  by (auto simp: within_def grows_def averages_ok_def take_calculator_def payout_config_with_live_edge_def
      staking_summary_def split: option.splits prod.splits)

lemma within_submit_all: "within grows (submit_all xs c p)"
  by (induction xs) (auto intro!: grows.combinators within_parts)

lemma within_sample: "within grows (sample_session st rq sid c)"
  by (auto simp: within_def grows_def averages_ok_def sample_session_def sample_into_twap_def Let_def twap_inv_add_sample
      split: option.splits prod.splits sum.splits)

lemma within_assess: "within grows (assess_proof st rq sid wallet result)"
proof -
  have "grows wd (snd (assess_proof st rq sid wallet result wd))" for wd
  proof -
    obtain a ch where p: "process (st_try_send st) (rq_clock rq 3) sid wallet [result] (wd_events wd) = (a, ch)" by fastforce
    have 1: "grows wd (wd\<lparr>wd_events := ch\<rparr>)" by (simp add: grows_def averages_ok_def)
    have 2: "within grows (tryE (logE (onDb (insert_anomaly_event (st_pg st) f e))) (\<lambda>_. okE level))" for f e level
      by (intro grows.combinators within_onDb inserts_append)
    have "grows wd (snd (tryE (logE (onDb (insert_anomaly_event (st_pg st) f e))) (\<lambda>_. okE level) (wd\<lparr>wd_events := ch\<rparr>)))" for f e level
      by (rule grows.steps [OF 1 2 [unfolded within_def, rule_format]])
    with 1 show ?thesis unfolding assess_proof_def p by (auto simp: Let_def)
  qed
  then show ?thesis by (simp add: within_def)
qed

lemma within_create: "within grows (handle_create_session st rq ip body)"
  unfolding handle_create_session_def Let_def
  by (intro grows.combinators within_parts)
     (auto simp: within_def grows_def averages_ok_def twap_inv_new)

lemma within_submit: "within grows (handle_submit_proof st rq sid body)"
  unfolding handle_submit_proof_def count_proof_def Let_def
  by (intro grows.combinators within_parts within_assess within_sample)

lemma within_store: "mp_status p = Pending \<Longrightarrow> within grows (sign_and_store st rq sid ctx p)"
  unfolding sign_and_store_def
  by (intro grows.combinators within_parts within_onDb inserts_append) (auto simp: within_def grows_def averages_ok_def)

lemma within_end: "within grows (handle_end_session st rq sid nonce)"
  unfolding handle_end_session_def settle_session_def Let_def
  by (intro grows.combinators within_parts within_steps within_submit_all within_onDb queries_append within_store)
     (simp add: unsigned_proposal_def)

lemmas within_handlers = within_create within_submit within_end

lemma within_controls: "within grows (pause_session st sid w)" "within grows (resume_session st sid w)"
  unfolding pause_session_def resume_session_def authorize_session_owner_def
  by (intro grows.combinators within_parts)+

section \<open>Reads\<close>

text \<open>The parts of the world that matter to sessions and payouts, with Redis up to its contract.\<close>

definition reads :: "('r \<Rightarrow> keyspace) \<Rightarrow> ('r, 'w, 'ch) world \<Rightarrow> ('r, 'w, 'ch) world \<Rightarrow> bool" where
  "reads view wd wd' \<longleftrightarrow> wd_db wd' = wd_db wd \<and> wd_twap wd' = wd_twap wd \<and> wd_active wd' = wd_active wd
     \<and> wd_events wd' = wd_events wd \<and> view (wd_redis wd') = view (wd_redis wd)"

interpretation reads: frame "reads view" for view
  by unfold_locales (auto simp: reads_def)

lemma reads_grows: "reads view wd wd' \<Longrightarrow> grows wd wd'"
  by (simp add: reads_def grows_def averages_ok_def)

lemma within_same_sim: "sim view m m' \<Longrightarrow> (\<And>s. snd (m' s) = s) \<Longrightarrow> within (same view) m"
  by (simp add: within_def same_def sim_def)

text \<open>Listing sessions also scans; a scan is documented to leave the keys alone.\<close>

locale redis_scan = redis +
  assumes scan_reads: "view (snd (r_scan R cur pat s)) = view s"
begin

lemma read_commands:
  "within (same view) (r_get R k)" "within (same view) (r_exists R k)" "within (same view) (r_scan R cur pat)"
  by (rule within_same_sim [OF sim_get], simp add: ks_get_def)
     (rule within_same_sim [OF sim_exists], simp add: ks_exists_def, simp add: within_def same_def scan_reads)

lemma read_i64: "within (same view) (r_get_i64 R k)"
  unfolding r_get_i64_def by (intro same.combinators read_commands)

lemma read_serde: "within (same view) (serdeE r)"
  unfolding serdeE_def by (intro same.combinators)

lemma read_redisE: "within (same view) m \<Longrightarrow> within (same view) (redisE m)"
  unfolding redisE_def by (rule same.map_errE)

lemma read_summary: "within (same view) (summarize_session R L sid ctx)"
  unfolding summarize_session_def get_last_activity_def get_session_hashrate_def get_verified_proof_count_def
    get_rejected_proof_count_def get_session_counter_def is_paused_def
  by (intro same.combinators read_redisE read_i64 read_commands)

lemma read_keys: "within (same view) (summarize_keys R L pre keys acc)"
  by (induction keys arbitrary: acc)
     (auto intro!: same.combinators read_redisE read_commands read_serde read_summary)

lemma read_scan: "within (same view) (scan_summaries fuel R L wallet cur acc)"
  by (induction fuel arbitrary: cur acc)
     (auto intro!: same.combinators read_redisE read_commands read_keys)

lemma read_list: "within (same view) (list_sessions_for_wallet fuel R L wallet)"
  unfolding list_sessions_for_wallet_def by (rule read_scan)

end

interpretation keyspace_scan: redis_scan keyspace_ops id
  by unfold_locales (simp add: ks_scan_def)

lemma reads_onRedis: "within (same view) m \<Longrightarrow> within (reads view) (onRedis m)"
  by (auto simp: within_def same_def reads_def onRedis_def split: prod.splits) (metis snd_conv)

lemma reads_onExt: "within (reads view) (onExt m)"
  by (simp add: within_def reads_def onExt_def split: prod.splits)

lemma reads_onDb: "(\<And>d. snd (m d) = d) \<Longrightarrow> within (reads view) (onDb m)"
  by (auto simp: within_def reads_def onDb_def split: prod.splits) (metis snd_conv)

lemma queries_pure:
  "snd (get_payouts_for_wallet f k l d) = d" "snd (get_earnings_by_commodity f k d) = d"
  "snd (get_earnings_24h f now k d) = d" "snd (company_mining_share scale f k d) = d"
  "snd (get_review_flags_for_wallet f k l d) = d" "snd (count_anomaly_events f d) = d"
  by (auto simp: get_payouts_for_wallet_def get_earnings_by_commodity_def get_earnings_24h_def company_mining_share_def
      get_review_flags_for_wallet_def count_anomaly_events_def as_bigint_def pg_defs Let_def split: option.splits)

lemma reads_steps:
  "within (reads view) (payout_config_with_live_edge rq)" "within (reads view) (staking_summary st w)"
  by (auto simp: within_def reads_def payout_config_with_live_edge_def staking_summary_def split: option.splits prod.splits)

lemmas reads_rules = reads.combinators reads_onExt reads_onDb queries_pure reads_steps

lemma reads_queries:
  "within (reads view) (wallet_payouts st rq w l)" "within (reads view) (wallet_earnings st rq w)"
  "within (reads view) (wallet_earnings_24h st rq w)" "within (reads view) (wallet_staking st w)"
  "within (reads view) (wallet_alerts st rq w)" "within (reads view) (handle_entity_share scale st rq)"
  unfolding wallet_payouts_def wallet_earnings_def wallet_earnings_24h_def wallet_staking_def wallet_alerts_def
    handle_entity_share_def Let_def
  by (intro reads_rules)+

lemma reads_listings:
  assumes "\<And>fuel w. within (same view) (list_sessions_for_wallet fuel (st_redis st) (st_libs st) w)"
  shows "within (reads view) (wallet_sessions st rq w)" "within (reads view) (estimate st rq q)"
proof -
  note list = reads_onRedis [OF assms]
  show "within (reads view) (wallet_sessions st rq w)"
    unfolding wallet_sessions_def by (intro reads_rules list) (simp add: within_def reads.stays)
  show "within (reads view) (estimate st rq q)"
    unfolding estimate_def estimate_hashrate_def Let_def split_def by (intro reads_rules list)
qed

lemma reads_overview:
  fixes view :: "'r \<Rightarrow> keyspace" and wd :: "('r, 'w, 'ch) world"
  assumes "overview scale st rq clock (wd, ts) = (r, wd', ts')"
  shows "reads view wd wd'"
proof -
  obtain answers ts'' w' where a: "ask_treasuries clock 0 ts (wd_ext wd) = (answers, ts'', w')" by (metis prod_cases3)
  obtain x y where f: "foldl overview_step (0, 0) answers = (x, y)" by fastforce
  define m :: "(('r, 'w, 'ch) world, auth_error, admin_overview) act" where "m = tryE (internalE (onDb (company_mining_share scale (rq_fault rq 0)
      (case map_option (wallet_db_key st) (st_company_wallet st) of Some k \<Rightarrow> k | None \<Rightarrow> []))))
      (\<lambda>share. tryE (internalE (onDb (count_anomaly_events (rq_fault rq 1)))) (\<lambda>flagged_events.
         okE \<lparr>ao_active_sessions = wd_active wd, ao_reserve_total_usd = show_u128 x, ao_total_redeemed_usd = show_u128 y,
              ao_company_mining_share_bps = (case try_u32 (es_share_bps share) of Some b \<Rightarrow> b | None \<Rightarrow> 0),
              ao_flagged_events = flagged_events,
              ao_daily_mint_ceiling_prm = daily_ceiling (st_mint_ceiling st) (st_active_users st) (st_avg_daily st)\<rparr>))"
  have "within (reads view) m" unfolding m_def internalE_def by (intro reads_rules)
  moreover have "wd' = snd (m (wd\<lparr>wd_ext := w'\<rparr>))"
    using assms by (simp add: overview_def a f Let_def m_def split: prod.splits)
  moreover have "reads view wd (wd\<lparr>wd_ext := w'\<rparr>)" by (simp add: reads_def)
  ultimately show ?thesis by (simp add: within_def reads.steps)
qed

lemma within_on_world: "within P m \<Longrightarrow> P (sv_world sv) (sv_world (snd (on_world m f sv)))"
  by (auto simp: on_world_def within_def split: prod.splits) (metis snd_conv)

lemma on_world_rest [simp]:
  "sv_nonces (snd (on_world m f sv)) = sv_nonces sv" "sv_treasuries (snd (on_world m f sv)) = sv_treasuries sv"
  by (simp_all add: on_world_def split: prod.splits)

section \<open>What the service guarantees\<close>

fun reading :: "call \<Rightarrow> bool" where
  "reading AdminNonce = False"
| "reading (AdminLogin b) = False"
| "reading (CreateSession b) = False"
| "reading (SubmitProof s b) = False"
| "reading (EndSession s n) = False"
| "reading (PauseSession s w) = False"
| "reading (ResumeSession s w) = False"
| "reading _ = True"

lemma reads_guarded:
  "(\<And>sv. reads view (sv_world sv) (sv_world (snd (run sv))) \<and> sv_nonces (snd (run sv)) = sv_nonces sv) \<Longrightarrow>
     reads view (sv_world sv) (sv_world (snd (guarded L cfg av header run sv)))
       \<and> sv_nonces (snd (guarded L cfg av header run sv)) = sv_nonces sv"
  by (auto simp: guarded_def reads.stays split: sum.splits)

lemma reads_serve_overview:
  "reads view (sv_world sv) (sv_world (snd (serve_overview st av sv)))
     \<and> sv_nonces (snd (serve_overview st av sv)) = sv_nonces sv"
  using reads_overview by (fastforce simp: serve_overview_def split: prod.splits)

lemma reads_serve_reserve:
  "reads view (sv_world sv) (sv_world (snd (serve_reserve av sv))) \<and> sv_nonces (snd (serve_reserve av sv)) = sv_nonces sv"
  by (auto simp: serve_reserve_def reads_def split: prod.splits)

lemma reads_guarded_overview:
  "reads view (sv_world sv) (sv_world (snd (guarded L cfg av header (serve_overview st av) sv)))
     \<and> sv_nonces (snd (guarded L cfg av header (serve_overview st av) sv)) = sv_nonces sv"
  by (rule reads_guarded) (rule reads_serve_overview)

lemma reads_guarded_logout:
  "reads view (sv_world sv) (sv_world (snd (guarded L cfg av header (\<lambda>sv. (NoContent logout, sv)) sv)))
     \<and> sv_nonces (snd (guarded L cfg av header (\<lambda>sv. (NoContent logout, sv)) sv)) = sv_nonces sv"
  by (rule reads_guarded) (simp add: reads.stays)

lemmas reads_served = reads_queries [THEN within_on_world] reads_listings [THEN within_on_world]
  reads_guarded_overview reads_guarded_logout reads_serve_reserve reads.stays

lemma reading_dispatch:
  assumes "\<And>fuel w. within (same view) (list_sessions_for_wallet fuel (st_redis st) (st_libs st) w)" and "reading c"
  shows "reads view (sv_world sv) (sv_world (snd (dispatch st L cfg av c sv)))
    \<and> sv_nonces (snd (dispatch st L cfg av c sv)) = sv_nonces sv"
  using assms by (cases c) (simp_all add: reads_served)

lemma grows_dispatch: "grows (sv_world sv) (sv_world (snd (dispatch st L cfg av c sv)))"
proof (cases "reading c")
  case True
  have "reads (\<lambda>_. empty_ks) (sv_world sv) (sv_world (snd (dispatch st L cfg av c sv)))"
    by (rule conjunct1, rule reading_dispatch) (simp_all add: True within_def same_def)
  then show ?thesis by (rule reads_grows)
next
  case False
  then show ?thesis
    by (cases c) (simp_all add: within_handlers [THEN within_on_world] within_controls [THEN within_on_world] grows.stays
        split: prod.splits)
qed

text \<open>The nonce store is a finite map.\<close>

lemma nonces_distinct:
  assumes "distinct (map fst (sv_nonces sv))"
  shows "distinct (map fst (sv_nonces (snd (dispatch st L cfg av c sv))))"
proof (cases "reading c")
  case True
  have "sv_nonces (snd (dispatch st L cfg av c sv)) = sv_nonces sv"
    by (rule conjunct2, rule reading_dispatch [where view = "\<lambda>_. empty_ks"]) (simp_all add: True within_def same_def)
  with assms show ?thesis by simp
next
  case False
  then show ?thesis
    using assms
    by (cases c) (auto simp: handle_nonce_def handle_login_def issue_nonce_def distinct_update distinct_pruned
        distinct_delete consume_nonce_def split: prod.splits option.splits sum.splits bool.splits if_splits)
qed

text \<open>Only the end of a session adds a proposal, and only for that session.\<close>

abbreviation proposals :: "('r, 'w, 'ch) world \<Rightarrow> proposal_row list" where
  "proposals wd \<equiv> db_proposals (wd_db wd)"

lemma same_proposals_parts:
  "within (same proposals) (onRedis m)" "within (same proposals) (onExt m)"
  by (simp_all add: within_def same_def onRedis_def onExt_def split: prod.splits)

lemma same_proposals_anomaly: "within (same proposals) (onDb (insert_anomaly_event L f e))"
  by (auto simp: within_def same_def onDb_def insert_anomaly_event_def pg_defs split: prod.splits option.splits sum.splits)

lemma same_proposals_assess: "within (same proposals) (assess_proof st rq sid wallet result)"
proof -
  have 1: "within (same proposals) (tryE (logE (onDb (insert_anomaly_event (st_pg st) f e))) (\<lambda>_. okE level))" for f e level
    by (intro same.combinators same_proposals_anomaly)
  have "proposals (snd (assess_proof st rq sid wallet result wd)) = proposals wd" for wd
    using 1 [unfolded within_def same_def, rule_format, of _ _ _ "wd\<lparr>wd_events := ch\<rparr>" for ch]
    by (auto simp: assess_proof_def Let_def split: prod.splits)
  then show ?thesis by (simp add: within_def same_def)
qed

lemma same_proposals_sample: "within (same proposals) (sample_session st rq sid c)"
  by (auto simp: within_def same_def sample_session_def split: option.splits prod.splits)

lemma same_proposals_create: "within (same proposals) (handle_create_session st rq ip body)"
  unfolding handle_create_session_def Let_def
  by (intro same.combinators same_proposals_parts) (simp add: within_def same_def)

lemma same_proposals_submit: "within (same proposals) (handle_submit_proof st rq sid b)"
  unfolding handle_submit_proof_def count_proof_def Let_def
  by (intro same.combinators same_proposals_parts same_proposals_assess same_proposals_sample)

lemma same_proposals_controls:
  "within (same proposals) (pause_session st sid w)" "within (same proposals) (resume_session st sid w)"
  unfolding pause_session_def resume_session_def authorize_session_owner_def
  by (intro same.combinators same_proposals_parts)+

lemmas same_proposals_handlers = same_proposals_create same_proposals_submit same_proposals_controls

lemma end_session_proposals:
  "\<exists>ps. proposals (snd (handle_end_session st rq sid nonce wd)) = proposals wd @ ps
     \<and> (\<forall>p \<in> set ps. mr_status p = ''Pending'' \<and> mr_session_id p = sid)"
proof (cases "wd_db (snd (handle_end_session st rq sid nonce wd)) = wd_db wd")
  case False
  from end_session_settles [OF this] obtain ctx twap att wd' where
    w: "wd_db wd' = wd_db wd" and eq: "handle_end_session st rq sid nonce wd = settle_session st rq (SessionId sid) ctx twap att wd'"
    by blast
  then have "wd_db (snd (settle_session st rq (SessionId sid) ctx twap att wd')) \<noteq> wd_db wd'" using False by simp
  from settle_session_changed [OF this] show ?thesis unfolding eq by (auto simp: w)
qed auto

lemma dispatch_proposals:
  "\<exists>ps. proposals (sv_world (snd (dispatch st L cfg av c sv))) = proposals (sv_world sv) @ ps
     \<and> (\<forall>p \<in> set ps. mr_status p = ''Pending'' \<and> (\<exists>nonce. c = EndSession (mr_session_id p) nonce))"
proof (cases "\<exists>sid nonce. c = EndSession sid nonce")
  case True
  then obtain sid nonce where c: "c = EndSession sid nonce" by blast
  have "sv_world (snd (dispatch st L cfg av c sv)) = snd (handle_end_session st (av_request av) sid nonce (sv_world sv))"
    by (simp add: c on_world_def split: prod.splits)
  then show ?thesis using end_session_proposals [of st "av_request av" sid nonce "sv_world sv"] c by auto
next
  case False
  have "same proposals (sv_world sv) (sv_world (snd (dispatch st L cfg av c sv)))"
  proof (cases "reading c")
    case True
    have "reads (\<lambda>_. empty_ks) (sv_world sv) (sv_world (snd (dispatch st L cfg av c sv)))"
      by (rule conjunct1, rule reading_dispatch) (simp_all add: True within_def same_def)
    then show ?thesis by (simp add: reads_def same_def)
  next
    case f: False
    then show ?thesis
      using False by (cases c) (simp_all add: same_proposals_handlers [THEN within_on_world] same.stays split: prod.splits)
  qed
  then show ?thesis by (simp add: same_def)
qed

lemma serve_Cons: "serve st L cfg ((av, c) # calls) sv = serve st L cfg calls (snd (dispatch st L cfg av c sv))"
  by (simp add: serve_def)

lemma serve_proposals:
  "\<exists>ps. proposals (sv_world (serve st L cfg calls sv)) = proposals (sv_world sv) @ ps
     \<and> (\<forall>p \<in> set ps. mr_status p = ''Pending'' \<and> (\<exists>av nonce. (av, EndSession (mr_session_id p) nonce) \<in> set calls))"
proof (induction calls arbitrary: sv)
  case (Cons ac calls)
  obtain av c where ac: "ac = (av, c)" by fastforce
  obtain ps where ps: "proposals (sv_world (snd (dispatch st L cfg av c sv))) = proposals (sv_world sv) @ ps"
    "\<forall>p \<in> set ps. mr_status p = ''Pending'' \<and> (\<exists>nonce. c = EndSession (mr_session_id p) nonce)"
    using dispatch_proposals by metis
  obtain qs where qs: "proposals (sv_world (serve st L cfg calls (snd (dispatch st L cfg av c sv))))
      = proposals (sv_world (snd (dispatch st L cfg av c sv))) @ qs"
    "\<forall>p \<in> set qs. mr_status p = ''Pending'' \<and> (\<exists>av nonce. (av, EndSession (mr_session_id p) nonce) \<in> set calls)"
    using Cons.IH by metis
  have "proposals (sv_world (serve st L cfg (ac # calls) sv)) = proposals (sv_world sv) @ (ps @ qs)"
    using ps(1) qs(1) by (simp add: ac serve_Cons)
  moreover have "mr_status p = ''Pending'' \<and> (\<exists>av nonce. (av, EndSession (mr_session_id p) nonce) \<in> set (ac # calls))"
    if "p \<in> set (ps @ qs)" for p
  proof (cases "p \<in> set ps")
    case True
    with ps(2) obtain nonce where "mr_status p = ''Pending''" "c = EndSession (mr_session_id p) nonce" by blast
    then show ?thesis unfolding ac by (metis list.set_intros(1))
  next
    case False
    with that have "p \<in> set qs" by simp
    with qs(2) show ?thesis by (meson list.set_intros(2))
  qed
  ultimately show ?case by blast
qed (simp add: serve_def)

lemma serve_grows:
  "grows (sv_world sv) (sv_world (serve st L cfg calls sv))
   \<and> (distinct (map fst (sv_nonces sv)) \<longrightarrow> distinct (map fst (sv_nonces (serve st L cfg calls sv))))"
proof (induction calls arbitrary: sv)
  case (Cons ac calls)
  obtain av c where ac: "ac = (av, c)" by fastforce
  show ?case
    using grows.steps [OF grows_dispatch conjunct1 [OF Cons.IH [of "snd (dispatch st L cfg av c sv)"]]]
      nonces_distinct [of sv st L cfg av c] conjunct2 [OF Cons.IH [of "snd (dispatch st L cfg av c sv)"]]
    by (simp add: ac serve_Cons)
qed (simp add: serve_def grows.stays)

lemma minted_pending: "\<forall>p \<in> set ps. mr_status p = ''Pending'' \<Longrightarrow> minted_24h now ps = 0"
  by (induction ps) (simp_all add: minted_24h_def sum_gross_def)

text \<open>
  Whatever calls are served, in whatever order and with whatever failures of the outside, the ledger
  only grows. No proposal or anomaly event is changed or removed; every new proposal is pending and
  belongs to a session whose end was requested; no session has two proposals; no price average holds a
  sample from before its session; and the service alone never raises the total that counts against the
  daily ceiling, which is confirmed by other hands.
\<close>

theorem service_ledger_grows:
  assumes "one_per_session (wd_db (sv_world sv))" and "averages_ok (sv_world sv)" and "distinct (map fst (sv_nonces sv))"
  shows "let sv' = serve st L cfg calls sv; d = wd_db (sv_world sv); d' = wd_db (sv_world sv') in
      one_per_session d' \<and> averages_ok (sv_world sv') \<and> distinct (map fst (sv_nonces sv'))
    \<and> (\<exists>as. db_anomalies d' = db_anomalies d @ as)
    \<and> (\<exists>ps. db_proposals d' = db_proposals d @ ps \<and> (\<forall>p \<in> set ps. mr_status p = ''Pending''
          \<and> (\<exists>av nonce. (av, EndSession (mr_session_id p) nonce) \<in> set calls)))
    \<and> (\<forall>now. minted_24h now (db_proposals d') = minted_24h now (db_proposals d))"
proof -
  let ?sv = "serve st L cfg calls sv"
  have g: "grows (sv_world sv) (sv_world ?sv)" "distinct (map fst (sv_nonces ?sv))"
    using serve_grows assms(3) by blast+
  obtain ps where ps: "proposals (sv_world ?sv) = proposals (sv_world sv) @ ps"
    "\<forall>p \<in> set ps. mr_status p = ''Pending'' \<and> (\<exists>av nonce. (av, EndSession (mr_session_id p) nonce) \<in> set calls)"
    using serve_proposals by metis
  then have "minted_24h now (proposals (sv_world ?sv)) = minted_24h now (proposals (sv_world sv))" for now
    by (simp add: minted_24h_append minted_pending)
  with g ps assms(1,2) show ?thesis by (auto simp: Let_def grows_def appended_def)
qed

text \<open>
  Reading changes nothing that matters. The fifteen calls that only report leave the database, the
  price averages, the session gauge, the anomaly channel, the login nonces and every key of the session
  store as they were, whatever they answer; only caches and the outside world may move.
\<close>

theorem reading_calls_change_nothing:
  assumes "redis_scan (st_redis st) view" and "reading c"
  shows "let sv' = snd (dispatch st L cfg av c sv) in
      wd_db (sv_world sv') = wd_db (sv_world sv) \<and> wd_twap (sv_world sv') = wd_twap (sv_world sv)
    \<and> wd_active (sv_world sv') = wd_active (sv_world sv) \<and> wd_events (sv_world sv') = wd_events (sv_world sv)
    \<and> view (wd_redis (sv_world sv')) = view (wd_redis (sv_world sv)) \<and> sv_nonces sv' = sv_nonces sv"
  using reading_dispatch [OF redis_scan.read_list [OF assms(1)] assms(2), of sv L cfg av]
  by (simp add: Let_def reads_def)

text \<open>
  C22: The operators' routes are closed to everyone else. Either the call is refused with 401 and nothing at
  all has changed, or the secret is configured and the request carried a bearer token whose signature is
  the HMAC of its payload under that secret, whose claims have not expired and name a wallet on the
  current list.
\<close>

theorem operator_routes_need_token:
  assumes "c = AdminOverview header \<or> c = AdminLogout header"
  shows "dispatch st L cfg av c sv = (Failed 401 ''unauthorized'', sv)
    \<or> (\<exists>secret token payload_hex sig_hex payload sig claims a.
         ad_session_secret cfg = Some secret \<and> header = Some (''Bearer '' @ token)
       \<and> token = payload_hex @ ''.'' @ sig_hex \<and> al_hex_decode L payload_hex = Some payload
       \<and> al_hex_decode L sig_hex = Some sig \<and> al_hmac L secret payload = Some sig
       \<and> al_claims_parse L payload = Some claims \<and> now_unix (rq_clock (av_request av) 0) < cl_exp claims
       \<and> al_parse_address L (cl_addr claims) = Some a \<and> a \<in> ad_wallets cfg)"
proof (cases "admin_guard L cfg (rq_clock (av_request av) 0) header (Inr ())")
  case (Inl e)
  then have "e = Unauthorized" by (auto simp: admin_guard_def split: option.splits if_splits)
  with Inl assms show ?thesis by (auto simp: guarded_def)
next
  case (Inr u)
  then obtain secret token a where g: "ad_session_secret cfg = Some secret" "header = Some (''Bearer '' @ token)"
    "verify_session_token L secret token (now_unix (rq_clock (av_request av) 0)) = Some a" "a \<in> ad_wallets cfg"
    by (auto simp: admin_guard_def bind_eq_Some_conv strip_prefix_Some split: option.splits if_splits)
  then show ?thesis
    by (auto simp: verify_session_token_def bind_eq_Some_conv split_once_Some not_le split: if_splits)
qed

section \<open>Instances\<close>

definition demo_service :: "(keyspace, unit, unit) service" where
  "demo_service = \<lparr>sv_world = demo_world, sv_treasuries = [], sv_nonces = [(''n'', 1)]\<rparr>"

definition demo_arrival :: arrival where
  "demo_arrival = \<lparr>av_request = demo_request 700, av_ip = ''10.0.0.1'', av_instants = (\<lambda>i. 3), av_fresh = ''m'',
     av_site_order = [], av_scale = 0, av_metrics = []\<rparr>"

lemma demo_service_ok:
  "one_per_session (wd_db (sv_world demo_service))" "averages_ok (sv_world demo_service)"
  "distinct (map fst (sv_nonces demo_service))"
  by (auto simp: demo_service_def demo_world_def one_per_session_def averages_ok_def demo_calculator_def twap_inv_def
      split: if_splits)

theorem service_ledger_grows_witness:
  "let calls = [(demo_arrival, EndSession ''s'' ''nonce''), (demo_arrival, AdminNonce), (demo_arrival, EndSession ''s'' ''nonce'')];
       d' = wd_db (sv_world (serve demo_state demo_admin_libs demo_admin calls demo_service)) in
   one_per_session d' \<and> minted_24h 0 (db_proposals d') = 0 \<and> (\<forall>p \<in> set (db_proposals d'). mr_status p = ''Pending'')"
  using service_ledger_grows [OF demo_service_ok, of demo_state demo_admin_libs demo_admin
      "[(demo_arrival, EndSession ''s'' ''nonce''), (demo_arrival, AdminNonce), (demo_arrival, EndSession ''s'' ''nonce'')]"]
  by (auto simp: Let_def demo_service_def demo_world_def minted_24h_def sum_gross_def)

theorem reading_calls_change_nothing_witness:
  "wd_db (sv_world (snd (dispatch demo_state demo_admin_libs demo_admin demo_arrival (WalletSessions ''0x7'') demo_service)))
     = wd_db demo_world"
proof -
  have "redis_scan (st_redis demo_state) id" using keyspace_scan.redis_scan_axioms by (simp add: demo_sels)
  from reading_calls_change_nothing [OF this, of "WalletSessions ''0x7''"] show ?thesis
    by (simp add: Let_def demo_service_def)
qed

theorem operator_routes_need_token_witness:
  "dispatch demo_state demo_admin_libs demo_admin demo_arrival (AdminLogout None) demo_service
     = (Failed 401 ''unauthorized'', demo_service)"
  using operator_routes_need_token [of "AdminLogout None" None demo_state demo_admin_libs demo_admin demo_arrival demo_service]
  by auto

end
