(* ===== verification/Service_Steps.thy ===== *)
theory Service_Steps
  imports Interleaving Service_Router
begin

text \<open>
  The handlers that change state, written at the grain at which requests really interleave. A step is one
  Redis command, one SQL statement, one call to the outside world, or one section of
  \<open>crates/verification-service/src/lib.rs\<close> under a lock of the process; between two steps another
  request may run. A price submission and an attestation round touch the outside world only and are one
  step each; so is a sample of the price, which is taken under the write lock of the averages. Run
  alone, each program is the handler of \<open>Verification_Service\<close>.
\<close>

section \<open>Steps on parts of the state\<close>

definition redisP :: "('r, 'a) redis_cmd \<Rightarrow> ('r, session_manager_error, 'a) prog" where
  "redisP m = atomicP (redisE m)"

definition serdeP :: "string + 'a \<Rightarrow> ('r, session_manager_error, 'a) prog" where
  "serdeP r = (case r of Inl e \<Rightarrow> errP (SmSerialization e) | Inr a \<Rightarrow> okP a)"

definition onRedisP :: "('r, 'e, 'a) prog \<Rightarrow> (('r, 'w, 'ch) world, 'e, 'a) prog" where
  "onRedisP p = focusP wd_redis (\<lambda>x wd. wd\<lparr>wd_redis := x\<rparr>) p"

definition onWorldP :: "(('r, 'w, 'ch) world, 'e, 'a) prog \<Rightarrow> (('r, 'w, 'ch) service, 'e, 'a) prog" where
  "onWorldP p = focusP sv_world (\<lambda>x sv. sv\<lparr>sv_world := x\<rparr>) p"

definition apiP :: "('s, 'e, 'a) prog \<Rightarrow> ('s, api_error, 'a) prog" where
  "apiP p = map_errP (\<lambda>_. ApiInternal) p"

definition logP :: "('s, 'e, 'a) prog \<Rightarrow> ('s, api_error, unit) prog" where
  "logP p = attemptP p (\<lambda>_. okP ())"

definition requireP :: "'a option \<Rightarrow> api_error \<Rightarrow> ('s, api_error, 'a) prog" where
  "requireP v e = (case v of Some a \<Rightarrow> okP a | None \<Rightarrow> errP e)"

definition enforceP :: "rate_limit_result \<Rightarrow> ('s, api_error, unit) prog" where
  "enforceP r = (case r of Allowed \<Rightarrow> okP () | Denied l w \<Rightarrow> errP RateLimited)"

lemma runP_onRedisP [runP_simps]: "runP (onRedisP p) = onRedis (runP p)"
  by (simp add: onRedisP_def onRedis_def runP_focusP fun_eq_iff)

lemma runP_onWorldP: "runP (onWorldP p) sv = (case runP p (sv_world sv) of (r, wd) \<Rightarrow> (r, sv\<lparr>sv_world := wd\<rparr>))"
  by (simp add: onWorldP_def runP_focusP)

lemma runP_service_steps [runP_simps]:
  "runP (redisP m) = redisE m" "runP (serdeP r) = serdeE r" "runP (apiP p) = apiE (runP p)"
  "runP (logP p) = logE (runP p)" "runP (requireP v e) = requireE v e" "runP (enforceP q) = enforce q"
  by (simp_all add: redisP_def serdeP_def apiP_def logP_def requireP_def enforceP_def runP_simps
      serdeE_def apiE_def logE_def requireE_def enforce_def split: sum.split option.split rate_limit_result.split)

lemmas runP_congs = if_cong option.case_cong sum.case_cong

section \<open>The session store and the rate limiter\<close>

definition create_session_steps ::
    "'r redis_ops \<Rightarrow> session_libs \<Rightarrow> string \<Rightarrow> session_context \<Rightarrow> ('r, session_manager_error, session_id) prog" where
  "create_session_steps R L uuid ctx =
     (let sid = SessionId uuid; wallet = sl_addr L (sc_wallet ctx) in
      tryP (serdeP (sl_ctx_json L ctx)) (\<lambda>payload.
      tryP (redisP (r_set_ex R (session_key wallet sid) payload TTL_SECS)) (\<lambda>_.
      tryP (redisP (r_set_ex R (lookup_key sid) wallet TTL_SECS)) (\<lambda>_.
      tryP (redisP (r_set_ex R (commit_key sid) COMMIT_PENDING TTL_SECS)) (\<lambda>_.
      okP sid)))))"

definition get_session_steps ::
    "'r redis_ops \<Rightarrow> session_libs \<Rightarrow> session_id \<Rightarrow> ('r, session_manager_error, session_context option) prog" where
  "get_session_steps R L sid =
     tryP (redisP (r_get R (lookup_key sid))) (\<lambda>w. case w of
         None \<Rightarrow> okP None
       | Some wallet \<Rightarrow>
           tryP (redisP (r_get R (session_key wallet sid))) (\<lambda>payload. case payload of
               None \<Rightarrow> okP None
             | Some p \<Rightarrow> tryP (serdeP (sl_ctx_parse L p)) (\<lambda>ctx. okP (Some ctx))))"

definition store_proof_steps ::
    "'r redis_ops \<Rightarrow> session_libs \<Rightarrow> session_id \<Rightarrow> partial_proof \<Rightarrow> ('r, session_manager_error, unit) prog" where
  "store_proof_steps R L sid pr =
     tryP (redisP (r_get R (proofs_key sid))) (\<lambda>existing.
     tryP (case existing of None \<Rightarrow> okP [] | Some payload \<Rightarrow> serdeP (sl_proofs_parse L payload)) (\<lambda>proofs.
     tryP (serdeP (sl_proofs_json L (proofs @ [pr]))) (\<lambda>payload.
     tryP (redisP (r_set_ex R (proofs_key sid) payload TTL_SECS)) (\<lambda>_. okP ()))))"

definition record_accepted_proof_steps ::
    "'r redis_ops \<Rightarrow> session_id \<Rightarrow> u64 \<Rightarrow> int \<Rightarrow> ('r, session_manager_error, unit) prog" where
  "record_accepted_proof_steps R sid difficulty now_unix_secs =
     tryP (redisP (r_set_nx_ex R (first_at_key sid) (show_int now_unix_secs) TTL_SECS)) (\<lambda>anchored.
       if anchored then okP ()
       else
         tryP (redisP (r_incrby R (hashes_key sid) (uint difficulty))) (\<lambda>_.
         tryP (redisP (r_expire R (hashes_key sid) TTL_SECS)) (\<lambda>_. okP ())))"

definition incr_session_counter_steps :: "'r redis_ops \<Rightarrow> string \<Rightarrow> ('r, session_manager_error, u32) prog" where
  "incr_session_counter_steps R key =
     tryP (redisP (r_incr R key)) (\<lambda>count.
     tryP (redisP (r_expire R key TTL_SECS)) (\<lambda>_. okP (word_of_int (max count 0))))"

definition get_session_hashrate_steps ::
    "'r redis_ops \<Rightarrow> session_id \<Rightarrow> client_type \<Rightarrow> ('r, session_manager_error, u64) prog" where
  "get_session_hashrate_steps R sid client_type =
     tryP (redisP (r_get_i64 R (first_at_key sid))) (\<lambda>first.
     tryP (redisP (r_get_i64 R (activity_key sid))) (\<lambda>last_at.
     tryP (redisP (r_get_i64 R (hashes_key sid))) (\<lambda>hashes.
     okP (hashrate_of client_type first last_at hashes))))"

fun scan_count_steps ::
    "nat \<Rightarrow> 'r redis_ops \<Rightarrow> string \<Rightarrow> u64 \<Rightarrow> u32 \<Rightarrow> ('r, session_manager_error, u32 option) prog" where
  "scan_count_steps 0 R pattern cursor n = okP None"
| "scan_count_steps (Suc fuel) R pattern cursor n =
     tryP (redisP (r_scan R cursor pattern)) (\<lambda>(next_cursor, keys).
       let n' = n + of_nat (length keys) in
       if next_cursor = 0 then okP (Some n')
       else scan_count_steps fuel R pattern next_cursor n')"

definition rate_check_steps ::
    "'r redis_ops \<Rightarrow> string \<Rightarrow> u32 \<Rightarrow> u64 \<Rightarrow> ('r, rate_limiter_error, rate_limit_result) prog" where
  "rate_check_steps R key limit window_secs =
     map_errP RateRedis
       (tryP (atomicP (r_incr R key)) (\<lambda>count.
        tryP (if count = 1 then atomicP (r_expire R key (uint window_secs)) else okP ()) (\<lambda>_.
        okP (if uint limit < count then Denied limit window_secs else Allowed))))"

lemma runP_store_steps [runP_simps]:
  "runP (create_session_steps R L uuid ctx) = create_session R L uuid ctx"
  "runP (get_session_steps R L sid) = get_session R L sid"
  "runP (store_proof_steps R L sid pr) = store_proof R L sid pr"
  "runP (record_accepted_proof_steps R sid d now) = record_accepted_proof R sid d now"
  "runP (incr_session_counter_steps R key) = incr_session_counter R key"
  "runP (get_session_hashrate_steps R sid c) = get_session_hashrate R sid c"
  by (simp_all add: create_session_steps_def create_session_def get_session_steps_def get_session_def
      store_proof_steps_def store_proof_def record_accepted_proof_steps_def record_accepted_proof_def
      incr_session_counter_steps_def incr_session_counter_def get_session_hashrate_steps_def get_session_hashrate_def
      runP_simps Let_def cong: runP_congs)

lemma runP_scan_steps [runP_simps]: "runP (scan_count_steps fuel R pattern cursor n) = scan_count fuel R pattern cursor n"
  by (induction fuel arbitrary: cursor n) (simp_all add: runP_simps Let_def split_def cong: runP_congs)

lemma runP_rate_check_steps [runP_simps]: "runP (rate_check_steps R key limit w) = rate_check R key limit w"
  by (simp add: rate_check_steps_def rate_check_def runP_simps cong: runP_congs)

section \<open>The handlers\<close>

definition create_session_handler_steps ::
    "('r, 'w, 'ch, 'sk, 'p) app_state \<Rightarrow> request \<Rightarrow> string \<Rightarrow> create_session_request
       \<Rightarrow> (('r, 'w, 'ch) world, api_error, create_session_response option) prog" where
  "create_session_handler_steps st rq ip body =
     tryP (requireP (st_parse_address st (cr_wallet body)) (BadRequest ''invalid wallet address'')) (\<lambda>wallet.
     tryP (requireP (parse_client_type (cr_client_type body)) (BadRequest ''unknown client_type'')) (\<lambda>client_type.
     tryP (requireP (parse_hash (st_hex_decode st) (cr_commit_hash body)) (BadRequest ''invalid commit_hash'')) (\<lambda>commit_hash.
     let commodity = parse_commodity (cr_commodity body) in
     tryP (requireP (from_str_id (cr_chain body))
        (BadRequest ''invalid or missing chain (expected ethereum or polygon)'')) (\<lambda>target_chain.
     let assigned_site = Option.bind (cr_assigned_node_id body) (st_node_sites st);
         assigned_node_id = map_option NodeId (cr_assigned_node_id body) in
     tryP (apiP (onRedisP (rate_check_steps (st_redis st) (''rate:wallet:'' @ sl_addr (st_libs st) wallet)
        WALLET_LIMIT WALLET_WINDOW_SECS))) (\<lambda>r.
     tryP (enforceP r) (\<lambda>_.
     tryP (apiP (onRedisP (rate_check_steps (st_redis st) (''rate:ip:'' @ ip) IP_LIMIT IP_WINDOW_SECS))) (\<lambda>r.
     tryP (enforceP r) (\<lambda>_.
     tryP (apiP (onRedisP (scan_count_steps (rq_fuel rq) (st_redis st)
        (wallet_pattern (sl_addr (st_libs st) wallet)) 0 0))) (\<lambda>n.
     case n of None \<Rightarrow> okP None | Some active_sessions_count \<Rightarrow>
     let ctx = new_context (rq_clock rq 0) wallet ip client_type active_sessions_count assigned_node_id
                 commodity target_chain (cr_cpu_threads body) assigned_site in
     tryP (apiP (onRedisP (create_session_steps (st_redis st) (st_libs st) (rq_uuid rq) ctx))) (\<lambda>sid.
     tryP (apiP (onRedisP (atomicP (set_commit (st_redis st) (st_libs st) sid commit_hash)))) (\<lambda>_.
     tryP (atomicP (\<lambda>wd. (Inr (), wd\<lparr>wd_twap := (wd_twap wd)(sid_str sid \<mapsto> twap_new (rq_clock rq 1))\<rparr>))) (\<lambda>_.
     tryP (atomicP (\<lambda>wd. (Inr (), wd\<lparr>wd_active := wd_active wd + 1\<rparr>))) (\<lambda>_.
     okP (Some \<lparr>cs_session_id = sid_str sid, cs_assigned_site = assigned_site\<rparr>))))))))))))))"

definition count_proof_steps ::
    "('r, 'w, 'ch, 'sk, 'p) app_state \<Rightarrow> request \<Rightarrow> session_id \<Rightarrow> u64 \<Rightarrow> validation_result
       \<Rightarrow> (('r, 'w, 'ch) world, api_error, unit) prog" where
  "count_proof_steps st rq sid difficulty result =
     tryP (logP (onRedisP (atomicP (increment_proof_count (st_redis st) sid)))) (\<lambda>_.
     if \<not> is_invalid result
     then tryP (logP (onRedisP (record_accepted_proof_steps (st_redis st) sid difficulty
              (rq_clock rq 1 div nanos_per_sec)))) (\<lambda>_.
          tryP (logP (onRedisP (atomicP (touch_last_activity (st_redis st) (rq_clock rq 2) sid)))) (\<lambda>_.
          logP (onRedisP (incr_session_counter_steps (st_redis st) (verified_key sid)))))
     else logP (onRedisP (incr_session_counter_steps (st_redis st) (rejected_key sid))))"

definition assess_proof_steps ::
    "('r, 'w, 'ch, 'sk, 'p) app_state \<Rightarrow> request \<Rightarrow> session_id \<Rightarrow> address \<Rightarrow> validation_result
       \<Rightarrow> (('r, 'w, 'ch) world, api_error, suspicion_level) prog" where
  "assess_proof_steps st rq sid wallet result =
     tryP (atomicP (\<lambda>wd. case process (st_try_send st) (rq_clock rq 3) sid wallet [result] (wd_events wd) of
         (assessment, ch) \<Rightarrow> (Inr assessment, wd\<lparr>wd_events := ch\<rparr>))) (\<lambda>assessment.
     let level = as_level assessment;
         triggers = (case result of Invalid reason \<Rightarrow> [reason] | _ \<Rightarrow> []) in
     if level \<noteq> Low
     then tryP (logP (atomicP (onDb (insert_anomaly_event (st_pg st) (rq_fault rq 0)
            \<lparr>ae_session_id = sid, ae_wallet = wallet, ae_score = as_score_bps assessment,
             ae_triggers = triggers, ae_level = level, ae_timestamp = rq_clock rq 4\<rparr>)))) (\<lambda>_. okP level)
     else okP level)"

definition submit_proof_handler_steps ::
    "('r, 'w, 'ch, 'sk, 'p) app_state \<Rightarrow> request \<Rightarrow> string \<Rightarrow> submit_proof_request
       \<Rightarrow> (('r, 'w, 'ch) world, api_error, submit_proof_response) prog" where
  "submit_proof_handler_steps st rq sid_raw body =
     (let sid = SessionId sid_raw in
     tryP (apiP (onRedisP (get_session_steps (st_redis st) (st_libs st) sid))) (\<lambda>c.
     tryP (requireP c NotFound) (\<lambda>ctx.
     tryP (apiP (onRedisP (atomicP (is_paused (st_redis st) sid)))) (\<lambda>paused.
     if paused then errP (Conflict ''session paused'') else
     tryP (requireP (parse_hash (st_hex_decode st) (sp_proof_hash body)) (BadRequest ''invalid proof_hash'')) (\<lambda>proof_hash.
     tryP (requireP (decode_input (st_hex_decode st) (sp_proof_input body)) (BadRequest ''invalid proof_input'')) (\<lambda>proof_input.
     let pr = submitted_proof sid (sc_wallet ctx) body proof_hash proof_input (rq_clock rq 0);
         result = prefilter_validate pr PreFilter ctx in
     tryP (count_proof_steps st rq sid (sp_difficulty body) result) (\<lambda>_.
     tryP (apiP (onRedisP (store_proof_steps (st_redis st) (st_libs st) sid pr))) (\<lambda>_.
     tryP (assess_proof_steps st rq sid (sc_wallet ctx) result) (\<lambda>level.
     tryP (atomicP (sample_session st rq sid (sc_commodity ctx))) (\<lambda>_.
     okP \<lparr>sr_accepted = (\<not> is_invalid result), sr_suspicion_level = level_debug level\<rparr>))))))))))"

text \<open>
  The live edge: the cache is read under its lock, the contract is asked with the lock released, and the
  answer is written under the lock again.
\<close>

definition live_edge_steps :: "request \<Rightarrow> (('r, 'w, 'ch) world, 'e, payout_config) prog" where
  "live_edge_steps rq =
     tryP (atomicP (\<lambda>wd. (Inr (wd_edge wd), wd))) (\<lambda>reader. case reader of
         None \<Rightarrow> okP default_config
       | Some he \<Rightarrow>
           (case (case he_cache he of
                    Some (edge, fetched_at) \<Rightarrow> if rq_clock rq 6 - fetched_at < he_ttl he then Some edge else None
                  | None \<Rightarrow> None) of
              Some edge \<Rightarrow> okP (default_config\<lparr>house_edge_bps := edge\<rparr>)
            | None \<Rightarrow> attemptP (atomicP (onExt (read_edge he))) (\<lambda>r. case r of
                Inl e \<Rightarrow> okP default_config
              | Inr edge \<Rightarrow>
                  tryP (atomicP (\<lambda>wd. (Inr (), wd\<lparr>wd_edge :=
                      map_option (\<lambda>he. he\<lparr>he_cache := Some (edge, rq_clock rq 7)\<rparr>) (wd_edge wd)\<rparr>))) (\<lambda>_.
                  okP (default_config\<lparr>house_edge_bps := edge\<rparr>)))))"

definition read_configured_step ::
    "('r, 'w, 'ch, 'sk, 'p) app_state \<Rightarrow> chain \<Rightarrow> address
       \<Rightarrow> (('r, 'w, 'ch) world, 'e, (onchain_client_error + stake_info) option) prog" where
  "read_configured_step st c wallet =
     atomicP (\<lambda>wd. case read_configured (st_staking_readers st) c wallet (wd_ext wd) of (r, w) \<Rightarrow> (Inr r, wd\<lparr>wd_ext := w\<rparr>))"

definition staking_summary_steps ::
    "('r, 'w, 'ch, 'sk, 'p) app_state \<Rightarrow> address \<Rightarrow> (('r, 'w, 'ch) world, 'e, staking_summary) prog" where
  "staking_summary_steps st wallet =
     tryP (read_configured_step st Ethereum wallet) (\<lambda>eth.
     tryP (read_configured_step st Polygon wallet) (\<lambda>pol.
     okP (build_summary eth pol)))"

definition sign_and_store_steps ::
    "('r, 'w, 'ch, 'sk, 'p) app_state \<Rightarrow> request \<Rightarrow> session_id \<Rightarrow> session_context \<Rightarrow> mint_proposal
       \<Rightarrow> (('r, 'w, 'ch) world, api_error, end_response) prog" where
  "sign_and_store_steps st rq sid ctx proposal =
     (case sign_proposal (st_proposal_json st) (st_sign st) (st_as_bytes st) proposal (st_signing_key st) of
        Inl e \<Rightarrow> errP ApiInternal
      | Inr signature_bytes \<Rightarrow> (case st_parse_signature st signature_bytes of
            Inl e \<Rightarrow> errP ApiInternal
          | Inr backend_sig \<Rightarrow>
              tryP (logP (atomicP (onDb (insert_mint_proposal (st_pg st) (rq_fault rq 2) (rq_uuid rq) (rq_clock rq 10)
                     (proposal\<lparr>mp_backend_sig := backend_sig\<rparr>))))) (\<lambda>_.
              tryP (atomicP (\<lambda>wd. (Inr (), wd\<lparr>wd_active := wd_active wd - 1\<rparr>))) (\<lambda>_.
              tryP (apiP (onRedisP (atomicP (delete_session (st_redis st) (st_libs st) (sc_wallet ctx) sid)))) (\<lambda>_.
              okP (200, ''completed''))))))"

definition settle_session_steps ::
    "('r, 'w, 'ch, 'sk, 'p) app_state \<Rightarrow> request \<Rightarrow> session_id \<Rightarrow> session_context \<Rightarrow> twap_result
       \<Rightarrow> attestation_result \<Rightarrow> (('r, 'w, 'ch) world, api_error, end_response) prog" where
  "settle_session_steps st rq sid ctx twap attestation =
     (let duration_secs = clamp_u64 (num_seconds (tr_session_end twap - tr_session_start twap)) in
     tryP (live_edge_steps rq) (\<lambda>config.
     tryP (attemptP (onRedisP (get_session_hashrate_steps (st_redis st) sid (sc_client_type ctx)))
        (\<lambda>r. okP (case r of Inr h \<Rightarrow> h | Inl e \<Rightarrow> 0))) (\<lambda>avg_hashrate.
     let base_gross = calculate_gross_prm avg_hashrate duration_secs config (sc_commodity ctx) in
     tryP (staking_summary_steps st (sc_wallet ctx)) (\<lambda>summary.
     let boosted_gross = apply_staking_boost base_gross (sm_effective_boost_bps summary);
         payout = calculate_payout_from_gross boosted_gross (tr_twap twap) (sc_commodity ctx) config;
         mint_amount_wei = gross_calib_to_wei boosted_gross;
         net_usd_cents = to_cents (pr_net_usdc_scaled payout) in
     attemptP (atomicP (onDb (total_minted_wei_24h (rq_fault rq 1) (rq_clock rq 8)))) (\<lambda>r. case r of
         Inl e \<Rightarrow> okP (200, ''mint_ceiling_unverified'')
       | Inr text \<Rightarrow>
           let minted_24h_wei = (case parse_u128 text of Some v \<Rightarrow> v | None \<Rightarrow> - 1) in
           if daily_ceiling_wei st < saturating_add minted_24h_wei mint_amount_wei
           then okP (200, ''mint_ceiling_exceeded'')
           else sign_and_store_steps st rq sid ctx
                  (unsigned_proposal sid ctx mint_amount_wei net_usd_cents attestation (rq_clock rq 9)))))))"

fun submit_all_steps ::
    "(chain \<times> ('w, 'p) oracle_submitter) list \<Rightarrow> u8 \<Rightarrow> u128 \<Rightarrow> (('r, 'w, 'ch) world, api_error, unit) prog" where
  "submit_all_steps [] commodity price = okP ()"
| "submit_all_steps ((c, submitter) # rest) commodity price =
     tryP (logP (atomicP (onExt (submit_price submitter commodity price)))) (\<lambda>_. submit_all_steps rest commodity price)"

definition end_session_handler_steps ::
    "('r, 'w, 'ch, 'sk, 'p) app_state \<Rightarrow> request \<Rightarrow> string \<Rightarrow> string
       \<Rightarrow> (('r, 'w, 'ch) world, api_error, end_response) prog" where
  "end_session_handler_steps st rq sid_raw nonce_raw =
     (let sid = SessionId sid_raw in
     tryP (apiP (onRedisP (get_session_steps (st_redis st) (st_libs st) sid))) (\<lambda>c.
     tryP (requireP c NotFound) (\<lambda>ctx.
     tryP (requireP (st_hex_decode st nonce_raw) (BadRequest ''invalid nonce'')) (\<lambda>nonce.
     tryP (apiP (onRedisP (atomicP (verify_reveal (st_redis st) (st_libs st) sid nonce)))) (\<lambda>verified.
     if \<not> verified then okP (400, ''rejected'')
     else (case sc_assigned_node_id ctx of
         None \<Rightarrow> okP (400, ''no_assigned_node'')
       | Some assigned \<Rightarrow>
     tryP (atomicP (take_calculator sid)) (\<lambda>calculator.
     case Option.bind calculator (\<lambda>c. finalize c (rq_clock rq 0)) of
         None \<Rightarrow> okP (400, ''no_samples'')
       | Some twap \<Rightarrow>
     tryP (submit_all_steps (st_submitters st) (commodity_to_u8 (sc_commodity ctx)) (tr_twap twap)) (\<lambda>_.
     tryP (apiP (onRedisP (atomicP (get_proofs (st_redis st) (st_libs st) sid)))) (\<lambda>proof_set.
     tryP (apiP (atomicP (onExt (get_block_number (st_onchain st))))) (\<lambda>block_number.
     tryP (apiP (atomicP (onExt (get_block_hash (st_onchain st) (saturating_sub block_number SEED_BLOCK_OFFSET))))) (\<lambda>h.
     let seed = (case h of Some b \<Rightarrow> b | None \<Rightarrow> replicate 32 0) in
     attemptP (atomicP (onExt (coordinate_attestation (st_coordinator st) (st_recover st) (sl_sha256 (st_libs st))
        (rq_clock rq 1) sid proof_set seed assigned))) (\<lambda>att. case att of
         Inl e \<Rightarrow> okP (500, ''attestation_failed'')
       | Inr attestation \<Rightarrow> settle_session_steps st rq sid ctx twap attestation))))))))))))"

definition authorize_session_owner_steps ::
    "('r, 'w, 'ch, 'sk, 'p) app_state \<Rightarrow> session_id \<Rightarrow> string \<Rightarrow> (('r, 'w, 'ch) world, api_error, unit) prog" where
  "authorize_session_owner_steps st sid wallet_raw =
     tryP (apiP (onRedisP (get_session_steps (st_redis st) (st_libs st) sid))) (\<lambda>c.
     tryP (requireP c NotFound) (\<lambda>ctx.
     tryP (requireP (st_parse_address st wallet_raw) (BadRequest ''invalid wallet address'')) (\<lambda>wallet.
     if wallet \<noteq> sc_wallet ctx then errP (Forbidden ''wallet does not own this session'') else okP ())))"

definition pause_session_steps ::
    "('r, 'w, 'ch, 'sk, 'p) app_state \<Rightarrow> string \<Rightarrow> string \<Rightarrow> (('r, 'w, 'ch) world, api_error, bool) prog" where
  "pause_session_steps st sid_raw wallet_raw =
     tryP (authorize_session_owner_steps st (SessionId sid_raw) wallet_raw) (\<lambda>_.
     tryP (apiP (onRedisP (atomicP (set_paused (st_redis st) (SessionId sid_raw))))) (\<lambda>_. okP True))"

definition resume_session_steps ::
    "('r, 'w, 'ch, 'sk, 'p) app_state \<Rightarrow> string \<Rightarrow> string \<Rightarrow> (('r, 'w, 'ch) world, api_error, bool) prog" where
  "resume_session_steps st sid_raw wallet_raw =
     tryP (authorize_session_owner_steps st (SessionId sid_raw) wallet_raw) (\<lambda>_.
     tryP (apiP (onRedisP (atomicP (clear_paused (st_redis st) (SessionId sid_raw))))) (\<lambda>_. okP False))"

section \<open>The router\<close>

definition answerP :: "('a \<Rightarrow> reply) \<Rightarrow> (('r, 'w, 'ch) world, api_error, 'a) prog \<Rightarrow> (('r, 'w, 'ch) service, api_error, reply) prog" where
  "answerP f p = attemptP (onWorldP p) (\<lambda>r. okP (api_reply f r))"

text \<open>
  The five calls that change sessions run in steps. Issuing and consuming a nonce is one section under the
  lock of the nonce store; the calls that only report change nothing that others read, and are one step.
\<close>

fun dispatch_steps ::
    "('r, 'w, 'ch, 'sk, 'p) app_state \<Rightarrow> admin_libs \<Rightarrow> admin_config \<Rightarrow> arrival \<Rightarrow> call
       \<Rightarrow> (('r, 'w, 'ch) service, api_error, reply) prog" where
  "dispatch_steps st L cfg av (CreateSession body) =
     answerP (scanned Created) (create_session_handler_steps st (av_request av) (av_ip av) body)"
| "dispatch_steps st L cfg av (SubmitProof sid body) =
     answerP ProofTaken (submit_proof_handler_steps st (av_request av) sid body)"
| "dispatch_steps st L cfg av (EndSession sid nonce) =
     answerP (\<lambda>(status, msg). Ended status msg) (end_session_handler_steps st (av_request av) sid nonce)"
| "dispatch_steps st L cfg av (PauseSession sid wallet) = answerP Paused (pause_session_steps st sid wallet)"
| "dispatch_steps st L cfg av (ResumeSession sid wallet) = answerP Paused (resume_session_steps st sid wallet)"
| "dispatch_steps st L cfg av c = atomicP (\<lambda>sv. case dispatch st L cfg av c sv of (r, sv') \<Rightarrow> (Inr r, sv'))"


section \<open>Running alone\<close>

lemma runP_live_edge [runP_simps]: "runP (live_edge_steps rq) = payout_config_with_live_edge rq"
proof
  fix wd :: "('a, 'b, 'c) world"
  show "runP (live_edge_steps rq) wd = (payout_config_with_live_edge rq wd :: ('d + _) \<times> _)"
  proof (cases "wd_edge wd")
    case None
    then show ?thesis
      by (simp add: live_edge_steps_def payout_config_with_live_edge_def runP_simps tryE_def okE_def)
  next
    case (Some he)
    obtain r w where r: "read_edge he (wd_ext wd) = (r, w)" by fastforce
    show ?thesis
      using Some r
      by (cases "he_cache he"; cases r)
         (auto simp: live_edge_steps_def payout_config_with_live_edge_def current_edge_bps_def runP_simps
           tryE_def okE_def attempt_def onExt_def split: if_splits)
  qed
qed

lemma runP_staking_summary [runP_simps]: "runP (staking_summary_steps st wallet) = staking_summary st wallet"
  by (auto simp: staking_summary_steps_def read_configured_step_def staking_summary_def runP_simps tryE_def okE_def
      fun_eq_iff split: prod.splits)

lemma runP_submit_all [runP_simps]: "runP (submit_all_steps xs c p) = submit_all xs c p"
  by (induction xs c p rule: submit_all.induct) (simp_all add: runP_simps)

lemma runP_count_proof [runP_simps]: "runP (count_proof_steps st rq sid d result) = count_proof st rq sid d result"
  by (simp add: count_proof_steps_def count_proof_def runP_simps increment_verified_proof_count_def
      increment_rejected_proof_count_def cong: runP_congs)

lemma runP_assess_proof [runP_simps]:
  "runP (assess_proof_steps st rq sid wallet result) = assess_proof st rq sid wallet result"
  by (auto simp: assess_proof_steps_def assess_proof_def runP_simps tryE_def okE_def Let_def fun_eq_iff
      split: prod.splits cong: runP_congs)

lemma runP_settle_session [runP_simps]:
  "runP (settle_session_steps st rq sid ctx twap att) = settle_session st rq sid ctx twap att"
  by (simp add: settle_session_steps_def settle_session_def sign_and_store_steps_def sign_and_store_def runP_simps Let_def
      cong: runP_congs)

lemma runP_controls [runP_simps]:
  "runP (pause_session_steps st sid w) = pause_session st sid w"
  "runP (resume_session_steps st sid w) = resume_session st sid w"
  by (simp_all add: pause_session_steps_def pause_session_def resume_session_steps_def resume_session_def
      authorize_session_owner_steps_def authorize_session_owner_def parse_wallet_def runP_simps cong: runP_congs)

lemma runP_end_session [runP_simps]:
  "runP (end_session_handler_steps st rq sid nonce) = handle_end_session st rq sid nonce"
  by (simp add: end_session_handler_steps_def handle_end_session_def runP_simps Let_def cong: runP_congs)

lemma runP_submit_proof [runP_simps]:
  "runP (submit_proof_handler_steps st rq sid body) = handle_submit_proof st rq sid body"
  by (simp add: submit_proof_handler_steps_def handle_submit_proof_def runP_simps Let_def cong: runP_congs)

lemma store_then_count:
  "tryE (\<lambda>wd. (Inr (), wd\<lparr>wd_twap := f wd\<rparr>)) (\<lambda>_. tryE (\<lambda>wd. (Inr (), wd\<lparr>wd_active := wd_active wd + 1\<rparr>)) (\<lambda>_. okE a))
   = (\<lambda>wd. (Inr a, wd\<lparr>wd_twap := f wd, wd_active := wd_active wd + 1\<rparr>))"
  by (simp add: tryE_def okE_def)

lemma runP_create_session [runP_simps]:
  "runP (create_session_handler_steps st rq ip body) = handle_create_session st rq ip body"
  by (simp add: create_session_handler_steps_def handle_create_session_def check_wallet_def check_ip_def
      get_active_session_count_def runP_simps store_then_count Let_def cong: runP_congs)

lemma runP_answer:
  "runP (answerP f p) sv = (Inr (fst (on_world (runP p) f sv)), snd (on_world (runP p) f sv))"
  by (simp add: answerP_def runP_attemptP runP_onWorldP runP_basic attempt_def okE_def on_world_def split: prod.splits)

text \<open>
  The handlers written step by step are the handlers. A request that is not interrupted answers what the
  handler answers and leaves the state that the handler leaves, for every route, state and failure; so
  calls served one after the other are one of the interleavings, and what holds of every interleaving
  holds of them.
\<close>

theorem steps_refine_handlers:
  "runP (dispatch_steps st L cfg av c) sv = (Inr (fst (dispatch st L cfg av c sv)), snd (dispatch st L cfg av c sv))"
  by (cases c) (simp_all add: runP_answer runP_simps del: runP.simps split: prod.splits)

end
