(* ===== verification/Service_Races.thy ===== *)
theory Service_Races
  imports Service_Steps
begin

text \<open>
  Requests that overlap. The programs of \<open>Service_Steps\<close> run interleaved in any way, with the outside
  world and Redis's clock moving in between, and the theorems say what still holds: the ledger only
  grows and keeps its invariants, the average of a session is spent by one request at most, and once it is
  spent on a failed attestation nothing settles the session any more.
\<close>

section \<open>Frames of the handlers\<close>

text \<open>
  A relation on the world that does not look at Redis, the outside, the channel, the cached edge or the
  gauge is kept by every step of a handler except those on the averages and the tables, which the
  lemmas take as hypotheses.
\<close>

locale handler_frame = frame P for P :: "('r, 'w, 'ch) world \<Rightarrow> ('r, 'w, 'ch) world \<Rightarrow> bool" +
  assumes free: "P wd (wd\<lparr>wd_redis := x\<rparr>)" "P wd (wd\<lparr>wd_ext := w\<rparr>)" "P wd (wd\<lparr>wd_events := ch\<rparr>)"
    "P wd (wd\<lparr>wd_edge := he\<rparr>)" "P wd (wd\<lparr>wd_active := n\<rparr>)"
begin

lemma redis_steps: "withinP P (onRedisP p)"
  unfolding onRedisP_def by (rule withinP_focusP [OF withinP_True]) (rule free)

lemma ext_step: "withinP P (atomicP (onExt m))"
  by (rule withinP_atomicP) (simp add: within_def onExt_def free split: prod.splits)

lemma query_step: "(\<And>d. snd (m d) = d) \<Longrightarrow> withinP P (atomicP (onDb m))"
  by (rule withinP_atomicP) (simp add: within_def onDb_def split_beta stays)

lemma pure_steps:
  "withinP P (requireP v e)" "withinP P (enforceP r)"
  by (simp_all add: requireP_def enforceP_def withinP_done split: option.split rate_limit_result.split)

lemma apiP: "withinP P p \<Longrightarrow> withinP P (apiP p)"
  unfolding apiP_def by (rule withinP_map_errP)

lemma logP: "withinP P p \<Longrightarrow> withinP P (logP p)"
  unfolding logP_def by (intro withinP_attemptP withinP_done)

lemma small_steps:
  "withinP P (atomicP (\<lambda>wd. (Inr (), wd\<lparr>wd_active := f wd\<rparr>)))" "withinP P (atomicP (\<lambda>wd. (Inr (g wd), wd)))"
  "withinP P (atomicP (\<lambda>wd. (Inr (), wd\<lparr>wd_edge := h wd\<rparr>)))"
  by (rule withinP_atomicP; simp add: within_def free stays)+

lemmas service_steps = withinP_intros redis_steps ext_step pure_steps apiP logP small_steps

lemma live_edge: "withinP P (live_edge_steps rq)"
  unfolding live_edge_steps_def by (intro service_steps)

lemma staking: "withinP P (staking_summary_steps st wallet)"
  unfolding staking_summary_steps_def read_configured_step_def
  by (intro service_steps withinP_atomicP) (simp_all add: within_def free split: prod.splits)

lemma submit_all: "withinP P (submit_all_steps xs c p)"
  by (induction xs c p rule: submit_all_steps.induct) (auto intro!: service_steps)

lemma controls: "withinP P (pause_session_steps st sid w)" "withinP P (resume_session_steps st sid w)"
  unfolding pause_session_steps_def resume_session_steps_def authorize_session_owner_steps_def
  by (intro service_steps)+

lemma assess:
  assumes "\<And>e. within P (onDb (insert_anomaly_event (st_pg st) (rq_fault rq 0) e))"
  shows "withinP P (assess_proof_steps st rq sid wallet result)"
  unfolding assess_proof_steps_def Let_def
  by (intro service_steps withinP_atomicP assms) (simp add: within_def free split: prod.splits)

lemma submit_proof:
  assumes "\<And>e. within P (onDb (insert_anomaly_event (st_pg st) (rq_fault rq 0) e))"
    and "\<And>c. within P (sample_session st rq (SessionId sid) c)"
  shows "withinP P (submit_proof_handler_steps st rq sid body)"
  unfolding submit_proof_handler_steps_def count_proof_steps_def Let_def
  by (intro service_steps assess withinP_atomicP [of P "sample_session st rq (SessionId sid) c" for c] assms)

lemma settle:
  assumes "\<And>p. mp_session_id p = sid \<Longrightarrow> mp_status p = Pending
      \<Longrightarrow> within P (onDb (insert_mint_proposal (st_pg st) (rq_fault rq 2) (rq_uuid rq) (rq_clock rq 10) p))"
  shows "withinP P (settle_session_steps st rq sid ctx twap att)"
  unfolding settle_session_steps_def sign_and_store_steps_def Let_def
  by (intro service_steps live_edge staking query_step withinP_atomicP [OF assms])
     (auto simp: unsigned_proposal_def total_minted_wei_24h_def pg_defs split: option.splits)

lemma end_session:
  assumes "\<And>p. mp_session_id p = SessionId sid \<Longrightarrow> mp_status p = Pending
      \<Longrightarrow> within P (onDb (insert_mint_proposal (st_pg st) (rq_fault rq 2) (rq_uuid rq) (rq_clock rq 10) p))"
    and "within P (take_calculator (SessionId sid) :: (_, api_error, _) act)"
  shows "withinP P (end_session_handler_steps st rq sid nonce)"
  unfolding end_session_handler_steps_def Let_def
  by (intro service_steps submit_all settle assms(1) withinP_atomicP [OF assms(2)])

lemma create_session:
  assumes "within P (\<lambda>wd. (Inr () :: api_error + _, wd\<lparr>wd_twap := (wd_twap wd)(rq_uuid rq \<mapsto> twap_new (rq_clock rq 1))\<rparr>))"
  shows "withinP P (create_session_handler_steps st rq ip body)"
proof -
  have id: "returns (\<lambda>r. \<forall>a. r = Inr a \<longrightarrow> a = SessionId (rq_uuid rq))
      (apiP (onRedisP (create_session_steps R L (rq_uuid rq) ctx)))" for R L ctx
    unfolding apiP_def map_errP_def onRedisP_def
    by (rule returns_attemptP, rule returns_focusP [of "\<lambda>r. \<forall>a. r = Inr a \<longrightarrow> a = SessionId (rq_uuid rq)"])
       (auto simp: create_session_steps_def Let_def tryP_def okP_def errP_def map_sum_eq_iff split: sum.split
         intro!: returns_attemptP [OF returns_True])
  have body: "withinP P (tryP (apiP (onRedisP (create_session_steps (st_redis st) (st_libs st) (rq_uuid rq) ctx))) (\<lambda>sid.
     tryP (apiP (onRedisP (atomicP (set_commit (st_redis st) (st_libs st) sid commit_hash)))) (\<lambda>_.
     tryP (atomicP (\<lambda>wd. (Inr (), wd\<lparr>wd_twap := (wd_twap wd)(sid_str sid \<mapsto> twap_new (rq_clock rq 1))\<rparr>))) (\<lambda>_.
     tryP (atomicP (\<lambda>wd. (Inr (), wd\<lparr>wd_active := wd_active wd + 1\<rparr>))) (\<lambda>_.
     okP (Some \<lparr>cs_session_id = sid_str sid, cs_assigned_site = site\<rparr>))))))" for ctx commit_hash site
    by (rule withinP_tryP_returns [OF _ id]) (auto simp del: One_nat_def intro!: service_steps withinP_atomicP [OF assms])
  show ?thesis
    unfolding create_session_handler_steps_def Let_def
    by (intro withinP_tryP withinP_cases withinP_done redis_steps pure_steps apiP body)
qed

end

section \<open>The ledger\<close>

definition ledger :: "string set \<Rightarrow> ('r, 'w, 'ch) world \<Rightarrow> ('r, 'w, 'ch) world \<Rightarrow> bool" where
  "ledger S wd wd' \<longleftrightarrow> grows wd wd' \<and> (\<exists>ps. proposals wd' = proposals wd @ ps \<and> (\<forall>p \<in> set ps. mr_session_id p \<in> S))"

lemma ledgerI: "grows wd wd' \<Longrightarrow> same proposals wd wd' \<Longrightarrow> ledger S wd wd'"
  by (simp add: ledger_def same_def)

interpretation ledger: handler_frame "ledger S" for S
proof unfold_locales
  fix a b c :: "('r, 'w, 'ch) world"
  show "ledger S a a" by (simp add: ledgerI grows.stays same.stays)
  show "ledger S a b \<Longrightarrow> ledger S b c \<Longrightarrow> ledger S a c"
    unfolding ledger_def using grows.steps by fastforce
qed (simp_all add: ledger_def grows_def averages_ok_def)

lemma within_ledgerI: "within grows m \<Longrightarrow> within (same proposals) m \<Longrightarrow> within (ledger S) m"
  by (simp add: within_def ledgerI)

lemma within_ledger_insert:
  assumes "sid_str (mp_session_id p) \<in> S" and "mp_status p = Pending"
  shows "within (ledger S) (onDb (insert_mint_proposal L f i now p))"
proof -
  have "\<exists>ps. db_proposals (snd (insert_mint_proposal L f i now p d)) = db_proposals d @ ps \<and> (\<forall>p \<in> set ps. mr_session_id p \<in> S)" for d
    using assms(1) by (auto simp: insert_mint_proposal_def pg_defs split: option.splits sum.splits)
  moreover have "within grows (onDb (insert_mint_proposal L f i now p))"
    by (rule within_onDb) (rule inserts_append(2) [OF assms(2)])
  ultimately show ?thesis by (simp add: within_def ledger_def onDb_def split_beta)
qed

lemma ledger_handlers:
  "withinP (ledger S) (create_session_handler_steps st rq ip create_body)"
  "withinP (ledger S) (submit_proof_handler_steps st rq sid submit_body)"
  "sid \<in> S \<Longrightarrow> withinP (ledger S) (end_session_handler_steps st rq sid nonce)"
proof -
  show "withinP (ledger S) (create_session_handler_steps st rq ip create_body)"
    by (rule ledger.create_session, rule within_ledgerI)
       (auto simp: within_def grows_def averages_ok_def twap_inv_new same_def)
  show "withinP (ledger S) (submit_proof_handler_steps st rq sid submit_body)"
    by (intro ledger.submit_proof within_ledgerI within_sample same_proposals_sample same_proposals_anomaly
        within_onDb inserts_append)
  show "withinP (ledger S) (end_session_handler_steps st rq sid nonce)" if "sid \<in> S"
    using that
    by (intro ledger.end_session within_ledger_insert within_ledgerI within_steps)
       (auto simp: within_def same_def take_calculator_def)
qed

text \<open>The service's state: the ledger and the nonces.\<close>

definition books :: "string set \<Rightarrow> ('r, 'w, 'ch) service \<Rightarrow> ('r, 'w, 'ch) service \<Rightarrow> bool" where
  "books S sv sv' \<longleftrightarrow> ledger S (sv_world sv) (sv_world sv')
     \<and> (distinct (map fst (sv_nonces sv)) \<longrightarrow> distinct (map fst (sv_nonces sv')))"

interpretation books: frame "books S" for S
  by unfold_locales (auto simp: books_def ledger.stays intro: ledger.steps)

lemma books_answer: "withinP (ledger S) p \<Longrightarrow> withinP (books S) (answerP f p)"
  unfolding answerP_def onWorldP_def
  by (intro withinP_attemptP withinP_done withinP_focusP) (simp_all add: books_def)

lemma books_dispatch:
  assumes "\<And>sid nonce. c = EndSession sid nonce \<Longrightarrow> sid \<in> S"
  shows "withinP (books S) (dispatch_steps st L cfg av c)"
proof (cases "\<exists>b sid x. c \<in> {CreateSession b, SubmitProof sid x} \<or> (\<exists>n. c \<in> {EndSession sid n, PauseSession sid n, ResumeSession sid n})")
  case True
  then show ?thesis using assms by (auto intro!: books_answer ledger_handlers ledger.controls)
next
  case False
  have one: "books S sv (snd (dispatch st L cfg av c sv))" for sv
  proof -
    obtain ps where "proposals (sv_world (snd (dispatch st L cfg av c sv))) = proposals (sv_world sv) @ ps"
      "\<forall>p \<in> set ps. \<exists>nonce. c = EndSession (mr_session_id p) nonce" using dispatch_proposals by metis
    then show ?thesis
      unfolding books_def ledger_def using grows_dispatch [of sv st L cfg av c] nonces_distinct [of sv st L cfg av c] assms by blast
  qed
  have "dispatch_steps st L cfg av c = atomicP (\<lambda>sv. case dispatch st L cfg av c sv of (r, sv') \<Rightarrow> (Inr r, sv'))"
    using False by (cases c) auto
  then show ?thesis using one by (auto intro!: withinP_atomicP simp: within_def split: prod.splits) (metis snd_conv)
qed

text \<open>What the outside may do at any moment: anything, except to the tables, the averages and the nonces.\<close>

definition elsewhere :: "('r, 'w, 'ch) service \<Rightarrow> ('r, 'w, 'ch) service \<Rightarrow> bool" where
  "elsewhere sv sv' \<longleftrightarrow> wd_db (sv_world sv') = wd_db (sv_world sv) \<and> wd_twap (sv_world sv') = wd_twap (sv_world sv)
     \<and> sv_nonces sv' = sv_nonces sv"

lemma elsewhere_books: "elsewhere sv sv' \<Longrightarrow> books S sv sv'"
  by (auto simp: elsewhere_def books_def ledger_def grows_def averages_ok_def)

definition requests ::
    "('r, 'w, 'ch, 'sk, 'p) app_state \<Rightarrow> admin_libs \<Rightarrow> admin_config \<Rightarrow> (arrival \<times> call) list
       \<Rightarrow> (('r, 'w, 'ch) service, api_error, reply) prog list" where
  "requests st L cfg calls = map (\<lambda>(av, c). dispatch_steps st L cfg av c) calls"

text \<open>
  C6: Overlapping requests cannot corrupt the ledger. However the steps of any number of requests are
  interleaved with each other and with the outside, at every moment no session has two proposals, no
  proposal or anomaly event has been changed or removed, every new proposal is pending and belongs to a
  session whose end was requested, no price average holds a sample from before its session, and the
  login nonces are distinct.
\<close>

theorem overlapping_requests_keep_ledger:
  assumes "interleaves elsewhere (requests st L cfg calls, sv) (ps, sv')"
    and "one_per_session (wd_db (sv_world sv))" and "averages_ok (sv_world sv)" and "distinct (map fst (sv_nonces sv))"
  shows "let d = wd_db (sv_world sv); d' = wd_db (sv_world sv') in
      one_per_session d' \<and> averages_ok (sv_world sv') \<and> distinct (map fst (sv_nonces sv'))
    \<and> (\<exists>as. db_anomalies d' = db_anomalies d @ as)
    \<and> (\<exists>new. db_proposals d' = db_proposals d @ new \<and> (\<forall>p \<in> set new. mr_status p = ''Pending''
          \<and> (\<exists>av nonce. (av, EndSession (mr_session_id p) nonce) \<in> set calls)))"
proof -
  let ?S = "{sid. \<exists>av nonce. (av, EndSession sid nonce) \<in> set calls}"
  have "\<forall>p \<in> set (requests st L cfg calls). withinP (books ?S) p"
    by (auto simp: requests_def intro!: books_dispatch)
  then have "books ?S sv sv'"
    using books.interleaved [OF assms(1), of ?S] elsewhere_books by blast
  then show ?thesis
    using assms(2-4) by (fastforce simp: books_def ledger_def grows_def appended_def Let_def)
qed

section \<open>One settlement per session\<close>

text \<open>Whether the average of a session has been taken; without a new session of that name it stays so.\<close>

definition gone :: "string \<Rightarrow> ('r, 'w, 'ch) world \<Rightarrow> nat" where
  "gone sid wd = (if wd_twap wd sid = None then 1 else 0)"

interpretation gone: handler_frame "rises (gone sid)" for sid
  by unfold_locales (auto simp: rises_def gone_def)

lemma gone_handlers:
  "rq_uuid rq \<noteq> sid \<Longrightarrow> withinP (rises (gone sid)) (create_session_handler_steps st rq ip create_body)"
  "withinP (rises (gone sid)) (submit_proof_handler_steps st rq other submit_body)"
  "withinP (rises (gone sid)) (end_session_handler_steps st rq other nonce)"
proof -
  have db: "within (rises (gone sid)) (onDb m)" for m :: "(db, 'x, 'y) act"
    by (simp add: within_def rises_def gone_def onDb_def split: prod.splits)
  show "withinP (rises (gone sid)) (create_session_handler_steps st rq ip create_body)" if "rq_uuid rq \<noteq> sid"
    using that by (intro gone.create_session) (auto simp: within_def rises_def gone_def)
  show "withinP (rises (gone sid)) (submit_proof_handler_steps st rq other submit_body)"
    by (intro gone.submit_proof db)
       (auto simp: within_def rises_def gone_def sample_session_def split: option.splits prod.splits)
  show "withinP (rises (gone sid)) (end_session_handler_steps st rq other nonce)"
    by (intro gone.end_session db) (auto simp: within_def rises_def gone_def take_calculator_def)
qed

text \<open>Only ending the session takes its average away.\<close>

definition present :: "string \<Rightarrow> ('r, 'w, 'ch) world \<Rightarrow> nat" where
  "present sid wd = 1 - gone sid wd"

interpretation present: handler_frame "rises (present sid)" for sid
  by unfold_locales (auto simp: rises_def gone_def present_def)

lemma present_handlers:
  "withinP (rises (present sid)) (create_session_handler_steps st rq ip create_body)"
  "withinP (rises (present sid)) (submit_proof_handler_steps st rq other submit_body)"
  "other \<noteq> sid \<Longrightarrow> withinP (rises (present sid)) (end_session_handler_steps st rq other nonce)"
proof -
  have db: "within (rises (present sid)) (onDb m)" for m :: "(db, 'x, 'y) act"
    by (simp add: within_def rises_def gone_def present_def onDb_def split: prod.splits)
  show "withinP (rises (present sid)) (create_session_handler_steps st rq ip create_body)"
    by (intro present.create_session) (auto simp: within_def rises_def gone_def present_def)
  show "withinP (rises (present sid)) (submit_proof_handler_steps st rq other submit_body)"
    by (intro present.submit_proof db)
       (auto simp: within_def rises_def gone_def present_def sample_session_def split: option.splits prod.splits)
  show "withinP (rises (present sid)) (end_session_handler_steps st rq other nonce)" if "other \<noteq> sid"
    using that by (intro present.end_session db) (auto simp: within_def rises_def gone_def present_def take_calculator_def)
qed

lemma rises_answer: "withinP (rises \<mu>) p \<Longrightarrow> withinP (rises (\<lambda>sv. \<mu> (sv_world sv))) (answerP f p)"
  unfolding answerP_def onWorldP_def
  by (intro withinP_attemptP withinP_done withinP_focusP [where P' = "rises \<mu>"]) (simp_all add: rises_def)

definition session_call :: "call \<Rightarrow> bool" where
  "session_call c \<longleftrightarrow> (\<exists>b s x. c \<in> {CreateSession b, SubmitProof s x} \<or> (\<exists>n. c \<in> {EndSession s n, PauseSession s n, ResumeSession s n}))"

lemma other_calls_rise:
  assumes "\<not> session_call c" and "\<And>wd wd'. wd_twap wd' = wd_twap wd \<Longrightarrow> \<mu> wd' = \<mu> wd"
  shows "withinP (rises (\<lambda>sv. \<mu> (sv_world sv))) (dispatch_steps st L cfg av c)"
proof -
  have "wd_twap (sv_world (snd (dispatch st L cfg av c sv))) = wd_twap (sv_world sv)" for sv
  proof (cases "reading c")
    case True
    have "reads (\<lambda>_. empty_ks) (sv_world sv) (sv_world (snd (dispatch st L cfg av c sv)))"
      by (rule conjunct1, rule reading_dispatch) (simp_all add: True within_def same_def)
    then show ?thesis by (simp add: reads_def)
  next
    case f: False
    then show ?thesis using assms(1) by (cases c) (auto simp: session_call_def split: prod.splits)
  qed
  note same = assms(2) [OF this]
  have "dispatch_steps st L cfg av c = atomicP (\<lambda>sv. case dispatch st L cfg av c sv of (r, sv') \<Rightarrow> (Inr r, sv'))"
    using assms(1) by (cases c) (auto simp: session_call_def)
  then show ?thesis
    using same by (auto intro!: withinP_atomicP simp: within_def rises_def split_beta)
qed

lemma requests_rise:
  assumes "\<And>body. c = CreateSession body \<Longrightarrow> rq_uuid (av_request av) \<noteq> sid"
  shows "withinP (rises (\<lambda>sv. gone sid (sv_world sv))) (dispatch_steps st L cfg av c)"
proof (cases "session_call c")
  case True
  then show ?thesis using assms by (auto simp: session_call_def intro!: rises_answer gone_handlers gone.controls)
qed (rule other_calls_rise, simp_all add: gone_def)

lemma others_leave_average:
  assumes "\<nexists>nonce. c = EndSession sid nonce"
  shows "withinP (rises (\<lambda>sv. present sid (sv_world sv))) (dispatch_steps st L cfg av c)"
proof (cases "session_call c")
  case True
  then show ?thesis using assms by (auto simp: session_call_def intro!: rises_answer present_handlers present.controls)
qed (rule other_calls_rise, simp_all add: present_def gone_def)

text \<open>Until it has taken the average, a request to end a session has only read Redis and answers nothing that counts.\<close>

definition takes_average :: "string \<Rightarrow> ('r, 'w, 'ch) service \<Rightarrow> ('r, 'w, 'ch) service \<Rightarrow> bool" where
  "takes_average sid sv sv' \<longleftrightarrow> wd_twap (sv_world sv) sid \<noteq> None \<and> wd_twap (sv_world sv') sid = None"

definition only_redis :: "('r, 'w, 'ch) service \<Rightarrow> ('r, 'w, 'ch) service \<Rightarrow> bool" where
  "only_redis sv sv' \<longleftrightarrow> (\<exists>x. sv' = sv\<lparr>sv_world := (sv_world sv)\<lparr>wd_redis := x\<rparr>\<rparr>)"

definition past_average :: "api_error + end_response \<Rightarrow> bool" where
  "past_average r \<longleftrightarrow> (\<exists>status msg. r = Inr (status, msg) \<and> msg \<notin> {''rejected'', ''no_assigned_node'', ''no_samples''})"

definition settled_reply :: "api_error + reply \<Rightarrow> bool" where
  "settled_reply r \<longleftrightarrow> (\<exists>status msg. r = Inr (Ended status msg) \<and> msg \<notin> {''rejected'', ''no_assigned_node'', ''no_samples''})"

lemma end_session_awaits:
  "awaits (\<lambda>wd wd'. wd_twap wd sid \<noteq> None \<and> wd_twap wd' sid = None) (\<lambda>wd wd'. \<exists>x. wd' = wd\<lparr>wd_redis := x\<rparr>)
     past_average (end_session_handler_steps st rq sid nonce)" (is "awaits ?T ?N _ _")
proof -
  have e: "\<not> past_average (Inl e)" for e by (simp add: past_average_def)
  have refused: "awaits ?T ?N past_average (okP (400, msg))" if "msg \<in> {''rejected'', ''no_assigned_node'', ''no_samples''}" for msg
    using that by (intro awaits_done) (auto simp: past_average_def)
  have redis: "withinP ?N (apiP (onRedisP p))" for p :: "('a, 'z, 'x) prog"
    unfolding apiP_def onRedisP_def by (rule withinP_map_errP, rule withinP_focusP [OF withinP_True]) blast
  have pure: "withinP ?N (requireP v e)" for v :: "'x option" and e
    by (simp add: requireP_def withinP_done split: option.split)
  have ticket: "awaits ?T ?N past_average (tryP (atomicP (take_calculator (SessionId sid))) k)"
    if "awaits ?T ?N past_average (k None)" for k :: "twap_calculator option \<Rightarrow> (('a, 'b, 'c) world, api_error, end_response) prog"
  proof (rule awaits_ticket, rule e)
    fix wd wd' :: "('a, 'b, 'c) world" and r :: "api_error + twap_calculator option"
    assume "take_calculator (SessionId sid) wd = (r, wd')"
    then show "?T wd wd' \<or> ?N wd wd' \<and> (\<forall>a. r = Inr a \<longrightarrow> awaits ?T ?N past_average (k a))"
      using that by (cases "wd_twap wd sid") (auto simp: take_calculator_def fun_upd_idem intro!: exI [of _ "wd_redis wd"])
  qed
  show ?thesis
    unfolding end_session_handler_steps_def Let_def
    by (intro awaits_tryP e redis pure) (auto simp del: not_None_eq intro!: refused ticket split: option.splits)
qed

lemma end_request_awaits:
  "awaits (takes_average sid) only_redis settled_reply (dispatch_steps st L cfg av (EndSession sid nonce))"
proof -
  have "awaits (takes_average sid) only_redis past_average (onWorldP (end_session_handler_steps st (av_request av) sid nonce))"
    unfolding onWorldP_def by (rule awaits_focusP [OF end_session_awaits]) (auto simp: takes_average_def only_redis_def)
  then show ?thesis
    unfolding dispatch_steps.simps answerP_def
    by (rule awaits_result)
       (auto simp: okP_def settled_reply_def past_average_def api_reply_def split: sum.splits)
qed

interpretation averages: tickets "\<lambda>sv. gone sid (sv_world sv)" 1 elsewhere for sid
  by unfold_locales (simp add: gone_def elsewhere_def)

lemma takes_average_iff:
  "takes_average sid a b \<longleftrightarrow> gone sid (sv_world a) < gone sid (sv_world b)"
  "takes_average sid a b \<longleftrightarrow> \<not> rises (\<lambda>sv. present sid (sv_world sv)) a b"
  by (auto simp: takes_average_def gone_def present_def rises_def)

text \<open>The requests of a run that have taken the average of a session, finished or not.\<close>

definition takers :: "string \<Rightarrow> (nat \<times> ('r, 'w, 'ch) service \<times> ('r, 'w, 'ch) service) list \<Rightarrow> nat set" where
  "takers sid h = {i. \<exists>a b. (i, a, b) \<in> set h \<and> takes_average sid a b}"

lemma finite_takers: "finite (takers sid h)"
  by (rule finite_subset [of _ "fst ` set h"]) (force simp: takers_def)+

lemma awaiting_end:
  assumes "recorded elsewhere (requests st L cfg calls, sv) h (ps, sv')"
    and "i < length calls" "calls ! i = (av, EndSession sid nonce)" "i \<notin> takers sid h"
  shows "(\<forall>a b. (i, a, b) \<in> set h \<longrightarrow> only_redis a b) \<and> awaits (takes_average sid) only_redis settled_reply (ps ! i)"
  by (rule recorded_awaits [OF assms(1)])
     (use assms(2-) in \<open>auto simp: end_request_awaits takers_def requests_def simp del: dispatch_steps.simps\<close>)

text \<open>
  C9: The average of a session is spent once. However requests overlap, as long as no new session takes the
  identifier, at most one request takes the price average of a session, it is a request to end that session,
  and there is none if the average is already gone. Every other request to end the session, whether it is
  answered, has failed or still runs, has at no step changed anything but Redis, so it has submitted no price,
  asked for no attestation and inserted no row; and if it is answered, then that the nonce is wrong, the node
  is missing or there are no samples, or with an error.
\<close>

theorem one_settlement_per_session:
  assumes "recorded elsewhere (requests st L cfg calls, sv) h (ps, sv')"
    and "\<forall>(av, c) \<in> set calls. \<forall>body. c = CreateSession body \<longrightarrow> rq_uuid (av_request av) \<noteq> sid"
  shows "card (takers sid h) \<le> (if wd_twap (sv_world sv) sid = None then 0 else 1)
    \<and> (\<forall>i \<in> takers sid h. i < length calls \<and> (\<exists>av nonce. calls ! i = (av, EndSession sid nonce)))
    \<and> (\<forall>i < length calls. \<forall>av nonce. calls ! i = (av, EndSession sid nonce) \<longrightarrow> i \<notin> takers sid h \<longrightarrow>
         (\<forall>a b. (i, a, b) \<in> set h \<longrightarrow> only_redis a b) \<and> (\<forall>r. ps ! i = Done r \<longrightarrow> \<not> settled_reply r))"
proof (intro conjI ballI allI impI)
  let ?rs = "requests st L cfg calls"
  have nth: "?rs ! i = dispatch_steps st L cfg av c" if "i < length calls" "calls ! i = (av, c)" for i av c
    using that by (simp add: requests_def)
  have "\<forall>p \<in> set ?rs. withinP (rises (\<lambda>sv. gone sid (sv_world sv))) p"
    using assms(2) by (auto simp: requests_def intro!: requests_rise)
  moreover have "takers sid h = risers (\<lambda>sv. gone sid (sv_world sv)) h" by (simp add: takers_def risers_def takes_average_iff(1))
  ultimately have "card (takers sid h) + gone sid (sv_world sv) \<le> gone sid (sv_world sv')"
    using averages.recorded_risers [OF assms(1)] by simp
  then show "card (takers sid h) \<le> (if wd_twap (sv_world sv) sid = None then 0 else 1)"
    by (auto simp: gone_def split: if_splits)
  show bound: "i < length calls" if "i \<in> takers sid h" for i
    using recorded_index [OF assms(1)] that by (auto simp: takers_def requests_def)
  show "\<exists>av nonce. calls ! i = (av, EndSession sid nonce)" if i: "i \<in> takers sid h" for i
  proof (rule ccontr)
    obtain av c where c: "calls ! i = (av, c)" by fastforce
    assume "\<nexists>av nonce. calls ! i = (av, EndSession sid nonce)"
    then have "withinP (rises (\<lambda>sv. present sid (sv_world sv))) (?rs ! i)"
      unfolding nth [OF bound [OF i] c] by (intro others_leave_average) (auto simp: c)
    then show False
      using recorded_within [OF assms(1), of i] i bound [OF i] by (auto simp: requests_def takers_def takes_average_iff(2))
  qed
  fix i av nonce
  assume i: "i < length calls" "calls ! i = (av, EndSession sid nonce)" "i \<notin> takers sid h"
  note kept = awaiting_end [OF assms(1) i]
  from kept show "only_redis a b" if "(i, a, b) \<in> set h" for a b using that by blast
  show "\<not> settled_reply r" if "ps ! i = Done r" for r using kept that by simp
qed

section \<open>A discarded average\<close>

text \<open>
  What the requests can still do for a session whose average is gone: none of them gets past the average, and
  no proposal of the session appears.
\<close>

lemma gone_average:
  assumes "recorded elsewhere (requests st L cfg calls, sv) h (ps, sv')"
    and "\<forall>(av, c) \<in> set calls. \<forall>body. c = CreateSession body \<longrightarrow> rq_uuid (av_request av) \<noteq> sid"
    and "wd_twap (sv_world sv) sid = None"
  shows "wd_twap (sv_world sv') sid = None \<and> takers sid h = {}"
proof -
  have "\<forall>p \<in> set (requests st L cfg calls). withinP (rises (\<lambda>sv. gone sid (sv_world sv))) p"
    using assms(2) by (auto simp: requests_def intro!: requests_rise)
  moreover have "takers sid h = risers (\<lambda>sv. gone sid (sv_world sv)) h" by (simp add: takers_def risers_def takes_average_iff(1))
  ultimately have "card (takers sid h) + gone sid (sv_world sv) \<le> gone sid (sv_world sv')"
    using averages.recorded_risers [OF assms(1)] by simp
  then show ?thesis using assms(3) finite_takers [of sid h] by (auto simp: gone_def split: if_splits)
qed

lemma no_taker_no_proposal:
  assumes "recorded elsewhere (requests st L cfg calls, sv) h (ps, sv')" and "takers sid h = {}"
  shows "filter (\<lambda>p. mr_session_id p = sid) (db_proposals (wd_db (sv_world sv')))
    = filter (\<lambda>p. mr_session_id p = sid) (db_proposals (wd_db (sv_world sv)))"
proof -
  have "books (- {sid}) a b" if e: "(i, a, b) \<in> set h" for i a b
  proof -
    have i: "i < length calls" using recorded_index [OF assms(1)] e by (auto simp: requests_def)
    obtain av c where c: "calls ! i = (av, c)" by fastforce
    show ?thesis
    proof (cases "\<exists>nonce. c = EndSession sid nonce")
      case True
      then have "only_redis a b" using awaiting_end [OF assms(1) i] assms(2) e c by blast
      then show ?thesis by (auto simp: only_redis_def books_def ledger.free)
    next
      case False
      then have "withinP (books (- {sid})) (requests st L cfg calls ! i)"
        using i c by (auto simp: requests_def intro!: books_dispatch)
      then show ?thesis using recorded_within [OF assms(1), of i] i e by (auto simp: requests_def)
    qed
  qed
  then have turns: "\<forall>(i, a, b) \<in> set h. books (- {sid}) a b" by blast
  have "books (- {sid}) sv sv'"
    by (rule books.recorded_frame [OF assms(1) turns]) (simp add: elsewhere_books)
  then show ?thesis by (auto simp: books_def ledger_def filter_empty_conv)
qed

text \<open>
  C37: A failed attestation forfeits the session. If the nonce is right but fewer than three registered signers
  reply genuinely, nothing is minted and the session and its gauge stay, but its price average has been discarded.
  From then on, whatever requests are sent, repeated and interleaved, with the outside moving in between, and as
  long as no new session takes the identifier, the average stays away, no proposal of the session appears and no
  request to end it gets past the average; and at every later moment at which the session and its commitment can
  still be read, ending it answers \<open>no_samples\<close>.
\<close>

theorem failed_attestation_forfeits:
  fixes st :: "('r, 'w, 'ch, 'sk, 'p) app_state" and wd :: "('r, 'w, 'ch) world"
  assumes "redis (st_redis st) view"
    and "fst (get_session keyspace_ops (st_libs st) (SessionId sid_raw) (view (wd_redis wd))) = Inr (Some ctx)"
    and "st_hex_decode st nonce_raw = Some nonce"
    and "fst (verify_reveal keyspace_ops (st_libs st) (SessionId sid_raw) nonce (view (wd_redis wd))) = Inr True"
    and "sc_assigned_node_id ctx = Some assigned"
    and "Option.bind (wd_twap wd sid_raw) (\<lambda>c. finalize c (rq_clock rq 0)) = Some twap"
    and "fst (get_proofs keyspace_ops (st_libs st) (SessionId sid_raw) (view (wd_redis wd))) = Inr proof_set"
    and "attestation_start st (sc_commodity ctx) (tr_twap twap) wd = Some (seed, w)"
    and "card (round_signers (st_coordinator st) (st_recover st) proof_set seed assigned w) < 3"
  shows "\<exists>wd'. handle_end_session st rq sid_raw nonce_raw wd = (Inr (500, ''attestation_failed''), wd')
    \<and> wd_db wd' = wd_db wd \<and> view (wd_redis wd') = view (wd_redis wd) \<and> wd_active wd' = wd_active wd
    \<and> (\<forall>L cfg calls sv ps sv'. sv_world sv = wd' \<longrightarrow> interleaves elsewhere (requests st L cfg calls, sv) (ps, sv') \<longrightarrow>
         (\<forall>(av, c) \<in> set calls. \<forall>body. c = CreateSession body \<longrightarrow> rq_uuid (av_request av) \<noteq> sid_raw) \<longrightarrow>
         wd_twap (sv_world sv') sid_raw = None
       \<and> filter (\<lambda>p. mr_session_id p = sid_raw) (db_proposals (wd_db (sv_world sv')))
         = filter (\<lambda>p. mr_session_id p = sid_raw) (db_proposals (wd_db wd))
       \<and> (\<forall>i < length calls. \<forall>av other r. calls ! i = (av, EndSession sid_raw other) \<longrightarrow> ps ! i = Done r \<longrightarrow> \<not> settled_reply r)
       \<and> (fst (get_session keyspace_ops (st_libs st) (SessionId sid_raw) (view (wd_redis (sv_world sv')))) = Inr (Some ctx)
           \<and> fst (verify_reveal keyspace_ops (st_libs st) (SessionId sid_raw) nonce (view (wd_redis (sv_world sv')))) = Inr True \<longrightarrow>
           (\<forall>rq'. fst (handle_end_session st rq' sid_raw nonce_raw (sv_world sv')) = Inr (400, ''no_samples''))))"
proof -
  obtain wd' where wd': "handle_end_session st rq sid_raw nonce_raw wd = (Inr (500, ''attestation_failed''), wd')"
    "wd_db wd' = wd_db wd" "view (wd_redis wd') = view (wd_redis wd)" "wd_active wd' = wd_active wd" "wd_twap wd' sid_raw = None"
    using failed_attestation_discards [OF assms] by blast
  show ?thesis
  proof (intro exI [of _ wd'] conjI allI impI wd'(1-4))
    fix L cfg calls and sv sv' :: "('r, 'w, 'ch) service" and ps
    assume sv: "sv_world sv = wd'" and run: "interleaves elsewhere (requests st L cfg calls, sv) (ps, sv')"
      and fresh: "\<forall>(av, c) \<in> set calls. \<forall>body. c = CreateSession body \<longrightarrow> rq_uuid (av_request av) \<noteq> sid_raw"
    obtain h where h: "recorded elsewhere (requests st L cfg calls, sv) h (ps, sv')" using interleaves_recorded [OF run] by blast
    have none: "takers sid_raw h = {}" and gone': "wd_twap (sv_world sv') sid_raw = None"
      using gone_average [OF h fresh] sv wd'(5) by simp_all
    show "wd_twap (sv_world sv') sid_raw = None" by (rule gone')
    show "filter (\<lambda>p. mr_session_id p = sid_raw) (db_proposals (wd_db (sv_world sv')))
        = filter (\<lambda>p. mr_session_id p = sid_raw) (db_proposals (wd_db wd))"
      using no_taker_no_proposal [OF h none] sv wd'(2) by simp
    show "\<not> settled_reply r" if "i < length calls" "calls ! i = (av, EndSession sid_raw other)" "ps ! i = Done r" for i av other r
      using awaiting_end [OF h that(1,2)] none that(3) by simp
    show "fst (handle_end_session st rq' sid_raw nonce_raw (sv_world sv')) = Inr (400, ''no_samples'')"
      if "fst (get_session keyspace_ops (st_libs st) (SessionId sid_raw) (view (wd_redis (sv_world sv')))) = Inr (Some ctx)
        \<and> fst (verify_reveal keyspace_ops (st_libs st) (SessionId sid_raw) nonce (view (wd_redis (sv_world sv')))) = Inr True" for rq'
      using that by (intro end_session_no_samples [OF assms(1) _ assms(3) _ assms(5) gone']) simp_all
  qed
qed

section \<open>Instances\<close>

text \<open>The same end requested twice, the first having run to its answer before the second starts.\<close>

definition demo_calls :: "(arrival \<times> call) list" where
  "demo_calls = [(demo_arrival, EndSession ''s'' ''nonce''), (demo_arrival, EndSession ''s'' ''nonce'')]"

lemma demo_overlap:
  "\<exists>p row sv'. interleaves elsewhere (requests demo_state demo_admin_libs demo_admin demo_calls, Service_Router.demo_service)
      ([Done (Inr (Ended 200 ''completed'')), p], sv')
    \<and> db_proposals (wd_db (sv_world sv')) = [row]"
proof -
  obtain row wd' where run: "handle_end_session demo_state (demo_request 700) ''s'' ''nonce'' demo_world = (Inr (200, ''completed''), wd')"
    "wd_db wd' = (wd_db demo_world)\<lparr>db_proposals := [row]\<rparr>"
    using demo_completes by blast
  let ?p = "dispatch_steps demo_state demo_admin_libs demo_admin demo_arrival (EndSession ''s'' ''nonce'')"
  let ?sv = "Service_Router.demo_service\<lparr>sv_world := wd'\<rparr>"
  have "runP ?p Service_Router.demo_service = (Inr (Ended 200 ''completed''), ?sv)"
    using run(1) by (simp add: runP_answer runP_simps on_world_def api_reply_def demo_arrival_def Service_Router.demo_service_def del: runP.simps)
  then have "interleaves elsewhere ([?p, ?p], Service_Router.demo_service) ([Done (Inr (Ended 200 ''completed'')), ?p], ?sv)"
    using interleaves_alone [of 0 "[?p, ?p]" ?p Service_Router.demo_service _ ?sv elsewhere] by (simp del: dispatch_steps.simps)
  then have "interleaves elsewhere (requests demo_state demo_admin_libs demo_admin demo_calls, Service_Router.demo_service)
      ([Done (Inr (Ended 200 ''completed'')), ?p], ?sv)"
    by (simp add: requests_def demo_calls_def del: dispatch_steps.simps)
  moreover have "db_proposals (wd_db (sv_world ?sv)) = [row]" using run(2) by simp
  ultimately show ?thesis by blast
qed

theorem overlapping_requests_keep_ledger_witness:
  "\<exists>ps row sv'. interleaves elsewhere (requests demo_state demo_admin_libs demo_admin demo_calls, Service_Router.demo_service) (ps, sv')
    \<and> db_proposals (wd_db (sv_world sv')) = [row] \<and> mr_session_id row = ''s'' \<and> mr_status row = ''Pending''"
proof -
  obtain p row sv' where run: "interleaves elsewhere (requests demo_state demo_admin_libs demo_admin demo_calls,
      Service_Router.demo_service) ([Done (Inr (Ended 200 ''completed'')), p], sv')"
    "db_proposals (wd_db (sv_world sv')) = [row]" using demo_overlap by blast
  from overlapping_requests_keep_ledger [OF run(1) demo_service_ok] run(2)
  have "mr_session_id row = ''s'' \<and> mr_status row = ''Pending''"
    by (simp add: Let_def demo_calls_def Service_Router.demo_service_def demo_world_def)
  then show ?thesis using run by blast
qed

theorem one_settlement_per_session_witness:
  "\<exists>h p sv'. recorded elsewhere (requests demo_state demo_admin_libs demo_admin demo_calls, Service_Router.demo_service) h
      ([Done (Inr (Ended 200 ''completed'')), p], sv')
    \<and> takers ''s'' h = {0} \<and> (\<forall>a b. (1, a, b) \<in> set h \<longrightarrow> only_redis a b)"
proof -
  obtain p sv' where "interleaves elsewhere (requests demo_state demo_admin_libs demo_admin demo_calls,
      Service_Router.demo_service) ([Done (Inr (Ended 200 ''completed'')), p], sv')" using demo_overlap by blast
  then obtain h where run: "recorded elsewhere (requests demo_state demo_admin_libs demo_admin demo_calls,
      Service_Router.demo_service) h ([Done (Inr (Ended 200 ''completed'')), p], sv')" using interleaves_recorded by blast
  have fresh: "\<forall>(av, c) \<in> set demo_calls. \<forall>body. c = CreateSession body \<longrightarrow> rq_uuid (av_request av) \<noteq> ''s''"
    by (simp add: demo_calls_def)
  note all = one_settlement_per_session [OF run fresh]
  have "settled_reply (Inr (Ended 200 ''completed''))" by (simp add: settled_reply_def)
  then have "0 \<in> takers ''s'' h"
    using conjunct2 [OF conjunct2 [OF all], THEN spec [of _ 0]] by (auto simp: demo_calls_def)
  moreover have "card (takers ''s'' h) \<le> 1" by (rule order_trans [OF conjunct1 [OF all]]) simp
  moreover have "finite (takers ''s'' h)" by (rule finite_takers)
  ultimately have only: "takers ''s'' h = {0}" using card_le_Suc0_iff_eq [of "takers ''s'' h"] by auto
  moreover have "demo_calls ! 1 = (demo_arrival, EndSession ''s'' ''nonce'')" "1 < length demo_calls" by (simp_all add: demo_calls_def)
  ultimately have "\<forall>a b. (1, a, b) \<in> set h \<longrightarrow> only_redis a b"
    using conjunct2 [OF conjunct2 [OF all], THEN spec [of _ 1]] by simp
  with run only show ?thesis by blast
qed

theorem failed_attestation_forfeits_witness:
  "\<exists>wd' r p sv'. handle_end_session deaf_state (demo_request 700) ''s'' ''nonce'' demo_world = (Inr (500, ''attestation_failed''), wd')
     \<and> fst (handle_end_session deaf_state (demo_request 700) ''s'' ''nonce'' wd') = Inr (400, ''no_samples'')
     \<and> interleaves elsewhere (requests deaf_state demo_admin_libs demo_admin demo_calls, Service_Router.demo_service\<lparr>sv_world := wd'\<rparr>)
         ([Done r, p], sv')
     \<and> \<not> settled_reply r \<and> filter (\<lambda>p. mr_session_id p = ''s'') (db_proposals (wd_db (sv_world sv'))) = []"
proof -
  let ?get = "\<lambda>red. fst (get_session keyspace_ops (st_libs deaf_state) (SessionId ''s'') (id red)) = Inr (Some demo_session)"
  let ?reveal = "\<lambda>red. fst (verify_reveal keyspace_ops (st_libs deaf_state) (SessionId ''s'') [1, 2] (id red)) = Inr True"
  have reads: "?get (wd_redis demo_world)" "st_hex_decode deaf_state ''nonce'' = Some [1, 2]" "?reveal (wd_redis demo_world)"
    "sc_assigned_node_id demo_session = Some (NodeId ''a'')"
    "Option.bind (wd_twap demo_world ''s'') (\<lambda>c. finalize c (rq_clock (demo_request 700) 0)) = Some demo_twap"
    "fst (get_proofs keyspace_ops (st_libs deaf_state) (SessionId ''s'') (id (wd_redis demo_world))) = Inr [sample_proof]"
    "attestation_start deaf_state (sc_commodity demo_session) (tr_twap demo_twap) demo_world = Some (replicate 32 0, ())"
    "card (round_signers (st_coordinator deaf_state) (st_recover deaf_state) [sample_proof] (replicate 32 0) (NodeId ''a'') ()) < 3"
    using demo_reads demo_finalize deaf_reads by (simp_all add: demo_sels deaf_state_def)
  obtain wd' where wd': "handle_end_session deaf_state (demo_request 700) ''s'' ''nonce'' demo_world = (Inr (500, ''attestation_failed''), wd')"
    "id (wd_redis wd') = id (wd_redis demo_world)"
    and later: "\<forall>L cfg calls sv ps sv'. sv_world sv = wd' \<longrightarrow> interleaves elsewhere (requests deaf_state L cfg calls, sv) (ps, sv') \<longrightarrow>
         (\<forall>(av, c) \<in> set calls. \<forall>body. c = CreateSession body \<longrightarrow> rq_uuid (av_request av) \<noteq> ''s'') \<longrightarrow>
         wd_twap (sv_world sv') ''s'' = None
       \<and> filter (\<lambda>p. mr_session_id p = ''s'') (db_proposals (wd_db (sv_world sv')))
         = filter (\<lambda>p. mr_session_id p = ''s'') (db_proposals (wd_db demo_world))
       \<and> (\<forall>i < length calls. \<forall>av other r. calls ! i = (av, EndSession ''s'' other) \<longrightarrow> ps ! i = Done r \<longrightarrow> \<not> settled_reply r)
       \<and> (?get (wd_redis (sv_world sv')) \<and> ?reveal (wd_redis (sv_world sv')) \<longrightarrow>
           (\<forall>rq'. fst (handle_end_session deaf_state rq' ''s'' ''nonce'' (sv_world sv')) = Inr (400, ''no_samples'')))"
    using failed_attestation_forfeits [OF deaf_reads(1) reads] by (elim exE conjE) (rule that)
  let ?sv = "Service_Router.demo_service\<lparr>sv_world := wd'\<rparr>"
  let ?p = "dispatch_steps deaf_state demo_admin_libs demo_admin demo_arrival (EndSession ''s'' ''nonce'')"
  have retry: "fst (handle_end_session deaf_state (demo_request 700) ''s'' ''nonce'' wd') = Inr (400, ''no_samples'')"
    using later [rule_format, of ?sv demo_admin_libs demo_admin "[]" "[]" ?sv] reads(1,3) wd'(2) by (simp add: requests_def)
  obtain r sv1 where "runP ?p ?sv = (r, sv1)" by fastforce
  then have "interleaves elsewhere ([?p, ?p], ?sv) ([Done r, ?p], sv1)"
    using interleaves_alone [of 0 "[?p, ?p]" ?p ?sv r sv1 elsewhere] by (simp del: dispatch_steps.simps runP.simps)
  then have run: "interleaves elsewhere (requests deaf_state demo_admin_libs demo_admin demo_calls, ?sv) ([Done r, ?p], sv1)"
    by (simp add: requests_def demo_calls_def del: dispatch_steps.simps)
  have outcome: "\<not> settled_reply r" "filter (\<lambda>p. mr_session_id p = ''s'') (db_proposals (wd_db (sv_world sv1))) = []"
    using later [rule_format, OF _ run] by (auto simp: demo_calls_def demo_world_def)
  show ?thesis using wd'(1) retry run outcome by blast
qed

end
