(* ===== verification/Store_Races.thy ===== *)
theory Store_Races
  imports Service_Steps
begin

text \<open>
  Operations of the session store and of the rate limiter that overlap on one Redis, command by command.
  The limiter counts with one atomic command, so a limit holds however checks overlap; but the command
  that starts the window is a second one, and a check that is abandoned between the two leaves a counter
  that never expires. Storing a proof reads the list and writes it back, so that of two proofs stored at
  the same time one is lost.
\<close>

section \<open>Counters\<close>

text \<open>What a counter stands at; a key without a counter stands at zero.\<close>

definition hits :: "string \<Rightarrow> keyspace \<Rightarrow> int" where
  "hits key s = (case Option.bind (ks_value s key) parse_i64 of None \<Rightarrow> 0 | Some i \<Rightarrow> i)"

lemma entry_live: "ks_entry s key = Some (v, d) \<Longrightarrow> ks_live s (w, d)"
  by (auto simp: ks_entry_def ks_live_def split: option.splits if_splits)

lemma hits_incr:
  "ks_incrby key 1 s = (Inr c, s') \<Longrightarrow> c = hits key s + 1 \<and> hits key s' = c"
  "ks_incrby key 1 s = (Inl e, s') \<Longrightarrow> s' = s"
  by (auto simp: ks_incrby_def hits_def ks_value_def in_i64_def entry_live split: option.splits if_splits)

lemma hits_expire: "0 < t \<Longrightarrow> hits key (snd (ks_expire key t s)) = hits key s"
  by (auto simp: ks_expire_def hits_def ks_value_def split: option.splits)

lemma hits_range: "- (2 ^ 63) \<le> hits key s"
  by (auto simp: hits_def parse_i64_def in_i64_def split: option.splits if_splits bind_splits)

text \<open>The tickets of a limit: the counter, moved up by its least value to be a natural number.\<close>

definition tally :: "('r \<Rightarrow> keyspace) \<Rightarrow> string \<Rightarrow> 'r \<Rightarrow> nat" where
  "tally view key s = nat (hits key (view s) + 2 ^ 63)"

definition quota :: "u32 \<Rightarrow> nat" where
  "quota limit = nat (uint limit + 2 ^ 63)"

interpretation counts: tickets "tally view key" "quota limit" "same (\<lambda>s. ks_value (view s) key)" for view key limit
  by unfold_locales (simp add: same_def tally_def hits_def)

context redis
begin

lemma incr_run:
  assumes "r_incr R key s = (r, s')"
  shows "(\<exists>e. r = Inl e \<and> hits key (view s') = hits key (view s))
    \<or> r = Inr (hits key (view s) + 1) \<and> hits key (view s') = hits key (view s) + 1"
proof -
  have "ks_incrby key 1 (view s) = (r, view s')"
    using simD [OF sim_incr assms] by (simp add: r_incr_def)
  then show ?thesis using hits_incr [of key "view s"] by (cases r) auto
qed

lemma expire_run: "0 < t \<Longrightarrow> hits key (view (snd (r_expire R key t s))) = hits key (view s)"
  using sim_snd [OF sim_expire, of key t s] by (simp add: hits_expire)

lemma rate_check_rises:
  assumes "0 < window"
  shows "withinP (rises (tally view key)) (rate_check_steps R key limit window)"
proof -
  have "0 < uint window" using assms by (simp add: word_less_def)
  then have "within (rises (tally view key)) (r_expire R key (uint window))"
    by (simp add: within_def rises_def tally_def expire_run)
  moreover have "within (rises (tally view key)) (r_incr R key)"
    unfolding within_def rises_def tally_def using incr_run [of key] by (smt (verit) nat_mono prod.collapse)
  ultimately show ?thesis
    unfolding rate_check_steps_def by (intro withinP_intros withinP_atomicP)
qed

lemma rate_check_pays: "pays (tally view key) (quota limit) (\<lambda>r. r = Inr Allowed) (rate_check_steps R key limit window)"
proof -
  let ?p = "tryP (atomicP (r_incr R key)) (\<lambda>count.
        tryP (if count = 1 then atomicP (r_expire R key (uint window)) else okP ()) (\<lambda>_.
        okP (if uint limit < count then Denied limit window else Allowed)))"
  have "pays (tally view key) (quota limit) (\<lambda>r. r = Inr Allowed) ?p"
  proof (rule pays_ticket)
    fix s c s' assume "r_incr R key s = (Inr c, s')"
    then have c: "c = hits key (view s) + 1" "hits key (view s') = c" using incr_run [of key s] by auto
    show "pays (tally view key) (quota limit) (\<lambda>r. r = Inr Allowed)
        (tryP (if c = 1 then atomicP (r_expire R key (uint window)) else okP ())
          (\<lambda>_. okP (if uint limit < c then Denied limit window else Allowed)))
      \<or> tally view key s < tally view key s' \<and> tally view key s' \<le> quota limit"
    proof (cases "uint limit < c")
      case True
      then show ?thesis by (intro disjI1 pays_tryP pays_done) simp_all
    next
      case False
      then have "tally view key s < tally view key s'" "tally view key s' \<le> quota limit"
        unfolding tally_def quota_def c using hits_range [of key "view s"] by linarith+
      then show ?thesis by blast
    qed
  qed simp
  then show ?thesis
    unfolding rate_check_steps_def map_errP_def by (rule pays_attemptP_result) (auto simp: map_sum_eq_iff)
qed

end

text \<open>
  C32: A rate limit holds under overlap. Of any number of checks of one key that run at the same time, their
  commands interleaved in any way with each other and with whatever else does not touch the counter, at
  most as many are allowed as the limit exceeds the counter they started from.
\<close>

theorem rate_limit_holds_under_overlap:
  assumes "redis R view" and "0 < window"
    and "interleaves (same (\<lambda>s. ks_value (view s) key)) (replicate n (rate_check_steps R key limit window), s) (ps, s')"
  shows "card {i. i < length ps \<and> ps ! i = Done (Inr Allowed)} \<le> nat (uint limit - hits key (view s))"
proof -
  have "card {i. i < length ps \<and> (\<exists>r. ps ! i = Done r \<and> r = Inr Allowed)} \<le> quota limit - tally view key s"
    using redis.rate_check_rises [OF assms(1,2)] redis.rate_check_pays [OF assms(1)]
    by (intro counts.at_most [OF assms(3)]) simp_all
  then show ?thesis using hits_range [of key "view s"] by (simp add: quota_def tally_def)
qed

section \<open>An abandoned check\<close>

text \<open>A counter without an end of its window, as \<open>INCR\<close> leaves it on a fresh key.\<close>

lemma rate_check_endless:
  assumes "ks_entry s key = Some (show_int n, None)" and "1 \<le> n" and "n + 1 < 2 ^ 63"
  shows "\<exists>s'. rate_check keyspace_ops key limit window s = (Inr (verdict limit window (n + 1)), s')
    \<and> ks_entry s' key = Some (show_int (n + 1), None)"
  using assms
  by (simp add: rate_check_def r_incr_def map_errE_def tryE_def okE_def ks_cmd_defs in_i64_def verdict_def)

lemma checks_run_endless:
  assumes "ks_entry s key = Some (show_int n, None)" and "1 \<le> n" and "n + int (length ds) < 2 ^ 63"
  shows "fst (checks_run keyspace_ops ks_advance key limit window ds s)
    = map (\<lambda>i. Inr (verdict limit window (n + 1 + int i))) [0..<length ds]"
  using assms
proof (induction ds arbitrary: s n)
  case (Cons d ds)
  have "ks_entry (ks_advance d s) key = Some (show_int n, None)"
    using Cons.prems(1) by (auto simp: ks_entry_def ks_advance_def ks_live_def split: option.splits if_splits)
  moreover have "n + 1 < 2 ^ 63" using Cons.prems(3) by simp
  ultimately obtain s' where s': "rate_check keyspace_ops key limit window (ks_advance d s) = (Inr (verdict limit window (n + 1)), s')"
    "ks_entry s' key = Some (show_int (n + 1), None)"
    using rate_check_endless [of "ks_advance d s" key n limit window] Cons.prems(2) by blast
  have "fst (checks_run keyspace_ops ks_advance key limit window ds s')
      = map (\<lambda>i. Inr (verdict limit window (n + 1 + 1 + int i))) [0..<length ds]"
    using Cons.IH [OF s'(2)] Cons.prems(2,3) by simp
  then show ?case
    using s'(1) by (simp add: map_upt_Suc split_beta algebra_simps del: upt_Suc)
qed simp

text \<open>
  C40: A check that is abandoned after its first command, because the client went away or the second command
  failed, leaves a counter that never expires. From then on the key is allowed \<open>limit - 1\<close> more checks
  in all and every later one is denied, however long the client waits between them.
\<close>

theorem abandoned_check_never_expires:
  assumes "redis R view" and "\<And>d s. view (tick d s) = ks_advance d (view s)"
    and "ks_entry (view s) key = None" and "int (length ds) + 1 < 2 ^ 63"
  shows "fst (checks_run R tick key limit window ds (snd (schedule [0] ([rate_check_steps R key limit window], s))))
    = map (\<lambda>i. Inr (if i + 1 < unat limit then Allowed else Denied limit window)) [0..<length ds]"
proof -
  let ?s = "snd (schedule [0] ([rate_check_steps R key limit window], s))"
  have "?s = snd (r_incr R key s)"
    by (simp add: rate_check_steps_def map_errP_def tryP_def atomicP_def split: prod.splits)
  then have "view ?s = snd (ks_incrby key 1 (view s))"
    using sim_snd [OF redis.sim_incr [OF assms(1)], of key s] by (simp add: r_incr_def)
  then have "ks_entry (view ?s) key = Some (show_int 1, None)"
    using assms(3) by (simp add: ks_incrby_def in_i64_def)
  then have "fst (checks_run keyspace_ops ks_advance key limit window ds (view ?s))
      = map (\<lambda>i. Inr (verdict limit window (1 + 1 + int i))) [0..<length ds]"
    by (rule checks_run_endless) (use assms(4) in auto)
  moreover have "verdict limit window (1 + 1 + int i) = (if i + 1 < unat limit then Allowed else Denied limit window)" for i
  proof -
    have "int (unat limit) = uint limit" by simp
    then have "uint limit < 1 + 1 + int i \<longleftrightarrow> \<not> i + 1 < unat limit" by linarith
    then show ?thesis by (simp add: verdict_def)
  qed
  moreover have "fst (checks_run R tick key limit window ds ?s) = fst (checks_run keyspace_ops ks_advance key limit window ds (view ?s))"
    using redis.sim_checks_run [OF assms(1,2), of key limit window ds ?s]
    by (cases "checks_run R tick key limit window ds ?s") simp
  ultimately show ?thesis by (simp del: schedule.simps)
qed

section \<open>Two proofs at the same time\<close>

text \<open>Storing a proof is a reading step and, when the list can be parsed and printed, a writing step.\<close>

definition write_back :: "'r redis_ops \<Rightarrow> session_id \<Rightarrow> string \<Rightarrow> ('r, session_manager_error, unit) prog" where
  "write_back R sid payload = tryP (redisP (r_set_ex R (proofs_key sid) payload TTL_SECS)) (\<lambda>_. okP ())"

context redis
begin

lemma store_proof_reads:
  assumes "progs ! i = store_proof_steps R L sid p"
    and "fst (get_proofs keyspace_ops L sid (view s)) = Inr ps" and "sl_proofs_json L (ps @ [p]) = Inr t"
  shows "\<exists>s'. schedule (i # is) (progs, s) = schedule is (progs[i := write_back R sid t], s') \<and> view s' = view s"
proof -
  obtain s' where get: "r_get R (proofs_key sid) s = (Inr (ks_value (view s) (proofs_key sid)), s')" "view s' = view s"
    using sim_snd [OF sim_get, of "proofs_key sid" s] sim_fst [OF sim_get, of "proofs_key sid" s]
    by (cases "r_get R (proofs_key sid) s") (auto simp: ks_get_def)
  then show ?thesis
    using assms
    by (auto simp: store_proof_steps_def write_back_def get_proofs_ks redisP_def redisE_def map_errE_def atomicP_def tryP_def
        serdeP_def okP_def split: option.splits sum.splits)
qed

lemma write_back_writes:
  assumes "progs ! i = write_back R sid t"
  shows "\<exists>s'. schedule (i # is) (progs, s) = schedule is (progs[i := Done (Inr ())], s')
    \<and> ks_value (view s') (proofs_key sid) = Some t"
proof -
  have "0 < TTL_SECS" by (simp add: TTL_SECS_def)
  then obtain s' where set: "r_set_ex R (proofs_key sid) t TTL_SECS s = (Inr (), s')"
    "ks_value (view s') (proofs_key sid) = Some t"
    using sim_snd [OF sim_set_ex, of "proofs_key sid" t TTL_SECS s] sim_fst [OF sim_set_ex, of "proofs_key sid" t TTL_SECS s]
    by (cases "r_set_ex R (proofs_key sid) t TTL_SECS s") (auto simp: ks_set_ex_def ks_value_def)
  then show ?thesis
    using assms by (auto simp: write_back_def redisP_def redisE_def map_errE_def atomicP_def tryP_def okP_def)
qed

lemma get_proofs_value: "ks_value (view s) (proofs_key sid) = Some t \<Longrightarrow> sl_proofs_parse L t = Inr ps
    \<Longrightarrow> fst (get_proofs keyspace_ops L sid (view s)) = Inr ps"
  by (simp add: get_proofs_ks)

lemma get_proofs_view: "fst (get_proofs R L sid s) = fst (get_proofs keyspace_ops L sid (view s))"
  by (rule sim_fst [OF sim_session_ops(5)])

lemma one_after_the_other:
  assumes "fst (get_proofs R L sid s) = Inr ps"
    and t: "sl_proofs_json L (ps @ [p]) = Inr t" "sl_proofs_parse L t = Inr (ps @ [p])"
    and v: "sl_proofs_json L (ps @ [p, q]) = Inr v" "sl_proofs_parse L v = Inr (ps @ [p, q])"
  shows "\<exists>s'. schedule [0, 0, 1, 1] ([store_proof_steps R L sid p, store_proof_steps R L sid q], s)
      = ([Done (Inr ()), Done (Inr ())], s') \<and> fst (get_proofs R L sid s') = Inr (ps @ [p, q])"
proof -
  let ?q = "store_proof_steps R L sid q" and ?d = "Done (Inr ()) :: ('a, session_manager_error, unit) prog"
  obtain s1 where 1: "schedule [0, 0, 1, 1] ([store_proof_steps R L sid p, ?q], s)
      = schedule [0, 1, 1] ([write_back R sid t, ?q], s1)" "view s1 = view s"
    using store_proof_reads [of "[store_proof_steps R L sid p, ?q]" 0 L sid p s ps t "[0, 1, 1]"] assms(1) t(1)
    by (auto simp: get_proofs_view simp del: schedule.simps)
  obtain s2 where 2: "schedule [0, 1, 1] ([write_back R sid t, ?q], s1) = schedule [1, 1] ([?d, ?q], s2)"
      "ks_value (view s2) (proofs_key sid) = Some t"
    using write_back_writes [of "[write_back R sid t, ?q]" 0 sid t "[1, 1]" s1] by (auto simp del: schedule.simps)
  obtain s3 where 3: "schedule [1, 1] ([?d, ?q], s2) = schedule [1] ([?d, write_back R sid v], s3)"
    using store_proof_reads [of "[?d, ?q]" 1 L sid q s2 "ps @ [p]" v "[1]"] get_proofs_value [OF 2(2) t(2)] v(1)
    by (auto simp del: schedule.simps)
  obtain s4 where 4: "schedule [1] ([?d, write_back R sid v], s3) = ([?d, ?d], s4)"
      "ks_value (view s4) (proofs_key sid) = Some v"
    using write_back_writes [of "[?d, write_back R sid v]" 1 sid v "[]" s3] by auto
  show ?thesis using 1(1) 2(1) 3 4 get_proofs_value [OF 4(2) v(2)] by (simp add: get_proofs_view)
qed

lemma at_the_same_time:
  assumes "fst (get_proofs R L sid s) = Inr ps" and t: "sl_proofs_json L (ps @ [p]) = Inr t"
    and u: "sl_proofs_json L (ps @ [q]) = Inr u" "sl_proofs_parse L u = Inr (ps @ [q])"
  shows "\<exists>s'. schedule [0, 1, 0, 1] ([store_proof_steps R L sid p, store_proof_steps R L sid q], s)
      = ([Done (Inr ()), Done (Inr ())], s') \<and> fst (get_proofs R L sid s') = Inr (ps @ [q])"
proof -
  let ?q = "store_proof_steps R L sid q" and ?d = "Done (Inr ()) :: ('a, session_manager_error, unit) prog"
  obtain s1 where 1: "schedule [0, 1, 0, 1] ([store_proof_steps R L sid p, ?q], s)
      = schedule [1, 0, 1] ([write_back R sid t, ?q], s1)" "view s1 = view s"
    using store_proof_reads [of "[store_proof_steps R L sid p, ?q]" 0 L sid p s ps t "[1, 0, 1]"] assms(1) t
    by (auto simp: get_proofs_view simp del: schedule.simps)
  obtain s2 where 2: "schedule [1, 0, 1] ([write_back R sid t, ?q], s1)
      = schedule [0, 1] ([write_back R sid t, write_back R sid u], s2)"
    using store_proof_reads [of "[write_back R sid t, ?q]" 1 L sid q s1 ps u "[0, 1]"] assms(1) u(1) 1(2)
    by (auto simp: get_proofs_view simp del: schedule.simps)
  obtain s3 where 3: "schedule [0, 1] ([write_back R sid t, write_back R sid u], s2)
      = schedule [1] ([?d, write_back R sid u], s3)"
    using write_back_writes [of "[write_back R sid t, write_back R sid u]" 0 sid t "[1]" s2] by (auto simp del: schedule.simps)
  obtain s4 where 4: "schedule [1] ([?d, write_back R sid u], s3) = ([?d, ?d], s4)"
      "ks_value (view s4) (proofs_key sid) = Some u"
    using write_back_writes [of "[?d, write_back R sid u]" 1 sid u "[]" s3] by auto
  show ?thesis using 1(1) 2 3 4 get_proofs_value [OF 4(2) u(2)] by (simp add: get_proofs_view)
qed

end

text \<open>
  C39: Of two proofs stored at the same time one is lost. When the second request reads the list of proofs
  before the first has written it back, both requests succeed and the list holds the old proofs and the
  second new one only; had they run one after the other it would hold both.
\<close>

theorem overlapping_proofs_lost:
  assumes "redis R view" and "fst (get_proofs R L sid s) = Inr ps"
    and "\<forall>new \<in> {[p], [q], [p, q]}. \<exists>t. sl_proofs_json L (ps @ new) = Inr t \<and> sl_proofs_parse L t = Inr (ps @ new)"
  shows "let both = [store_proof_steps R L sid p, store_proof_steps R L sid q]; succeeded = [Done (Inr ()), Done (Inr ())] in
    (case schedule [0, 0, 1, 1] (both, s) of (done1, s1) \<Rightarrow>
       done1 = succeeded \<and> fst (get_proofs R L sid s1) = Inr (ps @ [p, q]))
    \<and> (case schedule [0, 1, 0, 1] (both, s) of (done2, s2) \<Rightarrow>
       done2 = succeeded \<and> fst (get_proofs R L sid s2) = Inr (ps @ [q]))"
proof -
  obtain t u v where tuv: "sl_proofs_json L (ps @ [p]) = Inr t" "sl_proofs_parse L t = Inr (ps @ [p])"
    "sl_proofs_json L (ps @ [q]) = Inr u" "sl_proofs_parse L u = Inr (ps @ [q])"
    "sl_proofs_json L (ps @ [p, q]) = Inr v" "sl_proofs_parse L v = Inr (ps @ [p, q])"
    using assms(3) by auto
  show ?thesis
    using redis.one_after_the_other [OF assms(1,2) tuv(1,2,5,6)] redis.at_the_same_time [OF assms(1,2) tuv(1,3,4)]
    by (auto simp: Let_def)
qed

section \<open>Instances\<close>

theorem rate_limit_holds_under_overlap_witness:
  "card {i. i < 2 \<and> fst (schedule [0, 1, 0, 1] (replicate 2 (rate_check_steps keyspace_ops ''k'' 1 60), empty_ks)) ! i
      = Done (Inr Allowed)} \<le> 1"
proof -
  let ?c = "schedule [0, 1, 0, 1] (replicate 2 (rate_check_steps keyspace_ops ''k'' 1 60), empty_ks)"
  have "interleaves (same (\<lambda>s. ks_value (id s) ''k'')) (replicate 2 (rate_check_steps keyspace_ops ''k'' 1 60), empty_ks) ?c"
    by (rule interleaves_schedule) simp
  then have "card {i. i < length (fst ?c) \<and> fst ?c ! i = Done (Inr Allowed)} \<le> nat (uint (1 :: u32) - hits ''k'' (id empty_ks))"
    by (intro rate_limit_holds_under_overlap [where s' = "snd ?c", OF keyspace.redis_axioms]) simp_all
  moreover have "length (fst ?c) = 2" using schedule_length [of "[0, 1, 0, 1]" "(replicate 2 (rate_check_steps keyspace_ops ''k'' 1 60), empty_ks)"]
    by (simp del: schedule.simps)
  moreover have "hits ''k'' empty_ks = 0" by (simp add: hits_def ks_value_def ks_entry_def empty_ks_def)
  ultimately show ?thesis by (simp del: schedule.simps)
qed

theorem abandoned_check_never_expires_witness:
  "fst (checks_run keyspace_ops ks_advance ''k'' 2 60 [1000, 1000000]
      (snd (schedule [0] ([rate_check_steps keyspace_ops ''k'' 2 60], empty_ks))))
    = [Inr Allowed, Inr (Denied 2 60)]"
  by (subst abandoned_check_never_expires [where view = id, OF keyspace.redis_axioms])
     (simp_all add: ks_entry_def empty_ks_def)

definition numbered_libs :: session_libs where
  "numbered_libs = demo_session_libs\<lparr>sl_proofs_json := (\<lambda>ps. Inr (concat (map (\<lambda>p. show_nat (unat (pp_sequence p))) ps))),
     sl_proofs_parse := (\<lambda>t. Inr (map (\<lambda>c. demo_proof\<lparr>pp_sequence := if c = CHR ''0'' then 0 else 1\<rparr>) t))\<rparr>"

theorem overlapping_proofs_lost_witness:
  "let both = [store_proof_steps keyspace_ops numbered_libs (SessionId ''s'') demo_proof,
        store_proof_steps keyspace_ops numbered_libs (SessionId ''s'') (demo_proof\<lparr>pp_sequence := 1\<rparr>)] in
   fst (get_proofs keyspace_ops numbered_libs (SessionId ''s'') (snd (schedule [0, 1, 0, 1] (both, empty_ks))))
     = Inr [demo_proof\<lparr>pp_sequence := 1\<rparr>]"
proof -
  have "fst (get_proofs keyspace_ops numbered_libs (SessionId ''s'') empty_ks) = Inr []"
    by (simp add: get_proofs_ks ks_value_def ks_entry_def empty_ks_def)
  moreover have "show_nat (unat (0 :: u64)) = ''0''" "show_nat (unat (1 :: u64)) = ''1''" by code_simp+
  then have "\<forall>new \<in> {[demo_proof], [demo_proof\<lparr>pp_sequence := 1\<rparr>], [demo_proof, demo_proof\<lparr>pp_sequence := 1\<rparr>]}.
      \<exists>t. sl_proofs_json numbered_libs ([] @ new) = Inr t \<and> sl_proofs_parse numbered_libs t = Inr ([] @ new)"
    by (simp add: numbered_libs_def demo_proof_def)
  ultimately show ?thesis
    using overlapping_proofs_lost [OF keyspace.redis_axioms, of numbered_libs "SessionId ''s''" empty_ks "[]" demo_proof
        "demo_proof\<lparr>pp_sequence := 1\<rparr>"]
    by (simp add: Let_def split_beta del: schedule.simps)
qed

end
