(* ===== verification/Metrics.thy ===== *)
theory Metrics
  imports Complex_Main Common
begin

text \<open>
  \<open>crates/metrics/src/lib.rs\<close>: the metrics of the service, their registration at startup and the text they
  are exported as, and the places of \<open>verification-service\<close> that count. The \<open>prometheus\<close> crate is a
  parameter with its documented behaviour as the contract \<open>prometheus_crate\<close>, which a reference registry
  meets. A panic is an error of its own.
\<close>

section \<open>The library\<close>

text \<open>
  Constructors that check what they are given, label lookup, the default registry, and the text encoder.
  Bucket bounds are the decimal literals of the source.
\<close>

record ('m, 'reg, 'fam) prometheus =
  pm_counter_vec :: "string \<Rightarrow> string \<Rightarrow> string list \<Rightarrow> string + 'm"
  pm_histogram_vec :: "string \<Rightarrow> string \<Rightarrow> rat list \<Rightarrow> string list \<Rightarrow> string + 'm"
  pm_int_gauge :: "string \<Rightarrow> string \<Rightarrow> string + 'm"
  pm_with_label_values :: "'m \<Rightarrow> string list \<Rightarrow> string + string"
  pm_register :: "'m \<Rightarrow> ('reg, string, unit) act"
  pm_gather :: "'reg \<Rightarrow> 'fam list"
  pm_encode_utf8 :: "'fam list \<Rightarrow> string + string"

datatype metrics_error = Panicked | PrometheusError string

section \<open>The metrics\<close>

definition unwrap_metric :: "string + 'm \<Rightarrow> metrics_error + 'm" where
  "unwrap_metric r = (case r of Inr metric \<Rightarrow> Inr metric | Inl e \<Rightarrow> Inl Panicked)"

definition counter_vec :: "('m, 'reg, 'fam) prometheus \<Rightarrow> string \<Rightarrow> string \<Rightarrow> string list \<Rightarrow> metrics_error + 'm" where
  "counter_vec P name help labels = unwrap_metric (pm_counter_vec P name help labels)"

definition histogram_vec ::
    "('m, 'reg, 'fam) prometheus \<Rightarrow> string \<Rightarrow> string \<Rightarrow> string list \<Rightarrow> rat list \<Rightarrow> metrics_error + 'm" where
  "histogram_vec P name help labels buckets = unwrap_metric (pm_histogram_vec P name help buckets labels)"

definition int_gauge :: "('m, 'reg, 'fam) prometheus \<Rightarrow> string \<Rightarrow> string \<Rightarrow> metrics_error + 'm" where
  "int_gauge P name help = unwrap_metric (pm_int_gauge P name help)"

definition PROOF_SUBMISSIONS_TOTAL :: "('m, 'reg, 'fam) prometheus \<Rightarrow> metrics_error + 'm" where
  "PROOF_SUBMISSIONS_TOTAL P = counter_vec P ''proof_submissions_total''
     ''Total partial proof submissions by client type and result'' [''client_type'', ''result'']"

definition ANOMALY_EVENTS_TOTAL :: "('m, 'reg, 'fam) prometheus \<Rightarrow> metrics_error + 'm" where
  "ANOMALY_EVENTS_TOTAL P = counter_vec P ''anomaly_events_total''
     ''Total anomaly events by suspicion level and trigger'' [''suspicion_level'', ''trigger'']"

definition ATTESTATION_DURATION_SECONDS :: "('m, 'reg, 'fam) prometheus \<Rightarrow> metrics_error + 'm" where
  "ATTESTATION_DURATION_SECONDS P = histogram_vec P ''attestation_duration_seconds''
     ''Attestation duration from session end to completion in seconds'' [''status'']
     [1/10, 1/2, 1, 2, 5, 10, 15, 30]"

definition MINT_PROPOSALS_TOTAL :: "('m, 'reg, 'fam) prometheus \<Rightarrow> metrics_error + 'm" where
  "MINT_PROPOSALS_TOTAL P = counter_vec P ''mint_proposals_total'' ''Total mint proposals by status'' [''status'']"

definition NODE_RESPONSE_TIME_SECONDS :: "('m, 'reg, 'fam) prometheus \<Rightarrow> metrics_error + 'm" where
  "NODE_RESPONSE_TIME_SECONDS P = histogram_vec P ''node_response_time_seconds''
     ''Node attestation response time in seconds'' [''node_id''] [1/100, 1/20, 1/10, 1/2, 1, 5, 15]"

definition SESSION_ACTIVE_COUNT :: "('m, 'reg, 'fam) prometheus \<Rightarrow> metrics_error + 'm" where
  "SESSION_ACTIVE_COUNT P = int_gauge P ''session_active_count'' ''Current number of active mining sessions''"

definition RATE_LIMIT_HITS_TOTAL :: "('m, 'reg, 'fam) prometheus \<Rightarrow> metrics_error + 'm" where
  "RATE_LIMIT_HITS_TOTAL P = counter_vec P ''rate_limit_hits_total''
     ''Total rate limit hits by type (wallet, ip, node)'' [''limit_type'']"

definition MANUAL_REVIEW_QUEUE_DEPTH :: "('m, 'reg, 'fam) prometheus \<Rightarrow> metrics_error + 'm" where
  "MANUAL_REVIEW_QUEUE_DEPTH P = int_gauge P ''manual_review_queue_depth''
     ''Current number of sessions in manual review queue''"

definition MINT_CEILING_CURRENT :: "('m, 'reg, 'fam) prometheus \<Rightarrow> metrics_error + 'm" where
  "MINT_CEILING_CURRENT P = int_gauge P ''mint_ceiling_current'' ''Current per-block PRM mint ceiling value''"

section \<open>Registration and export\<close>

definition register_metric ::
    "('m, 'reg, 'fam) prometheus \<Rightarrow> metrics_error + 'm \<Rightarrow> ('reg, metrics_error, unit) act" where
  "register_metric P m = (case m of Inl e \<Rightarrow> errE e | Inr metric \<Rightarrow> map_errE PrometheusError (pm_register P metric))"

definition register_all :: "('m, 'reg, 'fam) prometheus \<Rightarrow> ('reg, metrics_error, unit) act" where
  "register_all P =
     tryE (register_metric P (PROOF_SUBMISSIONS_TOTAL P)) (\<lambda>_.
     tryE (register_metric P (ANOMALY_EVENTS_TOTAL P)) (\<lambda>_.
     tryE (register_metric P (ATTESTATION_DURATION_SECONDS P)) (\<lambda>_.
     tryE (register_metric P (MINT_PROPOSALS_TOTAL P)) (\<lambda>_.
     tryE (register_metric P (NODE_RESPONSE_TIME_SECONDS P)) (\<lambda>_.
     tryE (register_metric P (SESSION_ACTIVE_COUNT P)) (\<lambda>_.
     tryE (register_metric P (RATE_LIMIT_HITS_TOTAL P)) (\<lambda>_.
     tryE (register_metric P (MANUAL_REVIEW_QUEUE_DEPTH P)) (\<lambda>_.
     tryE (register_metric P (MINT_CEILING_CURRENT P)) (\<lambda>_. okE ())))))))))"

definition gather_metrics :: "('m, 'reg, 'fam) prometheus \<Rightarrow> 'reg \<Rightarrow> 'fam list" where
  "gather_metrics P reg = pm_gather P reg"

definition metrics_handler :: "('m, 'reg, 'fam) prometheus \<Rightarrow> 'reg \<Rightarrow> string" where
  "metrics_handler P reg = (case pm_encode_utf8 P (gather_metrics P reg) of Inr buffer \<Rightarrow> buffer | Inl e \<Rightarrow> [])"

section \<open>Where the service counts\<close>

definition result_label :: "validation_result \<Rightarrow> string" where
  "result_label r = (case r of Valid \<Rightarrow> ''Valid'' | Invalid reason \<Rightarrow> ''Invalid'' | Suspicious flag \<Rightarrow> ''Suspicious'')"

definition with_labels ::
    "('m, 'reg, 'fam) prometheus \<Rightarrow> metrics_error + 'm \<Rightarrow> string list \<Rightarrow> metrics_error + string" where
  "with_labels P m values = (case m of Inl e \<Rightarrow> Inl e | Inr metric \<Rightarrow> unwrap_metric (pm_with_label_values P metric values))"

definition count_submission ::
    "('m, 'reg, 'fam) prometheus \<Rightarrow> client_type \<Rightarrow> validation_result \<Rightarrow> metrics_error + string" where
  "count_submission P client_type result =
     with_labels P (PROOF_SUBMISSIONS_TOTAL P) [client_type_debug client_type, result_label result]"

text \<open>The label of the trigger is the debug text of the first trigger, or \<open>none\<close>.\<close>

definition count_anomaly ::
    "('m, 'reg, 'fam) prometheus \<Rightarrow> suspicion_level \<Rightarrow> string \<Rightarrow> metrics_error + string" where
  "count_anomaly P level trigger_label = with_labels P (ANOMALY_EVENTS_TOTAL P) [level_debug level, trigger_label]"

definition count_proposal :: "('m, 'reg, 'fam) prometheus \<Rightarrow> metrics_error + string" where
  "count_proposal P = with_labels P (MINT_PROPOSALS_TOTAL P) [''Pending'']"

section \<open>What the library promises\<close>

text \<open>Names and labels are words over letters, digits and underscores that do not start with a digit.\<close>

definition digits :: string where
  "digits = ''0123456789''"

definition letters :: string where
  "letters = ''_abcdefghijklmnopqrstuvwxyzABCDEFGHIJKLMNOPQRSTUVWXYZ''"

fun word_name :: "string \<Rightarrow> bool" where
  "word_name [] = False"
| "word_name (c # cs) = (List.member letters c \<and> list_all (List.member (letters @ digits)) cs)"

definition valid_opts :: "string \<Rightarrow> string \<Rightarrow> string list \<Rightarrow> bool" where
  "valid_opts name help labels \<longleftrightarrow> word_name name \<and> help \<noteq> [] \<and> list_all word_name labels \<and> distinct labels"

text \<open>
  The documented behaviour: valid options are accepted, buckets have to increase and must not be labelled
  \<open>le\<close>; a vector has one value per label; a registry takes a metric whose name it does not hold and
  refuses another of the same name.
\<close>

locale prometheus_crate =
  fixes P :: "('m, 'reg, 'fam) prometheus" and names :: "'reg \<Rightarrow> string set"
    and name_of :: "'m \<Rightarrow> string" and labels_of :: "'m \<Rightarrow> string list"
  assumes counter: "valid_opts name help labels
      \<Longrightarrow> \<exists>m. pm_counter_vec P name help labels = Inr m \<and> name_of m = name \<and> labels_of m = labels"
    and histogram: "valid_opts name help labels \<Longrightarrow> ''le'' \<notin> set labels \<Longrightarrow> buckets \<noteq> [] \<Longrightarrow> sorted_wrt (<) buckets
      \<Longrightarrow> \<exists>m. pm_histogram_vec P name help buckets labels = Inr m \<and> name_of m = name \<and> labels_of m = labels"
    and gauge: "valid_opts name help [] \<Longrightarrow> \<exists>m. pm_int_gauge P name help = Inr m \<and> name_of m = name \<and> labels_of m = []"
    and child: "length values = length (labels_of m) \<Longrightarrow> \<exists>c. pm_with_label_values P m values = Inr c"
    and register_new: "name_of m \<notin> names r \<Longrightarrow> \<exists>r'. pm_register P m r = (Inr (), r') \<and> names r' = insert (name_of m) (names r)"
    and register_taken: "name_of m \<in> names r \<Longrightarrow> \<exists>e. pm_register P m r = (Inl e, r)"
begin

lemma vectors:
  "valid_opts name help labels \<Longrightarrow> \<exists>m. counter_vec P name help labels = Inr m \<and> name_of m = name \<and> labels_of m = labels"
  "valid_opts name help labels \<Longrightarrow> ''le'' \<notin> set labels \<Longrightarrow> buckets \<noteq> [] \<Longrightarrow> sorted_wrt (<) buckets
     \<Longrightarrow> \<exists>m. histogram_vec P name help labels buckets = Inr m \<and> name_of m = name \<and> labels_of m = labels"
  "valid_opts name help [] \<Longrightarrow> \<exists>m. int_gauge P name help = Inr m \<and> name_of m = name \<and> labels_of m = []"
  using counter histogram gauge
  by (fastforce simp: counter_vec_def histogram_vec_def int_gauge_def unwrap_metric_def)+

text \<open>One registration: a metric that exists and whose name is new goes in.\<close>

lemma register_step:
  assumes "\<exists>m. metric = Inr m \<and> name_of m = name \<and> labels_of m = labels" and "name \<notin> names r"
  shows "\<exists>r'. register_metric P metric r = (Inr (), r') \<and> names r' = insert name (names r)"
  using assms register_new by (fastforce simp: register_metric_def map_errE_def)

lemma register_clash:
  assumes "\<exists>m. metric = Inr m \<and> name_of m = name \<and> labels_of m = labels" and "name \<in> names r"
  shows "\<exists>e. register_metric P metric r = (Inl (PrometheusError e), r)"
  using assms register_taken by (fastforce simp: register_metric_def map_errE_def)

end

definition metric_names :: "string list" where
  "metric_names = [''proof_submissions_total'', ''anomaly_events_total'', ''attestation_duration_seconds'', ''mint_proposals_total'',
     ''node_response_time_seconds'', ''session_active_count'', ''rate_limit_hits_total'', ''manual_review_queue_depth'',
     ''mint_ceiling_current'']"

context prometheus_crate
begin

lemma statics:
  "\<exists>m. PROOF_SUBMISSIONS_TOTAL P = Inr m \<and> name_of m = metric_names ! 0 \<and> labels_of m = [''client_type'', ''result'']"
  "\<exists>m. ANOMALY_EVENTS_TOTAL P = Inr m \<and> name_of m = metric_names ! 1 \<and> labels_of m = [''suspicion_level'', ''trigger'']"
  "\<exists>m. ATTESTATION_DURATION_SECONDS P = Inr m \<and> name_of m = metric_names ! 2 \<and> labels_of m = [''status'']"
  "\<exists>m. MINT_PROPOSALS_TOTAL P = Inr m \<and> name_of m = metric_names ! 3 \<and> labels_of m = [''status'']"
  "\<exists>m. NODE_RESPONSE_TIME_SECONDS P = Inr m \<and> name_of m = metric_names ! 4 \<and> labels_of m = [''node_id'']"
  "\<exists>m. SESSION_ACTIVE_COUNT P = Inr m \<and> name_of m = metric_names ! 5 \<and> labels_of m = []"
  "\<exists>m. RATE_LIMIT_HITS_TOTAL P = Inr m \<and> name_of m = metric_names ! 6 \<and> labels_of m = [''limit_type'']"
  "\<exists>m. MANUAL_REVIEW_QUEUE_DEPTH P = Inr m \<and> name_of m = metric_names ! 7 \<and> labels_of m = []"
  "\<exists>m. MINT_CEILING_CURRENT P = Inr m \<and> name_of m = metric_names ! 8 \<and> labels_of m = []"
proof -
  have "list_all word_name metric_names" by code_simp
  then have names: "word_name (metric_names ! i)" if "i < 9" for i using that by (simp add: list_all_length metric_names_def)
  have labels: "word_name ''client_type''" "word_name ''result''" "word_name ''suspicion_level''" "word_name ''trigger''"
    "word_name ''status''" "word_name ''node_id''" "word_name ''limit_type''" by code_simp+
  have opts: "valid_opts (metric_names ! 0) h [''client_type'', ''result'']" "valid_opts (metric_names ! 1) h [''suspicion_level'', ''trigger'']"
    "valid_opts (metric_names ! 2) h [''status'']" "valid_opts (metric_names ! 3) h [''status'']"
    "valid_opts (metric_names ! 4) h [''node_id'']" "valid_opts (metric_names ! 5) h []"
    "valid_opts (metric_names ! 6) h [''limit_type'']" "valid_opts (metric_names ! 7) h []" "valid_opts (metric_names ! 8) h []"
    if "h \<noteq> []" for h
    using that names labels by (simp_all add: valid_opts_def)
  show "\<exists>m. PROOF_SUBMISSIONS_TOTAL P = Inr m \<and> name_of m = metric_names ! 0 \<and> labels_of m = [''client_type'', ''result'']"
    using vectors(1) [OF opts(1)] by (simp add: PROOF_SUBMISSIONS_TOTAL_def metric_names_def)
  show "\<exists>m. ANOMALY_EVENTS_TOTAL P = Inr m \<and> name_of m = metric_names ! 1 \<and> labels_of m = [''suspicion_level'', ''trigger'']"
    using vectors(1) [OF opts(2)] by (simp add: ANOMALY_EVENTS_TOTAL_def metric_names_def)
  show "\<exists>m. ATTESTATION_DURATION_SECONDS P = Inr m \<and> name_of m = metric_names ! 2 \<and> labels_of m = [''status'']"
    using vectors(2) [OF opts(3)] by (simp add: ATTESTATION_DURATION_SECONDS_def metric_names_def)
  show "\<exists>m. MINT_PROPOSALS_TOTAL P = Inr m \<and> name_of m = metric_names ! 3 \<and> labels_of m = [''status'']"
    using vectors(1) [OF opts(4)] by (simp add: MINT_PROPOSALS_TOTAL_def metric_names_def)
  show "\<exists>m. NODE_RESPONSE_TIME_SECONDS P = Inr m \<and> name_of m = metric_names ! 4 \<and> labels_of m = [''node_id'']"
    using vectors(2) [OF opts(5)] by (simp add: NODE_RESPONSE_TIME_SECONDS_def metric_names_def)
  show "\<exists>m. SESSION_ACTIVE_COUNT P = Inr m \<and> name_of m = metric_names ! 5 \<and> labels_of m = []"
    using vectors(3) [OF opts(6)] by (simp add: SESSION_ACTIVE_COUNT_def metric_names_def)
  show "\<exists>m. RATE_LIMIT_HITS_TOTAL P = Inr m \<and> name_of m = metric_names ! 6 \<and> labels_of m = [''limit_type'']"
    using vectors(1) [OF opts(7)] by (simp add: RATE_LIMIT_HITS_TOTAL_def metric_names_def)
  show "\<exists>m. MANUAL_REVIEW_QUEUE_DEPTH P = Inr m \<and> name_of m = metric_names ! 7 \<and> labels_of m = []"
    using vectors(3) [OF opts(8)] by (simp add: MANUAL_REVIEW_QUEUE_DEPTH_def metric_names_def)
  show "\<exists>m. MINT_CEILING_CURRENT P = Inr m \<and> name_of m = metric_names ! 8 \<and> labels_of m = []"
    using vectors(3) [OF opts(9)] by (simp add: MINT_CEILING_CURRENT_def metric_names_def)
qed

text \<open>The call sites pass a value for every label.\<close>

lemma with_labels_Inr:
  "\<exists>m. metric = Inr m \<and> name_of m = name \<and> labels_of m = labels \<Longrightarrow> length values = length labels
     \<Longrightarrow> \<exists>c. with_labels P metric values = Inr c"
  using child by (fastforce simp: with_labels_def unwrap_metric_def)

lemma counting_never_panics:
  "\<exists>c. count_submission P client result = Inr c" "\<exists>c. count_anomaly P level trigger = Inr c" "\<exists>c. count_proposal P = Inr c"
  unfolding count_submission_def count_anomaly_def count_proposal_def
  by (rule with_labels_Inr [OF statics(1)] with_labels_Inr [OF statics(2)] with_labels_Inr [OF statics(4)]; simp)+

end

text \<open>Registering a list of metrics in order, as \<open>register_all\<close> does.\<close>

primrec register_each :: "('m, 'reg, 'fam) prometheus \<Rightarrow> (metrics_error + 'm) list \<Rightarrow> ('reg, metrics_error, unit) act" where
  "register_each P [] = okE ()"
| "register_each P (m # ms) = tryE (register_metric P m) (\<lambda>_. register_each P ms)"

lemma register_all_each:
  "register_all P = register_each P [PROOF_SUBMISSIONS_TOTAL P, ANOMALY_EVENTS_TOTAL P, ATTESTATION_DURATION_SECONDS P,
     MINT_PROPOSALS_TOTAL P, NODE_RESPONSE_TIME_SECONDS P, SESSION_ACTIVE_COUNT P, RATE_LIMIT_HITS_TOTAL P,
     MANUAL_REVIEW_QUEUE_DEPTH P, MINT_CEILING_CURRENT P]"
  by (simp add: register_all_def)

context prometheus_crate
begin

lemma register_each_fresh:
  assumes "list_all2 (\<lambda>metric name. \<exists>m ls. metric = Inr m \<and> name_of m = name \<and> labels_of m = ls) ms ns"
    and "distinct ns" and "names r \<inter> set ns = {}"
  shows "\<exists>r'. register_each P ms r = (Inr (), r') \<and> names r' = names r \<union> set ns"
  using assms
proof (induction ms ns arbitrary: r rule: list_all2_induct)
  case (Cons metric ms name ns)
  obtain r1 where r1: "register_metric P metric r = (Inr (), r1)" "names r1 = insert name (names r)"
    using register_step [of metric name _ r] Cons.hyps(1) Cons.prems(2) by auto
  moreover obtain r2 where "register_each P ms r1 = (Inr (), r2)" "names r2 = names r1 \<union> set ns"
    using Cons.IH [of r1] Cons.prems r1(2) by auto
  ultimately show ?case by (auto simp: tryE_def)
qed (simp add: okE_def)

lemma register_all_fresh:
  assumes "names r \<inter> set metric_names = {}"
  shows "\<exists>r'. register_all P r = (Inr (), r') \<and> names r' = names r \<union> set metric_names"
proof -
  have "distinct metric_names" by code_simp
  moreover have "list_all2 (\<lambda>metric name. \<exists>m ls. metric = Inr m \<and> name_of m = name \<and> labels_of m = ls)
     [PROOF_SUBMISSIONS_TOTAL P, ANOMALY_EVENTS_TOTAL P, ATTESTATION_DURATION_SECONDS P,
     MINT_PROPOSALS_TOTAL P, NODE_RESPONSE_TIME_SECONDS P, SESSION_ACTIVE_COUNT P, RATE_LIMIT_HITS_TOTAL P,
     MANUAL_REVIEW_QUEUE_DEPTH P, MINT_CEILING_CURRENT P] metric_names"
    using statics by (auto simp: metric_names_def)
  ultimately show ?thesis unfolding register_all_each using register_each_fresh assms by blast
qed

lemma register_all_taken:
  assumes "''proof_submissions_total'' \<in> names r"
  shows "\<exists>e. register_all P r = (Inl (PrometheusError e), r)"
proof -
  obtain e where "register_metric P (PROOF_SUBMISSIONS_TOTAL P) r = (Inl (PrometheusError e), r)"
    using register_clash [OF statics(1), of r] assms by (auto simp: metric_names_def)
  then show ?thesis by (simp add: register_all_def tryE_def)
qed

end

section \<open>The reference registry\<close>

datatype metric_kind = CounterVec | HistogramVec "rat list" | Gauge

record metric =
  mt_name :: string
  mt_help :: string
  mt_labels :: "string list"
  mt_kind :: metric_kind

definition reference_prometheus :: "(metric, metric list, metric) prometheus" where
  "reference_prometheus = \<lparr>
     pm_counter_vec = (\<lambda>name help labels.
       if valid_opts name help labels then Inr \<lparr>mt_name = name, mt_help = help, mt_labels = labels, mt_kind = CounterVec\<rparr>
       else Inl ''invalid descriptor''),
     pm_histogram_vec = (\<lambda>name help buckets labels.
       if \<not> valid_opts name help labels \<or> ''le'' \<in> set labels then Inl ''invalid descriptor''
       else if \<not> sorted_wrt (<) buckets then Inl ''buckets not in increasing order''
       else Inr \<lparr>mt_name = name, mt_help = help, mt_labels = labels, mt_kind = HistogramVec buckets\<rparr>),
     pm_int_gauge = (\<lambda>name help.
       if valid_opts name help [] then Inr \<lparr>mt_name = name, mt_help = help, mt_labels = [], mt_kind = Gauge\<rparr>
       else Inl ''invalid descriptor''),
     pm_with_label_values = (\<lambda>m values.
       if length values = length (mt_labels m) then Inr (concat values) else Inl ''inconsistent label cardinality''),
     pm_register = (\<lambda>m reg.
       if mt_name m \<in> mt_name ` set reg then (Inl ''duplicate metrics collector registration attempted'', reg)
       else (Inr (), reg @ [m])),
     pm_gather = (\<lambda>reg. reg),
     pm_encode_utf8 = (\<lambda>fs. Inr (concat (map (\<lambda>m. ''# HELP '' @ mt_name m @ '' '' @ mt_help m @ [CHR 0x0A]) fs)))\<rparr>"

interpretation reference: prometheus_crate reference_prometheus "\<lambda>reg. mt_name ` set reg" mt_name mt_labels
  by unfold_locales (auto simp: reference_prometheus_def)

section \<open>Properties\<close>

text \<open>
  The metrics register once. On a registry that holds none of their names, all nine metrics are
  constructed without a panic and registered, and the registry then holds exactly their names in
  addition; a second registration fails with an error and leaves the registry as it is. No place of the
  service that counts panics: each passes as many values as its metric has labels.
\<close>

theorem metrics_register_once:
  assumes "prometheus_crate P names name_of labels_of" and "names r \<inter> set metric_names = {}"
  shows "\<exists>r' e. register_all P r = (Inr (), r') \<and> names r' = names r \<union> set metric_names
    \<and> register_all P r' = (Inl (PrometheusError e), r')
    \<and> (\<forall>client result. \<exists>c. count_submission P client result = Inr c)
    \<and> (\<forall>level trigger. \<exists>c. count_anomaly P level trigger = Inr c) \<and> (\<exists>c. count_proposal P = Inr c)"
proof -
  obtain r' where r': "register_all P r = (Inr (), r')" "names r' = names r \<union> set metric_names"
    using prometheus_crate.register_all_fresh [OF assms] by blast
  then have "''proof_submissions_total'' \<in> names r'" by (simp add: metric_names_def)
  then show ?thesis
    using prometheus_crate.register_all_taken [OF assms(1)] prometheus_crate.counting_never_panics [OF assms(1)] r' by blast
qed

theorem metrics_register_once_witness:
  "\<exists>r'. register_all reference_prometheus [] = (Inr (), r') \<and> mt_name ` set r' = set metric_names"
  using metrics_register_once [OF reference.prometheus_crate_axioms, of "[]"] by auto

end
