(* ===== verification/Startup.thy ===== *)
theory Startup
  imports Service_Router Metrics
begin

text \<open>
  \<open>crates/verification-service/src/main.rs\<close> and \<open>crates/node-server/src/main.rs\<close>: the configuration is
  read from the environment, every dependency is built, and the process ends with status 1 at the first
  fatal problem (\<open>Inl\<close> with its cause). The environment is a function from names to values; parsing
  addresses, keys, URLs and JSON and connecting are parameters; \<open>su_register_metrics\<close> is what
  \<open>register_all\<close> of \<open>Metrics\<close> returned on the registry of the process.
\<close>

section \<open>Configuration\<close>

definition DEFAULT_NODE_ENDPOINT :: string where "DEFAULT_NODE_ENDPOINT = ''http://localhost:50051''"

definition DEFAULT_NODE_API_KEY :: string where "DEFAULT_NODE_API_KEY = ''dev-api-key''"

definition DEFAULT_MINT_CEILING_ACTIVE_USERS :: string where "DEFAULT_MINT_CEILING_ACTIVE_USERS = ''1000''"

definition DEFAULT_MINT_CEILING_AVG_DAILY_PRM_PER_USER :: string where
  "DEFAULT_MINT_CEILING_AVG_DAILY_PRM_PER_USER = ''500''"

definition HOUSE_EDGE_CACHE_TTL_SECS :: int where "HOUSE_EDGE_CACHE_TTL_SECS = 60"

definition RESERVE_CACHE_TTL_SECS :: int where "RESERVE_CACHE_TTL_SECS = 60"

definition DEFAULT_ADMIN_DOMAIN :: string where "DEFAULT_ADMIN_DOMAIN = ''localhost:3000''"

definition DEFAULT_ADMIN_SESSION_TTL_SECS :: u64 where "DEFAULT_ADMIN_SESSION_TTL_SECS = 1800"

type_synonym environment = "string \<Rightarrow> string option"

record config =
  cf_database_url :: string
  cf_redis_url :: string
  cf_bind_addr :: string
  cf_chain_id :: u64
  cf_rpc_url :: string
  cf_signing_key_hex :: string
  cf_node_endpoints :: "(string \<times> string) list"
  cf_node_api_key :: string
  cf_mint_ceiling_active_users :: u64
  cf_mint_ceiling_avg_daily_prm_per_user :: u64

definition require_var :: "environment \<Rightarrow> string \<Rightarrow> string + string" where
  "require_var env name = (case env name of Some v \<Rightarrow> Inr v | None \<Rightarrow> Inl (''missing required env var '' @ name))"

definition optional_var :: "environment \<Rightarrow> string \<Rightarrow> string \<Rightarrow> string" where
  "optional_var env name default_value = (case env name of Some v \<Rightarrow> v | None \<Rightarrow> default_value)"

definition parse_node_endpoints :: "string \<Rightarrow> (string \<times> string) list" where
  "parse_node_endpoints raw =
     map (\<lambda>entry. case split_once (CHR ''='') entry of
            Some (i, endpoint) \<Rightarrow> (trim i, trim endpoint)
          | None \<Rightarrow> (entry, entry)) (comma_entries raw)"

definition signer_entry :: "(string \<Rightarrow> address option) \<Rightarrow> string \<Rightarrow> (node_id \<times> address) option" where
  "signer_entry parse_address entry =
     (case split_once (CHR ''='') entry of
        Some (i, addr) \<Rightarrow> (case parse_address (trim addr) of
            Some a \<Rightarrow> Some (NodeId (trim i), a)
          | None \<Rightarrow> None)
      | None \<Rightarrow> None)"

text \<open>Collecting into a hash map: the last entry for a key stays.\<close>

definition parse_node_signers :: "(string \<Rightarrow> address option) \<Rightarrow> string \<Rightarrow> node_id \<Rightarrow> address option" where
  "parse_node_signers parse_address raw = map_of (rev (List.map_filter (signer_entry parse_address) (comma_entries raw)))"

definition parse_node_sites :: "(string \<Rightarrow> (string \<times> node_site) list option) \<Rightarrow> string \<Rightarrow> (string \<times> node_site) list" where
  "parse_node_sites from_json raw =
     (if trim raw = [] then [] else (case from_json raw of Some entries \<Rightarrow> entries | None \<Rightarrow> []))"

definition bindR :: "'e + 'a \<Rightarrow> ('a \<Rightarrow> 'e + 'b) \<Rightarrow> 'e + 'b" where
  "bindR r f = (case r of Inl e \<Rightarrow> Inl e | Inr a \<Rightarrow> f a)"

definition orR :: "'a option \<Rightarrow> 'e \<Rightarrow> 'e + 'a" where
  "orR v e = (case v of Some a \<Rightarrow> Inr a | None \<Rightarrow> Inl e)"

definition failR :: "'x + 'a \<Rightarrow> 'e \<Rightarrow> 'e + 'a" where
  "failR r e = (case r of Inl x \<Rightarrow> Inl e | Inr a \<Rightarrow> Inr a)"

definition okR :: "'x + 'a \<Rightarrow> 'a option" where
  "okR r = (case r of Inl x \<Rightarrow> None | Inr a \<Rightarrow> Some a)"

definition load_config :: "environment \<Rightarrow> string + config" where
  "load_config env =
     bindR (require_var env ''DATABASE_URL'') (\<lambda>database_url.
     bindR (require_var env ''REDIS_URL'') (\<lambda>redis_url.
     bindR (require_var env ''BIND_ADDR'') (\<lambda>bind_addr.
     bindR (require_var env ''CHAIN_ID'') (\<lambda>chain_id_raw.
     bindR (orR (parse_u64 chain_id_raw) ''CHAIN_ID must be a u64'') (\<lambda>chain_id.
     bindR (require_var env ''RPC_URL'') (\<lambda>rpc_url.
     bindR (require_var env ''SIGNING_KEY_HEX'') (\<lambda>signing_key_hex.
     let node_endpoints = parse_node_endpoints (optional_var env ''NODE_ENDPOINTS'' DEFAULT_NODE_ENDPOINT);
         node_api_key = optional_var env ''NODE_API_KEY'' DEFAULT_NODE_API_KEY in
     bindR (orR (parse_u64 (optional_var env ''MINT_CEILING_ACTIVE_USERS'' DEFAULT_MINT_CEILING_ACTIVE_USERS))
       ''MINT_CEILING_ACTIVE_USERS must be a u64'') (\<lambda>active_users.
     bindR (orR (parse_u64 (optional_var env ''MINT_CEILING_AVG_DAILY_PRM_PER_USER'' DEFAULT_MINT_CEILING_AVG_DAILY_PRM_PER_USER))
       ''MINT_CEILING_AVG_DAILY_PRM_PER_USER must be a u64'') (\<lambda>avg_daily.
     Inr \<lparr>cf_database_url = database_url, cf_redis_url = redis_url, cf_bind_addr = bind_addr, cf_chain_id = chain_id,
          cf_rpc_url = rpc_url, cf_signing_key_hex = signing_key_hex, cf_node_endpoints = node_endpoints,
          cf_node_api_key = node_api_key, cf_mint_ceiling_active_users = active_users,
          cf_mint_ceiling_avg_daily_prm_per_user = avg_daily\<rparr>)))))))))"

section \<open>Readers and submitters\<close>

record ('w, 'p, 'k) startup_libs =
  su_parse_address :: "string \<Rightarrow> address option"
  su_parse_key :: "string \<Rightarrow> 'k option"
  su_sites_json :: "string \<Rightarrow> (string \<times> node_site) list option"
  su_alloy :: "('w, 'p, 'k) alloy"
  su_latest_round :: "string \<Rightarrow> 'w latest_round"
  su_http_client :: "'w http_get"
  su_from_shared :: "string \<Rightarrow> string + (metadata \<Rightarrow> attestation_request \<Rightarrow> 'w \<Rightarrow> (status + attestation_response) \<times> 'w)"
  su_register_metrics :: "metrics_error + unit"
  su_postgres_new :: "string \<Rightarrow> bool"
  su_run_migrations :: bool
  su_session_store_new :: "string \<Rightarrow> bool"
  su_rate_limiter_new :: "string \<Rightarrow> bool"

definition chain_prefix :: "chain \<Rightarrow> string" where
  "chain_prefix c = (case c of Ethereum \<Rightarrow> ''ETHEREUM'' | Polygon \<Rightarrow> ''POLYGON'')"

definition submitter_for ::
    "('w, 'p, 'k) startup_libs \<Rightarrow> environment \<Rightarrow> chain \<Rightarrow> string + ('w, 'p) oracle_submitter option" where
  "submitter_for L env c =
     (let prefix = chain_prefix c;
          rpc = env (prefix @ ''_RPC_URL'');
          key = env (prefix @ ''_ORACLE_SUBMITTER_KEY_HEX'');
          addr = env (prefix @ ''_ORACLE_AGGREGATOR_ADDRESS'') in
      case (key, addr) of
        (Some k, Some a) \<Rightarrow>
          bindR (orR rpc (prefix @ ''_RPC_URL missing'')) (\<lambda>url.
          bindR (orR (su_parse_address L a) (prefix @ ''_ORACLE_AGGREGATOR_ADDRESS parse'')) (\<lambda>address.
          bindR (orR (su_parse_key L k) (prefix @ ''_ORACLE_SUBMITTER_KEY_HEX parse'')) (\<lambda>signer.
          bindR (failR (new_oracle_submitter (su_alloy L) url signer address) ''oracle submitter init'') (\<lambda>submitter.
          Inr (Some submitter)))))
      | (None, None) \<Rightarrow> Inr None
      | _ \<Rightarrow> Inl ''partial oracle submitter config'')"

fun submitters_for ::
    "('w, 'p, 'k) startup_libs \<Rightarrow> environment \<Rightarrow> chain list \<Rightarrow> string + (chain \<times> ('w, 'p) oracle_submitter) list" where
  "submitters_for L env [] = Inr []"
| "submitters_for L env (c # cs) =
     bindR (submitter_for L env c) (\<lambda>s.
     bindR (submitters_for L env cs) (\<lambda>rest.
     Inr (case s of Some x \<Rightarrow> (c, x) # rest | None \<Rightarrow> rest)))"

definition build_oracle_submitters ::
    "('w, 'p, 'k) startup_libs \<Rightarrow> environment \<Rightarrow> string + (chain \<times> ('w, 'p) oracle_submitter) list" where
  "build_oracle_submitters L env = submitters_for L env chain_all"

text \<open>The optional readers: a chain whose settings are missing or wrong is left out.\<close>

definition optional_reader :: "('w, 'p, 'k) startup_libs \<Rightarrow> environment \<Rightarrow> string \<Rightarrow> (string \<Rightarrow> address \<Rightarrow> 'x option) \<Rightarrow> chain \<Rightarrow> 'x option" where
  "optional_reader L env suffix_name new c =
     (case (env (chain_prefix c @ ''_RPC_URL''), env (chain_prefix c @ suffix_name)) of
        (Some rpc, Some addr) \<Rightarrow> Option.bind (su_parse_address L addr) (\<lambda>address. new rpc address)
      | _ \<Rightarrow> None)"

definition build_staking_readers :: "('w, 'p, 'k) startup_libs \<Rightarrow> environment \<Rightarrow> (chain \<times> 'w staking_reader) list" where
  "build_staking_readers L env =
     List.map_filter (\<lambda>c. map_option (Pair c) (optional_reader L env ''_STAKING_ADDRESS''
       (\<lambda>rpc a. okR (new_staking_reader (su_alloy L) rpc a)) c)) chain_all"

definition build_treasury_readers :: "('w, 'p, 'k) startup_libs \<Rightarrow> environment \<Rightarrow> 'w treasuries" where
  "build_treasury_readers L env =
     List.map_filter (\<lambda>c. map_option (Pair c) (optional_reader L env ''_TREASURY_ADDRESS''
       (\<lambda>rpc a. okR (new_treasury_reader (su_alloy L) rpc a (RESERVE_CACHE_TTL_SECS * nanos_per_sec))) c)) chain_all"

definition build_house_edge_reader ::
    "('w, 'p, 'k) startup_libs \<Rightarrow> environment \<Rightarrow> string \<Rightarrow> 'w house_edge_reader option" where
  "build_house_edge_reader L env rpc_url =
     Option.bind (env ''HOUSE_EDGE_ADDRESS'') (\<lambda>addr.
     Option.bind (su_parse_address L addr) (\<lambda>address.
     okR (new_house_edge_reader (su_alloy L) rpc_url address (HOUSE_EDGE_CACHE_TTL_SECS * nanos_per_sec))))"

definition parse_company_wallet :: "('w, 'p, 'k) startup_libs \<Rightarrow> environment \<Rightarrow> address option" where
  "parse_company_wallet L env = Option.bind (env ''COMPANY_WALLET'') (su_parse_address L)"

section \<open>Starting the service\<close>

type_synonym 'w node_pool = "node_id list \<times> (node_id \<Rightarrow> 'w grpc_node_client option)"

fun connect_nodes ::
    "('w, 'p, 'k) startup_libs \<Rightarrow> string \<Rightarrow> (string \<times> string) list \<Rightarrow> 'w node_pool \<Rightarrow> string + 'w node_pool" where
  "connect_nodes L api_key [] pool = Inr pool"
| "connect_nodes L api_key ((i, endpoint) # rest) (ids, clients) =
     bindR (new_grpc_client (su_from_shared L) endpoint api_key) (\<lambda>client.
     connect_nodes L api_key rest (ids @ [NodeId i], clients(NodeId i \<mapsto> client)))"

definition build_nodes :: "('w, 'p, 'k) startup_libs \<Rightarrow> config \<Rightarrow> string + 'w node_pool" where
  "build_nodes L cf =
     bindR (connect_nodes L (cf_node_api_key cf) (cf_node_endpoints cf) ([], Map.empty)) (\<lambda>pool.
     if fst pool = [] then connect_nodes L (cf_node_api_key cf) [(DEFAULT_NODE_ENDPOINT, DEFAULT_NODE_ENDPOINT)] pool
     else Inr pool)"

definition load_admin :: "admin_libs \<Rightarrow> environment \<Rightarrow> admin_config" where
  "load_admin AL env =
     \<lparr>ad_wallets = parse_admin_wallets AL (optional_var env ''ADMIN_WALLET'' []),
      ad_session_secret = (case env ''ADMIN_SESSION_SECRET'' of
          Some secret \<Rightarrow> if secret = [] then None else Some (str_bytes secret)
        | None \<Rightarrow> None),
      ad_domain = optional_var env ''ADMIN_DOMAIN'' DEFAULT_ADMIN_DOMAIN,
      ad_session_ttl = (case env ''ADMIN_SESSION_TTL_SECS'' of
          Some v \<Rightarrow> (case parse_u64 v of Some t \<Rightarrow> t | None \<Rightarrow> DEFAULT_ADMIN_SESSION_TTL_SECS)
        | None \<Rightarrow> DEFAULT_ADMIN_SESSION_TTL_SECS)\<rparr>"

record ('w, 'p, 'k) deployment =
  dp_config :: config
  dp_onchain :: "'w onchain_client"
  dp_oracle :: "'w oracle_reader"
  dp_signer :: 'k
  dp_submitters :: "(chain \<times> ('w, 'p) oracle_submitter) list"
  dp_staking :: "(chain \<times> 'w staking_reader) list"
  dp_treasuries :: "'w treasuries"
  dp_edge :: "'w house_edge_reader option"
  dp_nodes :: "'w node_pool"
  dp_signers :: "node_id \<Rightarrow> address option"
  dp_admin :: admin_config
  dp_company_wallet :: "address option"
  dp_node_sites :: "(string \<times> node_site) list"

definition checkR :: "bool \<Rightarrow> 'e \<Rightarrow> 'e + unit" where
  "checkR b e = (if b then Inr () else Inl e)"

definition start ::
    "('w, 'p, 'k) startup_libs \<Rightarrow> admin_libs \<Rightarrow> environment \<Rightarrow> string + ('w, 'p, 'k) deployment" where
  "start L AL env =
     bindR (load_config env) (\<lambda>cf.
     bindR (failR (su_register_metrics L) ''metrics registration'') (\<lambda>_.
     bindR (checkR (su_postgres_new L (cf_database_url cf)) ''postgres connect'') (\<lambda>_.
     bindR (checkR (su_run_migrations L) ''postgres migrations'') (\<lambda>_.
     bindR (checkR (su_session_store_new L (cf_redis_url cf)) ''redis session store connect'') (\<lambda>_.
     bindR (checkR (su_rate_limiter_new L (cf_redis_url cf)) ''redis rate limiter connect'') (\<lambda>_.
     bindR (failR (new_onchain_client (su_alloy L) (cf_rpc_url cf) (cf_chain_id cf)) ''onchain client'') (\<lambda>onchain.
     bindR (failR (new_oracle_reader (\<lambda>u. map_option (su_latest_round L) (ay_parse_url (su_alloy L) u)) (su_http_client L)
         (cf_rpc_url cf) (feeds_from_env_or_default env (su_parse_address L)) default_pyth_feeds)
       ''oracle reader init'') (\<lambda>oracle.
     bindR (orR (su_parse_key L (cf_signing_key_hex cf)) ''signing key'') (\<lambda>signer.
     bindR (build_oracle_submitters L env) (\<lambda>submitters.
     let staking = build_staking_readers L env;
         treasuries = build_treasury_readers L env;
         edge = build_house_edge_reader L env (cf_rpc_url cf) in
     bindR (build_nodes L cf) (\<lambda>nodes.
     Inr \<lparr>dp_config = cf, dp_onchain = onchain, dp_oracle = oracle, dp_signer = signer, dp_submitters = submitters,
          dp_staking = staking, dp_treasuries = treasuries, dp_edge = edge, dp_nodes = nodes,
          dp_signers = parse_node_signers (su_parse_address L) (optional_var env ''NODE_SIGNERS'' []),
          dp_admin = load_admin AL env, dp_company_wallet = parse_company_wallet L env,
          dp_node_sites = parse_node_sites (su_sites_json L) (optional_var env ''NODE_SITES'' [])\<rparr>)))))))))))"

text \<open>The parts of the state that come from the deployment; the rest are the stores and the libraries.\<close>

definition deploy ::
    "('w, 'p, 'k) deployment \<Rightarrow> ('w grpc_node_client \<Rightarrow> 'w node_client) \<Rightarrow> ('r, 'w, 'ch, 'k, 'p) app_state
       \<Rightarrow> ('r, 'w, 'ch, 'k, 'p) app_state" where
  "deploy dp as_client st =
     st\<lparr>st_mint_ceiling := new_calculator, st_onchain := dp_onchain dp,
        st_coordinator := new_coordinator (\<lambda>i. map_option as_client (snd (dp_nodes dp) i)) (fst (dp_nodes dp)) (dp_signers dp),
        st_signing_key := dp_signer dp, st_oracle_reader := dp_oracle dp, st_submitters := dp_submitters dp,
        st_staking_readers := dp_staking dp, st_node_sites := map_of (dp_node_sites dp),
        st_company_wallet := dp_company_wallet dp,
        st_active_users := cf_mint_ceiling_active_users (dp_config dp),
        st_avg_daily := cf_mint_ceiling_avg_daily_prm_per_user (dp_config dp)\<rparr>"

section \<open>Starting a node\<close>

record 'sk node_start =
  nd_addr :: string
  nd_id :: string
  nd_service :: "'sk node_service"

definition start_node ::
    "(string \<Rightarrow> 'sk option) \<Rightarrow> (string \<Rightarrow> string option) \<Rightarrow> (bytes \<Rightarrow> string + 'cache) \<Rightarrow> ('cache \<Rightarrow> string + randomx_vm)
       \<Rightarrow> string option \<Rightarrow> environment \<Rightarrow> string + 'sk node_start" where
  "start_node parse_key parse_socket cache_new vm_new init_lost env =
     bindR (require_var env ''BIND_ADDR'') (\<lambda>bind_addr.
     bindR (require_var env ''NODE_API_KEY'') (\<lambda>api_key.
     bindR (require_var env ''NODE_SIGNING_KEY_HEX'') (\<lambda>key_hex.
     bindR (orR (parse_key key_hex) ''invalid NODE_SIGNING_KEY_HEX'') (\<lambda>signer.
     let node_id = optional_var env ''NODE_ID'' DEFAULT_NODE_ID in
     bindR (orR (parse_socket bind_addr) ''invalid BIND_ADDR'') (\<lambda>addr.
     bindR (case new_service cache_new vm_new init_lost api_key signer of Inl e \<Rightarrow> Inl ''randomx verifier init'' | Inr s \<Rightarrow> Inr s) (\<lambda>service.
     Inr \<lparr>nd_addr = addr, nd_id = node_id, nd_service = service\<rparr>))))))"

section \<open>What a start guarantees\<close>

lemma bindR_Inr: "bindR r f = Inr b \<longleftrightarrow> (\<exists>a. r = Inr a \<and> f a = Inr b)"
  by (cases r) (auto simp: bindR_def)

lemma orR_Inr: "orR v e = Inr a \<longleftrightarrow> v = Some a"
  by (cases v) (auto simp: orR_def)

lemma failR_Inr: "failR r e = Inr a \<longleftrightarrow> r = Inr a"
  by (cases r) (auto simp: failR_def)

lemmas result_rules = bindR_Inr orR_Inr failR_Inr

text \<open>The settings of a chain's price submission: complete, absent, or neither.\<close>

definition submission_complete :: "('w, 'p, 'k) startup_libs \<Rightarrow> environment \<Rightarrow> chain \<Rightarrow> ('w, 'p) oracle_submitter \<Rightarrow> bool" where
  "submission_complete L env c s \<longleftrightarrow> (\<exists>url k a signer address.
     env (chain_prefix c @ ''_RPC_URL'') = Some url \<and> env (chain_prefix c @ ''_ORACLE_SUBMITTER_KEY_HEX'') = Some k
   \<and> env (chain_prefix c @ ''_ORACLE_AGGREGATOR_ADDRESS'') = Some a \<and> su_parse_address L a = Some address
   \<and> su_parse_key L k = Some signer \<and> new_oracle_submitter (su_alloy L) url signer address = Inr s)"

definition submission_absent :: "environment \<Rightarrow> chain \<Rightarrow> bool" where
  "submission_absent env c \<longleftrightarrow> env (chain_prefix c @ ''_ORACLE_SUBMITTER_KEY_HEX'') = None
     \<and> env (chain_prefix c @ ''_ORACLE_AGGREGATOR_ADDRESS'') = None"

lemma submitter_for_Inr:
  "submitter_for L env c = Inr (Some s) \<longleftrightarrow> submission_complete L env c s"
  "submitter_for L env c = Inr None \<longleftrightarrow> submission_absent env c"
  by (auto simp: submitter_for_def submission_complete_def submission_absent_def result_rules Let_def split: option.splits)

text \<open>
  Price submission is configured all or nothing. The service starts only if on each chain the
  submitter's key and contract are both absent, whatever the RPC address, or both present and valid
  together with an RPC address; and then it submits to exactly the chains of the second kind, each with
  the submitter built from that chain's own settings.
\<close>

theorem submission_all_or_nothing:
  "case build_oracle_submitters L env of
     Inl e \<Rightarrow> \<exists>c. \<not> submission_absent env c \<and> (\<nexists>s. submission_complete L env c s)
   | Inr subs \<Rightarrow> (\<forall>c. submission_absent env c \<or> (\<exists>s. submission_complete L env c s))
       \<and> (\<forall>c s. (c, s) \<in> set subs \<longleftrightarrow> submission_complete L env c s) \<and> distinct (map fst subs)"
proof -
  have all: "(\<forall>c. P c) \<longleftrightarrow> P Ethereum \<and> P Polygon" "(\<exists>c. P c) \<longleftrightarrow> P Ethereum \<or> P Polygon" for P
    by (metis chain.exhaust)+
  have absent: "submission_absent env c \<longleftrightarrow> submitter_for L env c = Inr None" for c by (simp add: submitter_for_Inr)
  show ?thesis
    unfolding submitter_for_Inr [symmetric] absent all
    by (cases "submitter_for L env Ethereum"; cases "submitter_for L env Polygon";
        cases "projr (submitter_for L env Ethereum)"; cases "projr (submitter_for L env Polygon)")
       (auto simp: build_oracle_submitters_def chain_all_def bindR_def)
qed

section \<open>Nodes and operators\<close>

lemma connect_nodes_Inr:
  assumes "connect_nodes L api_key eps pool = Inr pool'" and "dom (snd pool) = set (fst pool)"
    and "\<forall>i c. snd pool i = Some c \<longrightarrow> gc_api_key c = api_key"
  shows "fst pool' = fst pool @ map (NodeId \<circ> fst) eps \<and> dom (snd pool') = set (fst pool')
    \<and> (\<forall>i c. snd pool' i = Some c \<longrightarrow> gc_api_key c = api_key)"
  using assms
proof (induction L api_key eps pool rule: connect_nodes.induct)
  case (2 L api_key i endpoint rest ids clients)
  from 2(2) obtain c where c: "new_grpc_client (su_from_shared L) endpoint api_key = Inr c"
    "connect_nodes L api_key rest (ids @ [NodeId i], clients(NodeId i \<mapsto> c)) = Inr pool'"
    by (auto simp: result_rules)
  have k: "gc_api_key c = api_key" using c(1) by (auto simp: new_grpc_client_def split: sum.splits)
  have "fst pool' = fst (ids @ [NodeId i], clients(NodeId i \<mapsto> c)) @ map (NodeId \<circ> fst) rest
      \<and> dom (snd pool') = set (fst pool') \<and> (\<forall>i c. snd pool' i = Some c \<longrightarrow> gc_api_key c = api_key)"
    proof (rule 2(1) [OF c(2)])
    show "dom (snd (ids @ [NodeId i], clients(NodeId i \<mapsto> c))) = set (fst (ids @ [NodeId i], clients(NodeId i \<mapsto> c)))"
      using 2(3) by simp
    show "\<forall>j d. snd (ids @ [NodeId i], clients(NodeId i \<mapsto> c)) j = Some d \<longrightarrow> gc_api_key d = api_key"
      using 2(4) k by simp
  qed
  then show ?case by simp
qed simp

lemma build_nodes_Inr:
  assumes "build_nodes L cf = Inr pool"
  shows "fst pool \<noteq> [] \<and> dom (snd pool) = set (fst pool) \<and> (\<forall>i c. snd pool i = Some c \<longrightarrow> gc_api_key c = cf_node_api_key cf)
    \<and> fst pool = (if cf_node_endpoints cf = [] then [NodeId DEFAULT_NODE_ENDPOINT] else map (NodeId \<circ> fst) (cf_node_endpoints cf))"
proof -
  obtain p where p: "connect_nodes L (cf_node_api_key cf) (cf_node_endpoints cf) ([], Map.empty) = Inr p"
    "(if fst p = [] then connect_nodes L (cf_node_api_key cf) [(DEFAULT_NODE_ENDPOINT, DEFAULT_NODE_ENDPOINT)] p else Inr p) = Inr pool"
    using assms by (auto simp: build_nodes_def result_rules)
  note 1 = connect_nodes_Inr [OF p(1)]
  show ?thesis
  proof (cases "fst p = []")
    case True
    then show ?thesis using 1 p(2) connect_nodes_Inr [of L "cf_node_api_key cf" "[(DEFAULT_NODE_ENDPOINT, DEFAULT_NODE_ENDPOINT)]" p pool]
      by auto
  next
    case False
    then show ?thesis using 1 p(2) by auto
  qed
qed

lemma start_Inr:
  assumes "start L AL env = Inr dp"
  shows "load_config env = Inr (dp_config dp) \<and> build_nodes L (dp_config dp) = Inr (dp_nodes dp)
    \<and> build_oracle_submitters L env = Inr (dp_submitters dp) \<and> dp_admin dp = load_admin AL env"
  using assms by (auto simp: start_def result_rules Let_def)

text \<open>
  C33: A started service has a sound pool of nodes. It is never empty; it lists the configured endpoints in
  order, or the default one if there are none; every node on it has a client, and nothing else has;
  every client carries the configured key; and three signatures are required, however few nodes there are.
\<close>

theorem started_pool_sound:
  assumes "start L AL env = Inr dp"
  shows "let co = st_coordinator (deploy dp as_client st); eps = cf_node_endpoints (dp_config dp) in
      nc_eligible_nodes co = (if eps = [] then [NodeId DEFAULT_NODE_ENDPOINT] else map (NodeId \<circ> fst) eps)
    \<and> nc_eligible_nodes co \<noteq> [] \<and> (\<forall>i. nc_clients co i \<noteq> None \<longleftrightarrow> i \<in> set (nc_eligible_nodes co))
    \<and> (\<forall>i c. snd (dp_nodes dp) i = Some c \<longrightarrow> gc_api_key c = cf_node_api_key (dp_config dp))
    \<and> nc_required_signatures co = 3"
proof -
  note n = build_nodes_Inr [of L "dp_config dp" "dp_nodes dp"]
  have "build_nodes L (dp_config dp) = Inr (dp_nodes dp)" using start_Inr [OF assms] by blast
  note n = n [OF this]
  have "snd (dp_nodes dp) i \<noteq> None \<longleftrightarrow> i \<in> set (fst (dp_nodes dp))" for i using n by (metis domIff)
  then show ?thesis using n by (simp add: Let_def deploy_def new_coordinator_def REQUIRED_SIGNATURES_def)
qed

fun operator_call :: "call \<Rightarrow> bool" where
  "operator_call AdminNonce = True"
| "operator_call (AdminLogin b) = True"
| "operator_call (AdminOverview h) = True"
| "operator_call (AdminLogout h) = True"
| "operator_call _ = False"

lemma parse_admin_wallets_empty:
  "parse_admin_wallets AL raw = {} \<longleftrightarrow> (\<forall>e \<in> set (comma_entries raw). al_parse_address AL e = None)"
  by (auto simp: parse_admin_wallets_def List.map_filter_def)

text \<open>
  The operators' console fails closed. If the session secret is unset or empty, or the list of wallets
  has no entry that reads as an address, then every call to the console, with whatever body or header,
  is answered 401 and changes nothing.
\<close>

theorem unconfigured_console_is_closed:
  assumes "start L AL env = Inr dp" and "operator_call c"
    and "env ''ADMIN_SESSION_SECRET'' \<in> {None, Some []}
       \<or> (\<forall>e \<in> set (comma_entries (optional_var env ''ADMIN_WALLET'' [])). al_parse_address AL e = None)"
  shows "dispatch st AL (dp_admin dp) av c sv = (Failed 401 ''unauthorized'', sv)"
proof -
  have "admin_disabled (dp_admin dp)"
    using assms(3) start_Inr [OF assms(1)] parse_admin_wallets_empty [of AL "optional_var env ''ADMIN_WALLET'' []"]
    by (auto simp: admin_disabled_def load_admin_def)
  with assms(2) show ?thesis
    by (cases c) (auto simp: handle_nonce_def handle_login_def guarded_def admin_guard_def admin_disabled_def auth_reply_def
        split: option.splits)
qed

section \<open>Instances\<close>

definition demo_env :: environment where
  "demo_env = [''DATABASE_URL'' \<mapsto> ''db'', ''REDIS_URL'' \<mapsto> ''redis'', ''BIND_ADDR'' \<mapsto> ''0.0.0.0:80'', ''CHAIN_ID'' \<mapsto> ''1'',
     ''RPC_URL'' \<mapsto> ''rpc'', ''SIGNING_KEY_HEX'' \<mapsto> ''key'', ''NODE_ENDPOINTS'' \<mapsto> ''a=http://a, b=http://b'',
     ''ADMIN_WALLET'' \<mapsto> ''0x7'']"

definition demo_startup :: "(unit, unit, unit) startup_libs" where
  "demo_startup = \<lparr>su_parse_address = (\<lambda>s. if s = ''0x7'' then Some 7 else None), su_parse_key = (\<lambda>s. Some ()),
     su_sites_json = (\<lambda>s. None), su_alloy = idle_alloy, su_latest_round = (\<lambda>u a w. (Inl ''unreachable'', w)),
     su_http_client = (\<lambda>u w. (Inl ''unreachable'', w)),
     su_from_shared = (\<lambda>e. Inr (\<lambda>m q w. (Inl (Internal []), w))), su_register_metrics = fst (register_all reference_prometheus []),
     su_postgres_new = (\<lambda>u. True), su_run_migrations = True, su_session_store_new = (\<lambda>u. True),
     su_rate_limiter_new = (\<lambda>u. True)\<rparr>"

lemma num_fits: "(1::nat) < 2 ^ LENGTH(64)" "(1000::nat) < 2 ^ LENGTH(64)" "(500::nat) < 2 ^ LENGTH(64)"
  by simp_all

lemma demo_config:
  "\<exists>cf. load_config demo_env = Inr cf \<and> cf_node_endpoints cf = [(''a'', ''http://a''), (''b'', ''http://b'')]"
proof -
  have "parse_node_endpoints ''a=http://a, b=http://b'' = [(''a'', ''http://a''), (''b'', ''http://b'')]" by code_simp
  moreover have "parse_u64 ''1'' = Some 1" "parse_u64 ''1000'' = Some 1000" "parse_u64 ''500'' = Some 500"
  proof -
    have "show_nat 1 = ''1''" "show_nat 1000 = ''1000''" "show_nat 500 = ''500''" by code_simp+
    then show "parse_u64 ''1'' = Some 1" "parse_u64 ''1000'' = Some 1000" "parse_u64 ''500'' = Some 500"
      using parse_unsigned_show_nat [where 'a = 64] by (metis (mono_tags) num_fits(1) of_nat_1, metis num_fits(2) of_nat_numeral, metis num_fits(3) of_nat_numeral)
  qed
  ultimately show ?thesis
    by (simp add: load_config_def demo_env_def require_var_def optional_var_def orR_def bindR_def
        DEFAULT_MINT_CEILING_ACTIVE_USERS_def DEFAULT_MINT_CEILING_AVG_DAILY_PRM_PER_USER_def)
qed

lemma demo_starts: "\<exists>dp. start demo_startup demo_admin_libs demo_env = Inr dp
    \<and> cf_node_endpoints (dp_config dp) = [(''a'', ''http://a''), (''b'', ''http://b'')]"
proof -
  obtain cf where cf: "load_config demo_env = Inr cf" "cf_node_endpoints cf = [(''a'', ''http://a''), (''b'', ''http://b'')]"
    using demo_config by blast
  have "build_oracle_submitters demo_startup demo_env = Inr []"
    by (simp add: build_oracle_submitters_def chain_all_def submitter_for_def chain_prefix_def demo_env_def bindR_def)
  moreover have "fst (register_all reference_prometheus []) = Inr ()"
    using reference.register_all_fresh [of "[]"] by auto
  ultimately show ?thesis
    using cf
    by (simp add: start_def bindR_def orR_def failR_def checkR_def Let_def demo_startup_def idle_alloy_def with_url_def
        new_onchain_client_def new_oracle_reader_def build_nodes_def new_grpc_client_def)
qed

theorem started_pool_sound_witness:
  "\<exists>dp. start demo_startup demo_admin_libs demo_env = Inr dp
     \<and> nc_eligible_nodes (st_coordinator (deploy dp (\<lambda>c t i j ps w. (None, w)) demo_state)) = [NodeId ''a'', NodeId ''b'']"
proof -
  obtain dp where dp: "start demo_startup demo_admin_libs demo_env = Inr dp"
    "cf_node_endpoints (dp_config dp) = [(''a'', ''http://a''), (''b'', ''http://b'')]" using demo_starts by blast
  from started_pool_sound [OF dp(1), of "\<lambda>c t i j ps w. (None, w)" demo_state] dp show ?thesis by (auto simp: Let_def)
qed

theorem unconfigured_console_is_closed_witness:
  "\<exists>dp. start demo_startup demo_admin_libs demo_env = Inr dp
     \<and> dispatch demo_state demo_admin_libs (dp_admin dp) demo_arrival (AdminLogin demo_login) demo_service
        = (Failed 401 ''unauthorized'', demo_service)"
proof -
  obtain dp where dp: "start demo_startup demo_admin_libs demo_env = Inr dp" using demo_starts by blast
  from unconfigured_console_is_closed [OF dp, of "AdminLogin demo_login" demo_state demo_arrival demo_service] dp
  show ?thesis by (simp add: demo_env_def)
qed

end
