(* ===== verification/Admin_Cli.thy ===== *)
theory Admin_Cli
  imports Onchain_Client Postgres_Store Text
begin

text \<open>
  \<open>crates/admin-cli/src/main.rs\<close>: the operators' command line, which moves mint proposals from the
  database through propose, approve, execute and cancel on the mining contract of their chain. The
  state is the database, the outside world (the chains) and the lines printed. Address, key and
  hexadecimal text, Keccak-256 and the connections are parameters.
\<close>

section \<open>Data\<close>

definition TIMELOCK_SECS :: u64 where "TIMELOCK_SECS = 48 * 60 * 60"

datatype command =
    ListPending
  | Propose string
  | Approve string string
  | Status string string
  | Execute string string "string option"
  | Cancel string string "string option"

record cli =
  cl_database_url :: "string option"
  cl_ethereum_rpc_url :: "string option"
  cl_ethereum_mining_address :: "string option"
  cl_ethereum_admin_key :: "string option"
  cl_polygon_rpc_url :: "string option"
  cl_polygon_mining_address :: "string option"
  cl_polygon_admin_key :: "string option"

record ('w, 'p, 'k) cli_libs =
  li_hex_decode :: "string \<Rightarrow> string + bytes"
  li_keccak256 :: "bytes \<Rightarrow> bytes"
  li_parse_address :: "string \<Rightarrow> string + address"
  li_addr_display :: "address \<Rightarrow> string"
  li_parse_key :: "string \<Rightarrow> string + 'k"
  li_alloy :: "('w, 'p, 'k) alloy"
  li_store_new :: "string \<Rightarrow> postgres_store_error option"

record 'w cli_state =
  cx_db :: db
  cx_ext :: 'w
  cx_out :: "string list"

text \<open>A command sees the i-th statement fail with \<open>fault i\<close>, and the clocks at \<open>now\<close>.\<close>

type_synonym ('w, 'a) cli_act = "('w cli_state, string, 'a) act"

definition fromE :: "string + 'a \<Rightarrow> ('w, 'a) cli_act" where
  "fromE r = (case r of Inl e \<Rightarrow> errE e | Inr a \<Rightarrow> okE a)"

definition dbE :: "'a pg_act \<Rightarrow> ('w, 'a) cli_act" where
  "dbE m = (\<lambda>s. case m (cx_db s) of (r, d) \<Rightarrow> (map_sum pg_error_display id r, s\<lparr>cx_db := d\<rparr>))"

definition chainE :: "('w, 'a) chain_act \<Rightarrow> ('w, 'a) cli_act" where
  "chainE m = (\<lambda>s. case m (cx_ext s) of (r, w) \<Rightarrow> (map_sum oc_error_display id r, s\<lparr>cx_ext := w\<rparr>))"

definition println :: "string \<Rightarrow> ('w, unit) cli_act" where
  "println line = (\<lambda>s. (Inr (), s\<lparr>cx_out := cx_out s @ [line]\<rparr>))"

fun print_lines :: "string list \<Rightarrow> ('w, unit) cli_act" where
  "print_lines [] = okE ()"
| "print_lines (l # ls) = tryE (println l) (\<lambda>_. print_lines ls)"

section \<open>Parsing\<close>

definition parse_proposal_id :: "('w, 'p, 'k) cli_libs \<Rightarrow> string \<Rightarrow> string + bytes" where
  "parse_proposal_id L raw =
     (let stripped = (case strip_prefix_of ''0x'' raw of Some s \<Rightarrow> s | None \<Rightarrow> raw) in
      case li_hex_decode L stripped of
        Inl e \<Rightarrow> Inl (''invalid proposal-id hex: '' @ e)
      | Inr bs \<Rightarrow> if length bs = 32 then Inr bs else Inl ''proposal-id must be exactly 32 bytes'')"

definition derive_proposal_id :: "('w, 'p, 'k) cli_libs \<Rightarrow> string \<Rightarrow> bytes" where
  "derive_proposal_id L session_id = li_keccak256 L (str_bytes session_id)"

definition parse_chain :: "string \<Rightarrow> string + chain" where
  "parse_chain raw =
     (case from_str_id raw of
        Some c \<Rightarrow> Inr c
      | None \<Rightarrow> Inl (''invalid chain '' @ [CHR 0x27] @ raw @ [CHR 0x27] @ '' (expected ethereum or polygon)''))"

definition require_opt :: "string option \<Rightarrow> string \<Rightarrow> string \<Rightarrow> string + string" where
  "require_opt v flag env = (case v of Some s \<Rightarrow> Inr s | None \<Rightarrow> Inl (''missing '' @ flag @ '' (or env '' @ env @ '')''))"

section \<open>Connections\<close>

definition chain_settings :: "cli \<Rightarrow> chain \<Rightarrow> string option \<times> string option \<times> string option \<times> string" where
  "chain_settings cli c =
     (case c of
        Ethereum \<Rightarrow> (cl_ethereum_rpc_url cli, cl_ethereum_mining_address cli, cl_ethereum_admin_key cli, ''ETHEREUM'')
      | Polygon \<Rightarrow> (cl_polygon_rpc_url cli, cl_polygon_mining_address cli, cl_polygon_admin_key cli, ''POLYGON''))"

definition not_configured :: "chain \<Rightarrow> string \<Rightarrow> string" where
  "not_configured c pre = ''chain '' @ chain_as_str c @ '' not configured (set '' @ pre @ ''_RPC_URL, '' @ pre
     @ ''_MINING_CONTRACT_ADDRESS, '' @ pre @ ''_ADMIN_KEY_HEX)''"

definition build_writer_for_chain ::
    "('w, 'p, 'k) cli_libs \<Rightarrow> cli \<Rightarrow> chain \<Rightarrow> string + ('w, 'p) mining_writer" where
  "build_writer_for_chain L cli c =
     (case chain_settings cli c of
        (Some rpc, Some mining, Some key, pre) \<Rightarrow>
          (case li_parse_address L mining of
             Inl e \<Rightarrow> Inl (''invalid mining address: '' @ e)
           | Inr address \<Rightarrow> (case li_parse_key L key of
                 Inl e \<Rightarrow> Inl (''invalid admin key: '' @ e)
               | Inr signer \<Rightarrow> map_sum oc_error_display id (new_mining_writer (li_alloy L) rpc signer address)))
      | (_, _, _, pre) \<Rightarrow> Inl (not_configured c pre))"

definition build_store :: "('w, 'p, 'k) cli_libs \<Rightarrow> cli \<Rightarrow> string + unit" where
  "build_store L cli =
     (case require_opt (cl_database_url cli) ''--database-url'' ''DATABASE_URL'' of
        Inl e \<Rightarrow> Inl e
      | Inr url \<Rightarrow> (case li_store_new L url of Some e \<Rightarrow> Inl (pg_error_display e) | None \<Rightarrow> Inr ()))"

section \<open>Commands\<close>

definition update_db_status ::
    "('w, 'p, 'k) cli_libs \<Rightarrow> cli \<Rightarrow> (nat \<Rightarrow> string option) \<Rightarrow> datetime \<Rightarrow> string option \<Rightarrow> proposal_status
       \<Rightarrow> ('w, unit) cli_act" where
  "update_db_status L cli fault now session_id status =
     (case session_id of
        Some sid \<Rightarrow>
          tryE (fromE (build_store L cli)) (\<lambda>_.
          tryE (dbE (update_proposal_status (fault 1) now (SessionId sid) status)) (\<lambda>_.
          println (''postgres: session '' @ sid @ '' marked '' @ status_debug status)))
      | None \<Rightarrow> println (''postgres: not updated (pass --session-id to mark the row '' @ status_debug status @ '')''))"

definition pad_right :: "nat \<Rightarrow> string \<Rightarrow> string" where
  "pad_right n s = s @ replicate (n - length s) (CHR '' '')"

definition table_line :: "string \<Rightarrow> string \<Rightarrow> string \<Rightarrow> string \<Rightarrow> string \<Rightarrow> string \<Rightarrow> string \<Rightarrow> string" where
  "table_line a b c d e f g = pad_right 38 a @ '' '' @ pad_right 44 b @ '' '' @ pad_right 26 c @ '' '' @ pad_right 10 d
     @ '' '' @ pad_right 9 e @ '' '' @ pad_right 10 f @ '' '' @ g"

definition run_list :: "('w, 'p, 'k) cli_libs \<Rightarrow> cli \<Rightarrow> (nat \<Rightarrow> string option) \<Rightarrow> ('w, unit) cli_act" where
  "run_list L cli fault =
     tryE (fromE (build_store L cli)) (\<lambda>_.
     tryE (dbE (get_pending_proposals (fault 0))) (\<lambda>rows.
     tryE (println (table_line ''session_id'' ''wallet'' ''gross_prm'' ''commodity'' ''chain'' ''status'' ''proposal_id'')) (\<lambda>_.
     tryE (print_lines (map (\<lambda>row. table_line (ppr_session_id row) (ppr_wallet row) (ppr_gross_prm row)
        (ppr_commodity row) (ppr_chain row) (ppr_status row)
        (''0x'' @ hex_encode (derive_proposal_id L (ppr_session_id row)))) rows)) (\<lambda>_.
     println (''('' @ show_nat (length rows) @ '' pending)'')))))"

definition run_propose ::
    "('w, 'p, 'k) cli_libs \<Rightarrow> cli \<Rightarrow> (nat \<Rightarrow> string option) \<Rightarrow> datetime \<Rightarrow> string \<Rightarrow> ('w, unit) cli_act" where
  "run_propose L cli fault now session_id =
     tryE (fromE (build_store L cli)) (\<lambda>_.
     tryE (dbE (get_pending_proposals (fault 0))) (\<lambda>rows.
     tryE (fromE (case find (\<lambda>r. ppr_session_id r = session_id) rows of
             Some r \<Rightarrow> Inr r | None \<Rightarrow> Inl (''no pending proposal for session '' @ session_id))) (\<lambda>row.
     tryE (fromE (parse_chain (ppr_chain row))) (\<lambda>c.
     tryE (fromE (case li_parse_address L (ppr_wallet row) of
             Inr a \<Rightarrow> Inr a | Inl e \<Rightarrow> Inl (''bad wallet in db: '' @ e))) (\<lambda>recipient.
     tryE (fromE (case parse_u128 (ppr_gross_prm row) of
             Some v \<Rightarrow> Inr v | None \<Rightarrow> Inl (''bad gross_prm in db: '' @ ppr_gross_prm row))) (\<lambda>amount.
     let proposal_id = derive_proposal_id L session_id in
     tryE (fromE (build_writer_for_chain L cli c)) (\<lambda>writer.
     tryE (chainE (propose_mint writer proposal_id proposal_id recipient amount)) (\<lambda>tx.
     tryE (dbE (update_proposal_status (fault 1) now (SessionId session_id) Submitted)) (\<lambda>_.
     print_lines [''proposalId: 0x'' @ hex_encode proposal_id, ''chain:      '' @ chain_as_str c,
        ''recipient:  '' @ li_addr_display L recipient, ''amount:     '' @ show_nat (unat amount),
        ''tx:         0x'' @ hex_encode tx])))))))))"

text \<open>The common beginning of the commands on one proposal: identifier, chain, writer.\<close>

definition on_chain ::
    "('w, 'p, 'k) cli_libs \<Rightarrow> cli \<Rightarrow> string \<Rightarrow> string \<Rightarrow> (bytes \<Rightarrow> chain \<Rightarrow> ('w, 'p) mining_writer \<Rightarrow> ('w, unit) cli_act)
       \<Rightarrow> ('w, unit) cli_act" where
  "on_chain L cli proposal_id chain_raw f =
     tryE (fromE (parse_proposal_id L proposal_id)) (\<lambda>pid.
     tryE (fromE (parse_chain chain_raw)) (\<lambda>c.
     tryE (fromE (build_writer_for_chain L cli c)) (\<lambda>writer. f pid c writer)))"

definition run_approve :: "('w, 'p, 'k) cli_libs \<Rightarrow> cli \<Rightarrow> string \<Rightarrow> string \<Rightarrow> ('w, unit) cli_act" where
  "run_approve L cli proposal_id chain_raw =
     on_chain L cli proposal_id chain_raw (\<lambda>pid c writer.
     tryE (chainE (approve_mint writer pid)) (\<lambda>tx.
     tryE (chainE (get_proposal writer pid)) (\<lambda>proposal.
     print_lines [''chain:     '' @ chain_as_str c, ''tx:        0x'' @ hex_encode tx,
        ''approvals: '' @ show_nat (unat (op_approvals proposal))])))"

definition show_bool :: "bool \<Rightarrow> string" where
  "show_bool b = (if b then ''true'' else ''false'')"

definition timelock_line :: "u64 \<Rightarrow> u64 \<Rightarrow> string" where
  "timelock_line proposed_at now =
     (let unlock_at = proposed_at + TIMELOCK_SECS in
      if unlock_at \<le> now then ''timelock:    ELAPSED (executable)''
      else ''timelock:    '' @ show_nat (unat (unlock_at - now)) @ '' seconds remaining'')"

definition run_status ::
    "('w, 'p, 'k) cli_libs \<Rightarrow> cli \<Rightarrow> u64 \<Rightarrow> string \<Rightarrow> string \<Rightarrow> ('w, unit) cli_act" where
  "run_status L cli now_secs proposal_id chain_raw =
     on_chain L cli proposal_id chain_raw (\<lambda>pid c writer.
     tryE (chainE (get_proposal writer pid)) (\<lambda>proposal.
     if op_proposed_at proposal = 0
     then println (''proposal 0x'' @ hex_encode pid @ '' not found on-chain ('' @ chain_as_str c @ '')'')
     else print_lines [''chain:       '' @ chain_as_str c, ''session_id:  0x'' @ hex_encode (op_session_id proposal),
        ''recipient:   '' @ li_addr_display L (op_recipient proposal), ''amount:      '' @ show_nat (unat (op_amount proposal)),
        ''proposed_at: '' @ show_nat (unat (op_proposed_at proposal)), ''approvals:   '' @ show_nat (unat (op_approvals proposal)),
        ''executed:    '' @ show_bool (op_executed proposal), ''cancelled:   '' @ show_bool (op_cancelled proposal),
        timelock_line (op_proposed_at proposal) now_secs]))"

definition run_execute ::
    "('w, 'p, 'k) cli_libs \<Rightarrow> cli \<Rightarrow> (nat \<Rightarrow> string option) \<Rightarrow> datetime \<Rightarrow> string \<Rightarrow> string \<Rightarrow> string option
       \<Rightarrow> ('w, unit) cli_act" where
  "run_execute L cli fault now proposal_id chain_raw session_id =
     on_chain L cli proposal_id chain_raw (\<lambda>pid c writer.
     tryE (chainE (execute_mint writer pid)) (\<lambda>tx.
     tryE (print_lines [''chain: '' @ chain_as_str c, ''tx: 0x'' @ hex_encode tx]) (\<lambda>_.
     update_db_status L cli fault now session_id Confirmed)))"

definition run_cancel ::
    "('w, 'p, 'k) cli_libs \<Rightarrow> cli \<Rightarrow> (nat \<Rightarrow> string option) \<Rightarrow> datetime \<Rightarrow> string \<Rightarrow> string \<Rightarrow> string option
       \<Rightarrow> ('w, unit) cli_act" where
  "run_cancel L cli fault now proposal_id chain_raw session_id =
     on_chain L cli proposal_id chain_raw (\<lambda>pid c writer.
     tryE (chainE (cancel_mint writer pid)) (\<lambda>tx.
     tryE (print_lines [''chain: '' @ chain_as_str c, ''tx: 0x'' @ hex_encode tx]) (\<lambda>_.
     update_db_status L cli fault now session_id Rejected)))"

fun run_command ::
    "('w, 'p, 'k) cli_libs \<Rightarrow> cli \<Rightarrow> (nat \<Rightarrow> string option) \<Rightarrow> datetime \<Rightarrow> u64 \<Rightarrow> command \<Rightarrow> ('w, unit) cli_act" where
  "run_command L cli fault now now_secs ListPending = run_list L cli fault"
| "run_command L cli fault now now_secs (Propose session_id) = run_propose L cli fault now session_id"
| "run_command L cli fault now now_secs (Approve proposal_id chain_raw) = run_approve L cli proposal_id chain_raw"
| "run_command L cli fault now now_secs (Status proposal_id chain_raw) = run_status L cli now_secs proposal_id chain_raw"
| "run_command L cli fault now now_secs (Execute proposal_id chain_raw session_id) =
     run_execute L cli fault now proposal_id chain_raw session_id"
| "run_command L cli fault now now_secs (Cancel proposal_id chain_raw session_id) =
     run_cancel L cli fault now proposal_id chain_raw session_id"

section \<open>Runs\<close>

lemma fromE_Inr: "fromE r s = (Inr a, s') \<longleftrightarrow> r = Inr a \<and> s' = s"
  by (cases r) (auto simp: fromE_def okE_def errE_def)

lemma chainE_Inr: "chainE m s = (Inr a, s') \<longleftrightarrow> (\<exists>w. m (cx_ext s) = (Inr a, w) \<and> s' = s\<lparr>cx_ext := w\<rparr>)"
  by (auto simp: chainE_def map_sum_eq_iff split: prod.splits)

lemma dbE_Inr: "dbE m s = (Inr a, s') \<longleftrightarrow> (\<exists>d. m (cx_db s) = (Inr a, d) \<and> s' = s\<lparr>cx_db := d\<rparr>)"
  by (auto simp: dbE_def map_sum_eq_iff split: prod.splits)

lemma print_lines_run: "print_lines ls s = (Inr (), s\<lparr>cx_out := cx_out s @ ls\<rparr>)"
  by (induction ls arbitrary: s) (simp_all add: tryE_def println_def okE_def)

lemma pending_run:
  "get_pending_proposals f d = (r, d') \<Longrightarrow> d' = d"
  by (auto simp: get_pending_proposals_def pg_defs split: option.splits)

lemma keeps_db:
  "within (same cx_db) (fromE r)" "within (same cx_db) (chainE m)" "within (same cx_db) (println l)"
  "within (same cx_db) (print_lines ls)" "within (same cx_db) (dbE (get_pending_proposals f))"
proof -
  show "within (same cx_db) (fromE r)" by (cases r) (simp_all add: fromE_def same.basics)
  show "within (same cx_db) (chainE m)" "within (same cx_db) (println l)"
    by (simp_all add: within_def same_def chainE_def println_def split: prod.splits)
  show "within (same cx_db) (print_lines ls)" by (simp add: within_def same_def print_lines_run)
  show "within (same cx_db) (dbE (get_pending_proposals f))"
    using pending_run by (fastforce simp: within_def same_def dbE_def split: prod.splits)
qed

lemma on_chain_changed:
  assumes "cx_db (snd (on_chain L cli proposal_id chain_raw f s)) \<noteq> cx_db s"
  obtains pid c writer where "parse_proposal_id L proposal_id = Inr pid" "parse_chain chain_raw = Inr c"
    "build_writer_for_chain L cli c = Inr writer" "on_chain L cli proposal_id chain_raw f s = f pid c writer s"
  using assms
  by (auto simp: on_chain_def tryE_def fromE_def okE_def errE_def split: sum.splits)

lemma update_db_changed:
  assumes "cx_db (snd (update_db_status L cli fault now session_id status s)) \<noteq> cx_db s"
  obtains sid where "session_id = Some sid"
    "cx_db (snd (update_db_status L cli fault now session_id status s)) = snd (update_proposal_status None now (SessionId sid) status (cx_db s))"
  using assms
  by (cases "fault 1")
     (auto simp: update_db_status_def tryE_def fromE_def dbE_def println_def update_proposal_status_def pg_defs
       split: option.splits sum.splits)

lemma settled_changed:
  assumes run: "tryE (chainE m) (\<lambda>tx. tryE (print_lines (ls tx)) (\<lambda>_. update_db_status L cli fault now session_id status)) s = X"
    and "cx_db (snd X) \<noteq> cx_db s"
  obtains tx w sid where "m (cx_ext s) = (Inr tx, w)" "session_id = Some sid"
    "cx_db (snd X) = snd (update_proposal_status None now (SessionId sid) status (cx_db s))"
proof -
  obtain tx s1 where 1: "chainE m s = (Inr tx, s1)" "cx_db s1 = cx_db s"
    "tryE (print_lines (ls tx)) (\<lambda>_. update_db_status L cli fault now session_id status) s1 = X"
    by (rule tryE_runE [OF run assms(2) refl keeps_db(2)])
  let ?s2 = "s1\<lparr>cx_out := cx_out s1 @ ls tx\<rparr>"
  have eq: "update_db_status L cli fault now session_id status ?s2 = X"
    using 1(3) by (simp add: tryE_def print_lines_run)
  have "cx_db (snd (update_db_status L cli fault now session_id status ?s2)) \<noteq> cx_db ?s2"
    using assms(2) 1(2) unfolding eq by simp
  then obtain sid where "session_id = Some sid"
    "cx_db (snd (update_db_status L cli fault now session_id status ?s2))
       = snd (update_proposal_status None now (SessionId sid) status (cx_db ?s2))"
    by (rule update_db_changed)
  with that 1(1,2) eq show ?thesis by (auto simp: chainE_Inr)
qed

text \<open>What a command has done on its chain when it writes to the database.\<close>

definition proposed ::
    "('w, 'p, 'k) cli_libs \<Rightarrow> cli \<Rightarrow> db \<Rightarrow> string \<Rightarrow> 'w \<Rightarrow> bool" where
  "proposed L cli d sid w \<longleftrightarrow> (\<exists>row c recipient amount writer tx w'.
     row \<in> set (db_proposals d) \<and> mr_session_id row = sid \<and> mr_status row = ''Pending''
   \<and> from_str_id (mr_chain row) = Some c \<and> li_parse_address L (mr_wallet row) = Inr recipient
   \<and> unat amount = mr_gross_prm row \<and> build_writer_for_chain L cli c = Inr writer
   \<and> propose_mint writer (derive_proposal_id L sid) (derive_proposal_id L sid) recipient amount w = (Inr tx, w'))"

definition settled ::
    "('w, 'p, 'k) cli_libs \<Rightarrow> cli \<Rightarrow> (('w, 'p) mining_writer \<Rightarrow> bytes \<Rightarrow> ('w, bytes) chain_act) \<Rightarrow> string \<Rightarrow> string \<Rightarrow> 'w \<Rightarrow> bool" where
  "settled L cli tx_of proposal_id chain_raw w \<longleftrightarrow> (\<exists>pid c writer tx w'.
     parse_proposal_id L proposal_id = Inr pid \<and> from_str_id chain_raw = Some c
   \<and> build_writer_for_chain L cli c = Inr writer \<and> tx_of writer pid w = (Inr tx, w'))"

lemma parse_chain_Inr: "parse_chain raw = Inr c \<longleftrightarrow> from_str_id raw = Some c"
  by (auto simp: parse_chain_def split: option.splits)

lemma pending_row:
  assumes "get_pending_proposals f d = (Inr rows, d')" and "find (\<lambda>r. ppr_session_id r = sid) rows = Some row"
  shows "\<exists>r \<in> set (db_proposals d). mr_session_id r = sid \<and> mr_status r = ''Pending''
    \<and> ppr_chain row = mr_chain r \<and> ppr_wallet row = mr_wallet r \<and> ppr_gross_prm row = show_nat (mr_gross_prm r)"
proof -
  have "row \<in> set rows" "ppr_session_id row = sid" using assms(2) by (auto simp: find_Some_iff)
  then obtain r where "r \<in> set (db_proposals d)" "mr_status r = ''Pending''" "mr_session_id r = sid"
    "row = \<lparr>pp_id = mr_id r, ppr_session_id = mr_session_id r, ppr_wallet = mr_wallet r, ppr_gross_prm = show_nat (mr_gross_prm r),
       ppr_commodity = mr_commodity r, ppr_chain = mr_chain r, ppr_status = mr_status r, ppr_created_at = mr_created_at r\<rparr>"
    using assms(1) by (cases f) (auto simp: get_pending_proposals_def pg_defs)
  then show ?thesis by auto
qed

lemma propose_steps:
  assumes "cx_db (snd (run_propose L cli fault now sid s)) \<noteq> cx_db s"
  shows "\<exists>rows row c recipient amount writer tx w.
      get_pending_proposals (fault 0) (cx_db s) = (Inr rows, cx_db s) \<and> find (\<lambda>r. ppr_session_id r = sid) rows = Some row
    \<and> parse_chain (ppr_chain row) = Inr c \<and> li_parse_address L (ppr_wallet row) = Inr recipient
    \<and> parse_u128 (ppr_gross_prm row) = Some amount \<and> build_writer_for_chain L cli c = Inr writer
    \<and> propose_mint writer (derive_proposal_id L sid) (derive_proposal_id L sid) recipient amount (cx_ext s) = (Inr tx, w)
    \<and> cx_db (snd (run_propose L cli fault now sid s)) = snd (update_proposal_status (fault 1) now (SessionId sid) Submitted (cx_db s))"
proof -
  define X d where "X = run_propose L cli fault now sid s" and "d = cx_db s"
  then have X: "run_propose L cli fault now sid s = X" and d: "cx_db s = d" and changed: "cx_db (snd X) \<noteq> d"
    using assms by simp_all
  have upd: "cx_db (snd (tryE (dbE m) (\<lambda>_. print_lines ls) s1)) = snd (m (cx_db s1))" for m :: "unit pg_act" and ls and s1 :: "'a cli_state"
    by (simp add: tryE_def dbE_def print_lines_run split: prod.splits sum.splits)
  show ?thesis unfolding X using X [unfolded run_propose_def Let_def] changed d
    apply -
    apply (erule tryE_runE, assumption, assumption, rule keeps_db)+
    apply (simp only: fromE_Inr chainE_Inr dbE_Inr)
    apply (elim exE conjE)
    apply hypsubst
    apply (auto simp: upd simp del: print_lines.simps split: option.splits sum.splits)
    done
qed

lemma propose_changed:
  assumes "cx_db (snd (run_propose L cli fault now sid s)) \<noteq> cx_db s"
  shows "proposed L cli (cx_db s) sid (cx_ext s)
    \<and> cx_db (snd (run_propose L cli fault now sid s)) = snd (update_proposal_status None now (SessionId sid) Submitted (cx_db s))"
proof -
  obtain rows row c recipient amount writer tx w where
    st: "get_pending_proposals (fault 0) (cx_db s) = (Inr rows, cx_db s)" "find (\<lambda>r. ppr_session_id r = sid) rows = Some row"
      "parse_chain (ppr_chain row) = Inr c" "li_parse_address L (ppr_wallet row) = Inr recipient"
      "parse_u128 (ppr_gross_prm row) = Some amount" "build_writer_for_chain L cli c = Inr writer"
      "propose_mint writer (derive_proposal_id L sid) (derive_proposal_id L sid) recipient amount (cx_ext s) = (Inr tx, w)"
    and db: "cx_db (snd (run_propose L cli fault now sid s)) = snd (update_proposal_status (fault 1) now (SessionId sid) Submitted (cx_db s))"
    using propose_steps [OF assms] by blast
  obtain r where r: "r \<in> set (db_proposals (cx_db s))" "mr_session_id r = sid" "mr_status r = ''Pending''"
      "ppr_chain row = mr_chain r" "ppr_wallet row = mr_wallet r" "ppr_gross_prm row = show_nat (mr_gross_prm r)"
    using pending_row [OF st(1,2)] by blast
  have "unat amount = mr_gross_prm r"
    using st(5) by (auto simp: r(6) parse_unsigned_show_nat unsigned_of_nat take_bit_nat_eq_self split: if_splits)
  moreover have f1: "fault 1 = None" using assms db by (cases "fault 1") (simp_all add: update_proposal_status_def pg_defs)
  ultimately have "proposed L cli (cx_db s) sid (cx_ext s)"
    unfolding proposed_def using st r by (intro exI [of _ r] exI [of _ c] exI [of _ recipient] exI [of _ amount]
        exI [of _ writer] exI [of _ tx] exI [of _ w]) (simp add: parse_chain_Inr)
  with db f1 show ?thesis by simp
qed

lemma on_chain_settles:
  assumes run: "on_chain L cli proposal_id chain_raw (\<lambda>pid c writer. tryE (chainE (tx_of writer pid))
      (\<lambda>tx. tryE (print_lines (ls c tx)) (\<lambda>_. update_db_status L cli fault now session_id status))) s = X"
    and changed: "cx_db (snd X) \<noteq> cx_db s"
  shows "settled L cli tx_of proposal_id chain_raw (cx_ext s) \<and> (\<exists>sid. session_id = Some sid
    \<and> cx_db (snd X) = snd (update_proposal_status None now (SessionId sid) status (cx_db s)))"
proof -
  obtain pid c writer where o: "parse_proposal_id L proposal_id = Inr pid" "parse_chain chain_raw = Inr c"
    "build_writer_for_chain L cli c = Inr writer"
    "tryE (chainE (tx_of writer pid)) (\<lambda>tx. tryE (print_lines (ls c tx)) (\<lambda>_. update_db_status L cli fault now session_id status)) s = X"
    using changed unfolding run [symmetric] by (rule on_chain_changed) (use run in simp)
  obtain tx w sid where "tx_of writer pid (cx_ext s) = (Inr tx, w)" "session_id = Some sid"
    "cx_db (snd X) = snd (update_proposal_status None now (SessionId sid) status (cx_db s))"
    by (rule settled_changed [OF o(4) changed])
  then show ?thesis using o(1-3) by (auto simp: settled_def parse_chain_Inr)
qed

lemmas execute_changed = on_chain_settles [OF run_execute_def [THEN fun_cong, symmetric]]

lemmas cancel_changed = on_chain_settles [OF run_cancel_def [THEN fun_cong, symmetric]]

text \<open>The commands that only look leave the database alone.\<close>

lemma looking_keeps_db:
  "within (same cx_db) (run_list L cli fault)" "within (same cx_db) (run_approve L cli p c)"
  "within (same cx_db) (run_status L cli t p c)"
  unfolding run_list_def run_approve_def run_status_def on_chain_def
  by (intro same.basics keeps_db)+

text \<open>
  C20: The command line writes a status only after the chain has agreed. If a command changes the database
  at all, it is a propose, execute or cancel whose transaction was mined with success in the same run,
  on the contract of the right chain; the only change is the status of the session's row, to Submitted,
  Confirmed or Rejected respectively; and what a propose sent is the identifier derived from the
  session, and the wallet and the exact amount of a pending row of that session.
\<close>

theorem status_follows_chain:
  assumes "cx_db (snd (run_command L cli fault now now_secs cmd s)) \<noteq> cx_db s"
  shows "\<exists>sid status. cx_db (snd (run_command L cli fault now now_secs cmd s))
        = snd (update_proposal_status None now (SessionId sid) status (cx_db s))
     \<and> (cmd = Propose sid \<and> status = Submitted \<and> proposed L cli (cx_db s) sid (cx_ext s)
      \<or> (\<exists>p c. cmd = Execute p c (Some sid) \<and> status = Confirmed \<and> settled L cli execute_mint p c (cx_ext s))
      \<or> (\<exists>p c. cmd = Cancel p c (Some sid) \<and> status = Rejected \<and> settled L cli cancel_mint p c (cx_ext s)))"
proof (cases cmd)
  case (Propose sid)
  then show ?thesis using assms propose_changed [of L cli fault now sid s] by auto
next
  case (Execute p c sid)
  then show ?thesis using assms execute_changed [of L cli fault now p c sid s] by auto
next
  case (Cancel p c sid)
  then show ?thesis using assms cancel_changed [of L cli fault now p c sid s] by auto
next
  case ListPending
  then show ?thesis using assms within_sameD [OF looking_keeps_db(1) prod.collapse [symmetric]] by (metis run_command.simps(1))
next
  case (Approve p c)
  then show ?thesis using assms within_sameD [OF looking_keeps_db(2) prod.collapse [symmetric]] by (metis run_command.simps(3))
next
  case (Status p c)
  then show ?thesis using assms within_sameD [OF looking_keeps_db(3) prod.collapse [symmetric]] by (metis run_command.simps(4))
qed

lemma find_session:
  assumes "r \<in> set rs" and "distinct (map mr_session_id rs)" and "f r = row"
    and "\<And>x. ppr_session_id (f x) = mr_session_id x"
  shows "find (\<lambda>q. ppr_session_id q = mr_session_id r) (map f rs) = Some row"
  using assms by (induction rs) (auto simp: rev_image_eqI)

text \<open>
  C19: What the service records is what the chain is asked to mint. A proposal stored for a session is sent,
  when it is proposed, to the contract of the proposal's own chain, for exactly the wallet and the
  amount that were stored; on success its row is marked Submitted, on failure the database stays.
\<close>

theorem recorded_proposal_is_sent:
  assumes "insert_mint_proposal PL None i t p d = (Inr (), d')" and "one_per_session d" and "mp_status p = Pending"
    and "li_parse_address L (pl_addr_debug PL (mp_wallet p)) = Inr (mp_wallet p)"
    and "build_store L cli = Inr ()" and "build_writer_for_chain L cli (mp_chain p) = Inr writer"
    and "fault 0 = None" and "fault 1 = None" and "cx_db s = d'"
    and "pid = derive_proposal_id L (sid_str (mp_session_id p))"
  shows "case propose_mint writer pid pid (mp_wallet p) (mp_gross_prm p) (cx_ext s) of
      (Inl e, w) \<Rightarrow> run_command L cli fault now now_secs (Propose (sid_str (mp_session_id p))) s
                      = (Inl (oc_error_display e), s\<lparr>cx_ext := w\<rparr>)
    | (Inr tx, w) \<Rightarrow> \<exists>s'. run_command L cli fault now now_secs (Propose (sid_str (mp_session_id p))) s = (Inr (), s')
                      \<and> cx_ext s' = w
                      \<and> cx_db s' = snd (update_proposal_status None now (mp_session_id p) Submitted d')"
proof -
  define r where "r = \<lparr>mr_id = i, mr_session_id = sid_str (mp_session_id p), mr_wallet = pl_addr_debug PL (mp_wallet p),
     mr_gross_prm = unat (mp_gross_prm p), mr_net_usd_cents = mp_net_usd_cents p, mr_commodity = commodity_debug (mp_commodity p),
     mr_chain = chain_as_str (mp_chain p), mr_attestation_json = projr (pl_attestation_json PL (mp_attestation p)),
     mr_backend_sig = pl_sig_display PL (mp_backend_sig p), mr_status = ''Pending'', mr_created_at = mp_created_at p,
     mr_updated_at = t\<rparr>"
  define row where "row = \<lparr>pp_id = mr_id r, ppr_session_id = mr_session_id r, ppr_wallet = mr_wallet r,
     ppr_gross_prm = show_nat (mr_gross_prm r), ppr_commodity = mr_commodity r, ppr_chain = mr_chain r,
     ppr_status = mr_status r, ppr_created_at = mr_created_at r\<rparr>"
  have d': "db_proposals d' = db_proposals d @ [r]" "one_per_session d'"
    using assms(1-3) by (auto simp: insert_mint_proposal_def pg_defs r_def one_per_session_def split: sum.splits if_splits)
  obtain rows where rows: "get_pending_proposals (fault 0) d' = (Inr rows, d')"
    "find (\<lambda>q. ppr_session_id q = sid_str (mp_session_id p)) rows = Some row"
  proof
    let ?rs = "sort_key mr_created_at (filter (\<lambda>r. mr_status r = ''Pending'') (db_proposals d'))"
    let ?f = "\<lambda>r. \<lparr>pp_id = mr_id r, ppr_session_id = mr_session_id r, ppr_wallet = mr_wallet r,
      ppr_gross_prm = show_nat (mr_gross_prm r), ppr_commodity = mr_commodity r, ppr_chain = mr_chain r,
      ppr_status = mr_status r, ppr_created_at = mr_created_at r\<rparr>"
    show "get_pending_proposals (fault 0) d' = (Inr (map ?f ?rs), d')"
      using assms(7) by (simp add: get_pending_proposals_def pg_defs)
    have "distinct (map mr_session_id ?rs)" using d'(2) by (auto simp: one_per_session_def distinct_map inj_on_def)
    moreover have "r \<in> set ?rs" by (simp add: d' r_def)
    ultimately have "find (\<lambda>q. ppr_session_id q = mr_session_id r) (map ?f ?rs) = Some row"
      using find_session [of r ?rs ?f row] by (simp add: row_def)
    then show "find (\<lambda>q. ppr_session_id q = sid_str (mp_session_id p)) (map ?f ?rs) = Some row" by (simp add: r_def)
  qed
  have fields: "parse_chain (ppr_chain row) = Inr (mp_chain p)" "li_parse_address L (ppr_wallet row) = Inr (mp_wallet p)"
    "parse_u128 (ppr_gross_prm row) = Some (mp_gross_prm p)"
    using assms(4) by (cases "mp_chain p"; simp_all add: row_def r_def parse_chain_def from_str_id_def parse_unsigned_word)+
  have same_db: "s\<lparr>cx_db := d'\<rparr> = s" using assms(9) by (cases s) simp
  show ?thesis
    using assms(5-8) rows fields
    by (auto simp: run_propose_def tryE_def fromE_def dbE_def chainE_def okE_def errE_def Let_def assms(9,10) same_db print_lines_run
        update_proposal_status_def pg_defs simp del: print_lines.simps split: prod.splits sum.splits)
qed

section \<open>Instances\<close>

definition demo_alloy :: "(unit, unit, unit) alloy" where
  "demo_alloy = idle_alloy\<lparr>ay_proposeMint := (\<lambda>u k a p s r v w. (Inr (), w)), ay_executeMint := (\<lambda>u k a p w. (Inr (), w)),
     ay_get_receipt := (\<lambda>u p w. (Inr \<lparr>rc_status = True, rc_transaction_hash = [171]\<rparr>, w))\<rparr>"

definition demo_writer :: "(unit, unit) mining_writer" where
  "demo_writer = projr (new_mining_writer demo_alloy ''rpc'' () 7)"

lemmas demo_writer_defs = demo_writer_def new_mining_writer_def with_url_def demo_alloy_def idle_alloy_def

definition demo_cli_libs :: "(unit, unit, unit) cli_libs" where
  "demo_cli_libs = \<lparr>li_hex_decode = (\<lambda>s. Inr (replicate 32 0)), li_keccak256 = (\<lambda>b. take 32 (b @ replicate 32 0)),
     li_parse_address = (\<lambda>s. if s = ''0x7'' then Inr 7 else Inl ''bad address''), li_addr_display = (\<lambda>a. ''0x7''),
     li_parse_key = (\<lambda>s. Inr ()), li_alloy = demo_alloy, li_store_new = (\<lambda>u. None)\<rparr>"

definition demo_cli :: cli where
  "demo_cli = \<lparr>cl_database_url = Some ''db'', cl_ethereum_rpc_url = Some ''rpc'', cl_ethereum_mining_address = Some ''0x7'',
     cl_ethereum_admin_key = Some ''key'', cl_polygon_rpc_url = None, cl_polygon_mining_address = None,
     cl_polygon_admin_key = None\<rparr>"

definition demo_mint :: mint_proposal where
  "demo_mint = sample_mint\<lparr>mp_wallet := 7, mp_chain := Ethereum, mp_status := Pending\<rparr>"

definition demo_pg_libs :: pg_libs where
  "demo_pg_libs = \<lparr>pl_addr_debug = (\<lambda>a. ''0x7''), pl_triggers_json = (\<lambda>t. Inr ''[]''),
      pl_attestation_json = (\<lambda>a. Inr ''{}''), pl_sig_display = (\<lambda>s. ''sig'')\<rparr>"

definition demo_db :: db where
  "demo_db = snd (insert_mint_proposal demo_pg_libs None ''id'' 1 demo_mint \<lparr>db_anomalies = [], db_proposals = []\<rparr>)"

definition demo_cli_state :: "unit cli_state" where
  "demo_cli_state = \<lparr>cx_db = demo_db, cx_ext = (), cx_out = []\<rparr>"

lemma demo_inserted:
  "insert_mint_proposal demo_pg_libs None ''id'' 1 demo_mint \<lparr>db_anomalies = [], db_proposals = []\<rparr> = (Inr (), demo_db)"
  by (simp add: demo_db_def insert_mint_proposal_def demo_pg_libs_def pg_defs)

lemma demo_cli_ready:
  "build_store demo_cli_libs demo_cli = Inr ()" "build_writer_for_chain demo_cli_libs demo_cli Ethereum = Inr demo_writer"
  by (simp_all add: build_store_def require_opt_def demo_cli_def demo_cli_libs_def build_writer_for_chain_def chain_settings_def
      demo_writer_defs)

lemma demo_propose_ok: "propose_mint demo_writer i j a v () = (Inr [171], ())"
  by (simp add: propose_mint_def confirmed_tx_def demo_writer_defs tryE_def callE_def map_errE_def okE_def)

theorem recorded_proposal_is_sent_witness:
  "\<exists>s'. run_command demo_cli_libs demo_cli (\<lambda>_. None) 5 0 (Propose (sid_str (mp_session_id demo_mint))) demo_cli_state = (Inr (), s')
     \<and> cx_db s' = snd (update_proposal_status None 5 (mp_session_id demo_mint) Submitted demo_db)"
  using recorded_proposal_is_sent [OF demo_inserted, where L = demo_cli_libs and cli = demo_cli and writer = demo_writer
      and fault = "\<lambda>_. None" and s = demo_cli_state and now = 5 and now_secs = 0
      and pid = "derive_proposal_id demo_cli_libs (sid_str (mp_session_id demo_mint))"]
  by (simp add: one_per_session_def demo_mint_def demo_cli_ready demo_pg_libs_def demo_cli_libs_def [THEN arg_cong, of li_parse_address]
      demo_cli_state_def demo_propose_ok)

lemma demo_execute_ok: "execute_mint demo_writer i () = (Inr [171], ())"
  by (simp add: execute_mint_def confirmed_tx_def demo_writer_defs tryE_def callE_def map_errE_def okE_def)

lemma demo_execute_run:
  "cx_db (snd (run_command demo_cli_libs demo_cli (\<lambda>_. None) 5 0 (Execute ''00'' ''ethereum'' (Some ''t'')) demo_cli_state))
     \<noteq> cx_db demo_cli_state"
proof -
  have "parse_proposal_id demo_cli_libs ''00'' = Inr (replicate 32 0)" "parse_chain ''ethereum'' = Inr Ethereum"
    by (simp_all add: parse_proposal_id_def demo_cli_libs_def parse_chain_def from_str_id_def)
  then show ?thesis
    by (simp add: run_execute_def on_chain_def fromE_def demo_cli_ready tryE_def okE_def chainE_def demo_execute_ok
        print_lines_run update_db_status_def dbE_def update_proposal_status_def pg_defs println_def demo_cli_state_def
        del: print_lines.simps)
       (simp add: demo_db_def insert_mint_proposal_def demo_pg_libs_def pg_defs demo_mint_def sample_mint_def)
qed

theorem status_follows_chain_witness:
  "settled demo_cli_libs demo_cli execute_mint ''00'' ''ethereum'' ()
   \<and> cx_db (snd (run_command demo_cli_libs demo_cli (\<lambda>_. None) 5 0 (Execute ''00'' ''ethereum'' (Some ''t'')) demo_cli_state))
       = snd (update_proposal_status None 5 (SessionId ''t'') Confirmed demo_db)"
  using status_follows_chain [OF demo_execute_run] by (auto simp: demo_cli_state_def)

end
