(* ===== verification/Cli_Steps.thy ===== *)
theory Cli_Steps
  imports Interleaving Admin_Cli
begin

text \<open>
  The commands of \<open>crates/admin-cli/src/main.rs\<close> at the grain at which they meet the running service and
  each other: an SQL statement, a contract call with its receipt, or a line of output is one step.
  Run alone, each program is the command of \<open>Admin_Cli\<close>.
\<close>

definition fromP :: "string + 'a \<Rightarrow> ('w cli_state, string, 'a) prog" where
  "fromP r = (case r of Inl e \<Rightarrow> errP e | Inr a \<Rightarrow> okP a)"

fun print_lines_steps :: "string list \<Rightarrow> ('w cli_state, string, unit) prog" where
  "print_lines_steps [] = okP ()"
| "print_lines_steps (l # ls) = tryP (atomicP (println l)) (\<lambda>_. print_lines_steps ls)"

definition update_db_status_steps ::
    "('w, 'p, 'k) cli_libs \<Rightarrow> cli \<Rightarrow> (nat \<Rightarrow> string option) \<Rightarrow> datetime \<Rightarrow> string option \<Rightarrow> proposal_status
       \<Rightarrow> ('w cli_state, string, unit) prog" where
  "update_db_status_steps L cli fault now session_id status =
     (case session_id of
        Some sid \<Rightarrow>
          tryP (fromP (build_store L cli)) (\<lambda>_.
          tryP (atomicP (dbE (update_proposal_status (fault 1) now (SessionId sid) status))) (\<lambda>_.
          atomicP (println (''postgres: session '' @ sid @ '' marked '' @ status_debug status))))
      | None \<Rightarrow> atomicP (println (''postgres: not updated (pass --session-id to mark the row '' @ status_debug status @ '')'')))"

definition run_list_steps ::
    "('w, 'p, 'k) cli_libs \<Rightarrow> cli \<Rightarrow> (nat \<Rightarrow> string option) \<Rightarrow> ('w cli_state, string, unit) prog" where
  "run_list_steps L cli fault =
     tryP (fromP (build_store L cli)) (\<lambda>_.
     tryP (atomicP (dbE (get_pending_proposals (fault 0)))) (\<lambda>rows.
     tryP (atomicP (println (table_line ''session_id'' ''wallet'' ''gross_prm'' ''commodity'' ''chain'' ''status'' ''proposal_id''))) (\<lambda>_.
     tryP (print_lines_steps (map (\<lambda>row. table_line (ppr_session_id row) (ppr_wallet row) (ppr_gross_prm row)
        (ppr_commodity row) (ppr_chain row) (ppr_status row)
        (''0x'' @ hex_encode (derive_proposal_id L (ppr_session_id row)))) rows)) (\<lambda>_.
     atomicP (println (''('' @ show_nat (length rows) @ '' pending)''))))))"

definition run_propose_steps ::
    "('w, 'p, 'k) cli_libs \<Rightarrow> cli \<Rightarrow> (nat \<Rightarrow> string option) \<Rightarrow> datetime \<Rightarrow> string \<Rightarrow> ('w cli_state, string, unit) prog" where
  "run_propose_steps L cli fault now session_id =
     tryP (fromP (build_store L cli)) (\<lambda>_.
     tryP (atomicP (dbE (get_pending_proposals (fault 0)))) (\<lambda>rows.
     tryP (fromP (case find (\<lambda>r. ppr_session_id r = session_id) rows of
             Some r \<Rightarrow> Inr r | None \<Rightarrow> Inl (''no pending proposal for session '' @ session_id))) (\<lambda>row.
     tryP (fromP (parse_chain (ppr_chain row))) (\<lambda>c.
     tryP (fromP (case li_parse_address L (ppr_wallet row) of
             Inr a \<Rightarrow> Inr a | Inl e \<Rightarrow> Inl (''bad wallet in db: '' @ e))) (\<lambda>recipient.
     tryP (fromP (case parse_u128 (ppr_gross_prm row) of
             Some v \<Rightarrow> Inr v | None \<Rightarrow> Inl (''bad gross_prm in db: '' @ ppr_gross_prm row))) (\<lambda>amount.
     let proposal_id = derive_proposal_id L session_id in
     tryP (fromP (build_writer_for_chain L cli c)) (\<lambda>writer.
     tryP (atomicP (chainE (propose_mint writer proposal_id proposal_id recipient amount))) (\<lambda>tx.
     tryP (atomicP (dbE (update_proposal_status (fault 1) now (SessionId session_id) Submitted))) (\<lambda>_.
     print_lines_steps [''proposalId: 0x'' @ hex_encode proposal_id, ''chain:      '' @ chain_as_str c,
        ''recipient:  '' @ li_addr_display L recipient, ''amount:     '' @ show_nat (unat amount),
        ''tx:         0x'' @ hex_encode tx])))))))))"

definition on_chain_steps ::
    "('w, 'p, 'k) cli_libs \<Rightarrow> cli \<Rightarrow> string \<Rightarrow> string
       \<Rightarrow> (bytes \<Rightarrow> chain \<Rightarrow> ('w, 'p) mining_writer \<Rightarrow> ('w cli_state, string, unit) prog) \<Rightarrow> ('w cli_state, string, unit) prog" where
  "on_chain_steps L cli proposal_id chain_raw f =
     tryP (fromP (parse_proposal_id L proposal_id)) (\<lambda>pid.
     tryP (fromP (parse_chain chain_raw)) (\<lambda>c.
     tryP (fromP (build_writer_for_chain L cli c)) (\<lambda>writer. f pid c writer)))"

definition run_approve_steps ::
    "('w, 'p, 'k) cli_libs \<Rightarrow> cli \<Rightarrow> string \<Rightarrow> string \<Rightarrow> ('w cli_state, string, unit) prog" where
  "run_approve_steps L cli proposal_id chain_raw =
     on_chain_steps L cli proposal_id chain_raw (\<lambda>pid c writer.
     tryP (atomicP (chainE (approve_mint writer pid))) (\<lambda>tx.
     tryP (atomicP (chainE (get_proposal writer pid))) (\<lambda>proposal.
     print_lines_steps [''chain:     '' @ chain_as_str c, ''tx:        0x'' @ hex_encode tx,
        ''approvals: '' @ show_nat (unat (op_approvals proposal))])))"

definition run_status_steps ::
    "('w, 'p, 'k) cli_libs \<Rightarrow> cli \<Rightarrow> u64 \<Rightarrow> string \<Rightarrow> string \<Rightarrow> ('w cli_state, string, unit) prog" where
  "run_status_steps L cli now_secs proposal_id chain_raw =
     on_chain_steps L cli proposal_id chain_raw (\<lambda>pid c writer.
     tryP (atomicP (chainE (get_proposal writer pid))) (\<lambda>proposal.
     if op_proposed_at proposal = 0
     then atomicP (println (''proposal 0x'' @ hex_encode pid @ '' not found on-chain ('' @ chain_as_str c @ '')''))
     else print_lines_steps [''chain:       '' @ chain_as_str c, ''session_id:  0x'' @ hex_encode (op_session_id proposal),
        ''recipient:   '' @ li_addr_display L (op_recipient proposal), ''amount:      '' @ show_nat (unat (op_amount proposal)),
        ''proposed_at: '' @ show_nat (unat (op_proposed_at proposal)), ''approvals:   '' @ show_nat (unat (op_approvals proposal)),
        ''executed:    '' @ show_bool (op_executed proposal), ''cancelled:   '' @ show_bool (op_cancelled proposal),
        timelock_line (op_proposed_at proposal) now_secs]))"

definition run_execute_steps ::
    "('w, 'p, 'k) cli_libs \<Rightarrow> cli \<Rightarrow> (nat \<Rightarrow> string option) \<Rightarrow> datetime \<Rightarrow> string \<Rightarrow> string \<Rightarrow> string option
       \<Rightarrow> ('w cli_state, string, unit) prog" where
  "run_execute_steps L cli fault now proposal_id chain_raw session_id =
     on_chain_steps L cli proposal_id chain_raw (\<lambda>pid c writer.
     tryP (atomicP (chainE (execute_mint writer pid))) (\<lambda>tx.
     tryP (print_lines_steps [''chain: '' @ chain_as_str c, ''tx: 0x'' @ hex_encode tx]) (\<lambda>_.
     update_db_status_steps L cli fault now session_id Confirmed)))"

definition run_cancel_steps ::
    "('w, 'p, 'k) cli_libs \<Rightarrow> cli \<Rightarrow> (nat \<Rightarrow> string option) \<Rightarrow> datetime \<Rightarrow> string \<Rightarrow> string \<Rightarrow> string option
       \<Rightarrow> ('w cli_state, string, unit) prog" where
  "run_cancel_steps L cli fault now proposal_id chain_raw session_id =
     on_chain_steps L cli proposal_id chain_raw (\<lambda>pid c writer.
     tryP (atomicP (chainE (cancel_mint writer pid))) (\<lambda>tx.
     tryP (print_lines_steps [''chain: '' @ chain_as_str c, ''tx: 0x'' @ hex_encode tx]) (\<lambda>_.
     update_db_status_steps L cli fault now session_id Rejected)))"

fun run_command_steps ::
    "('w, 'p, 'k) cli_libs \<Rightarrow> cli \<Rightarrow> (nat \<Rightarrow> string option) \<Rightarrow> datetime \<Rightarrow> u64 \<Rightarrow> command \<Rightarrow> ('w cli_state, string, unit) prog" where
  "run_command_steps L cli fault now now_secs ListPending = run_list_steps L cli fault"
| "run_command_steps L cli fault now now_secs (Propose session_id) = run_propose_steps L cli fault now session_id"
| "run_command_steps L cli fault now now_secs (Approve proposal_id chain_raw) = run_approve_steps L cli proposal_id chain_raw"
| "run_command_steps L cli fault now now_secs (Status proposal_id chain_raw) = run_status_steps L cli now_secs proposal_id chain_raw"
| "run_command_steps L cli fault now now_secs (Execute proposal_id chain_raw session_id) =
     run_execute_steps L cli fault now proposal_id chain_raw session_id"
| "run_command_steps L cli fault now now_secs (Cancel proposal_id chain_raw session_id) =
     run_cancel_steps L cli fault now proposal_id chain_raw session_id"

section \<open>Run alone\<close>

lemma runP_fromP [runP_simps]: "runP (fromP r) = fromE r"
  by (simp add: fromP_def fromE_def runP_simps split: sum.split)

lemma runP_print_lines [runP_simps]: "runP (print_lines_steps ls) = print_lines ls"
  by (induction ls) (simp_all add: runP_simps del: runP.simps)

lemma runP_update_db_status [runP_simps]:
  "runP (update_db_status_steps L cli fault now sid status) = update_db_status L cli fault now sid status"
  by (simp add: update_db_status_steps_def update_db_status_def runP_simps del: runP.simps cong: option.case_cong)

lemma runP_on_chain [runP_simps]:
  "runP (on_chain_steps L cli p c f) = on_chain L cli p c (\<lambda>pid c writer. runP (f pid c writer))"
  by (simp add: on_chain_steps_def on_chain_def runP_simps del: runP.simps)

text \<open>The commands written step by step are the commands.\<close>

lemma runP_command: "runP (run_command_steps L cli fault now now_secs cmd) = run_command L cli fault now now_secs cmd"
  by (cases cmd)
     (simp_all add: run_list_steps_def run_list_def run_propose_steps_def run_propose_def run_approve_steps_def run_approve_def
       run_status_steps_def run_status_def run_execute_steps_def run_execute_def run_cancel_steps_def run_cancel_def
       runP_simps Let_def del: runP.simps print_lines_steps.simps print_lines.simps cong: if_cong)

end
