(* ===== verification/Evm.thy ===== *)
theory Evm
  imports Common
begin

text \<open>
  What the contracts of \<open>contracts/src\<close> share: the context of a call, reverts, the checked arithmetic of
  Solidity 0.8, and the token library they are built on. A transaction that reverts leaves the storage as it
  was. A mapping of Solidity is a total function whose untouched keys hold the zero value, which is exactly
  what the compiled code reads; a \<open>bytes32\<close> is a list of bytes, as in \<open>Common\<close>.

  The OpenZeppelin sources are a submodule. What the contracts use of them are parameters: \<open>owner_addr\<close> of
  the call context is the answer of \<open>owner()\<close>, so that ownership may move in any way between two
  transactions, \<open>initializer\<close> functions run once and build the first storage, and the ERC-20 functions are
  the fields of a \<open>erc20\<close> record over a ledger of any type. The documented behaviour of the ERC-20 functions
  is the locale \<open>token_ledger\<close>; tokens do not call back into their callers.
\<close>

section \<open>Calls and reverts\<close>

record call_ctx =
  msg_sender :: address
  this_addr :: address
  owner_addr :: address
  block_timestamp :: u256
  block_number :: u256

text \<open>The errors of all seven contracts: two errors of the same signature have the same selector.\<close>

datatype evm_error =
    OwnableUnauthorizedAccount address
  | Panic nat
  | TokenRevert string
  | ZeroAddress
  | ZeroAmount
  | ZeroPrice
  | NotMinter
  | NotBurner
  | NotSigner
  | AlreadySigner
  | SignerLimitReached
  | SessionAlreadyMinted
  | ProposalNotFound
  | AlreadyApproved
  | AlreadyExecuted
  | AlreadyCancelled
  | InsufficientApprovals u8 u8
  | TimelockNotExpired u256 u256
  | CeilingExceeded u256 u256
  | NotAuthorizedSubmitter
  | PriceDiverged u256 u256 u256
  | PriceStale u256 u256
  | PriceNotInitialized
  | EdgeOutOfRange u256 u256 u256
  | ProposalAlreadyExecuted
  | ProposalAlreadyCancelled
  | BelowMinimumStake u256 u256
  | AlreadyStaking
  | NotStaking
  | StillLocked u256 u256
  | NotAuthorizedRedeemer
  | InsufficientReserve u256 u256
  | UnsupportedToken
  | InsufficientStake
  | NodeAlreadyRegistered
  | NodeNotFound
  | NodeNotActive
  | AlreadyConfirmed
  | VetoWindowExpired
  | InsufficientConfirmations
  | VetoWindowActive
  | NotOperator
  | AlreadyVetoed
  | TransferFailed

type_synonym ('s, 'a) evm = "('s, evm_error, 'a) act"

definition getE :: "('s \<Rightarrow> 'a) \<Rightarrow> ('s, 'a) evm" where
  "getE f = (\<lambda>s. (Inr (f s), s))"

definition putE :: "('s \<Rightarrow> 's) \<Rightarrow> ('s, unit) evm" where
  "putE f = (\<lambda>s. (Inr (), f s))"

definition revert_if :: "bool \<Rightarrow> evm_error \<Rightarrow> ('s, unit) evm" where
  "revert_if b e = (if b then errE e else okE ())"

definition only_owner :: "call_ctx \<Rightarrow> ('s, unit) evm" where
  "only_owner c = revert_if (msg_sender c \<noteq> owner_addr c) (OwnableUnauthorizedAccount (msg_sender c))"

text \<open>A call into another contract: its storage is a part of the state.\<close>

definition on_part :: "('s \<Rightarrow> 't) \<Rightarrow> ('t \<Rightarrow> 's \<Rightarrow> 's) \<Rightarrow> ('t, 'a) evm \<Rightarrow> ('s, 'a) evm" where
  "on_part get put m = (\<lambda>s. case m (get s) of (r, t) \<Rightarrow> (r, put t s))"

definition transact :: "('s, 'a) evm \<Rightarrow> 's \<Rightarrow> (evm_error + 'a) \<times> 's" where
  "transact m s = (case m s of (Inl e, _) \<Rightarrow> (Inl e, s) | (Inr a, s') \<Rightarrow> (Inr a, s'))"

section \<open>Checked arithmetic\<close>

definition checked :: "bool \<Rightarrow> 'a \<Rightarrow> ('s, 'a) evm" where
  "checked ok v = (if ok then okE v else errE (Panic 0x11))"

definition addE :: "'a::len word \<Rightarrow> 'a word \<Rightarrow> ('s, 'a word) evm" where
  "addE a b = checked (unat a + unat b < 2 ^ LENGTH('a)) (a + b)"

definition subE :: "'a::len word \<Rightarrow> 'a word \<Rightarrow> ('s, 'a word) evm" where
  "subE a b = checked (b \<le> a) (a - b)"

definition mulE :: "'a::len word \<Rightarrow> 'a word \<Rightarrow> ('s, 'a word) evm" where
  "mulE a b = checked (unat a * unat b < 2 ^ LENGTH('a)) (a * b)"

definition divE :: "'a::len word \<Rightarrow> 'a word \<Rightarrow> ('s, 'a word) evm" where
  "divE a b = (if b = 0 then errE (Panic 0x12) else okE (a div b))"

section \<open>Successful calls\<close>

text \<open>The inversion rules: what a call that did not revert has done. They take a handler apart from its
  guards to its last write.\<close>

named_theorems evmE \<open>inversion of successful calls\<close>

lemma tryE_evm [evmE]:
  "tryE m f s = (Inr b, t) \<longleftrightarrow> (\<exists>a u. m s = (Inr a, u) \<and> f a u = (Inr b, t))"
  by (auto simp: tryE_def split: prod.splits sum.splits)

lemma basic_evm [evmE]:
  "okE x s = (Inr a, t) \<longleftrightarrow> x = a \<and> t = s"
  "\<not> errE e s = (Inr a, t)"
  "getE f s = (Inr y, t) \<longleftrightarrow> y = f s \<and> t = s"
  "putE g s = (Inr u, t) \<longleftrightarrow> t = g s"
  "revert_if b e s = (Inr v, t) \<longleftrightarrow> \<not> b \<and> t = s"
  "only_owner c s = (Inr w, t) \<longleftrightarrow> msg_sender c = owner_addr c \<and> t = s"
  by (auto simp: okE_def errE_def getE_def putE_def revert_if_def only_owner_def)

lemma on_part_evm [evmE]:
  "on_part get put m s = (Inr a, t) \<longleftrightarrow> (\<exists>u. m (get s) = (Inr a, u) \<and> t = put u s)"
  by (auto simp: on_part_def split: prod.splits)

lemma if_evm [evmE]:
  "(if b then m else m') s = (Inr a, t) \<longleftrightarrow> (if b then m s = (Inr a, t) else m' s = (Inr a, t))"
  by simp

lemma transact_evm [evmE]: "transact m s = (Inr a, t) \<longleftrightarrow> m s = (Inr a, t)"
  by (auto simp: transact_def split: prod.splits sum.splits)

lemma transact_cases:
  obtains (ran) a t where "transact m s = (Inr a, t)" "m s = (Inr a, t)"
  | (reverted) e where "transact m s = (Inl e, s)"
  by (cases "m s"; cases "fst (m s)") (auto simp: transact_def)

lemma arith_evm [evmE]:
  "addE a b s = (Inr x, t) \<longleftrightarrow> unat x = unat a + unat b \<and> t = s"
  "subE a b s = (Inr x, t) \<longleftrightarrow> b \<le> a \<and> x = a - b \<and> t = s"
  "mulE a b s = (Inr x, t) \<longleftrightarrow> unat x = unat a * unat b \<and> t = s"
  "divE a b s = (Inr x, t) \<longleftrightarrow> b \<noteq> 0 \<and> x = a div b \<and> t = s"
proof -
  have lt: "unat x < 2 ^ LENGTH('a)" by simp
  show "addE a b s = (Inr x, t) \<longleftrightarrow> unat x = unat a + unat b \<and> t = s"
    and "mulE a b s = (Inr x, t) \<longleftrightarrow> unat x = unat a * unat b \<and> t = s"
    by (use lt in \<open>auto simp: addE_def mulE_def checked_def okE_def errE_def word_unat_eq_iff
          unat_add_exact unat_mult_exact simp del: unsigned_less\<close>)
qed (auto simp: subE_def divE_def checked_def okE_def errE_def)

lemma unat_sub_le: "(b :: 'a::len word) \<le> a \<Longrightarrow> unat (a - b) = unat a - unat b"
  by (simp add: unat_sub)

text \<open>Evaluation on a concrete state.\<close>

lemmas evm_eval = tryE_def okE_def errE_def getE_def putE_def revert_if_def only_owner_def on_part_def transact_def
  checked_def addE_def subE_def mulE_def divE_def

section \<open>Runs of transactions\<close>

text \<open>Storage that passes through any number of transactions, each with its own caller and block. A
  transaction that reverts changes nothing.\<close>

inductive runs :: "('c \<Rightarrow> bool) \<Rightarrow> ('c \<Rightarrow> ('s, unit) evm) \<Rightarrow> 's \<Rightarrow> 's \<Rightarrow> bool"
  for allowed :: "'c \<Rightarrow> bool" and exec :: "'c \<Rightarrow> ('s, unit) evm" where
  start: "runs allowed exec s s"
| tx: "runs allowed exec s t \<Longrightarrow> allowed c \<Longrightarrow> transact (exec c) t = (r, u) \<Longrightarrow> runs allowed exec s u"

lemma runs_invariant [consumes 1, case_names init step]:
  assumes "runs allowed exec s t" and "I s"
    and step: "\<And>c t u. \<lbrakk> I t; allowed c; exec c t = (Inr (), u) \<rbrakk> \<Longrightarrow> I u"
  shows "I t"
  using assms(1,2)
proof (induction rule: runs.induct)
  case (tx s t c r u)
  then have "I t" by blast
  from transact_cases [of "exec c" t] show ?case
  proof cases
    case (ran a v)
    then show ?thesis using tx step [OF \<open>I t\<close> \<open>allowed c\<close>] by simp
  next
    case (reverted e)
    then show ?thesis using tx \<open>I t\<close> by simp
  qed
qed

lemma runs_trans: "runs allowed exec t u \<Longrightarrow> runs allowed exec s t \<Longrightarrow> runs allowed exec s u"
  by (induction rule: runs.induct) (auto intro: runs.tx)

lemma runs_one: "exec c s = (Inr (), t) \<Longrightarrow> allowed c \<Longrightarrow> runs allowed exec s t"
  by (rule runs.tx [OF runs.start, where c = c and r = "Inr ()"]) (simp_all add: evmE)

fun run_txs :: "('c \<Rightarrow> ('s, unit) evm) \<Rightarrow> 'c list \<Rightarrow> 's \<Rightarrow> 's" where
  "run_txs exec [] s = s"
| "run_txs exec (c # cs) s = run_txs exec cs (snd (transact (exec c) s))"

lemma runs_run_txs: "runs allowed exec s t \<Longrightarrow> \<forall>c \<in> set cs. allowed c \<Longrightarrow> runs allowed exec s (run_txs exec cs t)"
proof (induction cs arbitrary: t)
  case (Cons c cs)
  obtain r u where "transact (exec c) t = (r, u)" by fastforce
  with Cons show ?case by (auto intro: runs.tx)
qed simp

section \<open>The token library\<close>

record 't erc20 =
  tk_mint :: "address \<Rightarrow> u256 \<Rightarrow> ('t, unit) evm"
  tk_burn :: "address \<Rightarrow> u256 \<Rightarrow> ('t, unit) evm"
  tk_transfer :: "address \<Rightarrow> address \<Rightarrow> u256 \<Rightarrow> ('t, bool) evm"
  tk_transfer_from :: "address \<Rightarrow> address \<Rightarrow> address \<Rightarrow> u256 \<Rightarrow> ('t, bool) evm"
  tk_approve :: "address \<Rightarrow> address \<Rightarrow> u256 \<Rightarrow> ('t, bool) evm"
  tk_balance :: "'t \<Rightarrow> address \<Rightarrow> u256"
  tk_allowance :: "'t \<Rightarrow> address \<Rightarrow> address \<Rightarrow> u256"
  tk_supply :: "'t \<Rightarrow> u256"

text \<open>The tokens of the world by address, a call of one of them, and the wrapper of \<open>SafeERC20\<close>.\<close>

definition token_at :: "address \<Rightarrow> ('t, 'a) evm \<Rightarrow> (address \<Rightarrow> 't, 'a) evm" where
  "token_at a m = on_part (\<lambda>ts. ts a) (\<lambda>t ts. ts(a := t)) m"

definition safe :: "('s, bool) evm \<Rightarrow> ('s, unit) evm" where
  "safe m = tryE m (\<lambda>ok. revert_if (\<not> ok) (TokenRevert ''SafeERC20FailedOperation''))"

lemma safe_ok: "safe m s = (Inr (), s') \<longleftrightarrow> m s = (Inr True, s')"
  by (auto simp: safe_def evmE)

lemma token_at_ok: "token_at a m ts = (Inr b, ts') \<longleftrightarrow> (\<exists>t. m (ts a) = (Inr b, t) \<and> ts' = ts(a := t))"
  by (simp add: token_at_def evmE)

text \<open>What other accounts can do with a token.\<close>

datatype ledger_call =
    LTransfer address u256
  | LTransferFrom address address u256
  | LApprove address u256
  | LMint address u256
  | LBurn address u256

fun ledger_exec :: "'t erc20 \<Rightarrow> address \<Rightarrow> ledger_call \<Rightarrow> ('t, unit) evm" where
  "ledger_exec T sender (LTransfer to n) = safe (tk_transfer T sender to n)"
| "ledger_exec T sender (LTransferFrom src to n) = safe (tk_transfer_from T sender src to n)"
| "ledger_exec T sender (LApprove spender n) = safe (tk_approve T sender spender n)"
| "ledger_exec T sender (LMint to n) = tk_mint T to n"
| "ledger_exec T sender (LBurn src n) = tk_burn T src n"

fun burns_from :: "address \<Rightarrow> ledger_call \<Rightarrow> bool" where
  "burns_from me (LBurn src n) = (src = me)"
| "burns_from me _ = False"

text \<open>\<open>moved b b' from to n\<close>: an amount \<open>n\<close> went from one account to the other. Nothing changes when they
  are the same account.\<close>

definition moved :: "(address \<Rightarrow> u256) \<Rightarrow> (address \<Rightarrow> u256) \<Rightarrow> address \<Rightarrow> address \<Rightarrow> u256 \<Rightarrow> bool" where
  "moved b b' from to n \<longleftrightarrow>
     n \<le> b from
     \<and> (if from = to then b' = b
        else b' = b(from := b from - n, to := b to + n) \<and> unat (b to) + unat n < 2 ^ 256)"

locale token_ledger =
  fixes T :: "'t erc20"
  assumes mint_law: "tk_mint T to n s = (Inr (), s') \<Longrightarrow>
      unat (tk_supply T s') = unat (tk_supply T s) + unat n
      \<and> unat (tk_balance T s' to) = unat (tk_balance T s to) + unat n
      \<and> (\<forall>a. a \<noteq> to \<longrightarrow> tk_balance T s' a = tk_balance T s a)
      \<and> tk_allowance T s' = tk_allowance T s"
    and burn_law: "tk_burn T from n s = (Inr (), s') \<Longrightarrow>
      unat (tk_supply T s) = unat (tk_supply T s') + unat n
      \<and> unat (tk_balance T s from) = unat (tk_balance T s' from) + unat n
      \<and> (\<forall>a. a \<noteq> from \<longrightarrow> tk_balance T s' a = tk_balance T s a)
      \<and> tk_allowance T s' = tk_allowance T s"
    and transfer_law: "tk_transfer T from to n s = (Inr b, s') \<Longrightarrow>
      b \<and> moved (tk_balance T s) (tk_balance T s') from to n \<and> tk_supply T s' = tk_supply T s
      \<and> tk_allowance T s' = tk_allowance T s"
    and transfer_from_law: "tk_transfer_from T spender from to n s = (Inr b, s') \<Longrightarrow>
      b \<and> moved (tk_balance T s) (tk_balance T s') from to n \<and> tk_supply T s' = tk_supply T s
      \<and> n \<le> tk_allowance T s from spender
      \<and> (\<forall>a. a \<noteq> from \<longrightarrow> tk_allowance T s' a = tk_allowance T s a)
      \<and> (\<forall>q. tk_allowance T s' from q \<le> tk_allowance T s from q)"
    and approve_law: "tk_approve T holder spender n s = (Inr b, s') \<Longrightarrow>
      b \<and> tk_balance T s' = tk_balance T s \<and> tk_supply T s' = tk_supply T s
      \<and> tk_allowance T s' = (tk_allowance T s)(holder := (tk_allowance T s holder)(spender := n))"
begin

text \<open>An account that has approved nobody loses tokens only by its own transfers and by burns.\<close>

lemma holder_keeps:
  assumes "tk_transfer_from T spender from to n s = (Inr b, s')"
    and "\<forall>q. tk_allowance T s holder q = 0" and "spender \<noteq> holder"
  shows "unat (tk_balance T s holder) \<le> unat (tk_balance T s' holder)"
    and "\<forall>q. tk_allowance T s' holder q = 0"
proof -
  note law = transfer_from_law [OF assms(1)]
  have unmoved: "n = 0" if "holder = from" using law assms(2) that by auto
  have m: "moved (tk_balance T s) (tk_balance T s') from to n" using law by blast
  show "unat (tk_balance T s holder) \<le> unat (tk_balance T s' holder)"
  proof (cases "from = to")
    case False
    with m have "tk_balance T s' = (tk_balance T s)(from := tk_balance T s from - n, to := tk_balance T s to + n)"
      and "unat (tk_balance T s to) + unat n < 2 ^ 256" by (auto simp: moved_def)
    then show ?thesis
    proof (cases "holder = from")
      case True
      from this [THEN unmoved] have "n = 0" .
      with \<open>tk_balance T s' = _\<close> show ?thesis by simp
    qed (simp add: unat_add_exact)
  qed (use m in \<open>simp add: moved_def\<close>)
  show "\<forall>q. tk_allowance T s' holder q = 0"
  proof
    fix q
    show "tk_allowance T s' holder q = 0"
    proof (cases "holder = from")
      case True
      then have "tk_allowance T s' holder q \<le> 0" using law assms(2) by (metis (no_types))
      then show ?thesis by simp
    qed (use law assms(2) in simp)
  qed
qed

lemma take_in:
  assumes "tk_transfer_from T sp src me n t = (Inr b, t')" and "src \<noteq> me"
  shows "unat (tk_balance T t' me) = unat (tk_balance T t me) + unat n" "tk_allowance T t' me = tk_allowance T t me"
  using transfer_from_law [OF assms(1)] assms(2) by (auto simp: moved_def unat_add_exact)

lemma pay_out:
  assumes "tk_transfer T me to n t = (Inr b, t')" and "to \<noteq> me"
  shows "unat (tk_balance T t me) = unat (tk_balance T t' me) + unat n" "tk_allowance T t' = tk_allowance T t"
  using transfer_law [OF assms(1)] assms(2) by (auto simp: moved_def unat_sub_le word_le_nat_alt)

lemma transfer_keeps:
  assumes "tk_transfer T from to n s = (Inr b, s')" and "from \<noteq> holder"
  shows "unat (tk_balance T s holder) \<le> unat (tk_balance T s' holder)"
    and "tk_allowance T s' = tk_allowance T s"
proof -
  note law = transfer_law [OF assms(1)]
  have m: "moved (tk_balance T s) (tk_balance T s') from to n" using law by blast
  show "unat (tk_balance T s holder) \<le> unat (tk_balance T s' holder)"
    using m assms(2) by (auto simp: moved_def unat_add_exact split: if_splits)
  show "tk_allowance T s' = tk_allowance T s" using law by blast
qed

lemma ledger_exec_keeps:
  assumes ok: "ledger_exec T sender k t = (Inr (), t')" and out: "sender \<noteq> me" "\<not> burns_from me k"
    and none: "\<forall>q. tk_allowance T t me q = 0"
  shows "unat (tk_balance T t me) \<le> unat (tk_balance T t' me) \<and> (\<forall>q. tk_allowance T t' me q = 0)"
proof (cases k)
  case (LTransfer to n)
  then show ?thesis using ok transfer_keeps [OF _ out(1), of to n t True t'] none by (auto simp: safe_ok)
next
  case (LTransferFrom src to n)
  then show ?thesis using ok holder_keeps [OF _ none out(1), of src to n True t'] by (auto simp: safe_ok)
next
  case (LApprove spender n)
  then show ?thesis using ok approve_law [of sender spender n t True t'] none out(1) by (auto simp: safe_ok)
next
  case (LMint to n)
  then show ?thesis using ok mint_law [of to n t t'] none by (cases "me = to") auto
next
  case (LBurn src n)
  then have "me \<noteq> src" using out(2) by auto
  then show ?thesis using ok LBurn burn_law [of src n t t'] none by auto
qed

end

subsection \<open>A ledger that keeps the promises\<close>

record ledger =
  lg_balances :: "address \<Rightarrow> u256"
  lg_allowances :: "address \<Rightarrow> address \<Rightarrow> u256"
  lg_supply :: u256

definition empty_ledger :: ledger where
  "empty_ledger = \<lparr> lg_balances = (\<lambda>_. 0), lg_allowances = (\<lambda>_ _. 0), lg_supply = 0 \<rparr>"

definition token_check :: "bool \<Rightarrow> string \<Rightarrow> ('s, unit) evm" where
  "token_check ok e = revert_if (\<not> ok) (TokenRevert e)"

definition move_tokens :: "address \<Rightarrow> address \<Rightarrow> u256 \<Rightarrow> (ledger, bool) evm" where
  "move_tokens from to n =
     tryE (token_check (from \<noteq> 0) ''ERC20InvalidSender'') (\<lambda>_.
     tryE (token_check (to \<noteq> 0) ''ERC20InvalidReceiver'') (\<lambda>_.
     tryE (getE (\<lambda>l. lg_balances l from)) (\<lambda>b.
     tryE (token_check (n \<le> b) ''ERC20InsufficientBalance'') (\<lambda>_.
     if from = to then okE True
     else tryE (getE (\<lambda>l. lg_balances l to)) (\<lambda>c.
          tryE (addE c n) (\<lambda>c'.
          tryE (putE (\<lambda>l. l \<lparr> lg_balances := (lg_balances l)(from := b - n, to := c') \<rparr>)) (\<lambda>_. okE True)))))))"

definition ledger_token :: "ledger erc20" where
  "ledger_token =
     \<lparr> tk_mint = (\<lambda>to n.
         tryE (token_check (to \<noteq> 0) ''ERC20InvalidReceiver'') (\<lambda>_.
         tryE (getE lg_supply) (\<lambda>t. tryE (addE t n) (\<lambda>t'.
         tryE (getE (\<lambda>l. lg_balances l to)) (\<lambda>b. tryE (addE b n) (\<lambda>b'.
         putE (\<lambda>l. l \<lparr> lg_supply := t', lg_balances := (lg_balances l)(to := b') \<rparr>))))))),
       tk_burn = (\<lambda>from n.
         tryE (getE (\<lambda>l. lg_balances l from)) (\<lambda>b. tryE (subE b n) (\<lambda>b'.
         tryE (getE lg_supply) (\<lambda>t. tryE (subE t n) (\<lambda>t'.
         putE (\<lambda>l. l \<lparr> lg_supply := t', lg_balances := (lg_balances l)(from := b') \<rparr>)))))),
       tk_transfer = move_tokens,
       tk_transfer_from = (\<lambda>spender from to n.
         tryE (getE (\<lambda>l. lg_allowances l from spender)) (\<lambda>a.
         tryE (token_check (n \<le> a) ''ERC20InsufficientAllowance'') (\<lambda>_.
         tryE (putE (\<lambda>l. l \<lparr> lg_allowances := (lg_allowances l)(from :=
                  (lg_allowances l from)(spender := if a = - 1 then a else a - n)) \<rparr>)) (\<lambda>_.
         move_tokens from to n)))),
       tk_approve = (\<lambda>holder spender n.
         tryE (putE (\<lambda>l. l \<lparr> lg_allowances := (lg_allowances l)(holder := (lg_allowances l holder)(spender := n)) \<rparr>))
           (\<lambda>_. okE True)),
       tk_balance = lg_balances, tk_allowance = lg_allowances, tk_supply = lg_supply \<rparr>"

lemma token_check_evm [evmE]: "token_check ok e s = (Inr u, t) \<longleftrightarrow> ok \<and> t = s"
  by (auto simp: token_check_def evmE)

lemma move_tokens_moved:
  assumes "move_tokens from to n s = (Inr b, s')"
  shows "b \<and> moved (lg_balances s) (lg_balances s') from to n \<and> lg_supply s' = lg_supply s
    \<and> lg_allowances s' = lg_allowances s"
proof (cases "from = to")
  case False
  with assms obtain c where c: "unat c = unat (lg_balances s to) + unat n" and b: b "n \<le> lg_balances s from"
    "s' = s \<lparr> lg_balances := (lg_balances s)(from := lg_balances s from - n, to := c) \<rparr>"
    by (auto simp: move_tokens_def evmE)
  have "unat c < 2 ^ LENGTH(256)" by (rule unsigned_less)
  then have "c = lg_balances s to + n" and "unat (lg_balances s to) + unat n < 2 ^ 256"
    using c by (simp_all add: word_unat_eq_iff unat_add_exact)
  with False b show ?thesis by (simp add: moved_def)
qed (use assms in \<open>auto simp: move_tokens_def evmE moved_def\<close>)

interpretation lg: token_ledger ledger_token
proof unfold_locales
  fix spender src to n s b s'
  assume a: "tk_transfer_from ledger_token spender src to n s = (Inr b, s')"
  let ?al = "lg_allowances s src spender"
  let ?s = "s \<lparr> lg_allowances := (lg_allowances s)(src := (lg_allowances s src)(spender := if ?al = - 1 then ?al else ?al - n)) \<rparr>"
  from a have n: "n \<le> ?al" and m: "move_tokens src to n ?s = (Inr b, s')"
    by (auto simp: ledger_token_def evmE)
  have "?al - n \<le> ?al" using n by (simp add: word_le_nat_alt unat_sub)
  then show "b \<and> moved (tk_balance ledger_token s) (tk_balance ledger_token s') src to n
      \<and> tk_supply ledger_token s' = tk_supply ledger_token s \<and> n \<le> tk_allowance ledger_token s src spender
      \<and> (\<forall>a. a \<noteq> src \<longrightarrow> tk_allowance ledger_token s' a = tk_allowance ledger_token s a)
      \<and> (\<forall>q. tk_allowance ledger_token s' src q \<le> tk_allowance ledger_token s src q)"
    using n move_tokens_moved [OF m] by (simp add: ledger_token_def)
qed (auto simp: ledger_token_def evmE unat_sub_le word_le_nat_alt dest: move_tokens_moved)

end
