(* ===== verification/Prim_Token.thy ===== *)
theory Prim_Token
  imports Evm
begin

text \<open>
  \<open>contracts/src/PrimToken.sol\<close>: the PRM token with its one minter and one burner, over the ledger of the
  ERC-20 library. The supply rises only by a call of the minter and falls only by a call of the burner.
\<close>

datatype token_event =
    MinterUpdated address address
  | BurnerUpdated address address
  | TokensMinted address u256

record 't prim_token =
  pt_minter :: address
  pt_burner :: address
  pt_ledger :: 't
  pt_logs :: "token_event list"

text \<open>The storage after \<open>initialize\<close>; \<open>fresh\<close> is the ledger as the library's initializers leave it.\<close>

definition token_initialize :: "'t \<Rightarrow> 't prim_token" where
  "token_initialize fresh = \<lparr> pt_minter = 0, pt_burner = 0, pt_ledger = fresh, pt_logs = [] \<rparr>"

definition token_emit :: "token_event \<Rightarrow> ('t prim_token, unit) evm" where
  "token_emit e = putE (\<lambda>s. s \<lparr> pt_logs := e # pt_logs s \<rparr>)"

definition in_ledger :: "('t, 'a) evm \<Rightarrow> ('t prim_token, 'a) evm" where
  "in_ledger m = on_part pt_ledger (\<lambda>l s. s \<lparr> pt_ledger := l \<rparr>) m"

definition setMinter :: "call_ctx \<Rightarrow> address \<Rightarrow> ('t prim_token, unit) evm" where
  "setMinter c newMinter =
     tryE (only_owner c) (\<lambda>_.
     tryE (revert_if (newMinter = 0) ZeroAddress) (\<lambda>_.
     tryE (getE pt_minter) (\<lambda>oldMinter.
     tryE (token_emit (MinterUpdated oldMinter newMinter)) (\<lambda>_.
     putE (\<lambda>s. s \<lparr> pt_minter := newMinter \<rparr>)))))"

definition setBurner :: "call_ctx \<Rightarrow> address \<Rightarrow> ('t prim_token, unit) evm" where
  "setBurner c newBurner =
     tryE (only_owner c) (\<lambda>_.
     tryE (revert_if (newBurner = 0) ZeroAddress) (\<lambda>_.
     tryE (getE pt_burner) (\<lambda>oldBurner.
     tryE (token_emit (BurnerUpdated oldBurner newBurner)) (\<lambda>_.
     putE (\<lambda>s. s \<lparr> pt_burner := newBurner \<rparr>)))))"

definition token_mint :: "'t erc20 \<Rightarrow> call_ctx \<Rightarrow> address \<Rightarrow> u256 \<Rightarrow> ('t prim_token, unit) evm" where
  "token_mint T c to amount =
     tryE (getE pt_minter) (\<lambda>minter.
     tryE (revert_if (msg_sender c \<noteq> minter) NotMinter) (\<lambda>_.
     tryE (revert_if (to = 0) ZeroAddress) (\<lambda>_.
     tryE (token_emit (TokensMinted to amount)) (\<lambda>_.
     in_ledger (tk_mint T to amount)))))"

definition token_burn :: "'t erc20 \<Rightarrow> call_ctx \<Rightarrow> address \<Rightarrow> u256 \<Rightarrow> ('t prim_token, unit) evm" where
  "token_burn T c src amount =
     tryE (getE pt_burner) (\<lambda>burner.
     tryE (revert_if (msg_sender c \<noteq> burner) NotBurner) (\<lambda>_.
     in_ledger (tk_burn T src amount)))"

section \<open>Transactions\<close>

text \<open>The calls an account can make. The ERC-20 functions the contract inherits are called with the
  sender as the account that acts.\<close>

datatype token_call =
    SetMinter address
  | SetBurner address
  | Mint address u256
  | Burn address u256
  | Transfer address u256
  | TransferFrom address address u256
  | ApproveSpender address u256

definition ignoreE :: "('s, 'a) evm \<Rightarrow> ('s, unit) evm" where
  "ignoreE m = tryE m (\<lambda>_. okE ())"

fun token_exec :: "'t erc20 \<Rightarrow> call_ctx \<Rightarrow> token_call \<Rightarrow> ('t prim_token, unit) evm" where
  "token_exec T c (SetMinter a) = setMinter c a"
| "token_exec T c (SetBurner a) = setBurner c a"
| "token_exec T c (Mint to n) = token_mint T c to n"
| "token_exec T c (Burn src n) = token_burn T c src n"
| "token_exec T c (Transfer to n) = ignoreE (in_ledger (tk_transfer T (msg_sender c) to n))"
| "token_exec T c (TransferFrom src to n) = ignoreE (in_ledger (tk_transfer_from T (msg_sender c) src to n))"
| "token_exec T c (ApproveSpender sp n) = ignoreE (in_ledger (tk_approve T (msg_sender c) sp n))"

lemmas token_defs = setMinter_def setBurner_def token_mint_def token_burn_def token_emit_def in_ledger_def
  ignoreE_def

abbreviation total_supply :: "'t erc20 \<Rightarrow> 't prim_token \<Rightarrow> nat" where
  "total_supply T s \<equiv> unat (tk_supply T (pt_ledger s))"

context token_ledger
begin

lemma token_mint_ok:
  assumes "token_mint T c to n s = (Inr (), s')"
  shows "msg_sender c = pt_minter s" "total_supply T s' = total_supply T s + unat n"
    "pt_minter s' = pt_minter s" "pt_burner s' = pt_burner s" "pt_logs s' = TokensMinted to n # pt_logs s"
    "to \<noteq> 0"
  using assms mint_law by (auto simp: token_defs evmE)

lemma token_step_supply:
  assumes "token_exec T c k s = (Inr (), s')"
  shows "total_supply T s' = total_supply T s
    \<or> msg_sender c = pt_minter s \<and> (\<exists>to n. k = Mint to n \<and> total_supply T s' = total_supply T s + unat n)
    \<or> msg_sender c = pt_burner s \<and> (\<exists>src n. k = Burn src n \<and> total_supply T s = total_supply T s' + unat n)"
  using assms
  by (cases k) (auto simp: token_defs evmE dest: mint_law burn_law transfer_law transfer_from_law approve_law)

lemma token_step_minter:
  assumes "token_exec T c k s = (Inr (), s')" and "\<nexists>a. k = SetMinter a"
  shows "pt_minter s' = pt_minter s"
  using assms by (cases k) (auto simp: token_defs evmE)

end

end
