(* ===== verification/Mining_Contract.thy ===== *)
theory Mining_Contract
  imports Prim_Token
begin

text \<open>
  \<open>contracts/src/MiningContract.sol\<close>: mint proposals with three-of-five approval, the 48-hour timelock, the
  ceiling per block and the replay guard per session, and the token the contract mints.

  The logs of the contract, newest first and stamped with their block, are part of the state. They are what
  the rest of the system sees; \<open>mining_inv\<close> says that the log is a lawful history and that the storage is what
  the history says, and every transaction keeps it.
\<close>

section \<open>Storage\<close>

definition TIMELOCK_DELAY :: u256 where "TIMELOCK_DELAY = 48 * 60 * 60"

definition REQUIRED_APPROVALS :: u8 where "REQUIRED_APPROVALS = 3"

definition TOTAL_SIGNERS :: u256 where "TOTAL_SIGNERS = 5"

record chain_proposal =
  cp_sessionId :: bytes
  cp_recipient :: address
  cp_amount :: u256
  cp_proposedAt :: u256
  cp_approvals :: u8
  cp_executed :: bool
  cp_cancelled :: bool

definition no_chain_proposal :: chain_proposal where
  "no_chain_proposal = \<lparr> cp_sessionId = replicate 32 0, cp_recipient = 0, cp_amount = 0, cp_proposedAt = 0,
     cp_approvals = 0, cp_executed = False, cp_cancelled = False \<rparr>"

datatype mining_event =
    SignerAdded address
  | SignerRemoved address
  | MintProposed bytes bytes address u256
  | MintApproved bytes address u8
  | MintExecuted bytes bytes address u256
  | MintCancelled bytes
  | MintCeilingUpdated u256 u256

record block_stamp =
  at_time :: u256
  at_block :: u256

type_synonym mining_log = "(block_stamp \<times> mining_event) list"

record mining_contract =
  mc_primToken :: address
  mc_mintCeilingPerBlock :: u256
  mc_isSigner :: "address \<Rightarrow> bool"
  mc_signerCount :: u256
  mc_sessionMinted :: "bytes \<Rightarrow> bool"
  mc_proposals :: "bytes \<Rightarrow> chain_proposal"
  mc_hasApproved :: "bytes \<Rightarrow> address \<Rightarrow> bool"
  mc_mintedInBlock :: "u256 \<Rightarrow> u256"
  mc_logs :: mining_log

section \<open>Functions\<close>

definition mining_initialize :: "address \<Rightarrow> u256 \<Rightarrow> evm_error + mining_contract" where
  "mining_initialize primToken initialCeiling =
     (if primToken = 0 then Inl ZeroAddress
      else Inr \<lparr> mc_primToken = primToken, mc_mintCeilingPerBlock = initialCeiling, mc_isSigner = (\<lambda>_. False),
        mc_signerCount = 0, mc_sessionMinted = (\<lambda>_. False), mc_proposals = (\<lambda>_. no_chain_proposal),
        mc_hasApproved = (\<lambda>_ _. False), mc_mintedInBlock = (\<lambda>_. 0), mc_logs = [] \<rparr>)"

definition stamp :: "call_ctx \<Rightarrow> block_stamp" where
  "stamp c = \<lparr> at_time = block_timestamp c, at_block = block_number c \<rparr>"

definition mining_emit :: "call_ctx \<Rightarrow> mining_event \<Rightarrow> (mining_contract, unit) evm" where
  "mining_emit c e = putE (\<lambda>s. s \<lparr> mc_logs := (stamp c, e) # mc_logs s \<rparr>)"

definition addSigner :: "call_ctx \<Rightarrow> address \<Rightarrow> (mining_contract, unit) evm" where
  "addSigner c signer =
     tryE (only_owner c) (\<lambda>_.
     tryE (revert_if (signer = 0) ZeroAddress) (\<lambda>_.
     tryE (getE mc_isSigner) (\<lambda>isSigner.
     tryE (revert_if (isSigner signer) AlreadySigner) (\<lambda>_.
     tryE (getE mc_signerCount) (\<lambda>signerCount.
     tryE (revert_if (TOTAL_SIGNERS \<le> signerCount) SignerLimitReached) (\<lambda>_.
     tryE (putE (\<lambda>s. s \<lparr> mc_isSigner := (mc_isSigner s)(signer := True) \<rparr>)) (\<lambda>_.
     tryE (addE signerCount 1) (\<lambda>n.
     tryE (putE (\<lambda>s. s \<lparr> mc_signerCount := n \<rparr>)) (\<lambda>_.
     mining_emit c (SignerAdded signer))))))))))"

definition removeSigner :: "call_ctx \<Rightarrow> address \<Rightarrow> (mining_contract, unit) evm" where
  "removeSigner c signer =
     tryE (only_owner c) (\<lambda>_.
     tryE (getE mc_isSigner) (\<lambda>isSigner.
     tryE (revert_if (\<not> isSigner signer) NotSigner) (\<lambda>_.
     tryE (putE (\<lambda>s. s \<lparr> mc_isSigner := (mc_isSigner s)(signer := False) \<rparr>)) (\<lambda>_.
     tryE (getE mc_signerCount) (\<lambda>signerCount.
     tryE (subE signerCount 1) (\<lambda>n.
     tryE (putE (\<lambda>s. s \<lparr> mc_signerCount := n \<rparr>)) (\<lambda>_.
     mining_emit c (SignerRemoved signer))))))))"

definition setMintCeiling :: "call_ctx \<Rightarrow> u256 \<Rightarrow> (mining_contract, unit) evm" where
  "setMintCeiling c newCeiling =
     tryE (only_owner c) (\<lambda>_.
     tryE (getE mc_mintCeilingPerBlock) (\<lambda>oldCeiling.
     tryE (mining_emit c (MintCeilingUpdated oldCeiling newCeiling)) (\<lambda>_.
     putE (\<lambda>s. s \<lparr> mc_mintCeilingPerBlock := newCeiling \<rparr>))))"

definition proposeMint :: "call_ctx \<Rightarrow> bytes \<Rightarrow> bytes \<Rightarrow> address \<Rightarrow> u256 \<Rightarrow> (mining_contract, unit) evm" where
  "proposeMint c proposalId sessionId recipient amount =
     tryE (only_owner c) (\<lambda>_.
     tryE (revert_if (recipient = 0) ZeroAddress) (\<lambda>_.
     tryE (revert_if (amount = 0) ZeroAmount) (\<lambda>_.
     tryE (getE mc_sessionMinted) (\<lambda>sessionMinted.
     tryE (revert_if (sessionMinted sessionId) SessionAlreadyMinted) (\<lambda>_.
     tryE (putE (\<lambda>s. s \<lparr> mc_proposals := (mc_proposals s)(proposalId :=
         \<lparr> cp_sessionId = sessionId, cp_recipient = recipient, cp_amount = amount, cp_proposedAt = block_timestamp c,
           cp_approvals = 0, cp_executed = False, cp_cancelled = False \<rparr>) \<rparr>)) (\<lambda>_.
     mining_emit c (MintProposed proposalId sessionId recipient amount)))))))"

definition update_proposal :: "bytes \<Rightarrow> (chain_proposal \<Rightarrow> chain_proposal) \<Rightarrow> (mining_contract, unit) evm" where
  "update_proposal proposalId f =
     putE (\<lambda>s. s \<lparr> mc_proposals := (mc_proposals s)(proposalId := f (mc_proposals s proposalId)) \<rparr>)"

definition approveMint :: "call_ctx \<Rightarrow> bytes \<Rightarrow> (mining_contract, unit) evm" where
  "approveMint c proposalId =
     tryE (getE mc_isSigner) (\<lambda>isSigner.
     tryE (revert_if (\<not> isSigner (msg_sender c)) NotSigner) (\<lambda>_.
     tryE (getE (\<lambda>s. mc_proposals s proposalId)) (\<lambda>proposal.
     tryE (revert_if (cp_proposedAt proposal = 0) ProposalNotFound) (\<lambda>_.
     tryE (revert_if (cp_executed proposal) AlreadyExecuted) (\<lambda>_.
     tryE (revert_if (cp_cancelled proposal) AlreadyCancelled) (\<lambda>_.
     tryE (getE (\<lambda>s. mc_hasApproved s proposalId)) (\<lambda>hasApproved.
     tryE (revert_if (hasApproved (msg_sender c)) AlreadyApproved) (\<lambda>_.
     tryE (putE (\<lambda>s. s \<lparr> mc_hasApproved := (mc_hasApproved s)(proposalId :=
         (mc_hasApproved s proposalId)(msg_sender c := True)) \<rparr>)) (\<lambda>_.
     tryE (addE (cp_approvals proposal) 1) (\<lambda>n.
     tryE (update_proposal proposalId (\<lambda>p. p \<lparr> cp_approvals := n \<rparr>)) (\<lambda>_.
     mining_emit c (MintApproved proposalId (msg_sender c) n))))))))))))"

definition cancelMint :: "call_ctx \<Rightarrow> bytes \<Rightarrow> (mining_contract, unit) evm" where
  "cancelMint c proposalId =
     tryE (only_owner c) (\<lambda>_.
     tryE (getE (\<lambda>s. mc_proposals s proposalId)) (\<lambda>proposal.
     tryE (revert_if (cp_executed proposal) AlreadyExecuted) (\<lambda>_.
     tryE (revert_if (cp_cancelled proposal) AlreadyCancelled) (\<lambda>_.
     tryE (update_proposal proposalId (\<lambda>p. p \<lparr> cp_cancelled := True \<rparr>)) (\<lambda>_.
     mining_emit c (MintCancelled proposalId))))))"

text \<open>\<open>executeMint\<close> calls the token, whose storage is the other half of the state; the sender of that call
  is the contract itself.\<close>

record 't mint_system =
  ms_mining :: mining_contract
  ms_token :: "'t prim_token"

definition in_mining :: "(mining_contract, 'a) evm \<Rightarrow> ('t mint_system, 'a) evm" where
  "in_mining m = on_part ms_mining (\<lambda>x s. s \<lparr> ms_mining := x \<rparr>) m"

definition in_token :: "('t prim_token, 'a) evm \<Rightarrow> ('t mint_system, 'a) evm" where
  "in_token m = on_part ms_token (\<lambda>x s. s \<lparr> ms_token := x \<rparr>) m"

definition executable :: "call_ctx \<Rightarrow> bytes \<Rightarrow> (mining_contract, chain_proposal) evm" where
  "executable c proposalId =
     tryE (only_owner c) (\<lambda>_.
     tryE (getE (\<lambda>s. mc_proposals s proposalId)) (\<lambda>proposal.
     tryE (revert_if (cp_proposedAt proposal = 0) ProposalNotFound) (\<lambda>_.
     tryE (revert_if (cp_executed proposal) AlreadyExecuted) (\<lambda>_.
     tryE (revert_if (cp_cancelled proposal) AlreadyCancelled) (\<lambda>_.
     tryE (revert_if (cp_approvals proposal < REQUIRED_APPROVALS)
             (InsufficientApprovals (cp_approvals proposal) REQUIRED_APPROVALS)) (\<lambda>_.
     tryE (addE (cp_proposedAt proposal) TIMELOCK_DELAY) (\<lambda>executionTime.
     tryE (revert_if (block_timestamp c < executionTime) (TimelockNotExpired executionTime (block_timestamp c))) (\<lambda>_.
     tryE (getE mc_sessionMinted) (\<lambda>sessionMinted.
     tryE (revert_if (sessionMinted (cp_sessionId proposal)) SessionAlreadyMinted) (\<lambda>_.
     okE proposal))))))))))"

definition count_in_block :: "call_ctx \<Rightarrow> bytes \<Rightarrow> chain_proposal \<Rightarrow> (mining_contract, unit) evm" where
  "count_in_block c proposalId proposal =
     tryE (getE (\<lambda>s. mc_mintedInBlock s (block_number c))) (\<lambda>minted.
     tryE (addE minted (cp_amount proposal)) (\<lambda>newBlockTotal.
     tryE (getE mc_mintCeilingPerBlock) (\<lambda>ceiling.
     tryE (revert_if (ceiling < newBlockTotal) (CeilingExceeded newBlockTotal ceiling)) (\<lambda>_.
     tryE (putE (\<lambda>s. s \<lparr> mc_mintedInBlock := (mc_mintedInBlock s)(block_number c := newBlockTotal) \<rparr>)) (\<lambda>_.
     tryE (putE (\<lambda>s. s \<lparr> mc_sessionMinted := (mc_sessionMinted s)(cp_sessionId proposal := True) \<rparr>)) (\<lambda>_.
     update_proposal proposalId (\<lambda>p. p \<lparr> cp_executed := True \<rparr>)))))))"

definition executeMint :: "'t erc20 \<Rightarrow> call_ctx \<Rightarrow> bytes \<Rightarrow> ('t mint_system, unit) evm" where
  "executeMint T c proposalId =
     tryE (in_mining (executable c proposalId)) (\<lambda>proposal.
     tryE (in_mining (count_in_block c proposalId proposal)) (\<lambda>_.
     tryE (in_token (token_mint T (c \<lparr> msg_sender := this_addr c \<rparr>) (cp_recipient proposal) (cp_amount proposal))) (\<lambda>_.
     in_mining (mining_emit c (MintExecuted proposalId (cp_sessionId proposal) (cp_recipient proposal)
       (cp_amount proposal))))))"

section \<open>Transactions\<close>

datatype mining_call =
    AddSigner address
  | RemoveSigner address
  | SetMintCeiling u256
  | ProposeMint bytes bytes address u256
  | ApproveMint bytes
  | ExecuteMint bytes
  | CancelMint bytes

fun mining_exec :: "'t erc20 \<Rightarrow> call_ctx \<Rightarrow> mining_call \<Rightarrow> ('t mint_system, unit) evm" where
  "mining_exec T c (AddSigner a) = in_mining (addSigner c a)"
| "mining_exec T c (RemoveSigner a) = in_mining (removeSigner c a)"
| "mining_exec T c (SetMintCeiling n) = in_mining (setMintCeiling c n)"
| "mining_exec T c (ProposeMint p s r n) = in_mining (proposeMint c p s r n)"
| "mining_exec T c (ApproveMint p) = in_mining (approveMint c p)"
| "mining_exec T c (ExecuteMint p) = executeMint T c p"
| "mining_exec T c (CancelMint p) = in_mining (cancelMint c p)"

text \<open>A transaction on either contract. \<open>minting me\<close> says who can send it: the mint contract lives at \<open>me\<close> and
  sends nothing of its own accord.\<close>

datatype system_call = OnMining call_ctx mining_call | OnToken call_ctx token_call

fun system_exec :: "'t erc20 \<Rightarrow> system_call \<Rightarrow> ('t mint_system, unit) evm" where
  "system_exec T (OnMining c k) = mining_exec T c k"
| "system_exec T (OnToken c k) = in_token (token_exec T c k)"

fun minting :: "address \<Rightarrow> system_call \<Rightarrow> bool" where
  "minting me (OnMining c k) = (this_addr c = me \<and> msg_sender c \<noteq> me)"
| "minting me (OnToken c k) = (msg_sender c \<noteq> me)"

section \<open>The history a log tells\<close>

text \<open>What the log says, newest entry first: who signs, which proposal is open and who has approved it since
  it was proposed, which sessions were minted, what was minted in a block, and the ceiling.\<close>

fun signers :: "mining_log \<Rightarrow> address set" where
  "signers [] = {}"
| "signers ((b, SignerAdded a) # l) = insert a (signers l)"
| "signers ((b, SignerRemoved a) # l) = signers l - {a}"
| "signers (_ # l) = signers l"

fun live :: "bytes \<Rightarrow> mining_log \<Rightarrow> (u256 \<times> bytes \<times> address \<times> u256) option" where
  "live p [] = None"
| "live p ((b, MintProposed q s r n) # l) = (if q = p then Some (at_time b, s, r, n) else live p l)"
| "live p ((b, MintExecuted q s r n) # l) = (if q = p then None else live p l)"
| "live p ((b, MintCancelled q) # l) = (if q = p then None else live p l)"
| "live p (_ # l) = live p l"

fun approvers :: "bytes \<Rightarrow> mining_log \<Rightarrow> address set" where
  "approvers p [] = {}"
| "approvers p ((b, MintProposed q s r n) # l) = (if q = p then {} else approvers p l)"
| "approvers p ((b, MintApproved q a k) # l) = (if q = p then insert a (approvers p l) else approvers p l)"
| "approvers p (_ # l) = approvers p l"

fun executed_mints :: "mining_log \<Rightarrow> (block_stamp \<times> bytes \<times> bytes \<times> address \<times> u256) list" where
  "executed_mints [] = []"
| "executed_mints ((b, MintExecuted p s r n) # l) = (b, p, s, r, n) # executed_mints l"
| "executed_mints (_ # l) = executed_mints l"

definition minted_sessions :: "mining_log \<Rightarrow> bytes list" where
  "minted_sessions l = map (\<lambda>(b, p, s, r, n). s) (executed_mints l)"

definition minted_total :: "mining_log \<Rightarrow> nat" where
  "minted_total l = sum_list (map (\<lambda>(b, p, s, r, n). unat n) (executed_mints l))"

definition block_total :: "u256 \<Rightarrow> mining_log \<Rightarrow> nat" where
  "block_total k l = sum_list (map (\<lambda>(b, p, s, r, n). if at_block b = k then unat n else 0) (executed_mints l))"

fun ceiling :: "u256 \<Rightarrow> mining_log \<Rightarrow> u256" where
  "ceiling c0 [] = c0"
| "ceiling c0 ((b, MintCeilingUpdated old new) # l) = new"
| "ceiling c0 (_ # l) = ceiling c0 l"

text \<open>The specification: when an event may follow a history.\<close>

fun lawful :: "u256 \<Rightarrow> mining_log \<Rightarrow> block_stamp \<Rightarrow> mining_event \<Rightarrow> bool" where
  "lawful c0 l b (SignerAdded a) = (a \<notin> signers l \<and> card (signers l) < 5)"
| "lawful c0 l b (SignerRemoved a) = (a \<in> signers l)"
| "lawful c0 l b (MintProposed p s r n) = (r \<noteq> 0 \<and> n \<noteq> 0 \<and> s \<notin> set (minted_sessions l))"
| "lawful c0 l b (MintApproved p a k) =
     (a \<in> signers l \<and> live p l \<noteq> None \<and> a \<notin> approvers p l \<and> unat k = Suc (card (approvers p l)))"
| "lawful c0 l b (MintExecuted p s r n) =
     ((\<exists>t. live p l = Some (t, s, r, n) \<and> unat t + 48 * 60 * 60 \<le> unat (at_time b))
      \<and> 3 \<le> card (approvers p l) \<and> s \<notin> set (minted_sessions l)
      \<and> block_total (at_block b) l + unat n \<le> unat (ceiling c0 l))"
| "lawful c0 l b (MintCancelled p) = True"
| "lawful c0 l b (MintCeilingUpdated old new) = (old = ceiling c0 l)"

fun lawful_log :: "u256 \<Rightarrow> mining_log \<Rightarrow> bool" where
  "lawful_log c0 [] = True"
| "lawful_log c0 ((b, e) # l) = (lawful c0 l b e \<and> lawful_log c0 l)"

text \<open>The storage is the history: \<open>replays\<close> is the abstraction relation.\<close>

definition proposal_view :: "bytes \<Rightarrow> mining_log \<Rightarrow> chain_proposal \<Rightarrow> bool" where
  "proposal_view p l q =
     (case live p l of
        Some (t, s, r, n) \<Rightarrow>
          cp_sessionId q = s \<and> cp_recipient q = r \<and> cp_amount q = n \<and> cp_proposedAt q = t
          \<and> unat (cp_approvals q) = card (approvers p l) \<and> \<not> cp_executed q \<and> \<not> cp_cancelled q
      | None \<Rightarrow> cp_executed q \<or> cp_cancelled q \<or> cp_proposedAt q = 0)"

definition replays :: "u256 \<Rightarrow> mining_log \<Rightarrow> mining_contract \<Rightarrow> bool" where
  "replays c0 l m \<longleftrightarrow>
     (\<forall>a. mc_isSigner m a \<longleftrightarrow> a \<in> signers l) \<and> unat (mc_signerCount m) = card (signers l)
     \<and> (\<forall>s. mc_sessionMinted m s \<longleftrightarrow> s \<in> set (minted_sessions l))
     \<and> mc_mintCeilingPerBlock m = ceiling c0 l
     \<and> (\<forall>k. unat (mc_mintedInBlock m k) = block_total k l)
     \<and> (\<forall>p. proposal_view p l (mc_proposals m p))
     \<and> (\<forall>p a. a \<in> approvers p l \<longrightarrow> mc_hasApproved m p a)"

section \<open>The contract keeps to the history\<close>

lemma finite_signers [simp]: "finite (signers l)"
  by (induction l rule: signers.induct) auto

lemma finite_approvers [simp]: "finite (approvers p l)"
  by (induction p l rule: approvers.induct) auto

lemma lawful_signers: "lawful_log c0 l \<Longrightarrow> card (signers l) \<le> 5"
  by (induction l rule: signers.induct) (auto simp: card_insert_if intro: card_Diff1_le le_trans)

lemma executed_mints_Cons:
  "executed_mints ((b, e) # l) =
     (case e of MintExecuted p s r n \<Rightarrow> (b, p, s, r, n) # executed_mints l | _ \<Rightarrow> executed_mints l)"
  by (cases e) simp_all

lemma history_Nil [simp]: "minted_sessions [] = []" "block_total k [] = 0" "minted_total [] = 0"
  by (simp_all add: minted_sessions_def block_total_def minted_total_def)

lemma history_Cons [simp]:
  "minted_sessions ((b, e) # l) = (case e of MintExecuted p s r n \<Rightarrow> s # minted_sessions l | _ \<Rightarrow> minted_sessions l)"
  "block_total k ((b, e) # l) =
     (case e of MintExecuted p s r n \<Rightarrow> (if at_block b = k then unat n else 0) + block_total k l | _ \<Rightarrow> block_total k l)"
  "minted_total ((b, e) # l) = (case e of MintExecuted p s r n \<Rightarrow> unat n + minted_total l | _ \<Rightarrow> minted_total l)"
  by (simp_all add: minted_sessions_def block_total_def minted_total_def executed_mints_Cons split: mining_event.split)

fun about :: "bytes \<Rightarrow> mining_event \<Rightarrow> bool" where
  "about p (MintProposed q s r n) = (q = p)"
| "about p (MintApproved q a k) = (q = p)"
| "about p (MintExecuted q s r n) = (q = p)"
| "about p (MintCancelled q) = (q = p)"
| "about p _ = False"

lemma proposal_view_other [simp]: "\<not> about p e \<Longrightarrow> proposal_view p ((b, e) # l) q = proposal_view p l q"
  by (cases e) (simp_all add: proposal_view_def cong: option.case_cong)

definition mining_inv :: "u256 \<Rightarrow> mining_contract \<Rightarrow> bool" where
  "mining_inv c0 m \<longleftrightarrow> lawful_log c0 (mc_logs m) \<and> replays c0 (mc_logs m) m"

lemmas mining_consts = TIMELOCK_DELAY_def REQUIRED_APPROVALS_def TOTAL_SIGNERS_def

lemmas mining_inv_defs = mining_inv_def replays_def

lemma initialize_inv:
  "mining_initialize tok c0 = Inr m \<Longrightarrow> mining_inv c0 m"
  by (auto simp: mining_initialize_def mining_inv_defs proposal_view_def no_chain_proposal_def split: if_splits)

lemma initialize_logs: "mining_initialize tok c0 = Inr m \<Longrightarrow> mc_logs m = []"
  by (auto simp: mining_initialize_def split: if_splits)

lemma addSigner_inv:
  assumes "mining_inv c0 m" and "addSigner c a m = (Inr (), m')"
  shows "mining_inv c0 m'"
  using assms
  by (auto simp: addSigner_def evmE mining_emit_def mining_inv_defs mining_consts word_le_nat_alt
      split: if_splits)

lemma removeSigner_inv:
  assumes "mining_inv c0 m" and "removeSigner c a m = (Inr (), m')"
  shows "mining_inv c0 m'"
  using assms
  by (auto simp: removeSigner_def evmE mining_emit_def mining_inv_defs unat_sub_le split: if_splits)

lemma setMintCeiling_inv:
  assumes "mining_inv c0 m" and "setMintCeiling c n m = (Inr (), m')"
  shows "mining_inv c0 m'"
  using assms
  by (auto simp: setMintCeiling_def evmE mining_emit_def mining_inv_defs)

lemma proposeMint_inv:
  assumes "mining_inv c0 m" and "proposeMint c p s r n m = (Inr (), m')"
  shows "mining_inv c0 m'"
proof -
  have "proposal_view p ((stamp c, MintProposed p s r n) # mc_logs m)
     \<lparr> cp_sessionId = s, cp_recipient = r, cp_amount = n, cp_proposedAt = block_timestamp c,
       cp_approvals = 0, cp_executed = False, cp_cancelled = False \<rparr>"
    by (simp add: proposal_view_def stamp_def)
  with assms show ?thesis by (auto simp: proposeMint_def evmE mining_emit_def mining_inv_defs)
qed

lemma cancelMint_inv:
  assumes "mining_inv c0 m" and "cancelMint c p m = (Inr (), m')"
  shows "mining_inv c0 m'"
proof -
  have "proposal_view p ((stamp c, MintCancelled p) # mc_logs m) (q \<lparr> cp_cancelled := True \<rparr>)" for q
    by (simp add: proposal_view_def)
  with assms show ?thesis by (auto simp: cancelMint_def update_proposal_def evmE mining_emit_def mining_inv_defs)
qed

lemma open_proposal:
  assumes "proposal_view p l q" and "cp_proposedAt q \<noteq> 0" and "\<not> cp_executed q" and "\<not> cp_cancelled q"
  shows "live p l = Some (cp_proposedAt q, cp_sessionId q, cp_recipient q, cp_amount q)"
    and "unat (cp_approvals q) = card (approvers p l)"
  using assms by (auto simp: proposal_view_def split: option.splits)

lemma approveMint_inv:
  assumes inv: "mining_inv c0 m" and ok: "approveMint c p m = (Inr (), m')"
  shows "mining_inv c0 m'"
proof -
  let ?q = "mc_proposals m p" and ?l = "mc_logs m"
  from ok obtain n where ok': "mc_isSigner m (msg_sender c)" "cp_proposedAt ?q \<noteq> 0" "\<not> cp_executed ?q"
    "\<not> cp_cancelled ?q" "\<not> mc_hasApproved m p (msg_sender c)" and n: "unat n = Suc (unat (cp_approvals ?q))"
    and m': "m' = m \<lparr> mc_hasApproved := (mc_hasApproved m)(p := (mc_hasApproved m p)(msg_sender c := True)),
      mc_proposals := (mc_proposals m)(p := ?q \<lparr> cp_approvals := n \<rparr>),
      mc_logs := (stamp c, MintApproved p (msg_sender c) n) # ?l \<rparr>"
    by (auto simp: approveMint_def update_proposal_def evmE mining_emit_def)
  have "proposal_view p ?l ?q" using inv by (simp add: mining_inv_def replays_def)
  note op = open_proposal [OF this ok'(2-4)]
  have new: "msg_sender c \<notin> approvers p ?l" using inv ok'(5) by (auto simp: mining_inv_def replays_def)
  have "proposal_view p ((stamp c, MintApproved p (msg_sender c) n) # ?l) (?q \<lparr> cp_approvals := n \<rparr>)"
    using op n new ok'(3,4) by (simp add: proposal_view_def)
  with inv ok' n op new m' show ?thesis by (auto simp: mining_inv_defs)
qed

text \<open>What a successful execution did, on both contracts.\<close>

lemma executable_ok:
  assumes "executable c p m = (Inr q, m')"
  shows "m' = m" "q = mc_proposals m p" "msg_sender c = owner_addr c" "cp_proposedAt q \<noteq> 0" "\<not> cp_executed q"
    "\<not> cp_cancelled q" "3 \<le> unat (cp_approvals q)"
    "unat (cp_proposedAt q) + 48 * 60 * 60 \<le> unat (block_timestamp c)" "\<not> mc_sessionMinted m (cp_sessionId q)"
  using assms by (auto simp: executable_def evmE mining_consts word_less_nat_alt)

lemma count_in_block_ok:
  "count_in_block c p q m = (Inr (), m') \<longleftrightarrow>
     (\<exists>total. unat total = unat (mc_mintedInBlock m (block_number c)) + unat (cp_amount q)
       \<and> total \<le> mc_mintCeilingPerBlock m
       \<and> m' = m \<lparr> mc_mintedInBlock := (mc_mintedInBlock m)(block_number c := total),
           mc_sessionMinted := (mc_sessionMinted m)(cp_sessionId q := True),
           mc_proposals := (mc_proposals m)(p := (mc_proposals m p) \<lparr> cp_executed := True \<rparr>) \<rparr>)"
  by (simp add: count_in_block_def update_proposal_def evmE not_less cong: conj_cong)

lemma executeMint_ok:
  assumes "executeMint T c p s = (Inr (), s')" and "q = mc_proposals (ms_mining s) p"
  obtains total tok where "msg_sender c = owner_addr c" "cp_proposedAt q \<noteq> 0" "\<not> cp_executed q" "\<not> cp_cancelled q" "3 \<le> unat (cp_approvals q)"
    "unat (cp_proposedAt q) + 48 * 60 * 60 \<le> unat (block_timestamp c)"
    "\<not> mc_sessionMinted (ms_mining s) (cp_sessionId q)"
    "unat total = unat (mc_mintedInBlock (ms_mining s) (block_number c)) + unat (cp_amount q)"
    "total \<le> mc_mintCeilingPerBlock (ms_mining s)"
    "token_mint T (c \<lparr> msg_sender := this_addr c \<rparr>) (cp_recipient q) (cp_amount q) (ms_token s) = (Inr (), tok)"
    "s' = s \<lparr> ms_mining := (ms_mining s) \<lparr> mc_mintedInBlock := (mc_mintedInBlock (ms_mining s))(block_number c := total),
       mc_sessionMinted := (mc_sessionMinted (ms_mining s))(cp_sessionId q := True),
       mc_proposals := (mc_proposals (ms_mining s))(p := q \<lparr> cp_executed := True \<rparr>),
       mc_logs := (stamp c, MintExecuted p (cp_sessionId q) (cp_recipient q) (cp_amount q)) # mc_logs (ms_mining s) \<rparr>,
       ms_token := tok \<rparr>"
proof -
  let ?m = "ms_mining s"
  from assms(1) obtain q' m1 m' tok where ex': "executable c p ?m = (Inr q', m1)"
    and cnt': "count_in_block c p q' m1 = (Inr (), m')"
    and tok': "token_mint T (c \<lparr> msg_sender := this_addr c \<rparr>) (cp_recipient q') (cp_amount q') (ms_token s) = (Inr (), tok)"
    and s': "s' = s \<lparr> ms_mining := m' \<lparr> mc_logs := (stamp c, MintExecuted p (cp_sessionId q') (cp_recipient q') (cp_amount q')) # mc_logs m' \<rparr>,
       ms_token := tok \<rparr>"
    unfolding executeMint_def in_mining_def in_token_def mining_emit_def evmE by auto
  have q': "m1 = ?m" "q' = q" using executable_ok(1,2) [OF ex'] assms(2) by simp_all
  note ex = ex' [unfolded q'] and cnt = cnt' [unfolded q'] and tok = tok' [unfolded q']
  from cnt [unfolded count_in_block_ok] obtain total where
    "m' = ?m \<lparr> mc_mintedInBlock := (mc_mintedInBlock ?m)(block_number c := total),
       mc_sessionMinted := (mc_sessionMinted ?m)(cp_sessionId q := True),
       mc_proposals := (mc_proposals ?m)(p := (mc_proposals ?m p) \<lparr> cp_executed := True \<rparr>) \<rparr>"
    "unat total = unat (mc_mintedInBlock ?m (block_number c)) + unat (cp_amount q)"
    "total \<le> mc_mintCeilingPerBlock ?m" by blast
  with executable_ok(3-) [OF ex] tok s' q' assms(2) show ?thesis by (intro that [of total tok]) simp_all
qed

lemma executeMint_inv:
  assumes inv: "mining_inv c0 (ms_mining s)" and ok: "executeMint T c p s = (Inr (), s')"
  shows "mining_inv c0 (ms_mining s')"
proof -
  let ?q = "mc_proposals (ms_mining s) p" and ?l = "mc_logs (ms_mining s)"
  have view: "proposal_view p ?l ?q" using inv by (simp add: mining_inv_def replays_def)
  show ?thesis
  proof (rule executeMint_ok [OF ok refl])
    fix total tok
    assume q: "cp_proposedAt ?q \<noteq> 0" "\<not> cp_executed ?q" "\<not> cp_cancelled ?q" "3 \<le> unat (cp_approvals ?q)"
      and time: "unat (cp_proposedAt ?q) + 48 * 60 * 60 \<le> unat (block_timestamp c)"
      and rest: "\<not> mc_sessionMinted (ms_mining s) (cp_sessionId ?q)"
        "unat total = unat (mc_mintedInBlock (ms_mining s) (block_number c)) + unat (cp_amount ?q)"
        "total \<le> mc_mintCeilingPerBlock (ms_mining s)"
      and s': "s' = s \<lparr> ms_mining := (ms_mining s) \<lparr> mc_mintedInBlock := (mc_mintedInBlock (ms_mining s))(block_number c := total),
         mc_sessionMinted := (mc_sessionMinted (ms_mining s))(cp_sessionId ?q := True),
         mc_proposals := (mc_proposals (ms_mining s))(p := ?q \<lparr> cp_executed := True \<rparr>),
         mc_logs := (stamp c, MintExecuted p (cp_sessionId ?q) (cp_recipient ?q) (cp_amount ?q)) # ?l \<rparr>,
         ms_token := tok \<rparr>"
    note op = open_proposal [OF view q(1-3)]
    have "lawful_log c0 (mc_logs (ms_mining s'))"
      using inv q(4) time rest op s'
      by (auto simp: mining_inv_defs stamp_def word_le_nat_alt)
    moreover have "proposal_view p (mc_logs (ms_mining s')) (?q \<lparr> cp_executed := True \<rparr>)"
      by (simp add: s' proposal_view_def)
    then have "replays c0 (mc_logs (ms_mining s')) (ms_mining s')"
      using inv rest s' by (auto simp: mining_inv_defs stamp_def)
    ultimately show ?thesis by (simp add: mining_inv_def)
  qed
qed

lemma system_step_inv:
  assumes "mining_inv c0 (ms_mining s)" and "system_exec T k s = (Inr (), s')"
  shows "mining_inv c0 (ms_mining s')"
proof (cases k)
  case (OnMining c m)
  note inv = addSigner_inv [OF assms(1)] removeSigner_inv [OF assms(1)] setMintCeiling_inv [OF assms(1)]
    proposeMint_inv [OF assms(1)] approveMint_inv [OF assms(1)] cancelMint_inv [OF assms(1)] executeMint_inv [OF assms(1)]
  show ?thesis
    using assms(2) OnMining by (cases m) (auto simp: in_mining_def evmE dest: inv)
next
  case (OnToken c m)
  with assms show ?thesis by (auto simp: in_token_def evmE)
qed

end
