(* ===== verification/Mint_History.thy ===== *)
theory Mint_History
  imports Mining_Contract
begin

text \<open>
  What the mint contract guarantees over any run of transactions: its storage is the history its log tells, every
  executed mint had its quorum, its delay and its room in the block, and the supply of the token is made of
  executed mints. The last section shows what \<open>proposeMint\<close> does to a proposal that exists already.
\<close>

section \<open>What the history shows\<close>

text \<open>The state after both contracts were initialized and the owner made the mint contract the minter.\<close>

definition deployed :: "'t erc20 \<Rightarrow> address \<Rightarrow> u256 \<Rightarrow> 't mint_system \<Rightarrow> bool" where
  "deployed T me c0 s \<longleftrightarrow>
     (\<exists>tokenAddress. mining_initialize tokenAddress c0 = Inr (ms_mining s))
     \<and> pt_minter (ms_token s) = me \<and> tk_supply T (pt_ledger (ms_token s)) = 0
     \<and> (\<forall>to n. TokensMinted to n \<notin> set (pt_logs (ms_token s)))"

lemma runs_mining_inv:
  assumes "runs allowed (system_exec T) s s'" and "deployed T me c0 s"
  shows "mining_inv c0 (ms_mining s')"
  using assms(1)
proof (induction rule: runs_invariant)
  case init
  then show ?case using assms(2) by (auto simp: deployed_def initialize_inv)
qed (rule system_step_inv)

lemma lawful_log_suffix: "lawful_log c0 (later @ before) \<Longrightarrow> lawful_log c0 before"
  by (induction c0 later rule: lawful_log.induct) auto

lemma approver_signed:
  assumes "lawful_log c0 l" and "a \<in> approvers p l"
  shows "\<exists>mid b k old. l = mid @ (b, MintApproved p a k) # old \<and> a \<in> signers old \<and> card (signers old) \<le> 5"
  using assms
proof (induction l)
  case (Cons e l)
  obtain b v where e: "e = (b, v)" by fastforce
  show ?case
  proof (cases "a \<in> approvers p l")
    case True
    with Cons e obtain mid b' k old
      where "l = mid @ (b', MintApproved p a k) # old \<and> a \<in> signers old \<and> card (signers old) \<le> 5" by auto
    then have "e # l = (e # mid) @ (b', MintApproved p a k) # old \<and> a \<in> signers old \<and> card (signers old) \<le> 5" by simp
    then show ?thesis by blast
  next
    case False
    with Cons.prems e obtain k where "v = MintApproved p a k" "a \<in> signers l"
      by (cases v) (auto split: if_splits)
    with e Cons.prems(1) have "e # l = [] @ (b, MintApproved p a k) # l \<and> a \<in> signers l \<and> card (signers l) \<le> 5"
      using \<open>v = _\<close> lawful_signers [of c0 l] by simp
    then show ?thesis by blast
  qed
qed simp

lemma minted_sessions_distinct: "lawful_log c0 l \<Longrightarrow> distinct (minted_sessions l)"
proof (induction l)
  case (Cons e l)
  then show ?case by (cases e; cases "snd e") auto
qed simp

text \<open>
  C7: the storage of the mint contract is its log. Whatever transactions are sent to the contract and to its
  token, by whomever and in whatever order, and however the ownership moves, the log is a lawful history and the
  signers, the minted sessions, the ceiling, the totals per block, the open proposals and their approval counts
  in storage are what that history says.
\<close>

theorem mint_storage_replays_log:
  assumes "deployed T me c0 s" and "runs allowed (system_exec T) s s'"
  shows "lawful_log c0 (mc_logs (ms_mining s')) \<and> replays c0 (mc_logs (ms_mining s')) (ms_mining s')"
  using runs_mining_inv [OF assms(2,1)] by (simp add: mining_inv_def)

text \<open>
  C5: a mint that the contract executed was proposed with exactly that session, recipient and amount, at least 48
  hours before and neither cancelled nor executed since; at least three different accounts approved it since it was
  proposed, each of them one of at most five signers when it did; the session had not been minted before, and with
  this mint the block stays within the ceiling in force.
\<close>

theorem executed_mint_had_quorum:
  assumes "deployed T me c0 s" and "runs allowed (system_exec T) s s'"
    and "mc_logs (ms_mining s') = later @ (b, MintExecuted p sid to n) # before"
  shows "(\<exists>t. live p before = Some (t, sid, to, n) \<and> unat t + 48 * 60 * 60 \<le> unat (at_time b))
    \<and> 3 \<le> card (approvers p before)
    \<and> (\<forall>a \<in> approvers p before.
         \<exists>mid b' k old. before = mid @ (b', MintApproved p a k) # old \<and> a \<in> signers old \<and> card (signers old) \<le> 5)
    \<and> sid \<notin> set (minted_sessions before)
    \<and> block_total (at_block b) before + unat n \<le> unat (ceiling c0 before)"
proof -
  have "lawful_log c0 (later @ (b, MintExecuted p sid to n) # before)"
    using runs_mining_inv [OF assms(2,1)] assms(3) by (simp add: mining_inv_def)
  from lawful_log_suffix [OF this] have l: "lawful c0 before b (MintExecuted p sid to n)" "lawful_log c0 before"
    by simp_all
  have "\<exists>mid b' k old. before = mid @ (b', MintApproved p a k) # old \<and> a \<in> signers old \<and> card (signers old) \<le> 5"
    if "a \<in> approvers p before" for a
    using approver_signed [OF l(2) that] by blast
  with l show ?thesis by simp
qed

section \<open>The supply\<close>

fun token_mints :: "token_event list \<Rightarrow> (address \<times> u256) list" where
  "token_mints [] = []"
| "token_mints (TokensMinted to n # l) = (to, n) # token_mints l"
| "token_mints (_ # l) = token_mints l"

fun sets_minter :: "system_call \<Rightarrow> bool" where
  "sets_minter (OnToken c (SetMinter a)) = True"
| "sets_minter _ = False"

definition supply_inv :: "'t erc20 \<Rightarrow> address \<Rightarrow> 't mint_system \<Rightarrow> bool" where
  "supply_inv T me s \<longleftrightarrow> pt_minter (ms_token s) = me
     \<and> token_mints (pt_logs (ms_token s)) = map (\<lambda>(b, p, s, r, n). (r, n)) (executed_mints (mc_logs (ms_mining s)))
     \<and> total_supply T (ms_token s) \<le> minted_total (mc_logs (ms_mining s))"

lemma mining_only_logs:
  assumes "mining_exec T c k s = (Inr (), s')" and "\<nexists>p. k = ExecuteMint p"
  shows "ms_token s' = ms_token s"
    and "executed_mints (mc_logs (ms_mining s')) = executed_mints (mc_logs (ms_mining s))"
  using assms
  by (cases k; auto simp: in_mining_def evmE addSigner_def removeSigner_def setMintCeiling_def proposeMint_def
      approveMint_def cancelMint_def update_proposal_def mining_emit_def)+

lemma token_mints_other:
  assumes "token_exec T c k s = (Inr (), s')" and "\<nexists>to n. k = Mint to n"
  shows "token_mints (pt_logs s') = token_mints (pt_logs s)"
  using assms by (cases k) (auto simp: token_defs evmE)

lemma token_mints_none: "(\<forall>to n. TokensMinted to n \<notin> set l) \<Longrightarrow> token_mints l = []"
  by (induction l rule: token_mints.induct) auto

context token_ledger
begin

lemma supply_step:
  assumes inv: "supply_inv T me s" and ok: "system_exec T k s = (Inr (), s')"
    and who: "minting me k" and no: "\<not> sets_minter k"
  shows "supply_inv T me s'"
proof (cases k)
  case (OnMining c m)
  show ?thesis
  proof (cases "\<exists>p. m = ExecuteMint p")
    case True
    then obtain p where m: "m = ExecuteMint p" ..
    let ?q = "mc_proposals (ms_mining s) p"
    from ok OnMining m have "executeMint T c p s = (Inr (), s')" by simp
    then show ?thesis
      by (rule executeMint_ok [OF _ refl])
        (use inv token_mint_ok in \<open>fastforce simp: supply_inv_def minted_total_def\<close>)
  next
    case False
    with ok OnMining inv show ?thesis
      using mining_only_logs [of T c m s s'] by (simp add: supply_inv_def minted_total_def)
  qed
next
  case (OnToken c m)
  with ok obtain t where t: "token_exec T c m (ms_token s) = (Inr (), t)" "s' = s \<lparr> ms_token := t \<rparr>"
    by (auto simp: in_token_def evmE)
  have other: "msg_sender c \<noteq> pt_minter (ms_token s)" using inv who OnToken by (simp add: supply_inv_def)
  then have notmint: "\<nexists>to n. m = Mint to n" using t(1) by (auto simp: token_defs evmE)
  have "\<nexists>a. m = SetMinter a" using no OnToken by auto
  then show ?thesis
    using inv t token_step_minter [OF t(1)] token_step_supply [OF t(1)] token_mints_other [OF t(1) notmint] other
    by (auto simp: supply_inv_def)
qed

lemma supply_runs:
  assumes "deployed T me c0 s"
    and "runs (\<lambda>k. minting me k \<and> \<not> sets_minter k) (system_exec T) s s'"
  shows "supply_inv T me s'"
  using assms(2)
proof (induction rule: runs_invariant)
  case init
  then show ?case
    using assms(1) by (auto simp: deployed_def supply_inv_def token_mints_none dest: initialize_logs)
next
  case (step k t u)
  then show ?case using supply_step by blast
qed

end

text \<open>
  C11: every PRM is a settled session. As long as the owner does not appoint another minter, the token's mints are
  the executed proposals of the mint contract, one for one and in the same order, each for another session, and
  the total supply is at most their sum (less when the burner burns), whatever transactions reach the two
  contracts.
\<close>

theorem supply_backed_by_executed_mints:
  assumes "token_ledger T" and "deployed T me c0 s"
    and "runs (\<lambda>k. minting me k \<and> \<not> sets_minter k) (system_exec T) s s'"
  shows "token_mints (pt_logs (ms_token s')) = map (\<lambda>(b, p, s, r, n). (r, n)) (executed_mints (mc_logs (ms_mining s')))
    \<and> distinct (minted_sessions (mc_logs (ms_mining s')))
    \<and> total_supply T (ms_token s') \<le> minted_total (mc_logs (ms_mining s'))"
  using token_ledger.supply_runs [OF assms] runs_mining_inv [OF assms(3,2)] minted_sessions_distinct
  by (auto simp: supply_inv_def mining_inv_def)

section \<open>Proposing again\<close>

text \<open>\<open>proposeMint\<close> writes a fresh proposal over an old one of the same id, but leaves \<open>hasApproved\<close> as it was:
  the approvals start at zero again and the signers who approved before cannot approve again.\<close>

definition waiting_signers :: "bytes \<Rightarrow> mining_contract \<Rightarrow> address set" where
  "waiting_signers p m = {a. mc_isSigner m a \<and> \<not> mc_hasApproved m p a}"

definition executions :: "bytes \<Rightarrow> mining_log \<Rightarrow> (block_stamp \<times> bytes \<times> bytes \<times> address \<times> u256) list" where
  "executions p l = filter (\<lambda>(b, q, s, r, n). q = p) (executed_mints l)"

definition blocked :: "bytes \<Rightarrow> mining_contract \<Rightarrow> bool" where
  "blocked p m \<longleftrightarrow> finite (waiting_signers p m)
     \<and> card (waiting_signers p m) + unat (cp_approvals (mc_proposals m p)) < 3"

fun adds_signer :: "system_call \<Rightarrow> bool" where
  "adds_signer (OnMining c (AddSigner a)) = True"
| "adds_signer _ = False"

lemma blocked_subset:
  assumes "blocked p m" and "waiting_signers p m' \<subseteq> waiting_signers p m"
    and "unat (cp_approvals (mc_proposals m' p)) \<le> unat (cp_approvals (mc_proposals m p))"
  shows "blocked p m'"
  using assms card_mono [of "waiting_signers p m" "waiting_signers p m'"]
  by (auto simp: blocked_def intro: finite_subset)

lemma blocked_approve:
  assumes b: "blocked p m" and ok: "approveMint c q m = (Inr (), m')"
  shows "blocked p m' \<and> executions p (mc_logs m') = executions p (mc_logs m)"
proof (cases "q = p")
  case True
  with ok obtain n where w: "msg_sender c \<in> waiting_signers p m"
      and n: "unat n = Suc (unat (cp_approvals (mc_proposals m p)))"
      and m': "m' = m \<lparr> mc_hasApproved := (mc_hasApproved m)(p := (mc_hasApproved m p)(msg_sender c := True)),
        mc_proposals := (mc_proposals m)(p := (mc_proposals m p) \<lparr> cp_approvals := n \<rparr>),
        mc_logs := (stamp c, MintApproved p (msg_sender c) n) # mc_logs m \<rparr>"
    by (auto simp: approveMint_def update_proposal_def evmE mining_emit_def waiting_signers_def)
  have ws: "waiting_signers p m' = waiting_signers p m - {msg_sender c}"
    by (auto simp: m' waiting_signers_def)
  have "0 < card (waiting_signers p m)" using w b by (auto simp: blocked_def card_gt_0_iff)
  moreover have "unat (cp_approvals (mc_proposals m' p)) = Suc (unat (cp_approvals (mc_proposals m p)))"
    and "executions p (mc_logs m') = executions p (mc_logs m)" by (simp_all add: m' n executions_def)
  ultimately show ?thesis
    using b w by (auto simp: blocked_def ws card_Diff_singleton)
next
  case False
  with ok have "waiting_signers p m' = waiting_signers p m" "mc_proposals m' p = mc_proposals m p"
    "executed_mints (mc_logs m') = executed_mints (mc_logs m)"
    by (auto simp: approveMint_def update_proposal_def evmE mining_emit_def waiting_signers_def)
  with b show ?thesis by (simp add: blocked_def executions_def)
qed

lemma blocked_execute:
  assumes b: "blocked p (ms_mining s)" and ok: "executeMint T c q s = (Inr (), s')"
  shows "blocked p (ms_mining s') \<and> executions p (mc_logs (ms_mining s')) = executions p (mc_logs (ms_mining s))"
  using ok
proof (rule executeMint_ok [OF _ refl])
  fix total tok
  let ?q = "mc_proposals (ms_mining s) q"
  assume three: "3 \<le> unat (cp_approvals ?q)"
    and s': "s' = s \<lparr> ms_mining := (ms_mining s) \<lparr> mc_mintedInBlock := (mc_mintedInBlock (ms_mining s))(block_number c := total),
       mc_sessionMinted := (mc_sessionMinted (ms_mining s))(cp_sessionId ?q := True),
       mc_proposals := (mc_proposals (ms_mining s))(q := ?q \<lparr> cp_executed := True \<rparr>),
       mc_logs := (stamp c, MintExecuted q (cp_sessionId ?q) (cp_recipient ?q) (cp_amount ?q)) # mc_logs (ms_mining s) \<rparr>,
       ms_token := tok \<rparr>"
  have "q \<noteq> p" using three b by (auto simp: blocked_def)
  moreover have "blocked p (ms_mining s')"
    using b by (rule blocked_subset) (auto simp: s' waiting_signers_def)
  ultimately show ?thesis by (simp add: s' executions_def)
qed

lemma other_call_waits:
  assumes "mining_exec T c m s = (Inr (), s')" and "\<nexists>a. m = AddSigner a" and "\<nexists>q. m = ApproveMint q"
    and "\<nexists>q. m = ExecuteMint q"
  shows "waiting_signers p (ms_mining s') \<subseteq> waiting_signers p (ms_mining s)"
    and "unat (cp_approvals (mc_proposals (ms_mining s') p)) \<le> unat (cp_approvals (mc_proposals (ms_mining s) p))"
  using assms
  by (cases m; auto simp: in_mining_def evmE removeSigner_def setMintCeiling_def proposeMint_def cancelMint_def
      update_proposal_def mining_emit_def waiting_signers_def split: if_splits)+

lemma blocked_step:
  assumes b: "blocked p (ms_mining s)" and ok: "system_exec T k s = (Inr (), s')" and "\<not> adds_signer k"
  shows "blocked p (ms_mining s') \<and> executions p (mc_logs (ms_mining s')) = executions p (mc_logs (ms_mining s))"
proof (cases k)
  case (OnMining c m)
  with ok have ok': "mining_exec T c m s = (Inr (), s')" by simp
  consider (approve) q where "m = ApproveMint q" | (execute) q where "m = ExecuteMint q"
    | (other) "\<nexists>q. m = ApproveMint q" "\<nexists>q. m = ExecuteMint q" by blast
  then show ?thesis
  proof cases
    case approve
    then show ?thesis using ok' blocked_approve [OF b] by (auto simp: in_mining_def evmE)
  next
    case execute
    then show ?thesis using ok' blocked_execute [OF b] by auto
  next
    case other
    have "\<nexists>a. m = AddSigner a" using assms(3) OnMining by auto
    note quiet = other_call_waits [OF ok' this other]
    show ?thesis using blocked_subset [OF b quiet] mining_only_logs(2) [OF ok' other(2)] by (simp add: executions_def)
  qed
next
  case (OnToken c m)
  then show ?thesis using ok b by (auto simp: in_token_def evmE)
qed

text \<open>
  C35: proposing again can block a mint. When fewer than three of the signers have not yet approved a proposal and
  the owner proposes the same id again, the new proposal can never be executed, whatever transactions follow,
  unless a signer is added: the old approvals no longer count and cannot be given again.
\<close>

theorem proposing_again_blocks:
  assumes "deployed T me c0 s0" and "runs allowed (system_exec T) s0 s"
    and "card (waiting_signers p (ms_mining s)) < 3"
    and "mining_exec T c (ProposeMint p sid to n) s = (Inr (), s1)"
    and "runs (\<lambda>k. \<not> adds_signer k) (system_exec T) s1 s2"
  shows "executions p (mc_logs (ms_mining s2)) = executions p (mc_logs (ms_mining s))"
proof -
  have "\<forall>a. mc_isSigner (ms_mining s) a \<longleftrightarrow> a \<in> signers (mc_logs (ms_mining s))"
    using runs_mining_inv [OF assms(2,1)] by (simp add: mining_inv_defs)
  then have "waiting_signers p (ms_mining s) \<subseteq> signers (mc_logs (ms_mining s))" by (auto simp: waiting_signers_def)
  then have fin: "finite (waiting_signers p (ms_mining s))" by (rule finite_subset) simp
  have "waiting_signers p (ms_mining s1) = waiting_signers p (ms_mining s)"
    and "cp_approvals (mc_proposals (ms_mining s1) p) = 0"
    using assms(4) by (auto simp: in_mining_def evmE proposeMint_def mining_emit_def waiting_signers_def)
  then have b: "blocked p (ms_mining s1)" using assms(3) fin by (simp add: blocked_def)
  have "executions p (mc_logs (ms_mining s1)) = executions p (mc_logs (ms_mining s))"
    using mining_only_logs(2) [OF assms(4)] by (simp add: executions_def)
  moreover have "blocked p (ms_mining s2) \<and> executions p (mc_logs (ms_mining s2)) = executions p (mc_logs (ms_mining s1))"
    using assms(5)
  proof (induction rule: runs_invariant)
    case (step k t u)
    then show ?case using blocked_step [of p t T k u] by simp
  qed (simp add: b)
  ultimately show ?thesis by simp
qed

section \<open>Calls that succeed\<close>

lemma addSigner_runs:
  assumes "msg_sender c = owner_addr c" and "a \<noteq> 0" and "\<not> mc_isSigner m a" and "mc_signerCount m < 5"
  shows "addSigner c a m = (Inr (), m \<lparr> mc_isSigner := (mc_isSigner m)(a := True), mc_signerCount := mc_signerCount m + 1,
     mc_logs := (stamp c, SignerAdded a) # mc_logs m \<rparr>)"
  using assms by (simp add: addSigner_def mining_emit_def mining_consts evm_eval word_less_nat_alt not_less word_le_nat_alt)

lemma proposeMint_runs:
  assumes "msg_sender c = owner_addr c" and "r \<noteq> 0" and "n \<noteq> 0" and "\<not> mc_sessionMinted m s"
  shows "proposeMint c p s r n m = (Inr (), m \<lparr> mc_proposals := (mc_proposals m)(p :=
         \<lparr> cp_sessionId = s, cp_recipient = r, cp_amount = n, cp_proposedAt = block_timestamp c,
           cp_approvals = 0, cp_executed = False, cp_cancelled = False \<rparr>),
     mc_logs := (stamp c, MintProposed p s r n) # mc_logs m \<rparr>)"
  using assms by (simp add: proposeMint_def mining_emit_def evm_eval)

lemma approveMint_runs:
  assumes "mc_isSigner m (msg_sender c)" and "\<not> mc_hasApproved m p (msg_sender c)"
    and "cp_proposedAt (mc_proposals m p) \<noteq> 0" and "\<not> cp_executed (mc_proposals m p)"
    and "\<not> cp_cancelled (mc_proposals m p)" and "cp_approvals (mc_proposals m p) < 255"
  shows "approveMint c p m = (Inr (), m \<lparr>
     mc_hasApproved := (mc_hasApproved m)(p := (mc_hasApproved m p)(msg_sender c := True)),
     mc_proposals := (mc_proposals m)(p := (mc_proposals m p) \<lparr> cp_approvals := cp_approvals (mc_proposals m p) + 1 \<rparr>),
     mc_logs := (stamp c, MintApproved p (msg_sender c) (cp_approvals (mc_proposals m p) + 1)) # mc_logs m \<rparr>)"
  using assms by (simp add: approveMint_def update_proposal_def mining_emit_def evm_eval word_less_nat_alt)

lemma in_mining_runs: "m (ms_mining s) = (Inr (), x) \<Longrightarrow> snd (transact (in_mining m) s) = s \<lparr> ms_mining := x \<rparr>"
  by (simp add: in_mining_def on_part_def transact_def)

section \<open>A worked chain\<close>

text \<open>Five signers, a proposal, three approvals and the execution after the timelock.\<close>

definition demo_id :: bytes where "demo_id = replicate 32 1"

definition demo_ctx :: "address \<Rightarrow> u256 \<Rightarrow> u256 \<Rightarrow> call_ctx" where
  "demo_ctx sender t b = \<lparr> msg_sender = sender, this_addr = 100, owner_addr = 1, block_timestamp = t, block_number = b \<rparr>"

definition demo_contracts :: "ledger mint_system" where
  "demo_contracts =
     \<lparr> ms_mining = (case mining_initialize 50 1000 of Inr m \<Rightarrow> m),
       ms_token = snd (transact (setMinter (demo_ctx 1 5 1) 100) (token_initialize empty_ledger)) \<rparr>"

definition demo_sign_up :: "system_call list" where
  "demo_sign_up = map (\<lambda>a. OnMining (demo_ctx 1 10 2) (AddSigner a)) [2, 3, 4, 5, 6]
     @ [OnMining (demo_ctx 1 1000 3) (ProposeMint demo_id [7] 9 500)]
     @ map (\<lambda>a. OnMining (demo_ctx a 1000 4) (ApproveMint demo_id)) [2, 3, 4]"

definition demo_settled :: "system_call list" where
  "demo_settled = demo_sign_up @ [OnMining (demo_ctx 1 173800 5) (ExecuteMint demo_id)]"

lemma demo_deployed: "deployed ledger_token 100 1000 demo_contracts"
  unfolding deployed_def
proof (intro conjI)
  show "\<exists>tokenAddress. mining_initialize tokenAddress 1000 = Inr (ms_mining demo_contracts)"
    by (rule exI [of _ 50]) (simp add: demo_contracts_def mining_initialize_def)
qed (simp_all add: demo_contracts_def setMinter_def evm_eval demo_ctx_def token_initialize_def token_emit_def
      ledger_token_def empty_ledger_def)

lemma demo_runs: "\<forall>k \<in> set ks. allowed k \<Longrightarrow> runs allowed (system_exec ledger_token) demo_contracts
    (run_txs (system_exec ledger_token) ks demo_contracts)"
  by (rule runs_run_txs [OF runs.start])

lemmas demo_eval = in_mining_runs addSigner_runs proposeMint_runs approveMint_runs demo_ctx_def

definition demo_log :: mining_log where
  "demo_log = map (\<lambda>(a, k). (stamp (demo_ctx a 1000 4), MintApproved demo_id a k)) [(4, 3), (3, 2), (2, 1)]
     @ [(stamp (demo_ctx 1 1000 3), MintProposed demo_id [7] 9 500)]
     @ map (\<lambda>a. (stamp (demo_ctx 1 10 2), SignerAdded a)) [6, 5, 4, 3, 2]"

abbreviation demo_signed :: "ledger mint_system" where
  "demo_signed \<equiv> run_txs (system_exec ledger_token) demo_sign_up demo_contracts"

lemma demo_signed_eval:
  "demo_signed =
     \<lparr> ms_mining = \<lparr> mc_primToken = 50, mc_mintCeilingPerBlock = 1000,
         mc_isSigner = (\<lambda>_. False)(2 := True, 3 := True, 4 := True, 5 := True, 6 := True), mc_signerCount = 5,
         mc_sessionMinted = (\<lambda>_. False),
         mc_proposals = (\<lambda>_. no_chain_proposal)(demo_id := \<lparr> cp_sessionId = [7], cp_recipient = 9, cp_amount = 500,
           cp_proposedAt = 1000, cp_approvals = 3, cp_executed = False, cp_cancelled = False \<rparr>),
         mc_hasApproved = (\<lambda>_ _. False)(demo_id := (\<lambda>_. False)(2 := True, 3 := True, 4 := True)),
         mc_mintedInBlock = (\<lambda>_. 0), mc_logs = demo_log \<rparr>,
       ms_token = \<lparr> pt_minter = 100, pt_burner = 0, pt_ledger = empty_ledger, pt_logs = [MinterUpdated 0 100] \<rparr> \<rparr>"
  unfolding demo_log_def demo_sign_up_def demo_contracts_def mining_initialize_def setMinter_def token_initialize_def
    token_emit_def
  by (simp add: demo_eval, simp add: evm_eval)

lemma ledger_supply: "tk_supply ledger_token = lg_supply"
  by (simp add: ledger_token_def)

lemma run_txs_append: "run_txs exec (ks @ ks') s = run_txs exec ks' (run_txs exec ks s)"
  by (induction ks arbitrary: s) simp_all

abbreviation demo_minted :: "ledger mint_system" where
  "demo_minted \<equiv> demo_signed \<lparr> ms_mining := (ms_mining demo_signed) \<lparr> mc_mintedInBlock := (\<lambda>_. 0)(5 := 500),
         mc_sessionMinted := (\<lambda>_. False)([7] := True),
         mc_proposals := (\<lambda>_. no_chain_proposal)(demo_id := \<lparr> cp_sessionId = [7], cp_recipient = 9, cp_amount = 500,
           cp_proposedAt = 1000, cp_approvals = 3, cp_executed = True, cp_cancelled = False \<rparr>),
         mc_logs := (stamp (demo_ctx 1 173800 5), MintExecuted demo_id [7] 9 500) # demo_log \<rparr>,
       ms_token := \<lparr> pt_minter = 100, pt_burner = 0,
         pt_ledger = \<lparr> lg_balances = (\<lambda>_. 0)(9 := 500), lg_allowances = (\<lambda>_ _. 0), lg_supply = 500 \<rparr>,
         pt_logs = [TokensMinted 9 500, MinterUpdated 0 100] \<rparr> \<rparr>"

lemma demo_executeMint_ok: "executeMint ledger_token (demo_ctx 1 173800 5) demo_id demo_signed = (Inr (), demo_minted)"
  unfolding demo_signed_eval
  by (simp add: demo_ctx_def, simp add: executeMint_def executable_def count_in_block_def update_proposal_def in_mining_def
      in_token_def mining_consts token_mint_def token_emit_def in_ledger_def ledger_token_def empty_ledger_def
      token_check_def mining_emit_def evm_eval)

lemma demo_settled_eval: "run_txs (system_exec ledger_token) demo_settled demo_contracts = demo_minted"
proof -
  have "transact (executeMint ledger_token (demo_ctx 1 173800 5) demo_id) demo_signed = (Inr (), demo_minted)"
    unfolding evmE by (rule demo_executeMint_ok)
  then show ?thesis unfolding demo_settled_def run_txs_append by (simp del: fun_upd_apply)
qed

lemma demo_allowed:
  "\<forall>k \<in> set demo_settled. minting 100 k \<and> \<not> sets_minter k"
  by (simp add: demo_settled_def demo_sign_up_def demo_ctx_def)

theorem mint_storage_replays_log_witness:
  "lawful_log 1000 ((stamp (demo_ctx 1 173800 5), MintExecuted demo_id [7] 9 500) # demo_log)"
  using mint_storage_replays_log [OF demo_deployed demo_runs [of demo_settled "\<lambda>_. True"]]
  by (simp add: demo_settled_eval del: lawful_log.simps lawful.simps)

theorem executed_mint_had_quorum_witness:
  "approvers demo_id demo_log = {2, 3, 4} \<and> 3 \<le> card (approvers demo_id demo_log)"
proof
  show "approvers demo_id demo_log = {2, 3, 4}" by (auto simp: demo_log_def)
  show "3 \<le> card (approvers demo_id demo_log)"
    using executed_mint_had_quorum [OF demo_deployed demo_runs [of demo_settled "\<lambda>_. True"],
        of "[]" "stamp (demo_ctx 1 173800 5)" "demo_id" "[7]" 9 500 demo_log]
    by (simp add: demo_settled_eval)
qed

theorem supply_backed_by_executed_mints_witness:
  "total_supply ledger_token (ms_token (run_txs (system_exec ledger_token) demo_settled demo_contracts)) = 500
   \<and> 500 \<le> minted_total ((stamp (demo_ctx 1 173800 5), MintExecuted demo_id [7] 9 500) # demo_log)"
  using supply_backed_by_executed_mints [OF lg.token_ledger_axioms demo_deployed demo_runs [OF demo_allowed]]
  by (simp add: demo_settled_eval ledger_supply del: history_Cons)

text \<open>Proposed again after three of the five signers approved: the two signers left approve, and no execution
  follows.\<close>

definition demo_reproposed :: "ledger mint_system" where
  "demo_reproposed = snd (mining_exec ledger_token (demo_ctx 1 2000 5) (ProposeMint demo_id [7] 9 500) demo_signed)"

definition demo_retry :: "system_call list" where
  "demo_retry = map (\<lambda>a. OnMining (demo_ctx a 3000 6) (ApproveMint demo_id)) [2, 3, 4, 5, 6]
     @ [OnMining (demo_ctx 1 900000 7) (ExecuteMint demo_id)]"

theorem proposing_again_blocks_witness:
  "executions demo_id (mc_logs (ms_mining (run_txs (system_exec ledger_token) demo_retry demo_reproposed))) = []"
proof -
  have "waiting_signers demo_id (ms_mining demo_signed) = {5, 6}"
    by (auto simp: waiting_signers_def demo_signed_eval split: if_splits)
  then have few: "card (waiting_signers demo_id (ms_mining demo_signed)) < 3" by (simp add: card_insert_if)
  have "fst (mining_exec ledger_token (demo_ctx 1 2000 5) (ProposeMint demo_id [7] 9 500) demo_signed) = Inr ()"
    by (simp add: demo_signed_eval demo_ctx_def in_mining_def on_part_def proposeMint_runs)
  then have ok: "mining_exec ledger_token (demo_ctx 1 2000 5) (ProposeMint demo_id [7] 9 500) demo_signed = (Inr (), demo_reproposed)"
    by (intro prod_eqI) (simp_all add: demo_reproposed_def del: mining_exec.simps)
  have later: "runs (\<lambda>k. \<not> adds_signer k) (system_exec ledger_token) demo_reproposed
      (run_txs (system_exec ledger_token) demo_retry demo_reproposed)"
    by (rule runs_run_txs [OF runs.start]) (simp add: demo_retry_def)
  have "executions demo_id (mc_logs (ms_mining demo_signed)) = []"
    by (simp add: demo_signed_eval executions_def demo_log_def)
  then show ?thesis
    using proposing_again_blocks [OF demo_deployed demo_runs [of demo_sign_up "\<lambda>_. True"] few ok later] by simp
qed

end
