(* ===== verification/Mint_Lifecycle.thy ===== *)
theory Mint_Lifecycle
  imports Cli_Steps Mint_History
begin

text \<open>
  The way of a mint from the database to the contract. Operators run commands of \<open>admin-cli\<close> side by side, each
  command step by step; in between, the service inserts pending rows and anybody sends transactions to the
  contracts. The outside world of the commands holds the contracts of \<open>Mining_Contract\<close>, one pair per chain,
  and the provider library is a parameter with two promises about a writer that is built for a node of a chain and the
  address of its mint contract: while it answers, the chains move only by transactions, and a receipt with success
  means that the contract ran the call.
\<close>

section \<open>The chains behind the provider\<close>

definition chains_move :: "'t erc20 \<Rightarrow> ('w \<Rightarrow> chain \<Rightarrow> 't mint_system) \<Rightarrow> 'w \<Rightarrow> 'w \<Rightarrow> bool" where
  "chains_move T V w w' \<longleftrightarrow> (\<forall>c. runs (\<lambda>_. True) (system_exec T) (V w c) (V w' c))"

definition sends ::
    "'t erc20 \<Rightarrow> ('w \<Rightarrow> chain \<Rightarrow> 't mint_system) \<Rightarrow> chain \<Rightarrow> ('w, 'p) mining_writer \<Rightarrow> ('w, 'p) rpc \<Rightarrow> mining_call \<Rightarrow> bool" where
  "sends T V c mw send k \<longleftrightarrow>
     (\<forall>w. chains_move T V w (snd (send w)))
     \<and> (\<forall>w pending w1 receipt w2. send w = (Inr pending, w1) \<longrightarrow> mw_get_receipt mw pending w1 = (Inr receipt, w2) \<longrightarrow>
          rc_status receipt \<longrightarrow>
          (\<exists>ctx s s'. runs (\<lambda>_. True) (system_exec T) (V w c) s \<and> mining_exec T ctx k s = (Inr (), s')
             \<and> runs (\<lambda>_. True) (system_exec T) s' (V w2 c)))"

definition talks_to :: "'t erc20 \<Rightarrow> ('w \<Rightarrow> chain \<Rightarrow> 't mint_system) \<Rightarrow> chain \<Rightarrow> ('w, 'p) mining_writer \<Rightarrow> bool" where
  "talks_to T V c mw \<longleftrightarrow>
     (\<forall>p s r n. sends T V c mw (mw_proposeMint mw p s r n) (ProposeMint p s r n))
     \<and> (\<forall>p. sends T V c mw (mw_approveMint mw p) (ApproveMint p))
     \<and> (\<forall>p. sends T V c mw (mw_executeMint mw p) (ExecuteMint p))
     \<and> (\<forall>p. sends T V c mw (mw_cancelMint mw p) (CancelMint p))
     \<and> (\<forall>pending w. chains_move T V w (snd (mw_get_receipt mw pending w)))
     \<and> (\<forall>p w. chains_move T V w (snd (mw_proposals mw p w)))"

text \<open>
  The deployment: which URLs are nodes of a chain, and the address of the mint contract on it. The provider library
  promises something only about writers for that contract through such a node; what a writer does at another URL or
  address is open. An operator's settings are wired when each chain they configure has a node and the contract of
  that chain.
\<close>

locale mint_rpc =
  fixes T :: "'t erc20" and V :: "'w \<Rightarrow> chain \<Rightarrow> 't mint_system" and A :: "('w, 'p, 'k) alloy"
    and node_of :: "chain \<Rightarrow> string \<Rightarrow> bool" and mining_at :: "chain \<Rightarrow> address"
  assumes writer_law: "ay_parse_url A rpc = Some url \<Longrightarrow> node_of c url \<Longrightarrow> new_mining_writer A rpc key (mining_at c) = Inr mw
    \<Longrightarrow> talks_to T V c mw"

definition wired :: "('w, 'p, 'k) cli_libs \<Rightarrow> (chain \<Rightarrow> string \<Rightarrow> bool) \<Rightarrow> (chain \<Rightarrow> address) \<Rightarrow> cli \<Rightarrow> bool" where
  "wired L node_of mining_at cli \<longleftrightarrow>
     (\<forall>c rpc mining key pre. chain_settings cli c = (Some rpc, Some mining, Some key, pre) \<longrightarrow>
        (\<forall>url. ay_parse_url (li_alloy L) rpc = Some url \<longrightarrow> node_of c url)
        \<and> (\<forall>a. li_parse_address L mining = Inr a \<longrightarrow> a = mining_at c))"

lemma wired_writer:
  assumes "mint_rpc T V (li_alloy L) node_of mining_at" and "wired L node_of mining_at cli"
    and "build_writer_for_chain L cli c = Inr mw"
  shows "talks_to T V c mw"
proof -
  obtain rpc mining key pre where set: "chain_settings cli c = (Some rpc, Some mining, Some key, pre)"
    using assms(3) by (auto simp: build_writer_for_chain_def split: prod.splits option.splits)
  then obtain a k where a: "li_parse_address L mining = Inr a" "new_mining_writer (li_alloy L) rpc k a = Inr mw"
    using assms(3) by (auto simp: build_writer_for_chain_def map_sum_eq_iff split: sum.splits)
  then obtain url where "ay_parse_url (li_alloy L) rpc = Some url"
    by (auto simp: new_mining_writer_def with_url_def split: option.splits)
  with set a assms(2) show ?thesis
    using mint_rpc.writer_law [OF assms(1)] unfolding wired_def by blast
qed

section \<open>Rows and logs\<close>

text \<open>The event that stands behind a status.\<close>

fun vouches :: "bytes \<Rightarrow> mining_event \<Rightarrow> string \<Rightarrow> bool" where
  "vouches p (MintProposed q s r n) st = (q = p \<and> st = status_debug Submitted)"
| "vouches p (MintExecuted q s r n) st = (q = p \<and> st = status_debug Confirmed)"
| "vouches p (MintCancelled q) st = (q = p \<and> st = status_debug Rejected)"
| "vouches p _ st = False"

definition vouched :: "('w \<Rightarrow> chain \<Rightarrow> 't mint_system) \<Rightarrow> 'w \<Rightarrow> bytes \<Rightarrow> string \<Rightarrow> bool" where
  "vouched V w p st \<longleftrightarrow> (\<exists>c. \<exists>(b, e) \<in> set (mc_logs (ms_mining (V w c))). vouches p e st)"

definition rows_vouched :: "('w \<Rightarrow> chain \<Rightarrow> 't mint_system) \<Rightarrow> ('w, 'p, 'k) cli_libs \<Rightarrow> 'w cli_state \<Rightarrow> bool" where
  "rows_vouched V L s \<longleftrightarrow>
     (\<forall>r \<in> set (db_proposals (cx_db s)). mr_status r \<in> {status_debug Submitted, status_debug Confirmed, status_debug Rejected}
        \<longrightarrow> vouched V (cx_ext s) (derive_proposal_id L (mr_session_id r)) (mr_status r))"

text \<open>An operator's command is matched when the identifier it names is that of the session whose row it
  settles.\<close>

fun matched :: "('w, 'p, 'k) cli_libs \<Rightarrow> command \<Rightarrow> bool" where
  "matched L (Execute p c (Some sid)) = (parse_proposal_id L p = Inr (derive_proposal_id L sid))"
| "matched L (Cancel p c (Some sid)) = (parse_proposal_id L p = Inr (derive_proposal_id L sid))"
| "matched L _ = True"

text \<open>What happens beside the operators: the service adds pending rows and the chains move.\<close>

definition beside :: "'t erc20 \<Rightarrow> ('w \<Rightarrow> chain \<Rightarrow> 't mint_system) \<Rightarrow> 'w cli_state \<Rightarrow> 'w cli_state \<Rightarrow> bool" where
  "beside T V s s' \<longleftrightarrow> chains_move T V (cx_ext s) (cx_ext s')
     \<and> (\<exists>new. db_proposals (cx_db s') = db_proposals (cx_db s) @ new \<and> (\<forall>r \<in> set new. mr_status r = status_debug Pending))"

section \<open>Logs only grow\<close>

lemma system_logs_grow:
  assumes "system_exec T k s = (Inr (), s')"
  shows "\<exists>new. mc_logs (ms_mining s') = new @ mc_logs (ms_mining s)"
proof (cases k)
  case (OnMining c m)
  show ?thesis
  proof (cases "\<exists>p. m = ExecuteMint p")
    case True
    then obtain p where "executeMint T c p s = (Inr (), s')" using assms OnMining by auto
    then show ?thesis by (rule executeMint_ok [OF _ refl]) auto
  next
    case False
    then show ?thesis
      using assms OnMining
      by (cases m) (auto simp: in_mining_def evmE addSigner_def removeSigner_def setMintCeiling_def proposeMint_def
          approveMint_def cancelMint_def update_proposal_def mining_emit_def)
  qed
qed (use assms in \<open>auto simp: in_token_def evmE\<close>)

lemma runs_logs_grow:
  "runs allowed (system_exec T) s s' \<Longrightarrow> \<exists>new. mc_logs (ms_mining s') = new @ mc_logs (ms_mining s)"
proof (induction rule: runs_invariant [where I = "\<lambda>s'. \<exists>new. mc_logs (ms_mining s') = new @ mc_logs (ms_mining s)" for s])
  case (step c t u)
  then obtain new new' where "mc_logs (ms_mining t) = new @ mc_logs (ms_mining s)"
    "mc_logs (ms_mining u) = new' @ mc_logs (ms_mining t)" using system_logs_grow by blast
  then have "mc_logs (ms_mining u) = (new' @ new) @ mc_logs (ms_mining s)" by simp
  then show ?case by blast
qed simp

lemma vouched_grows: "vouched V w p st \<Longrightarrow> chains_move T V w w' \<Longrightarrow> vouched V w' p st"
  unfolding vouched_def chains_move_def using runs_logs_grow [of _ T] by (metis UnCI set_append)

lemma chains_move_refl: "chains_move T V w w"
  by (simp add: chains_move_def runs.start)

lemma chains_move_trans: "chains_move T V w w' \<Longrightarrow> chains_move T V w' w'' \<Longrightarrow> chains_move T V w w''"
  by (auto simp: chains_move_def intro: runs_trans)

interpretation chains: frame "chains_move T V" for T V
  by unfold_locales (rule chains_move_refl, rule chains_move_trans)

lemma chains_callE: "(\<And>w. chains_move T V w (snd (m w))) \<Longrightarrow> within (chains_move T V) (callE m)"
  by (simp add: within_def callE_def map_errE_def split_beta)

lemma chains_orE: "within (chains_move T V) (orE v e)"
  by (simp add: orE_def chains.basics split: option.split)

text \<open>A call of the contract that ran has left its event.\<close>

lemma settling_call_logged:
  assumes "mining_exec T ctx k s = (Inr (), s')"
  shows "k = ProposeMint p sid r n \<Longrightarrow> \<exists>(b, e) \<in> set (mc_logs (ms_mining s')). vouches p e (status_debug Submitted)"
    and "k = ExecuteMint p \<Longrightarrow> \<exists>(b, e) \<in> set (mc_logs (ms_mining s')). vouches p e (status_debug Confirmed)"
    and "k = CancelMint p \<Longrightarrow> \<exists>(b, e) \<in> set (mc_logs (ms_mining s')). vouches p e (status_debug Rejected)"
proof -
  show "\<exists>(b, e) \<in> set (mc_logs (ms_mining s')). vouches p e (status_debug Confirmed)" if "k = ExecuteMint p"
    using assms that by (auto elim!: executeMint_ok [OF _ refl])
qed (use assms in \<open>auto simp: in_mining_def evmE proposeMint_def cancelMint_def update_proposal_def mining_emit_def\<close>)

section \<open>Commands step by step\<close>

definition keeps_vouched ::
    "'t erc20 \<Rightarrow> ('w \<Rightarrow> chain \<Rightarrow> 't mint_system) \<Rightarrow> ('w, 'p, 'k) cli_libs \<Rightarrow> 'w cli_state \<Rightarrow> 'w cli_state \<Rightarrow> bool" where
  "keeps_vouched T V L s s' \<longleftrightarrow> chains_move T V (cx_ext s) (cx_ext s') \<and> (rows_vouched V L s \<longrightarrow> rows_vouched V L s')"

interpretation keeps_vouched: frame "keeps_vouched T V L" for T V L
  by unfold_locales (auto simp: keeps_vouched_def chains_move_refl intro: chains_move_trans)

lemma keeps_vouched_chain:
  "cx_db s' = cx_db s \<Longrightarrow> chains_move T V (cx_ext s) (cx_ext s') \<Longrightarrow> keeps_vouched T V L s s'"
  by (auto simp: keeps_vouched_def rows_vouched_def intro: vouched_grows)

lemma keeps_vouched_beside: "beside T V s s' \<Longrightarrow> keeps_vouched T V L s s'"
  by (auto simp: keeps_vouched_def rows_vouched_def beside_def status_debug.simps intro: vouched_grows)

lemma stable_vouched: "stable (keeps_vouched T V L) (\<lambda>s. vouched V (cx_ext s) p st)"
  by (auto simp: stable_def keeps_vouched_def intro: vouched_grows)

text \<open>Looking, printing and failing move nothing.\<close>

lemma quiet_steps:
  "withinP (keeps_vouched T V L) (fromP r)"
  "withinP (keeps_vouched T V L) (atomicP (println l))"
  "withinP (keeps_vouched T V L) (print_lines_steps ls)"
  "withinP (keeps_vouched T V L) (atomicP (dbE (get_pending_proposals f)))"
proof -
  show "withinP (keeps_vouched T V L) (fromP r)" by (simp add: fromP_def withinP_done split: sum.split)
  show p: "withinP (keeps_vouched T V L) (atomicP (println l))" for l
    by (rule withinP_atomicP) (simp add: within_def println_def keeps_vouched_chain chains_move_refl)
  show "withinP (keeps_vouched T V L) (print_lines_steps ls)"
    by (induction ls) (auto intro: withinP_intros p)
  show "withinP (keeps_vouched T V L) (atomicP (dbE (get_pending_proposals f)))"
  proof (rule withinP_atomicP)
    have "snd (get_pending_proposals f d) = d" for d using pending_run [of f d] by (metis surjective_pairing)
    then show "within (keeps_vouched T V L) (dbE (get_pending_proposals f))"
      by (simp add: within_def dbE_def split_beta keeps_vouched_chain chains_move_refl)
  qed
qed

lemmas quiet_intros = quiet_steps withinP_intros

lemma guarded_fromP:
  assumes "\<And>a. r = Inr a \<Longrightarrow> guarded_by P (k a) K"
  shows "guarded_by P (tryP (fromP r) k) K"
  using assms by (cases r) (simp_all add: fromP_def tryP_def okP_def errP_def guarded_by_done)

text \<open>Writing a status that an event stands behind.\<close>

lemma vouched_update:
  assumes "vouched V (cx_ext s) (derive_proposal_id L sid) (status_debug st)"
  shows "keeps_vouched T V L s (snd (dbE (update_proposal_status f now (SessionId sid) st) s))"
proof -
  have "db_proposals (snd (update_proposal_status f now (SessionId sid) st d)) =
      (case f of None \<Rightarrow> map (\<lambda>r. if mr_session_id r = sid then r \<lparr> mr_status := status_debug st, mr_updated_at := now \<rparr> else r) (db_proposals d)
       | Some _ \<Rightarrow> db_proposals d)" for d
    by (simp add: update_proposal_status_def pg_defs split: option.split)
  then show ?thesis
    using assms by (auto simp: keeps_vouched_def rows_vouched_def dbE_def split_beta chains_move_refl split: option.splits)
qed

lemma guarded_update:
  assumes "\<And>s. K s \<Longrightarrow> vouched V (cx_ext s) (derive_proposal_id L sid) (status_debug st)"
    and "withinP (keeps_vouched T V L) (k ())"
  shows "guarded_by (keeps_vouched T V L) (tryP (atomicP (dbE (update_proposal_status f now (SessionId sid) st))) k) K"
  using assms(2)
  by (intro guarded_by_tryP vouched_update assms(1)) (auto intro: guarded_by_withinP stable_True)

lemma confirmed_move:
  assumes "sends T V c mw send k" and "talks_to T V c mw"
  shows "within (chains_move T V) (confirmed_tx mw send)"
proof -
  have "chains_move T V w (snd (send w))" "chains_move T V w (snd (mw_get_receipt mw pending w))" for w pending
    using assms by (simp_all add: sends_def talks_to_def)
  then show ?thesis unfolding confirmed_tx_def by (intro chains.basics chains_callE)
qed

lemma confirmed_ran:
  assumes "sends T V c mw send k" and "confirmed_tx mw send w = (Inr tx, w')"
  shows "\<exists>ctx s s'. mining_exec T ctx k s = (Inr (), s') \<and> runs (\<lambda>_. True) (system_exec T) s' (V w' c)"
proof -
  from assms(2) obtain pending w1 receipt where "send w = (Inr pending, w1)"
    "mw_get_receipt mw pending w1 = (Inr receipt, w')" "rc_status receipt"
    by (auto simp: confirmed_tx_def tryE_def callE_def map_errE_def okE_def errE_def map_sum_eq_iff
        split: prod.splits sum.splits if_splits)
  with assms(1) show ?thesis unfolding sends_def by blast
qed

lemma chain_step_keeps:
  assumes "talks_to T V c mw" and "sends T V c mw send k"
  shows "keeps_vouched T V L s (snd (chainE (confirmed_tx mw send) s))"
  using confirmed_move [OF assms(2,1)]
  by (intro keeps_vouched_chain) (simp_all add: chainE_def split_beta within_def)

text \<open>A transaction with its receipt, and what the command knows after it.\<close>

lemma guarded_settle:
  assumes "talks_to T V c mw" and "sends T V c mw send k"
    and logged: "\<And>ctx s s'. mining_exec T ctx k s = (Inr (), s') \<Longrightarrow> \<exists>(b, e) \<in> set (mc_logs (ms_mining s')). vouches p e st"
    and rest: "\<And>tx. guarded_by (keeps_vouched T V L) (g tx) (\<lambda>s. vouched V (cx_ext s) p st)"
  shows "guarded_by (keeps_vouched T V L) (tryP (atomicP (chainE (confirmed_tx mw send))) g) K"
proof (rule guarded_by_tryP)
  show "keeps_vouched T V L s (snd (chainE (confirmed_tx mw send) s))" for s
    by (rule chain_step_keeps [OF assms(1,2)])
next
  fix s tx s'
  assume "chainE (confirmed_tx mw send) s = (Inr tx, s')"
  then obtain w where w: "confirmed_tx mw send (cx_ext s) = (Inr tx, w)" "s' = s \<lparr> cx_ext := w \<rparr>" by (auto simp: chainE_Inr)
  obtain ctx t t' where "mining_exec T ctx k t = (Inr (), t')" and r: "runs (\<lambda>_. True) (system_exec T) t' (V w c)"
    using confirmed_ran [OF assms(2) w(1)] by blast
  then obtain b e where "(b, e) \<in> set (mc_logs (ms_mining t'))" "vouches p e st" using logged by blast
  then have "vouched V (cx_ext s') p st"
    unfolding vouched_def w(2) using runs_logs_grow [OF r] by (intro exI [of _ c]) auto
  then show "\<exists>K'. stable (keeps_vouched T V L) K' \<and> K' s' \<and> guarded_by (keeps_vouched T V L) (g tx) K'"
    using stable_vouched [of T V L p st] rest by blast
qed

lemma guarded_on_chain:
  assumes "\<And>pid c mw. parse_proposal_id L p = Inr pid \<Longrightarrow> build_writer_for_chain L cli c = Inr mw
    \<Longrightarrow> guarded_by P (f pid c mw) K"
  shows "guarded_by P (on_chain_steps L cli p raw f) K"
  unfolding on_chain_steps_def by (intro guarded_fromP assms)

lemma guarded_db_status:
  assumes "\<And>sid. session_id = Some sid \<Longrightarrow> pid = derive_proposal_id L sid"
  shows "guarded_by (keeps_vouched T V L) (update_db_status_steps L cli fault now session_id st)
    (\<lambda>s. vouched V (cx_ext s) pid (status_debug st))"
proof (cases session_id)
  case None
  then show ?thesis by (simp add: update_db_status_steps_def guarded_by_withinP quiet_steps)
next
  case (Some sid)
  then show ?thesis
    unfolding update_db_status_steps_def using assms
    by (auto intro!: guarded_fromP guarded_update quiet_steps)
qed

lemma guarded_settlement:
  assumes "talks_to T V c mw" and "sends T V c mw send k"
    and "\<And>ctx s s'. mining_exec T ctx k s = (Inr (), s') \<Longrightarrow>
      \<exists>(b, e) \<in> set (mc_logs (ms_mining s')). vouches pid e (status_debug st)"
    and "\<And>sid. session_id = Some sid \<Longrightarrow> pid = derive_proposal_id L sid"
  shows "guarded_by (keeps_vouched T V L) (tryP (atomicP (chainE (confirmed_tx mw send))) (\<lambda>tx.
      tryP (print_lines_steps (ls tx)) (\<lambda>_. update_db_status_steps L cli fault now session_id st))) K"
  by (rule guarded_settle [OF assms(1,2), where p = pid and st = "status_debug st"], erule assms(3))
    (rule guarded_by_after, rule quiet_steps, rule stable_vouched, rule guarded_db_status, erule assms(4))

text \<open>The commands of one operator whose settings are wired.\<close>

locale mint_operator = mint_rpc T V "li_alloy L" node_of mining_at
  for T :: "'t erc20" and V :: "'w \<Rightarrow> chain \<Rightarrow> 't mint_system" and L :: "('w, 'p, 'k) cli_libs"
    and node_of :: "chain \<Rightarrow> string \<Rightarrow> bool" and mining_at :: "chain \<Rightarrow> address" +
  fixes cli :: cli
  assumes wired_cli: "wired L node_of mining_at cli"
begin

lemma writer: "build_writer_for_chain L cli c = Inr mw \<Longrightarrow> talks_to T V c mw"
  by (rule wired_writer [OF mint_rpc_axioms wired_cli])

lemma guarded_execute:
  assumes "matched L (Execute p raw session_id)"
  shows "guarded_by (keeps_vouched T V L) (run_execute_steps L cli fault now p raw session_id) K"
  unfolding run_execute_steps_def execute_mint_def
proof (rule guarded_on_chain)
  fix pid c mw
  assume pid: "parse_proposal_id L p = Inr pid" and mw: "build_writer_for_chain L cli c = Inr mw"
  show "guarded_by (keeps_vouched T V L) (tryP (atomicP (chainE (confirmed_tx mw (mw_executeMint mw pid)))) (\<lambda>tx.
      tryP (print_lines_steps [''chain: '' @ chain_as_str c, ''tx: 0x'' @ hex_encode tx]) (\<lambda>_.
      update_db_status_steps L cli fault now session_id Confirmed))) K"
  proof (rule guarded_settlement [OF writer [OF mw], where k = "ExecuteMint pid" and pid = pid])
    show "sends T V c mw (mw_executeMint mw pid) (ExecuteMint pid)" using writer [OF mw] by (simp add: talks_to_def)
  qed (rule settling_call_logged(2) [OF _ refl], assumption, use assms pid in simp)
qed

lemma guarded_cancel:
  assumes "matched L (Cancel p raw session_id)"
  shows "guarded_by (keeps_vouched T V L) (run_cancel_steps L cli fault now p raw session_id) K"
  unfolding run_cancel_steps_def cancel_mint_def
proof (rule guarded_on_chain)
  fix pid c mw
  assume pid: "parse_proposal_id L p = Inr pid" and mw: "build_writer_for_chain L cli c = Inr mw"
  show "guarded_by (keeps_vouched T V L) (tryP (atomicP (chainE (confirmed_tx mw (mw_cancelMint mw pid)))) (\<lambda>tx.
      tryP (print_lines_steps [''chain: '' @ chain_as_str c, ''tx: 0x'' @ hex_encode tx]) (\<lambda>_.
      update_db_status_steps L cli fault now session_id Rejected))) K"
  proof (rule guarded_settlement [OF writer [OF mw], where k = "CancelMint pid" and pid = pid])
    show "sends T V c mw (mw_cancelMint mw pid) (CancelMint pid)" using writer [OF mw] by (simp add: talks_to_def)
  qed (rule settling_call_logged(3) [OF _ refl], assumption, use assms pid in simp)
qed

lemma guarded_propose:
  "guarded_by (keeps_vouched T V L) (run_propose_steps L cli fault now session_id) (\<lambda>_. True)"
  unfolding run_propose_steps_def propose_mint_def Let_def
proof (rule guarded_fromP, rule guarded_by_after, rule quiet_steps, rule stable_True, (rule guarded_fromP)+)
  fix rows row c recipient amount mw
  assume mw: "build_writer_for_chain L cli c = Inr mw"
  let ?p = "derive_proposal_id L session_id"
  have s: "sends T V c mw (mw_proposeMint mw ?p ?p recipient (ucast amount)) (ProposeMint ?p ?p recipient (ucast amount))"
    using writer [OF mw] by (simp add: talks_to_def)
  show "guarded_by (keeps_vouched T V L) (tryP (atomicP (chainE (confirmed_tx mw (mw_proposeMint mw ?p ?p recipient (ucast amount))))) (\<lambda>tx.
      tryP (atomicP (dbE (update_proposal_status (fault 1) now (SessionId session_id) Submitted))) (\<lambda>_.
      print_lines_steps [''proposalId: 0x'' @ hex_encode ?p, ''chain:      '' @ chain_as_str c,
        ''recipient:  '' @ li_addr_display L recipient, ''amount:     '' @ show_nat (unat amount),
        ''tx:         0x'' @ hex_encode tx]))) (\<lambda>_. True)"
    by (rule guarded_settle [OF writer [OF mw] s, where p = ?p and st = "status_debug Submitted"])
      (erule settling_call_logged(1) [OF _ refl], intro guarded_update quiet_steps)
qed

lemma looking_steps:
  "withinP (keeps_vouched T V L) (run_list_steps L cli fault)"
  "withinP (keeps_vouched T V L) (run_approve_steps L cli p raw)"
  "withinP (keeps_vouched T V L) (run_status_steps L cli t p raw)"
proof -
  have read: "withinP (keeps_vouched T V L) (atomicP (chainE (get_proposal mw pid)))"
    if "build_writer_for_chain L cli c = Inr mw" for c mw pid
  proof (rule withinP_atomicP)
    have "chains_move T V w (snd (mw_proposals mw pid w))" for w using writer [OF that] by (simp add: talks_to_def)
    then have "within (chains_move T V) (get_proposal mw pid)"
      unfolding get_proposal_def by (intro chains.basics chains_callE chains_orE)
    then show "within (keeps_vouched T V L) (chainE (get_proposal mw pid))"
      by (simp add: within_def chainE_def split_beta keeps_vouched_chain)
  qed
  have approve: "withinP (keeps_vouched T V L) (atomicP (chainE (approve_mint mw pid)))"
    if "build_writer_for_chain L cli c = Inr mw" for c mw pid
  proof (rule withinP_atomicP)
    have "sends T V c mw (mw_approveMint mw pid) (ApproveMint pid)" using writer [OF that] by (simp add: talks_to_def)
    then show "within (keeps_vouched T V L) (chainE (approve_mint mw pid))"
      unfolding approve_mint_def within_def using chain_step_keeps [OF writer [OF that]] by blast
  qed
  have on_chain: "withinP (keeps_vouched T V L) (on_chain_steps L cli p raw f)"
    if "\<And>pid c mw. build_writer_for_chain L cli c = Inr mw \<Longrightarrow> withinP (keeps_vouched T V L) (f pid c mw)" for p raw f
    unfolding on_chain_steps_def
    by (cases "parse_proposal_id L p"; cases "parse_chain raw"; cases "build_writer_for_chain L cli (projr (parse_chain raw))")
      (simp_all add: fromP_def tryP_def okP_def errP_def that)
  show "withinP (keeps_vouched T V L) (run_list_steps L cli fault)"
    unfolding run_list_steps_def by (intro quiet_intros)
  show "withinP (keeps_vouched T V L) (run_approve_steps L cli p raw)"
    unfolding run_approve_steps_def by (intro on_chain quiet_intros read approve)
  show "withinP (keeps_vouched T V L) (run_status_steps L cli t p raw)"
    unfolding run_status_steps_def by (intro on_chain quiet_intros read)
qed

lemma guarded_command:
  assumes "matched L cmd"
  shows "guarded_by (keeps_vouched T V L) (run_command_steps L cli fault now secs cmd) (\<lambda>_. True)"
  using assms
  by (cases cmd) (auto intro: guarded_propose guarded_execute guarded_cancel guarded_by_withinP looking_steps
      simp del: matched.simps)

end

lemma operators_keep_vouched:
  assumes "mint_rpc T V (li_alloy L) node_of mining_at"
    and "interleaves (beside T V) (map (\<lambda>(cli, fault, now, secs, cmd). run_command_steps L cli fault now secs cmd) ops, s) (ps, s')"
    and "\<forall>(cli, fault, now, secs, cmd) \<in> set ops. wired L node_of mining_at cli \<and> matched L cmd"
  shows "keeps_vouched T V L s s'"
proof (rule keeps_vouched.interleaved_guarded [OF assms(2)])
  have "guarded_by (keeps_vouched T V L) (run_command_steps L cli fault now secs cmd) (\<lambda>_. True)"
    if "wired L node_of mining_at cli" "matched L cmd" for cli fault now secs cmd
    using mint_operator.guarded_command [OF mint_operator.intro [OF assms(1) mint_operator_axioms.intro]] that by blast
  then show "\<forall>p \<in> set (map (\<lambda>(cli, fault, now, secs, cmd). run_command_steps L cli fault now secs cmd) ops).
      guarded_by (keeps_vouched T V L) p (\<lambda>_. True)"
    using assms(3) by auto
qed (rule keeps_vouched_beside)

section \<open>Every status has its event\<close>

abbreviation operator_pool ::
    "('w, 'p, 'k) cli_libs \<Rightarrow> (cli \<times> (nat \<Rightarrow> string option) \<times> datetime \<times> u64 \<times> command) list \<Rightarrow> ('w cli_state, string, unit) prog list" where
  "operator_pool L ops \<equiv> map (\<lambda>(cli, fault, now, secs, cmd). run_command_steps L cli fault now secs cmd) ops"

lemma runs_lawful_log:
  assumes "deployed T me c0 s0" and "runs allowed (system_exec T) s0 s" and "runs (\<lambda>_. True) (system_exec T) s s'"
  shows "lawful_log c0 (mc_logs (ms_mining s'))"
proof -
  have "mining_inv c0 (ms_mining s)" by (rule runs_mining_inv [OF assms(2,1)])
  with assms(3) have "mining_inv c0 (ms_mining s')"
    by (induction rule: runs_invariant) (auto intro: system_step_inv)
  then show ?thesis by (simp add: mining_inv_def)
qed

lemma vouched_events:
  "vouched V w p (status_debug Submitted) \<Longrightarrow> \<exists>c b sid to n. (b, MintProposed p sid to n) \<in> set (mc_logs (ms_mining (V w c)))"
  "vouched V w p (status_debug Rejected) \<Longrightarrow> \<exists>c b. (b, MintCancelled p) \<in> set (mc_logs (ms_mining (V w c)))"
  "vouched V w p (status_debug Confirmed) \<Longrightarrow> \<exists>c b sid to n. (b, MintExecuted p sid to n) \<in> set (mc_logs (ms_mining (V w c)))"
proof -
  have event: "\<exists>c b e. (b, e) \<in> set (mc_logs (ms_mining (V w c))) \<and> vouches p e st" if "vouched V w p st" for st
    using that unfolding vouched_def by blast
  { assume "vouched V w p (status_debug Submitted)"
    then obtain c b e where "(b, e) \<in> set (mc_logs (ms_mining (V w c)))" "vouches p e (status_debug Submitted)" using event by blast
    then show "\<exists>c b sid to n. (b, MintProposed p sid to n) \<in> set (mc_logs (ms_mining (V w c)))" by (cases e; auto; blast) }
  { assume "vouched V w p (status_debug Rejected)"
    then obtain c b e where "(b, e) \<in> set (mc_logs (ms_mining (V w c)))" "vouches p e (status_debug Rejected)" using event by blast
    then show "\<exists>c b. (b, MintCancelled p) \<in> set (mc_logs (ms_mining (V w c)))" by (cases e) auto }
  { assume "vouched V w p (status_debug Confirmed)"
    then obtain c b e where "(b, e) \<in> set (mc_logs (ms_mining (V w c)))" "vouches p e (status_debug Confirmed)" using event by blast
    then show "\<exists>c b sid to n. (b, MintExecuted p sid to n) \<in> set (mc_logs (ms_mining (V w c)))" by (cases e; auto; blast) }
qed

lemma lawful_mint_event:
  assumes "lawful_log c0 l" and "(b, MintExecuted p sid to n) \<in> set l"
  shows "\<exists>later before t. l = later @ (b, MintExecuted p sid to n) # before \<and> live p before = Some (t, sid, to, n)
    \<and> unat t + 48 * 60 * 60 \<le> unat (at_time b) \<and> 3 \<le> card (approvers p before)"
proof -
  obtain later before where l: "l = later @ (b, MintExecuted p sid to n) # before" using split_list [OF assms(2)] by blast
  then have "lawful c0 before b (MintExecuted p sid to n)" using lawful_log_suffix assms(1) by fastforce
  with l show ?thesis by auto
qed

text \<open>
  C4: the database tells the truth about the chain. Operators run commands side by side, each step of one
  between steps of the others, while the service adds pending rows and anybody sends transactions to the
  contracts. Every operator's settings name a node and the mint contract of each chain they configure, the provider
  library keeps its promise for such a writer, and every execute and cancel names the identifier derived from the
  session it settles. If every settled row had its event at the beginning, then at every moment a row marked Submitted,
  Confirmed or Rejected has on one of the chains the event MintProposed, MintExecuted or MintCancelled of the identifier
  derived from its session; and a Confirmed mint was approved by at least three different accounts, at least 48 hours
  after it was proposed.
\<close>

theorem settled_rows_have_events:
  assumes "mint_rpc T V (li_alloy L) node_of mining_at"
    and "\<forall>(cli, fault, now, secs, cmd) \<in> set ops. wired L node_of mining_at cli \<and> matched L cmd"
    and "\<forall>c. \<exists>me c0 s0 allowed. deployed T me c0 s0 \<and> runs allowed (system_exec T) s0 (V (cx_ext s) c)"
    and "rows_vouched V L s" and "interleaves (beside T V) (operator_pool L ops, s) (ps, s')"
    and "row \<in> set (db_proposals (cx_db s'))"
    and "p = derive_proposal_id L (mr_session_id row)"
  shows "(mr_status row = status_debug Submitted \<longrightarrow>
      (\<exists>c b sid to n. (b, MintProposed p sid to n) \<in> set (mc_logs (ms_mining (V (cx_ext s') c)))))
    \<and> (mr_status row = status_debug Rejected \<longrightarrow>
      (\<exists>c b. (b, MintCancelled p) \<in> set (mc_logs (ms_mining (V (cx_ext s') c)))))
    \<and> (mr_status row = status_debug Confirmed \<longrightarrow>
      (\<exists>c b sid to n later before t. mc_logs (ms_mining (V (cx_ext s') c)) = later @ (b, MintExecuted p sid to n) # before
         \<and> live p before = Some (t, sid, to, n) \<and> unat t + 48 * 60 * 60 \<le> unat (at_time b) \<and> 3 \<le> card (approvers p before)))"
proof -
  have kv: "keeps_vouched T V L s s'" by (rule operators_keep_vouched [OF assms(1,5,2)])
  then have "rows_vouched V L s'" using assms(4) by (simp add: keeps_vouched_def)
  then have v: "vouched V (cx_ext s') p (mr_status row)"
    if "mr_status row \<in> {status_debug Submitted, status_debug Confirmed, status_debug Rejected}"
    using assms(6,7) that unfolding rows_vouched_def by blast
  have "runs (\<lambda>_. True) (system_exec T) (V (cx_ext s) c) (V (cx_ext s') c)" for c
    using kv by (simp add: keeps_vouched_def chains_move_def)
  with assms(3) have lawful: "\<exists>c0. lawful_log c0 (mc_logs (ms_mining (V (cx_ext s') c)))" for c
    using runs_lawful_log by blast
  show ?thesis
  proof (intro conjI impI)
    assume st: "mr_status row = status_debug Confirmed"
    with v obtain c b sid to n where e: "(b, MintExecuted p sid to n) \<in> set (mc_logs (ms_mining (V (cx_ext s') c)))"
      using vouched_events(3) by fastforce
    obtain c0 where "lawful_log c0 (mc_logs (ms_mining (V (cx_ext s') c)))" using lawful by blast
    from lawful_mint_event [OF this e]
    show "\<exists>c b sid to n later before t. mc_logs (ms_mining (V (cx_ext s') c)) = later @ (b, MintExecuted p sid to n) # before
         \<and> live p before = Some (t, sid, to, n) \<and> unat t + 48 * 60 * 60 \<le> unat (at_time b) \<and> 3 \<le> card (approvers p before)"
      by blast
  qed (use v vouched_events(1,2) in fastforce)+
qed

subsection \<open>A provider that runs the contracts\<close>

text \<open>Two chains, each with one node and the mint contract at address 9; nobody answers anywhere else.\<close>

fun node_name :: "chain \<Rightarrow> string" where
  "node_name Ethereum = ''rpc''"
| "node_name Polygon = ''polygon''"

definition chain_at :: "string \<Rightarrow> address \<Rightarrow> chain option" where
  "chain_at url a = (if a \<noteq> 9 then None else if url = ''rpc'' then Some Ethereum else if url = ''polygon'' then Some Polygon else None)"

lemma chain_at_node: "chain_at (node_name c) 9 = Some c"
  by (cases c) (simp_all add: chain_at_def)

definition rpc_down :: "'w \<Rightarrow> (string + 'a) \<times> 'w" where
  "rpc_down w = (Inl ''unreachable'', w)"

text \<open>A key is the account that sends; a pending transaction is whether it succeeded.\<close>

definition rpc_send :: "chain \<Rightarrow> address \<Rightarrow> mining_call \<Rightarrow> (chain \<Rightarrow> ledger mint_system, bool) rpc" where
  "rpc_send c key k = (\<lambda>w. case transact (mining_exec ledger_token (demo_ctx key 173800 5) k) (w c) of
     (r, x) \<Rightarrow> (Inr (r = Inr ()), w(c := x)))"

definition rpc_route :: "string \<Rightarrow> address \<Rightarrow> address \<Rightarrow> mining_call \<Rightarrow> (chain \<Rightarrow> ledger mint_system, bool) rpc" where
  "rpc_route url key a k = (case chain_at url a of None \<Rightarrow> rpc_down | Some c \<Rightarrow> rpc_send c key k)"

definition contract_alloy :: "(chain \<Rightarrow> ledger mint_system, bool, address) alloy" where
  "contract_alloy = \<lparr>ay_parse_url = Some, ay_address = id, ay_get_block_number = (\<lambda>u. rpc_down),
      ay_get_block = (\<lambda>u n. rpc_down), ay_transaction_count = (\<lambda>u a. rpc_down),
      ay_submitPrice = (\<lambda>u k a c v n. rpc_down),
      ay_get_receipt = (\<lambda>u ok w. if u \<in> range node_name then (Inr \<lparr>rc_status = ok, rc_transaction_hash = [171]\<rparr>, w) else rpc_down w),
      ay_proposeMint = (\<lambda>u k a p s r v. rpc_route u k a (ProposeMint p s r v)),
      ay_approveMint = (\<lambda>u k a p. rpc_route u k a (ApproveMint p)),
      ay_executeMint = (\<lambda>u k a p. rpc_route u k a (ExecuteMint p)), ay_cancelMint = (\<lambda>u k a p. rpc_route u k a (CancelMint p)),
      ay_proposals = (\<lambda>u a p. rpc_down), ay_stakes = (\<lambda>u a h. rpc_down), ay_currentEdgeBps = (\<lambda>u a. rpc_down),
      ay_usdc = (\<lambda>u a. rpc_down), ay_usdt = (\<lambda>u a. rpc_down), ay_balanceOf = (\<lambda>u t a. rpc_down),
      ay_totalReserveUsd = (\<lambda>u a. rpc_down), ay_totalRedeemedUsd = (\<lambda>u a. rpc_down)\<rparr>"

definition contract_libs :: "(chain \<Rightarrow> ledger mint_system, bool, address) cli_libs" where
  "contract_libs = \<lparr>li_hex_decode = (\<lambda>s. Inr demo_id), li_keccak256 = (\<lambda>b. demo_id),
     li_parse_address = (\<lambda>s. if s = ''0x7'' then Inr 9 else Inl ''odd length''),
     li_addr_display = (\<lambda>a. ''0x9''), li_parse_key = (\<lambda>s. Inr 1), li_alloy = contract_alloy, li_store_new = (\<lambda>u. None)\<rparr>"

lemma rpc_send_moves: "chains_move ledger_token (\<lambda>w. w) w (snd (rpc_send c key k w))"
proof -
  obtain r x where r: "transact (mining_exec ledger_token (demo_ctx key 173800 5) k) (w c) = (r, x)" by fastforce
  have "runs (\<lambda>_. True) (system_exec ledger_token) (w c) x"
    by (rule runs.tx [OF runs.start, where c = "OnMining (demo_ctx key 173800 5) k" and r = r]) (simp_all add: r)
  then show ?thesis by (simp add: chains_move_def rpc_send_def r runs.start)
qed

lemma rpc_send_ran:
  assumes "rpc_send c key k w = (Inr True, w')"
  shows "\<exists>ctx s s'. runs (\<lambda>_. True) (system_exec ledger_token) (w c) s \<and> mining_exec ledger_token ctx k s = (Inr (), s')
    \<and> runs (\<lambda>_. True) (system_exec ledger_token) s' (w' c)"
proof -
  have "transact (mining_exec ledger_token (demo_ctx key 173800 5) k) (w c) = (Inr (), w' c)"
    using assms by (auto simp: rpc_send_def split: prod.splits)
  then show ?thesis by (auto simp: evmE simp del: mining_exec.simps intro: runs.start)
qed

lemma rpc_sends:
  assumes "mw_get_receipt mw = (\<lambda>ok w. (Inr \<lparr>rc_status = ok, rc_transaction_hash = [171]\<rparr>, w))"
  shows "sends ledger_token (\<lambda>w. w) c mw (rpc_send c key k) k"
  unfolding sends_def
proof (intro conjI allI impI)
  fix w pending w1 receipt w2
  assume "rpc_send c key k w = (Inr pending, w1)" "mw_get_receipt mw pending w1 = (Inr receipt, w2)" "rc_status receipt"
  then have "rpc_send c key k w = (Inr True, w2)" using assms by auto
  then show "\<exists>ctx s s'. runs (\<lambda>_. True) (system_exec ledger_token) (w c) s \<and> mining_exec ledger_token ctx k s = (Inr (), s')
      \<and> runs (\<lambda>_. True) (system_exec ledger_token) s' (w2 c)" by (rule rpc_send_ran)
qed (rule rpc_send_moves)

interpretation contract_rpc: mint_rpc ledger_token "\<lambda>w. w" contract_alloy "\<lambda>c url. url = node_name c" "\<lambda>c. 9"
proof unfold_locales
  fix rpc url c key mw
  assume "ay_parse_url contract_alloy rpc = Some url" "url = node_name c" "new_mining_writer contract_alloy rpc key 9 = Inr mw"
  then have mw: "mw = \<lparr>mw_proposeMint = (\<lambda>p s r v. rpc_send c key (ProposeMint p s r v)),
      mw_approveMint = (\<lambda>p. rpc_send c key (ApproveMint p)),
      mw_executeMint = (\<lambda>p. rpc_send c key (ExecuteMint p)), mw_cancelMint = (\<lambda>p. rpc_send c key (CancelMint p)),
      mw_get_receipt = (\<lambda>ok w. (Inr \<lparr>rc_status = ok, rc_transaction_hash = [171]\<rparr>, w)), mw_proposals = (\<lambda>p. rpc_down)\<rparr>"
    by (auto simp: contract_alloy_def new_mining_writer_def with_url_def rpc_route_def chain_at_node)
  show "talks_to ledger_token (\<lambda>w. w) c mw"
    by (simp add: talks_to_def mw rpc_sends rpc_down_def chains_move_refl)
qed

lemma demo_wired: "wired contract_libs (\<lambda>c url. url = node_name c) (\<lambda>c. 9) demo_cli"
  by (auto simp: wired_def chain_settings_def demo_cli_def contract_libs_def contract_alloy_def split: chain.splits if_splits)

interpretation contract_operator: mint_operator ledger_token "\<lambda>w. w" contract_libs "\<lambda>c url. url = node_name c" "\<lambda>c. 9" demo_cli
proof unfold_locales
  show "talks_to ledger_token (\<lambda>w. w) c mw"
    if "ay_parse_url (li_alloy contract_libs) rpc = Some url" "url = node_name c"
      "new_mining_writer (li_alloy contract_libs) rpc key 9 = Inr mw" for rpc url c key mw
    using contract_rpc.writer_law that by (simp add: contract_libs_def)
qed (rule demo_wired)

definition settle_row :: proposal_row where
  "settle_row = sample_row \<lparr> mr_session_id := ''t'', mr_status := ''Submitted'' \<rparr>"

definition settle_state :: "(chain \<Rightarrow> ledger mint_system) cli_state" where
  "settle_state = \<lparr>cx_db = \<lparr>db_anomalies = [], db_proposals = [settle_row]\<rparr>, cx_ext = (\<lambda>c. demo_signed), cx_out = []\<rparr>"

definition settle_command :: "cli \<times> (nat \<Rightarrow> string option) \<times> datetime \<times> u64 \<times> command" where
  "settle_command = (demo_cli, (\<lambda>_. None), 5, 0, Execute ''00'' ''ethereum'' (Some ''t''))"

lemma settle_execute:
  obtains mw w where "build_writer_for_chain contract_libs demo_cli Ethereum = Inr mw"
    "execute_mint mw demo_id (\<lambda>c. demo_signed) = (Inr [171], w)"
proof -
  have "transact (mining_exec ledger_token (demo_ctx 1 173800 5) (ExecuteMint demo_id)) demo_signed = (Inr (), demo_minted)"
    using demo_executeMint_ok by (simp add: evmE)
  moreover have "''rpc'' \<in> range node_name" by (metis node_name.simps(1) rangeI)
  ultimately have "execute_mint (projr (build_writer_for_chain contract_libs demo_cli Ethereum)) demo_id (\<lambda>c. demo_signed)
      = (Inr [171], (\<lambda>c. demo_signed)(Ethereum := demo_minted))"
    by (simp add: execute_mint_def confirmed_tx_def build_writer_for_chain_def chain_settings_def demo_cli_def contract_libs_def
      contract_alloy_def new_mining_writer_def with_url_def rpc_route_def chain_at_def rpc_send_def tryE_def callE_def map_errE_def
      okE_def del: mining_exec.simps)
  then show ?thesis
    by (rule that [rotated]) (simp add: build_writer_for_chain_def chain_settings_def demo_cli_def contract_libs_def
      contract_alloy_def new_mining_writer_def with_url_def)
qed

lemma settle_runs:
  "runP (run_command_steps contract_libs demo_cli (\<lambda>_. None) 5 0 (Execute ''00'' ''ethereum'' (Some ''t''))) settle_state
     = (Inr (), snd (run_command contract_libs demo_cli (\<lambda>_. None) 5 0 (Execute ''00'' ''ethereum'' (Some ''t'')) settle_state))
   \<and> db_proposals (cx_db (snd (run_command contract_libs demo_cli (\<lambda>_. None) 5 0 (Execute ''00'' ''ethereum'' (Some ''t'')) settle_state)))
     = [settle_row \<lparr> mr_status := ''Confirmed'', mr_updated_at := 5 \<rparr>]"
proof -
  obtain mw w where mw: "build_writer_for_chain contract_libs demo_cli Ethereum = Inr mw"
    and w: "execute_mint mw demo_id (\<lambda>c. demo_signed) = (Inr [171], w)" by (rule settle_execute)
  have pid: "parse_proposal_id contract_libs ''00'' = Inr demo_id" "parse_chain ''ethereum'' = Inr Ethereum"
    "build_store contract_libs demo_cli = Inr ()"
    by (simp_all add: parse_proposal_id_def contract_libs_def demo_id_def parse_chain_def from_str_id_def build_store_def
        require_opt_def demo_cli_def)
  show ?thesis
    unfolding runP_command run_command.simps run_execute_def on_chain_def pid fromE_def
    by (simp add: mw w tryE_def okE_def chainE_def settle_state_def print_lines_run update_db_status_def fromE_def pid dbE_def println_def
        update_proposal_status_def pg_defs settle_row_def del: print_lines.simps)
qed

theorem settled_rows_have_events_witness:
  "\<exists>ps s'. interleaves (beside ledger_token (\<lambda>w. w)) (operator_pool contract_libs [settle_command], settle_state) (ps, s')
     \<and> settle_row \<lparr> mr_status := ''Confirmed'', mr_updated_at := 5 \<rparr> \<in> set (db_proposals (cx_db s'))
     \<and> (\<exists>c b sid to n later before. mc_logs (ms_mining (cx_ext s' c)) = later @ (b, MintExecuted demo_id sid to n) # before
          \<and> 3 \<le> card (approvers demo_id before))"
proof -
  let ?s' = "snd (run_command contract_libs demo_cli (\<lambda>_. None) 5 0 (Execute ''00'' ''ethereum'' (Some ''t'')) settle_state)"
  let ?row = "settle_row \<lparr> mr_status := ''Confirmed'', mr_updated_at := 5 \<rparr>"
  have run: "interleaves (beside ledger_token (\<lambda>w. w)) (operator_pool contract_libs [settle_command], settle_state)
      ((operator_pool contract_libs [settle_command])[0 := Done (Inr ())], ?s')"
    by (rule interleaves_alone [OF _ refl]) (simp_all add: settle_command_def settle_runs del: run_command_steps.simps runP.simps run_command.simps)
  have row: "?row \<in> set (db_proposals (cx_db ?s'))" by (simp add: settle_runs del: run_command.simps)
  have "\<forall>(cli, fault, now, secs, cmd) \<in> set [settle_command].
      wired contract_libs (\<lambda>c url. url = node_name c) (\<lambda>c. 9) cli \<and> matched contract_libs cmd"
    using demo_wired by (simp add: settle_command_def parse_proposal_id_def derive_proposal_id_def) (simp add: contract_libs_def demo_id_def)
  moreover have "\<forall>c :: chain. \<exists>me c0 s0 allowed. deployed ledger_token me c0 s0
      \<and> runs allowed (system_exec ledger_token) s0 (cx_ext settle_state c)"
    using demo_deployed demo_runs [of demo_sign_up "\<lambda>_. True"] by (auto simp: settle_state_def)
  moreover have "rows_vouched (\<lambda>w. w) contract_libs settle_state"
    by (auto simp: rows_vouched_def settle_state_def settle_row_def vouched_def demo_signed_eval demo_log_def derive_proposal_id_def
        contract_libs_def)
  ultimately have "\<exists>c b sid to n later before. mc_logs (ms_mining (cx_ext ?s' c)) = later @ (b, MintExecuted demo_id sid to n) # before
      \<and> 3 \<le> card (approvers demo_id before)"
    using settled_rows_have_events [OF contract_operator.mint_rpc_axioms _ _ _ run row refl]
    by (auto simp: derive_proposal_id_def contract_libs_def simp del: run_command.simps) blast
  then show ?thesis using run row by blast
qed

end
