(* ===== verification/House_Edge.thy ===== *)
theory House_Edge
  imports Evm Payout
begin

text \<open>
  \<open>contracts/src/HouseEdge.sol\<close>: the house edge in force, its changes through a timelock and its adjustment to
  the reserve ratio. The edge stays within its bounds whatever is called, and \<open>applyEdge\<close> computes what
  \<open>apply_house_edge\<close> of the payout calculator computes off the chain.
\<close>

definition MIN_EDGE_BPS :: u256 where "MIN_EDGE_BPS = 1000"

definition MAX_EDGE_BPS :: u256 where "MAX_EDGE_BPS = 2500"

definition DEFAULT_EDGE_BPS :: u256 where "DEFAULT_EDGE_BPS = 1700"

definition EDGE_TIMELOCK_DELAY :: u256 where "EDGE_TIMELOCK_DELAY = 48 * 60 * 60"

definition DYNAMIC_THRESHOLD_120 :: u256 where "DYNAMIC_THRESHOLD_120 = 12000"

definition DYNAMIC_THRESHOLD_110 :: u256 where "DYNAMIC_THRESHOLD_110 = 11000"

definition DYNAMIC_EDGE_120 :: u256 where "DYNAMIC_EDGE_120 = 2200"

definition DYNAMIC_EDGE_110 :: u256 where "DYNAMIC_EDGE_110 = 2400"

definition RESERVE_RESET_BPS :: u256 where "RESERVE_RESET_BPS = 15000"

definition EDGE_BPS_DENOMINATOR :: u256 where "EDGE_BPS_DENOMINATOR = 10000"

lemmas edge_consts = MIN_EDGE_BPS_def MAX_EDGE_BPS_def DEFAULT_EDGE_BPS_def EDGE_TIMELOCK_DELAY_def
  DYNAMIC_THRESHOLD_120_def DYNAMIC_THRESHOLD_110_def DYNAMIC_EDGE_120_def DYNAMIC_EDGE_110_def RESERVE_RESET_BPS_def
  EDGE_BPS_DENOMINATOR_def

record edge_proposal =
  ep_newEdgeBps :: u256
  ep_proposedAt :: u256
  ep_executed :: bool
  ep_cancelled :: bool

datatype edge_event =
    EdgeProposed bytes u256 u256
  | EdgeExecuted bytes u256 u256
  | EdgeCancelled bytes
  | EdgeAdjustedByReserve u256 u256 u256

record house_edge =
  hx_currentEdgeBps :: u256
  hx_operatorDefaultBps :: u256
  hx_proposals :: "bytes \<Rightarrow> edge_proposal"
  hx_logs :: "edge_event list"

section \<open>Functions\<close>

definition edge_initialize :: house_edge where
  "edge_initialize = \<lparr> hx_currentEdgeBps = DEFAULT_EDGE_BPS, hx_operatorDefaultBps = DEFAULT_EDGE_BPS,
     hx_proposals = (\<lambda>_. \<lparr> ep_newEdgeBps = 0, ep_proposedAt = 0, ep_executed = False, ep_cancelled = False \<rparr>), hx_logs = [] \<rparr>"

definition edge_emit :: "edge_event \<Rightarrow> (house_edge, unit) evm" where
  "edge_emit e = putE (\<lambda>s. s \<lparr> hx_logs := e # hx_logs s \<rparr>)"

definition proposeEdgeChange :: "call_ctx \<Rightarrow> bytes \<Rightarrow> u256 \<Rightarrow> (house_edge, unit) evm" where
  "proposeEdgeChange c proposalId newEdgeBps =
     tryE (only_owner c) (\<lambda>_.
     tryE (revert_if (newEdgeBps < MIN_EDGE_BPS \<or> MAX_EDGE_BPS < newEdgeBps)
             (EdgeOutOfRange newEdgeBps MIN_EDGE_BPS MAX_EDGE_BPS)) (\<lambda>_.
     tryE (putE (\<lambda>s. s \<lparr> hx_proposals := (hx_proposals s)(proposalId :=
             \<lparr> ep_newEdgeBps = newEdgeBps, ep_proposedAt = block_timestamp c, ep_executed = False, ep_cancelled = False \<rparr>) \<rparr>)) (\<lambda>_.
     tryE (addE (block_timestamp c) EDGE_TIMELOCK_DELAY) (\<lambda>executionTime.
     edge_emit (EdgeProposed proposalId newEdgeBps executionTime)))))"

definition executeEdgeChange :: "call_ctx \<Rightarrow> bytes \<Rightarrow> (house_edge, unit) evm" where
  "executeEdgeChange c proposalId =
     tryE (only_owner c) (\<lambda>_.
     tryE (getE (\<lambda>s. hx_proposals s proposalId)) (\<lambda>proposal.
     tryE (revert_if (ep_proposedAt proposal = 0) ProposalNotFound) (\<lambda>_.
     tryE (revert_if (ep_executed proposal) ProposalAlreadyExecuted) (\<lambda>_.
     tryE (revert_if (ep_cancelled proposal) ProposalAlreadyCancelled) (\<lambda>_.
     tryE (addE (ep_proposedAt proposal) EDGE_TIMELOCK_DELAY) (\<lambda>executionTime.
     tryE (revert_if (block_timestamp c < executionTime) (TimelockNotExpired executionTime (block_timestamp c))) (\<lambda>_.
     tryE (getE hx_currentEdgeBps) (\<lambda>oldEdge.
     tryE (putE (\<lambda>s. s \<lparr> hx_currentEdgeBps := ep_newEdgeBps proposal, hx_operatorDefaultBps := ep_newEdgeBps proposal,
             hx_proposals := (hx_proposals s)(proposalId := (hx_proposals s proposalId) \<lparr> ep_executed := True \<rparr>) \<rparr>)) (\<lambda>_.
     edge_emit (EdgeExecuted proposalId oldEdge (ep_newEdgeBps proposal)))))))))))"

definition cancelEdgeChange :: "call_ctx \<Rightarrow> bytes \<Rightarrow> (house_edge, unit) evm" where
  "cancelEdgeChange c proposalId =
     tryE (only_owner c) (\<lambda>_.
     tryE (getE (\<lambda>s. hx_proposals s proposalId)) (\<lambda>proposal.
     tryE (revert_if (ep_proposedAt proposal = 0) ProposalNotFound) (\<lambda>_.
     tryE (revert_if (ep_executed proposal) ProposalAlreadyExecuted) (\<lambda>_.
     tryE (revert_if (ep_cancelled proposal) ProposalAlreadyCancelled) (\<lambda>_.
     tryE (putE (\<lambda>s. s \<lparr> hx_proposals := (hx_proposals s)(proposalId :=
             (hx_proposals s proposalId) \<lparr> ep_cancelled := True \<rparr>) \<rparr>)) (\<lambda>_.
     edge_emit (EdgeCancelled proposalId)))))))"

definition edge_min :: "u256 \<Rightarrow> u256 \<Rightarrow> u256" where
  "edge_min a b = (if a < b then a else b)"

definition reserve_edge :: "u256 \<Rightarrow> u256 \<Rightarrow> u256" where
  "reserve_edge operatorDefaultBps reserveRatioBps =
     (if RESERVE_RESET_BPS \<le> reserveRatioBps then operatorDefaultBps
      else if reserveRatioBps < DYNAMIC_THRESHOLD_110 then edge_min DYNAMIC_EDGE_110 MAX_EDGE_BPS
      else if reserveRatioBps < DYNAMIC_THRESHOLD_120 then edge_min DYNAMIC_EDGE_120 MAX_EDGE_BPS
      else operatorDefaultBps)"

definition adjustForReserve :: "call_ctx \<Rightarrow> u256 \<Rightarrow> (house_edge, unit) evm" where
  "adjustForReserve c reserveRatioBps =
     tryE (only_owner c) (\<lambda>_.
     tryE (getE hx_operatorDefaultBps) (\<lambda>operatorDefaultBps.
     let newEdge = reserve_edge operatorDefaultBps reserveRatioBps in
     tryE (getE hx_currentEdgeBps) (\<lambda>oldEdge.
     if newEdge = oldEdge then okE ()
     else tryE (putE (\<lambda>s. s \<lparr> hx_currentEdgeBps := newEdge \<rparr>)) (\<lambda>_.
          edge_emit (EdgeAdjustedByReserve reserveRatioBps oldEdge newEdge)))))"

definition getCurrentEdgeBps :: "(house_edge, u256) evm" where
  "getCurrentEdgeBps = getE hx_currentEdgeBps"

definition applyEdge :: "u256 \<Rightarrow> (house_edge, u256) evm" where
  "applyEdge grossAmount =
     tryE (getE hx_currentEdgeBps) (\<lambda>edge.
     tryE (subE EDGE_BPS_DENOMINATOR edge) (\<lambda>keep.
     tryE (mulE grossAmount keep) (\<lambda>product.
     divE product EDGE_BPS_DENOMINATOR)))"

datatype edge_call =
    ProposeEdgeChange bytes u256
  | ExecuteEdgeChange bytes
  | CancelEdgeChange bytes
  | AdjustForReserve u256

fun edge_exec :: "call_ctx \<times> edge_call \<Rightarrow> (house_edge, unit) evm" where
  "edge_exec (c, ProposeEdgeChange p e) = proposeEdgeChange c p e"
| "edge_exec (c, ExecuteEdgeChange p) = executeEdgeChange c p"
| "edge_exec (c, CancelEdgeChange p) = cancelEdgeChange c p"
| "edge_exec (c, AdjustForReserve r) = adjustForReserve c r"

lemmas edge_defs = proposeEdgeChange_def executeEdgeChange_def cancelEdgeChange_def adjustForReserve_def edge_emit_def

section \<open>The edge stays within its bounds\<close>

definition edge_ok :: "u256 \<Rightarrow> bool" where
  "edge_ok e \<longleftrightarrow> MIN_EDGE_BPS \<le> e \<and> e \<le> MAX_EDGE_BPS"

definition edge_inv :: "house_edge \<Rightarrow> bool" where
  "edge_inv s \<longleftrightarrow> edge_ok (hx_currentEdgeBps s) \<and> edge_ok (hx_operatorDefaultBps s)
     \<and> (\<forall>p. ep_proposedAt (hx_proposals s p) \<noteq> 0 \<longrightarrow> edge_ok (ep_newEdgeBps (hx_proposals s p)))"

lemma reserve_edge_ok: "edge_ok d \<Longrightarrow> edge_ok (reserve_edge d r)"
  by (simp add: reserve_edge_def edge_ok_def edge_min_def edge_consts)

lemma edge_in_range: "\<not> e < MIN_EDGE_BPS \<Longrightarrow> \<not> MAX_EDGE_BPS < e \<Longrightarrow> edge_ok e"
  by (simp add: edge_ok_def not_less)

lemma edge_step_inv:
  assumes "edge_inv s" and "edge_exec k s = (Inr (), s')"
  shows "edge_inv s'"
proof (cases k)
  case (Pair c f)
  with assms show ?thesis
    by (cases f) (auto simp: edge_defs evmE edge_inv_def Let_def reserve_edge_ok edge_in_range split: if_splits)
qed

lemma edge_runs_inv: "runs allowed edge_exec edge_initialize s \<Longrightarrow> edge_inv s"
proof (induction rule: runs_invariant)
  case init
  then show ?case by (simp add: edge_initialize_def edge_inv_def edge_ok_def edge_consts)
qed (rule edge_step_inv)

lemma applyEdge_value:
  assumes "edge_inv s" and "unat gross * 10000 < 2 ^ 256"
  shows "\<exists>net. applyEdge gross s = (Inr net, s)
    \<and> unat net = unat gross * (10000 - unat (hx_currentEdgeBps s)) div 10000"
proof -
  let ?e = "hx_currentEdgeBps s"
  have e: "?e \<le> 10000" using assms(1) by (simp add: edge_inv_def edge_ok_def edge_consts word_le_nat_alt)
  then have k: "unat (10000 - ?e) = 10000 - unat ?e" by (simp add: unat_sub_le)
  have "unat gross * (10000 - unat ?e) \<le> unat gross * 10000" by (rule mult_le_mono2) simp
  from le_less_trans [OF this assms(2)] have small: "unat gross * (10000 - unat ?e) < 2 ^ LENGTH(256)" by simp
  then have "unat (gross * (10000 - ?e)) = unat gross * (10000 - unat ?e)" using k by (simp add: unat_mult_exact)
  then show ?thesis
    using e small by (simp add: applyEdge_def evm_eval edge_consts k unat_div_word)
qed

lemma wrapped_quotient:
  fixes n :: nat
  assumes "0 < d" and "d \<le> m"
  shows "n mod m div d = n div d \<longleftrightarrow> n < m"
proof
  assume eq: "n mod m div d = n div d"
  show "n < m"
  proof (rule ccontr)
    assume "\<not> n < m"
    then have "n = n mod m + m * (n div m)" "1 \<le> n div m"
      using assms by (simp_all add: Suc_leI div_greater_zero_iff)
    then have "n mod m + d \<le> n" using assms(2) by (metis add_left_mono le_trans mult.right_neutral mult_le_mono2)
    then have "(n mod m + d) div d \<le> n div d" by (rule div_le_mono)
    moreover have "(n mod m + d) div d = n mod m div d + 1" using assms(1) by (simp add: div_add_self2)
    ultimately have "n mod m div d < n div d" by linarith
    with eq show False by simp
  qed
qed simp

lemma unat_apply_house_edge_wraps:
  assumes "unat e \<le> 10000"
  shows "unat (apply_house_edge r e) = unat r * (10000 - unat e) mod 2 ^ 128 div 10000"
proof -
  have "unat (saturating_sub BPS_DENOMINATOR e) = 10000 - unat e"
    by (simp add: unat_saturating_sub BPS_DENOMINATOR_def)
  then show ?thesis
    by (simp add: apply_house_edge_def unat_div_word BPS_DENOMINATOR_def unat_word_ariths)
qed

text \<open>
  C26: whatever the owner proposes, executes, cancels or reports about the reserve, and in whatever order, the edge
  in force stays between 10 and 25 percent. So applying it cannot underflow: for every 128-bit amount the contract's
  \<open>applyEdge\<close> succeeds with the amount less the edge, rounded down. The payout calculator, whose multiplication
  wraps, computes the same value off the chain exactly when the product of the amount and the kept basis points
  fits into 128 bits.
\<close>

theorem edge_bounded_and_applied_alike:
  fixes r :: u128
  assumes "runs allowed edge_exec edge_initialize s"
  shows "1000 \<le> unat (hx_currentEdgeBps s) \<and> unat (hx_currentEdgeBps s) \<le> 2500
    \<and> (\<exists>net. applyEdge (ucast r) s = (Inr net, s)
         \<and> unat net = unat r * (10000 - unat (hx_currentEdgeBps s)) div 10000
         \<and> (unat (apply_house_edge r (ucast (hx_currentEdgeBps s))) = unat net
              \<longleftrightarrow> unat r * (10000 - unat (hx_currentEdgeBps s)) < 2 ^ 128))"
proof -
  note inv = edge_runs_inv [OF assms]
  let ?e = "hx_currentEdgeBps s"
  have e: "1000 \<le> unat ?e" "unat ?e \<le> 2500"
    using inv by (simp_all add: edge_inv_def edge_ok_def edge_consts word_le_nat_alt)
  have r: "unat (ucast r :: u256) = unat r" by (simp add: unat_ucast_up)
  have "unat r < 2 ^ 128" using unsigned_less [of r, where ?'a = nat] by simp
  then have "unat (ucast r :: u256) * 10000 < 2 ^ 256" by (simp add: r)
  then obtain net where net: "applyEdge (ucast r) s = (Inr net, s)" "unat net = unat r * (10000 - unat ?e) div 10000"
    using applyEdge_value [OF inv, of "ucast r"] r by auto
  have "unat ?e < 2 ^ 128" using e(2) by simp
  then have ue: "unat (ucast ?e :: u128) = unat ?e" by (simp add: unsigned_ucast_eq take_bit_nat_eq_self)
  have "unat (apply_house_edge r (ucast ?e)) = unat r * (10000 - unat ?e) mod 2 ^ 128 div 10000"
    using unat_apply_house_edge_wraps [of "ucast ?e" r] e(2) by (simp add: ue)
  then have "unat (apply_house_edge r (ucast ?e)) = unat net \<longleftrightarrow> unat r * (10000 - unat ?e) < 2 ^ 128"
    using wrapped_quotient [of 10000 "2 ^ 128"] by (simp add: net(2))
  with e net show ?thesis by blast
qed

text \<open>A proposal of 20 percent that is executed after two days, and a reserve that falls below 110 percent.\<close>

definition edge_ctx :: "u256 \<Rightarrow> call_ctx" where
  "edge_ctx t = \<lparr> msg_sender = 1, this_addr = 100, owner_addr = 1, block_timestamp = t, block_number = t \<rparr>"

definition edge_demo :: "(call_ctx \<times> edge_call) list" where
  "edge_demo = [(edge_ctx 1000, ProposeEdgeChange [1] 2000), (edge_ctx 173800, ExecuteEdgeChange [1]), (edge_ctx 173900, AdjustForReserve 10500)]"

lemma edge_demo_run: "hx_currentEdgeBps (run_txs edge_exec edge_demo edge_initialize) = 2400"
  by (simp add: edge_demo_def edge_ctx_def edge_defs evm_eval edge_consts edge_initialize_def reserve_edge_def edge_min_def Let_def)

theorem edge_bounded_and_applied_alike_witness:
  "\<exists>net. applyEdge 1000000 (run_txs edge_exec edge_demo edge_initialize) = (Inr net, run_txs edge_exec edge_demo edge_initialize)
     \<and> unat net = unat (apply_house_edge 1000000 2400) \<and> apply_house_edge 1000000 2400 = 760000"
proof -
  have "runs (\<lambda>_. True) edge_exec edge_initialize (run_txs edge_exec edge_demo edge_initialize)"
    by (rule runs_run_txs [OF runs.start]) simp
  from edge_bounded_and_applied_alike [OF this, of 1000000]
  have "\<exists>net. applyEdge (ucast (1000000 :: u128)) (run_txs edge_exec edge_demo edge_initialize)
        = (Inr net, run_txs edge_exec edge_demo edge_initialize)
      \<and> unat net = unat (apply_house_edge 1000000 (ucast (hx_currentEdgeBps (run_txs edge_exec edge_demo edge_initialize))))"
    by (auto simp: edge_demo_run)
  then show ?thesis
    by (simp add: edge_demo_run apply_house_edge_def BPS_DENOMINATOR_def saturating_sub_def)
qed

end
