(* ===== verification/Oracle_Aggregator.thy ===== *)
theory Oracle_Aggregator
  imports Evm Onchain_Client
begin

text \<open>
  \<open>contracts/src/OracleAggregator.sol\<close>: the prices the backend submits, one per commodity ordinal, with the
  guard against jumps and the age limit of \<open>getPrice\<close>. The ordinals are those of \<open>commodity_to_u8\<close>.
\<close>

definition DIVERGENCE_THRESHOLD_BPS :: u256 where "DIVERGENCE_THRESHOLD_BPS = 200"

definition MAX_PRICE_AGE :: u256 where "MAX_PRICE_AGE = 60 * 60"

definition ORACLE_BPS_DENOMINATOR :: u256 where "ORACLE_BPS_DENOMINATOR = 10000"

lemmas oracle_consts = DIVERGENCE_THRESHOLD_BPS_def MAX_PRICE_AGE_def ORACLE_BPS_DENOMINATOR_def

record price_data =
  pd_price :: u256
  pd_updatedAt :: u256
  pd_initialized :: bool

datatype oracle_event = PriceSubmitted u8 u256 u256 | SubmitterUpdated address address

record oracle_aggregator =
  oa_authorizedSubmitter :: address
  oa_prices :: "u8 \<Rightarrow> price_data"
  oa_logs :: "oracle_event list"

section \<open>Functions\<close>

definition oracle_initialize :: "address \<Rightarrow> evm_error + oracle_aggregator" where
  "oracle_initialize submitter =
     (if submitter = 0 then Inl ZeroAddress
      else Inr \<lparr> oa_authorizedSubmitter = submitter,
        oa_prices = (\<lambda>_. \<lparr> pd_price = 0, pd_updatedAt = 0, pd_initialized = False \<rparr>), oa_logs = [] \<rparr>)"

definition oracle_emit :: "oracle_event \<Rightarrow> (oracle_aggregator, unit) evm" where
  "oracle_emit e = putE (\<lambda>s. s \<lparr> oa_logs := e # oa_logs s \<rparr>)"

definition setSubmitter :: "call_ctx \<Rightarrow> address \<Rightarrow> (oracle_aggregator, unit) evm" where
  "setSubmitter c newSubmitter =
     tryE (only_owner c) (\<lambda>_.
     tryE (revert_if (newSubmitter = 0) ZeroAddress) (\<lambda>_.
     tryE (getE oa_authorizedSubmitter) (\<lambda>oldSubmitter.
     tryE (oracle_emit (SubmitterUpdated oldSubmitter newSubmitter)) (\<lambda>_.
     putE (\<lambda>s. s \<lparr> oa_authorizedSubmitter := newSubmitter \<rparr>)))))"

definition store_price :: "call_ctx \<Rightarrow> u8 \<Rightarrow> u256 \<Rightarrow> (oracle_aggregator, unit) evm" where
  "store_price c commodity price =
     tryE (putE (\<lambda>s. s \<lparr> oa_prices := (oa_prices s)(commodity :=
             \<lparr> pd_price = price, pd_updatedAt = block_timestamp c, pd_initialized = True \<rparr>) \<rparr>)) (\<lambda>_.
     oracle_emit (PriceSubmitted commodity price (block_timestamp c)))"

definition divergence_guard :: "u256 \<Rightarrow> price_data \<Rightarrow> ('s, unit) evm" where
  "divergence_guard price existing =
     (if pd_initialized existing
      then let stored = pd_price existing in
        tryE (if stored < price then subE price stored else subE stored price) (\<lambda>diff.
        tryE (mulE diff ORACLE_BPS_DENOMINATOR) (\<lambda>scaled.
        tryE (divE scaled stored) (\<lambda>divergenceBps.
        revert_if (DIVERGENCE_THRESHOLD_BPS < divergenceBps) (PriceDiverged price stored divergenceBps))))
      else okE ())"

definition submitPrice :: "call_ctx \<Rightarrow> u8 \<Rightarrow> u256 \<Rightarrow> (oracle_aggregator, unit) evm" where
  "submitPrice c commodity price =
     tryE (getE oa_authorizedSubmitter) (\<lambda>submitter.
     tryE (revert_if (msg_sender c \<noteq> submitter) NotAuthorizedSubmitter) (\<lambda>_.
     tryE (revert_if (price = 0) ZeroPrice) (\<lambda>_.
     tryE (getE (\<lambda>s. oa_prices s commodity)) (\<lambda>existing.
     tryE (divergence_guard price existing) (\<lambda>_.
     store_price c commodity price)))))"

definition getPrice :: "call_ctx \<Rightarrow> u8 \<Rightarrow> (oracle_aggregator, u256 \<times> u256) evm" where
  "getPrice c commodity =
     tryE (getE (\<lambda>s. oa_prices s commodity)) (\<lambda>data.
     tryE (revert_if (\<not> pd_initialized data) PriceNotInitialized) (\<lambda>_.
     tryE (addE (pd_updatedAt data) MAX_PRICE_AGE) (\<lambda>limit.
     tryE (revert_if (limit < block_timestamp c) (PriceStale (pd_updatedAt data) (block_timestamp c))) (\<lambda>_.
     okE (pd_price data, pd_updatedAt data)))))"

definition getPriceUnchecked :: "u8 \<Rightarrow> (oracle_aggregator, u256 \<times> u256 \<times> bool) evm" where
  "getPriceUnchecked commodity =
     tryE (getE (\<lambda>s. oa_prices s commodity)) (\<lambda>data. okE (pd_price data, pd_updatedAt data, pd_initialized data))"

definition forceSubmitPrice :: "call_ctx \<Rightarrow> u8 \<Rightarrow> u256 \<Rightarrow> (oracle_aggregator, unit) evm" where
  "forceSubmitPrice c commodity price =
     tryE (only_owner c) (\<lambda>_.
     tryE (revert_if (price = 0) ZeroPrice) (\<lambda>_.
     store_price c commodity price))"

datatype oracle_call = SetSubmitter address | SubmitPrice u8 u256 | ForceSubmitPrice u8 u256

fun oracle_exec :: "call_ctx \<times> oracle_call \<Rightarrow> (oracle_aggregator, unit) evm" where
  "oracle_exec (c, SetSubmitter a) = setSubmitter c a"
| "oracle_exec (c, SubmitPrice k p) = submitPrice c k p"
| "oracle_exec (c, ForceSubmitPrice k p) = forceSubmitPrice c k p"

section \<open>The guard\<close>

definition oracle_inv :: "oracle_aggregator \<Rightarrow> bool" where
  "oracle_inv s \<longleftrightarrow> (\<forall>k. pd_initialized (oa_prices s k) \<longrightarrow> pd_price (oa_prices s k) \<noteq> 0)"

lemma divergence_guard_reads: "divergence_guard price e t = (Inr x, v) \<Longrightarrow> v = t"
  by (auto simp: divergence_guard_def Let_def evmE split: if_splits)

lemma oracle_runs_inv:
  assumes "oracle_initialize a = Inr s0" and "runs allowed oracle_exec s0 s"
  shows "oracle_inv s"
  using assms(2)
proof (induction rule: runs_invariant)
  case init
  then show ?case using assms(1) by (auto simp: oracle_initialize_def oracle_inv_def split: if_splits)
next
  case (step k t u)
  obtain c f where "k = (c, f)" by fastforce
  with step show ?case
    by (cases f) (auto simp: setSubmitter_def submitPrice_def forceSubmitPrice_def store_price_def oracle_emit_def evmE
        oracle_inv_def dest!: divergence_guard_reads split: if_splits)
qed

definition distance :: "u256 \<Rightarrow> u256 \<Rightarrow> nat" where
  "distance a b = (if b < a then unat a - unat b else unat b - unat a)"

lemma div_le_iff: "0 < (b :: nat) \<Longrightarrow> a div b \<le> n \<longleftrightarrow> a < Suc n * b"
  using div_less_iff_less_mult [of b a "Suc n"] by (simp add: less_Suc_eq_le)

lemma divergence_guard_iff:
  assumes "pd_initialized e \<Longrightarrow> pd_price e \<noteq> 0" and "unat price < 2 ^ 240" and "unat (pd_price e) < 2 ^ 240"
  shows "(\<exists>t. divergence_guard price e s = (Inr (), t))
    \<longleftrightarrow> (pd_initialized e \<longrightarrow> distance price (pd_price e) * 10000 < 201 * unat (pd_price e))"
proof (cases "pd_initialized e")
  case True
  let ?p = "pd_price e"
  define d where "d = (if ?p < price then price - ?p else ?p - price)"
  have d: "unat d = distance price ?p"
    by (auto simp: d_def distance_def unat_sub word_le_nat_alt word_less_nat_alt)
  have "distance price ?p < 2 ^ 240" using assms(2,3) by (auto simp: distance_def)
  then have small: "unat d * 10000 < 2 ^ LENGTH(256)" unfolding d by simp
  then have m: "unat (d * 10000) = distance price ?p * 10000" using d by (simp add: unat_mult_exact)
  have p: "?p \<noteq> 0" "0 < unat ?p" using assms(1) True by (auto simp: unat_gt_0)
  have "(\<exists>t. divergence_guard price e s = (Inr (), t)) \<longleftrightarrow> (\<exists>x. unat x = unat d * 10000 \<and> \<not> 200 < x div ?p)"
    using True p(1) by (auto simp: divergence_guard_def Let_def evmE oracle_consts not_less d_def)
  also have "\<dots> \<longleftrightarrow> \<not> 200 < d * 10000 div ?p"
    using m d by (auto simp: word_unat_eq_iff [symmetric]) (metis m d word_unat_eq_iff)+
  also have "\<dots> \<longleftrightarrow> distance price ?p * 10000 div unat ?p \<le> 200"
    unfolding word_less_nat_alt unat_div_word m by (simp add: not_less)
  also have "\<dots> \<longleftrightarrow> distance price ?p * 10000 < 201 * unat ?p"
    using div_le_iff [OF p(2), of "distance price ?p * 10000" 200] by simp
  finally show ?thesis using True by simp
qed (simp add: divergence_guard_def okE_def)

lemma submitPrice_iff:
  assumes "oracle_inv s" and "unat price < 2 ^ 240" and "unat (pd_price (oa_prices s k)) < 2 ^ 240"
  shows "(\<exists>s'. submitPrice c k price s = (Inr (), s')) \<longleftrightarrow>
     msg_sender c = oa_authorizedSubmitter s \<and> price \<noteq> 0
     \<and> (pd_initialized (oa_prices s k) \<longrightarrow>
          distance price (pd_price (oa_prices s k)) * 10000 < 201 * unat (pd_price (oa_prices s k)))"
proof -
  let ?e = "oa_prices s k"
  have "(\<exists>s'. submitPrice c k price s = (Inr (), s')) \<longleftrightarrow>
      msg_sender c = oa_authorizedSubmitter s \<and> price \<noteq> 0 \<and> (\<exists>t. divergence_guard price ?e s = (Inr (), t))"
    by (auto simp: submitPrice_def store_price_def oracle_emit_def evmE)
  then show ?thesis
    using divergence_guard_iff [OF _ assms(2,3), where s = s] assms(1) by (auto simp: oracle_inv_def)
qed

lemma submitPrice_stores:
  assumes "submitPrice c k price s = (Inr (), s')"
  shows "oa_prices s' = (oa_prices s)(k := \<lparr> pd_price = price, pd_updatedAt = block_timestamp c, pd_initialized = True \<rparr>)"
  using assms by (auto simp: submitPrice_def store_price_def oracle_emit_def evmE dest!: divergence_guard_reads)

lemma getPrice_iff:
  assumes "oa_prices s k = \<lparr> pd_price = price, pd_updatedAt = at, pd_initialized = True \<rparr>" and "unat at < 2 ^ 240"
  shows "getPrice c k s = (if unat (block_timestamp c) \<le> unat at + 3600 then (Inr (price, at), s)
    else (Inl (PriceStale at (block_timestamp c)), s))"
proof -
  have "unat at + unat (3600 :: u256) < 2 ^ LENGTH(256)" using assms(2) by simp
  then have "unat (at + 3600) = unat at + 3600" by (subst unat_add_exact) simp_all
  then show ?thesis
    using assms by (simp add: getPrice_def evm_eval oracle_consts word_less_nat_alt)
qed

text \<open>
  C28: in every state the oracle can reach, with prices and times below \<open>2 ^ 240\<close>, a price is accepted exactly when
  it comes from the authorized submitter, is not zero and, where a price is stored, differs from it by less than
  2.01 percent; the division never fails. What was accepted is then served for an hour, and refused as stale from
  then on.
\<close>

theorem price_guard_exact:
  assumes "oracle_initialize a = Inr s0" and "runs allowed oracle_exec s0 s"
    and "unat price < 2 ^ 240" and "unat (pd_price (oa_prices s (commodity_to_u8 k))) < 2 ^ 240"
    and "unat (block_timestamp c) < 2 ^ 240"
  shows "((\<exists>s'. submitPrice c (commodity_to_u8 k) price s = (Inr (), s')) \<longleftrightarrow>
       msg_sender c = oa_authorizedSubmitter s \<and> price \<noteq> 0
       \<and> (pd_initialized (oa_prices s (commodity_to_u8 k)) \<longrightarrow>
            distance price (pd_price (oa_prices s (commodity_to_u8 k))) * 10000
              < 201 * unat (pd_price (oa_prices s (commodity_to_u8 k)))))
    \<and> (\<forall>s'. submitPrice c (commodity_to_u8 k) price s = (Inr (), s') \<longrightarrow>
         (\<forall>c'. getPrice c' (commodity_to_u8 k) s' =
            (if unat (block_timestamp c') \<le> unat (block_timestamp c) + 3600 then (Inr (price, block_timestamp c), s')
             else (Inl (PriceStale (block_timestamp c) (block_timestamp c')), s')))
         \<and> (\<forall>k'. k' \<noteq> k \<longrightarrow> oa_prices s' (commodity_to_u8 k') = oa_prices s (commodity_to_u8 k')))"
proof (intro conjI allI impI)
  note inv = oracle_runs_inv [OF assms(1,2)]
  show "(\<exists>s'. submitPrice c (commodity_to_u8 k) price s = (Inr (), s')) \<longleftrightarrow>
       msg_sender c = oa_authorizedSubmitter s \<and> price \<noteq> 0
       \<and> (pd_initialized (oa_prices s (commodity_to_u8 k)) \<longrightarrow>
            distance price (pd_price (oa_prices s (commodity_to_u8 k))) * 10000
              < 201 * unat (pd_price (oa_prices s (commodity_to_u8 k))))"
    by (rule submitPrice_iff [OF inv assms(3,4)])
  fix s'
  assume "submitPrice c (commodity_to_u8 k) price s = (Inr (), s')"
  note stored = submitPrice_stores [OF this]
  show "getPrice c' (commodity_to_u8 k) s' =
      (if unat (block_timestamp c') \<le> unat (block_timestamp c) + 3600 then (Inr (price, block_timestamp c), s')
       else (Inl (PriceStale (block_timestamp c) (block_timestamp c')), s'))" for c'
    by (rule getPrice_iff [OF _ assms(5)]) (simp add: stored)
  show "oa_prices s' (commodity_to_u8 k') = oa_prices s (commodity_to_u8 k')" if "k' \<noteq> k" for k'
  proof -
    have "commodity_to_u8 k' \<noteq> commodity_to_u8 k" using that by (cases k; cases k') (simp_all add: commodity_to_u8_def)
    then show ?thesis by (simp add: stored)
  qed
qed

definition oracle_ctx :: "u256 \<Rightarrow> call_ctx" where
  "oracle_ctx t = \<lparr> msg_sender = 2, this_addr = 100, owner_addr = 1, block_timestamp = t, block_number = t \<rparr>"

definition oracle_demo :: oracle_aggregator where
  "oracle_demo = run_txs oracle_exec [(oracle_ctx 1000, SubmitPrice (commodity_to_u8 Silver) 3000000000)] (projr (oracle_initialize 2))"

lemma oracle_demo_eval:
  "oa_prices oracle_demo 2 = \<lparr> pd_price = 3000000000, pd_updatedAt = 1000, pd_initialized = True \<rparr>"
  "oa_authorizedSubmitter oracle_demo = 2"
  by (simp_all add: oracle_demo_def oracle_ctx_def oracle_initialize_def submitPrice_def divergence_guard_def store_price_def
      oracle_emit_def evm_eval commodity_to_u8_def)

text \<open>A rise of 2 percent passes and a rise of 3 percent does not.\<close>

theorem price_guard_exact_witness:
  "(\<exists>s'. submitPrice (oracle_ctx 2000) (commodity_to_u8 Silver) 3060000000 oracle_demo = (Inr (), s'))
   \<and> \<not> (\<exists>s'. submitPrice (oracle_ctx 2000) (commodity_to_u8 Silver) 3090000000 oracle_demo = (Inr (), s'))"
proof -
  have init: "oracle_initialize 2 = Inr (projr (oracle_initialize 2))" by (simp add: oracle_initialize_def)
  have run: "runs (\<lambda>_. True) oracle_exec (projr (oracle_initialize 2)) oracle_demo"
    unfolding oracle_demo_def by (rule runs_run_txs [OF runs.start]) simp
  have k: "commodity_to_u8 Silver = 2" by (simp add: commodity_to_u8_def)
  have "msg_sender (oracle_ctx 2000) = 2" "unat (block_timestamp (oracle_ctx 2000)) < 2 ^ 240" by (simp_all add: oracle_ctx_def)
  then show ?thesis
    using price_guard_exact [OF init run, where price = 3060000000 and k = Silver and c = "oracle_ctx 2000"]
      price_guard_exact [OF init run, where price = 3090000000 and k = Silver and c = "oracle_ctx 2000"]
    by (simp add: k oracle_demo_eval distance_def)
qed

end
