(* ===== verification/Staking_Contract.thy ===== *)
theory Staking_Contract
  imports Evm Payout
begin

text \<open>
  \<open>contracts/src/StakingContract.sol\<close>: stakes of PRM under a lock, the mining boost they give, and the
  distribution of revenue by stake. Tokens are the ledgers of the world, by address; all of them keep the
  promises of \<open>token_ledger\<close>. The boost is the one \<open>combined_boost_bps\<close> computes off the chain.
\<close>

definition STAKING_MAX_BOOST_BPS :: u256 where "STAKING_MAX_BOOST_BPS = 4000"

definition LOCK_30 :: u256 where "LOCK_30 = 30 * 24 * 60 * 60"

definition LOCK_90 :: u256 where "LOCK_90 = 90 * 24 * 60 * 60"

definition LOCK_180 :: u256 where "LOCK_180 = 180 * 24 * 60 * 60"

definition MULT_30 :: u256 where "MULT_30 = 100"

definition MULT_90 :: u256 where "MULT_90 = 130"

definition MULT_180 :: u256 where "MULT_180 = 160"

definition MULT_SCALE :: u256 where "MULT_SCALE = 100"

lemmas staking_consts = STAKING_MAX_BOOST_BPS_def LOCK_30_def LOCK_90_def LOCK_180_def MULT_30_def MULT_90_def MULT_180_def
  MULT_SCALE_def

datatype lock_period = Days30 | Days90 | Days180

record stake_entry =
  se_amount :: u256
  se_lockPeriod :: lock_period
  se_stakedAt :: u256
  se_unlockAt :: u256
  se_active :: bool

datatype staking_event =
    Staked address u256 lock_period u256
  | Unstaked address u256
  | RevenueDistributed u256 u256
  | RewardPaid address u256

record staking_contract =
  sk_primToken :: address
  sk_totalStaked :: u256
  sk_minStake :: u256
  sk_lockRequired :: bool
  sk_stakes :: "address \<Rightarrow> stake_entry"
  sk_stakers :: "address list"
  sk_isStaker :: "address \<Rightarrow> bool"
  sk_logs :: "staking_event list"

record 't staking_world =
  sw_staking :: staking_contract
  sw_tokens :: "address \<Rightarrow> 't"

section \<open>Functions\<close>

definition no_stake :: stake_entry where
  "no_stake = \<lparr> se_amount = 0, se_lockPeriod = Days30, se_stakedAt = 0, se_unlockAt = 0, se_active = False \<rparr>"

definition staking_initialize :: "address \<Rightarrow> u256 \<Rightarrow> bool \<Rightarrow> evm_error + staking_contract" where
  "staking_initialize primToken minStake lockRequired =
     (if primToken = 0 then Inl ZeroAddress
      else Inr \<lparr> sk_primToken = primToken, sk_totalStaked = 0, sk_minStake = minStake, sk_lockRequired = lockRequired,
        sk_stakes = (\<lambda>_. no_stake), sk_stakers = [], sk_isStaker = (\<lambda>_. False), sk_logs = [] \<rparr>)"

definition in_staking :: "(staking_contract, 'a) evm \<Rightarrow> ('t staking_world, 'a) evm" where
  "in_staking m = on_part sw_staking (\<lambda>x s. s \<lparr> sw_staking := x \<rparr>) m"

definition at_token :: "address \<Rightarrow> ('t, 'a) evm \<Rightarrow> ('t staking_world, 'a) evm" where
  "at_token a m = on_part sw_tokens (\<lambda>ts s. s \<lparr> sw_tokens := ts \<rparr>) (token_at a m)"

definition safeTransferFrom :: "'t erc20 \<Rightarrow> call_ctx \<Rightarrow> address \<Rightarrow> address \<Rightarrow> address \<Rightarrow> u256 \<Rightarrow> ('t staking_world, unit) evm" where
  "safeTransferFrom T c token src to n = safe (at_token token (tk_transfer_from T (this_addr c) src to n))"

definition safeTransfer :: "'t erc20 \<Rightarrow> call_ctx \<Rightarrow> address \<Rightarrow> address \<Rightarrow> u256 \<Rightarrow> ('t staking_world, unit) evm" where
  "safeTransfer T c token to n = safe (at_token token (tk_transfer T (this_addr c) to n))"

definition staking_emit :: "staking_event \<Rightarrow> (staking_contract, unit) evm" where
  "staking_emit e = putE (\<lambda>s. s \<lparr> sk_logs := e # sk_logs s \<rparr>)"

fun lockDuration :: "lock_period \<Rightarrow> u256" where
  "lockDuration Days30 = LOCK_30"
| "lockDuration Days90 = LOCK_90"
| "lockDuration Days180 = LOCK_180"

definition check_stake :: "call_ctx \<Rightarrow> u256 \<Rightarrow> lock_period \<Rightarrow> (staking_contract, lock_period \<times> u256) evm" where
  "check_stake c amount lockPeriod =
     tryE (getE sk_minStake) (\<lambda>minStake.
     tryE (revert_if (amount < minStake) (BelowMinimumStake amount minStake)) (\<lambda>_.
     tryE (getE (\<lambda>s. sk_stakes s (msg_sender c))) (\<lambda>info.
     tryE (revert_if (se_active info) AlreadyStaking) (\<lambda>_.
     tryE (getE sk_lockRequired) (\<lambda>lockRequired.
     if lockRequired
     then tryE (addE (block_timestamp c) (lockDuration lockPeriod)) (\<lambda>unlockAt. okE (lockPeriod, unlockAt))
     else okE (Days30, block_timestamp c))))))"

definition record_stake :: "call_ctx \<Rightarrow> u256 \<Rightarrow> lock_period \<Rightarrow> u256 \<Rightarrow> (staking_contract, unit) evm" where
  "record_stake c amount storedPeriod unlockAt =
     tryE (putE (\<lambda>s. s \<lparr> sk_stakes := (sk_stakes s)(msg_sender c := \<lparr> se_amount = amount, se_lockPeriod = storedPeriod,
             se_stakedAt = block_timestamp c, se_unlockAt = unlockAt, se_active = True \<rparr>) \<rparr>)) (\<lambda>_.
     tryE (getE sk_isStaker) (\<lambda>isStaker.
     tryE (if \<not> isStaker (msg_sender c)
           then putE (\<lambda>s. s \<lparr> sk_isStaker := (sk_isStaker s)(msg_sender c := True), sk_stakers := sk_stakers s @ [msg_sender c] \<rparr>)
           else okE ()) (\<lambda>_.
     tryE (getE sk_totalStaked) (\<lambda>total.
     tryE (addE total amount) (\<lambda>total'.
     tryE (putE (\<lambda>s. s \<lparr> sk_totalStaked := total' \<rparr>)) (\<lambda>_.
     staking_emit (Staked (msg_sender c) amount storedPeriod unlockAt)))))))"

definition stake :: "'t erc20 \<Rightarrow> call_ctx \<Rightarrow> u256 \<Rightarrow> lock_period \<Rightarrow> ('t staking_world, unit) evm" where
  "stake T c amount lockPeriod =
     tryE (in_staking (check_stake c amount lockPeriod)) (\<lambda>(storedPeriod, unlockAt).
     tryE (getE (\<lambda>s. sk_primToken (sw_staking s))) (\<lambda>primToken.
     tryE (safeTransferFrom T c primToken (msg_sender c) (this_addr c) amount) (\<lambda>_.
     in_staking (record_stake c amount storedPeriod unlockAt))))"

definition release_stake :: "call_ctx \<Rightarrow> (staking_contract, u256) evm" where
  "release_stake c =
     tryE (getE (\<lambda>s. sk_stakes s (msg_sender c))) (\<lambda>info.
     tryE (revert_if (\<not> se_active info) NotStaking) (\<lambda>_.
     tryE (revert_if (block_timestamp c < se_unlockAt info) (StillLocked (se_unlockAt info) (block_timestamp c))) (\<lambda>_.
     tryE (putE (\<lambda>s. s \<lparr> sk_stakes := (sk_stakes s)(msg_sender c := info \<lparr> se_active := False, se_amount := 0 \<rparr>) \<rparr>)) (\<lambda>_.
     tryE (getE sk_totalStaked) (\<lambda>total.
     tryE (subE total (se_amount info)) (\<lambda>total'.
     tryE (putE (\<lambda>s. s \<lparr> sk_totalStaked := total' \<rparr>)) (\<lambda>_.
     okE (se_amount info))))))))"

definition unstake :: "'t erc20 \<Rightarrow> call_ctx \<Rightarrow> ('t staking_world, unit) evm" where
  "unstake T c =
     tryE (in_staking (release_stake c)) (\<lambda>amount.
     tryE (getE (\<lambda>s. sk_primToken (sw_staking s))) (\<lambda>primToken.
     tryE (safeTransfer T c primToken (msg_sender c) amount) (\<lambda>_.
     in_staking (staking_emit (Unstaked (msg_sender c) amount)))))"

fun lockMultiplier :: "lock_period \<Rightarrow> u256" where
  "lockMultiplier Days30 = MULT_30"
| "lockMultiplier Days90 = MULT_90"
| "lockMultiplier Days180 = MULT_180"

definition baseBoostBps :: "u256 \<Rightarrow> u256" where
  "baseBoostBps amount =
     (if 500000 * 10 ^ 18 \<le> amount then 2500
      else if 100000 * 10 ^ 18 \<le> amount then 1800
      else if 50000 * 10 ^ 18 \<le> amount then 1000
      else if 10000 * 10 ^ 18 \<le> amount then 500
      else 0)"

definition effectiveBoostBps :: "address \<Rightarrow> (staking_contract, u256) evm" where
  "effectiveBoostBps user =
     tryE (getE (\<lambda>s. sk_stakes s user)) (\<lambda>info.
     if \<not> se_active info then okE 0
     else tryE (mulE (baseBoostBps (se_amount info)) (lockMultiplier (se_lockPeriod info))) (\<lambda>scaled.
          tryE (divE scaled MULT_SCALE) (\<lambda>effective.
          okE (if STAKING_MAX_BOOST_BPS < effective then STAKING_MAX_BOOST_BPS else effective))))"

text \<open>The loop over the stakers, with the count of the active ones.\<close>

fun pay_stakers ::
    "'t erc20 \<Rightarrow> call_ctx \<Rightarrow> address \<Rightarrow> u256 \<Rightarrow> u256 \<Rightarrow> address list \<Rightarrow> u256 \<Rightarrow> ('t staking_world, u256) evm" where
  "pay_stakers T c rewardToken totalAmount staked [] activeStakerCount = okE activeStakerCount"
| "pay_stakers T c rewardToken totalAmount staked (user # users) activeStakerCount =
     tryE (getE (\<lambda>s. sk_stakes (sw_staking s) user)) (\<lambda>info.
     if \<not> se_active info then pay_stakers T c rewardToken totalAmount staked users activeStakerCount
     else tryE (addE activeStakerCount 1) (\<lambda>n.
          tryE (mulE totalAmount (se_amount info)) (\<lambda>share.
          tryE (divE share staked) (\<lambda>reward.
          tryE (if 0 < reward
                then tryE (safeTransfer T c rewardToken user reward) (\<lambda>_. in_staking (staking_emit (RewardPaid user reward)))
                else okE ()) (\<lambda>_.
          pay_stakers T c rewardToken totalAmount staked users n)))))"

definition distributeRevenue :: "'t erc20 \<Rightarrow> call_ctx \<Rightarrow> address \<Rightarrow> u256 \<Rightarrow> ('t staking_world, unit) evm" where
  "distributeRevenue T c rewardToken totalAmount =
     tryE (only_owner c) (\<lambda>_.
     tryE (revert_if (totalAmount = 0) ZeroAmount) (\<lambda>_.
     tryE (safeTransferFrom T c rewardToken (msg_sender c) (this_addr c) totalAmount) (\<lambda>_.
     tryE (getE (\<lambda>s. sk_totalStaked (sw_staking s))) (\<lambda>staked.
     tryE (getE (\<lambda>s. sk_stakers (sw_staking s))) (\<lambda>stakers.
     tryE (pay_stakers T c rewardToken totalAmount staked stakers 0) (\<lambda>activeStakerCount.
     in_staking (staking_emit (RevenueDistributed totalAmount activeStakerCount))))))))"

definition getStakerCount :: "(staking_contract, u256) evm" where
  "getStakerCount = getE (\<lambda>s. word_of_nat (length (sk_stakers s)))"

section \<open>Transactions\<close>

text \<open>Calls of the contract, and calls of the tokens by anybody else.\<close>

datatype staking_call =
    Stake u256 lock_period
  | Unstake
  | DistributeRevenue address u256
  | OtherToken address ledger_call

fun staking_exec :: "'t erc20 \<Rightarrow> call_ctx \<times> staking_call \<Rightarrow> ('t staking_world, unit) evm" where
  "staking_exec T (c, Stake n l) = stake T c n l"
| "staking_exec T (c, Unstake) = unstake T c"
| "staking_exec T (c, DistributeRevenue r n) = distributeRevenue T c r n"
| "staking_exec T (c, OtherToken a k) = at_token a (ledger_exec T (msg_sender c) k)"

text \<open>The contract lives at \<open>me\<close> and sends nothing of its own accord; and a call that burns tokens the
  contract holds, which \<open>PrimToken\<close> allows its burner for every account.\<close>

definition outsiders :: "address \<Rightarrow> call_ctx \<times> staking_call \<Rightarrow> bool" where
  "outsiders me k \<longleftrightarrow> this_addr (fst k) = me \<and> msg_sender (fst k) \<noteq> me"

definition burns_holdings :: "address \<Rightarrow> call_ctx \<times> staking_call \<Rightarrow> bool" where
  "burns_holdings me k \<longleftrightarrow> (\<exists>a f. snd k = OtherToken a f \<and> burns_from me f)"

section \<open>Accounts\<close>

lemma sum_list_upd_other:
  fixes f :: "'a \<Rightarrow> nat"
  shows "u \<notin> set us \<Longrightarrow> (\<Sum>a\<leftarrow>us. if a = u then x else f a) = (\<Sum>a\<leftarrow>us. f a)"
  by (induction us) auto

lemma sum_list_upd:
  fixes f :: "'a \<Rightarrow> nat"
  assumes "distinct us" and "u \<in> set us"
  shows "(\<Sum>a\<leftarrow>us. if a = u then x else f a) + f u = (\<Sum>a\<leftarrow>us. f a) + x"
  using assms
proof (induction us)
  case (Cons a us)
  then show ?case using sum_list_upd_other [of u us x f] by (cases "a = u") auto
qed simp

lemma sum_div_le: "(\<Sum>u\<leftarrow>us. f u div S) \<le> (\<Sum>u\<leftarrow>us. f u) div (S :: nat)"
proof (induction us)
  case (Cons a us)
  have "f a div S + (\<Sum>u\<leftarrow>us. f u) div S \<le> (f a + (\<Sum>u\<leftarrow>us. f u)) div S"
    by (simp add: div_add1_eq [of "f a"])
  with Cons show ?case by simp
qed simp

definition staked_sum :: "staking_contract \<Rightarrow> nat" where
  "staked_sum k = (\<Sum>a\<leftarrow>sk_stakers k. unat (se_amount (sk_stakes k a)))"

definition books_ok :: "address \<Rightarrow> staking_contract \<Rightarrow> bool" where
  "books_ok me k \<longleftrightarrow> distinct (sk_stakers k) \<and> (\<forall>a. sk_isStaker k a \<longleftrightarrow> a \<in> set (sk_stakers k)) \<and> me \<notin> set (sk_stakers k)
     \<and> (\<forall>a. se_active (sk_stakes k a) \<longrightarrow> a \<in> set (sk_stakers k)) \<and> (\<forall>a. \<not> se_active (sk_stakes k a) \<longrightarrow> se_amount (sk_stakes k a) = 0)
     \<and> unat (sk_totalStaked k) = staked_sum k"

lemma record_stake_books:
  assumes b: "books_ok me k" and ok: "record_stake c n l t k = (Inr (), k')" and out: "msg_sender c \<noteq> me"
    and inactive: "\<not> se_active (sk_stakes k (msg_sender c))"
  shows "books_ok me k'" "unat (sk_totalStaked k') = unat (sk_totalStaked k) + unat n" "sk_primToken k' = sk_primToken k"
proof -
  let ?u = "msg_sender c"
  let ?f = "\<lambda>a. unat (se_amount (sk_stakes k a))"
  have zero: "?f ?u = 0" using b inactive by (simp add: books_ok_def)
  obtain total where total: "unat total = unat (sk_totalStaked k) + unat n"
    and k'_def: "k' = k \<lparr> sk_stakes := (sk_stakes k)(?u := \<lparr> se_amount = n, se_lockPeriod = l, se_stakedAt = block_timestamp c,
        se_unlockAt = t, se_active = True \<rparr>), sk_isStaker := (sk_isStaker k)(?u := True),
      sk_stakers := (if sk_isStaker k ?u then sk_stakers k else sk_stakers k @ [?u]), sk_totalStaked := total,
      sk_logs := Staked ?u n l t # sk_logs k \<rparr>"
    using ok by (cases "sk_isStaker k ?u") (auto simp: record_stake_def evmE staking_emit_def fun_upd_idem)
  then have k': "sk_totalStaked k' = total" "sk_primToken k' = sk_primToken k"
      "sk_stakes k' = (sk_stakes k)(?u := \<lparr> se_amount = n, se_lockPeriod = l, se_stakedAt = block_timestamp c, se_unlockAt = t, se_active = True \<rparr>)"
      "sk_stakers k' = (if sk_isStaker k ?u then sk_stakers k else sk_stakers k @ [?u])"
      "sk_isStaker k' = (sk_isStaker k)(?u := True)" by simp_all
  have amounts: "(\<lambda>a. unat (se_amount (sk_stakes k' a))) = (\<lambda>a. if a = ?u then unat n else ?f a)" by (simp add: k'(3) fun_eq_iff)
  have "staked_sum k' = staked_sum k + unat n"
  proof (cases "?u \<in> set (sk_stakers k)")
    case True
    then show ?thesis using b zero sum_list_upd [of "sk_stakers k" ?u "unat n" ?f]
      by (simp add: staked_sum_def amounts k'(4) books_ok_def)
  next
    case False
    then show ?thesis using b sum_list_upd_other [of ?u "sk_stakers k" "unat n" ?f]
      by (simp add: staked_sum_def amounts k'(4) books_ok_def)
  qed
  then show "books_ok me k'" using b out total by (auto simp: books_ok_def k')
  show "unat (sk_totalStaked k') = unat (sk_totalStaked k) + unat n" "sk_primToken k' = sk_primToken k" by (simp_all add: k' total)
qed

lemma release_stake_books:
  assumes b: "books_ok me k" and ok: "release_stake c k = (Inr n, k')"
  shows "books_ok me k'" "unat (sk_totalStaked k) = unat (sk_totalStaked k') + unat n" "sk_primToken k' = sk_primToken k"
    "se_active (sk_stakes k (msg_sender c))" "n = se_amount (sk_stakes k (msg_sender c))"
proof -
  let ?u = "msg_sender c"
  let ?f = "\<lambda>a. unat (se_amount (sk_stakes k a))"
  from ok have act: "se_active (sk_stakes k ?u)" and n: "n = se_amount (sk_stakes k ?u)" and le: "n \<le> sk_totalStaked k"
    and k': "k' = k \<lparr> sk_stakes := (sk_stakes k)(?u := (sk_stakes k ?u) \<lparr> se_active := False, se_amount := 0 \<rparr>),
      sk_totalStaked := sk_totalStaked k - n \<rparr>"
    by (auto simp: release_stake_def evmE)
  have u: "?u \<in> set (sk_stakers k)" using b act by (simp add: books_ok_def)
  have amounts: "(\<lambda>a. unat (se_amount (sk_stakes k' a))) = (\<lambda>a. if a = ?u then 0 else ?f a)" by (simp add: k' fun_eq_iff)
  have "staked_sum k' + unat n = staked_sum k"
    using b u n sum_list_upd [of "sk_stakers k" ?u 0 ?f] by (simp add: staked_sum_def amounts books_ok_def) (simp add: k')
  then show "books_ok me k'" using b le by (auto simp: books_ok_def k' unat_sub_le)
  show "unat (sk_totalStaked k) = unat (sk_totalStaked k') + unat n" using le by (simp add: k' unat_sub_le word_le_nat_alt)
  show "sk_primToken k' = sk_primToken k" "se_active (sk_stakes k ?u)" "n = se_amount (sk_stakes k ?u)" by (simp_all add: k' act n)
qed

definition owes :: "'t staking_world \<Rightarrow> address \<Rightarrow> nat" where
  "owes s r = (if r = sk_primToken (sw_staking s) then unat (sk_totalStaked (sw_staking s)) else 0)"

definition holds :: "'t erc20 \<Rightarrow> address \<Rightarrow> 't staking_world \<Rightarrow> address \<Rightarrow> nat" where
  "holds T me s r = unat (tk_balance T (sw_tokens s r) me)"

definition staking_inv :: "'t erc20 \<Rightarrow> address \<Rightarrow> 't staking_world \<Rightarrow> bool" where
  "staking_inv T me s \<longleftrightarrow> books_ok me (sw_staking s) \<and> (\<forall>r q. tk_allowance T (sw_tokens s r) me q = 0)"

text \<open>What the contract holds of a token beyond what it owes never falls.\<close>

definition keeps_surplus :: "'t erc20 \<Rightarrow> address \<Rightarrow> 't staking_world \<Rightarrow> 't staking_world \<Rightarrow> bool" where
  "keeps_surplus T me s s' \<longleftrightarrow> (\<forall>r. holds T me s r + owes s' r \<le> holds T me s' r + owes s r)"

lemma keeps_surplus_trans: "keeps_surplus T me s t \<Longrightarrow> keeps_surplus T me t u \<Longrightarrow> keeps_surplus T me s u"
  unfolding keeps_surplus_def
proof
  fix r
  assume "\<forall>r. holds T me s r + owes t r \<le> holds T me t r + owes s r" "\<forall>r. holds T me t r + owes u r \<le> holds T me u r + owes t r"
  then have "holds T me s r + owes t r \<le> holds T me t r + owes s r" "holds T me t r + owes u r \<le> holds T me u r + owes t r" by blast+
  then show "holds T me s r + owes u r \<le> holds T me u r + owes s r" by linarith
qed

lemma staking_mono:
  assumes "staking_inv T me s" and "sw_staking s' = sw_staking s"
    and "\<And>r. holds T me s r \<le> holds T me s' r" and "\<And>r q. tk_allowance T (sw_tokens s' r) me q = 0"
  shows "staking_inv T me s' \<and> keeps_surplus T me s s'"
  using assms by (simp add: staking_inv_def keeps_surplus_def owes_def)

lemma at_token_ok:
  "at_token a m s = (Inr b, s') \<longleftrightarrow> (\<exists>t. m (sw_tokens s a) = (Inr b, t) \<and> s' = s \<lparr> sw_tokens := (sw_tokens s)(a := t) \<rparr>)"
  by (auto simp: at_token_def evmE token_at_ok)

context token_ledger
begin

lemma other_calls:
  assumes inv: "staking_inv T me s" and out: "outsiders me (c, OtherToken a f)" "\<not> burns_holdings me (c, OtherToken a f)"
    and ok: "staking_exec T (c, OtherToken a f) s = (Inr (), s')"
  shows "staking_inv T me s' \<and> keeps_surplus T me s s'"
proof -
  from ok obtain t where t: "ledger_exec T (msg_sender c) f (sw_tokens s a) = (Inr (), t)"
    and s': "s' = s \<lparr> sw_tokens := (sw_tokens s)(a := t) \<rparr>" by (auto simp: at_token_ok)
  have "msg_sender c \<noteq> me" "\<not> burns_from me f" using out by (simp_all add: outsiders_def burns_holdings_def)
  moreover have "\<forall>q. tk_allowance T (sw_tokens s a) me q = 0" using inv by (simp add: staking_inv_def)
  ultimately have "unat (tk_balance T (sw_tokens s a) me) \<le> unat (tk_balance T t me) \<and> (\<forall>q. tk_allowance T t me q = 0)"
    using ledger_exec_keeps [OF t] by blast
  with inv show ?thesis by (intro staking_mono [OF inv]) (auto simp: holds_def staking_inv_def s')
qed

end

definition same_books :: "staking_contract \<Rightarrow> staking_contract \<Rightarrow> bool" where
  "same_books k k' \<longleftrightarrow> k' = k \<lparr> sk_logs := sk_logs k' \<rparr>"

lemma same_booksD:
  assumes "same_books k k'"
  shows "sk_stakes k' = sk_stakes k" "sk_totalStaked k' = sk_totalStaked k" "sk_stakers k' = sk_stakers k"
    "sk_primToken k' = sk_primToken k" "sk_isStaker k' = sk_isStaker k"
  by (subst assms [unfolded same_books_def], simp)+

lemma same_books_ok: "same_books k k' \<Longrightarrow> books_ok me k \<Longrightarrow> books_ok me k'"
  by (simp add: books_ok_def staked_sum_def same_booksD)

lemma same_books_trans: "same_books k k' \<Longrightarrow> same_books k' k'' \<Longrightarrow> same_books k k''"
  unfolding same_books_def by (metis staking_contract.update_convs(8) staking_contract.select_convs(8) staking_contract.surjective)

context token_ledger
begin

text \<open>The loop pays each active staker its share, rounded down, and nothing else changes.\<close>

lemma pay_stakers_ok:
  assumes "pay_stakers T c r amt staked us n s = (Inr m, s')" and "this_addr c = me" and "me \<notin> set us"
    and "\<And>a. \<not> se_active (sk_stakes (sw_staking s) a) \<Longrightarrow> se_amount (sk_stakes (sw_staking s) a) = 0"
  shows "same_books (sw_staking s) (sw_staking s') \<and> (\<forall>r'. r' \<noteq> r \<longrightarrow> sw_tokens s' r' = sw_tokens s r')
    \<and> tk_allowance T (sw_tokens s' r) me = tk_allowance T (sw_tokens s r) me
    \<and> holds T me s r = holds T me s' r
        + (\<Sum>u\<leftarrow>us. unat amt * unat (se_amount (sk_stakes (sw_staking s) u)) div unat staked)"
  using assms
proof (induction us arbitrary: n s)
  case Nil
  then show ?case by (simp add: evmE same_books_def)
next
  case (Cons u us)
  let ?i = "sk_stakes (sw_staking s) u"
  show ?case
  proof (cases "se_active ?i")
    case False
    then show ?thesis using Cons by (simp add: evmE)
  next
    case True
    with Cons.prems(1) obtain n1 share reward s1 where
      share: "unat share = unat amt * unat (se_amount ?i)" and rew: "reward = share div staked"
      and pay: "(if 0 < reward then tryE (safeTransfer T c r u reward) (\<lambda>_. in_staking (staking_emit (RewardPaid u reward))) else okE ()) s = (Inr (), s1)"
      and rest: "pay_stakers T c r amt staked us n1 s1 = (Inr m, s')"
      by (auto simp: evmE)
    have val: "unat reward = unat amt * unat (se_amount ?i) div unat staked" by (simp add: rew unat_div_word share)
    have one: "same_books (sw_staking s) (sw_staking s1) \<and> (\<forall>r'. r' \<noteq> r \<longrightarrow> sw_tokens s1 r' = sw_tokens s r')
      \<and> tk_allowance T (sw_tokens s1 r) me = tk_allowance T (sw_tokens s r) me
      \<and> holds T me s r = holds T me s1 r + unat reward"
    proof (cases "0 < reward")
      case True
      with pay obtain t where t: "tk_transfer T (this_addr c) u reward (sw_tokens s r) = (Inr True, t)"
        and s1: "s1 = s \<lparr> sw_tokens := (sw_tokens s)(r := t), sw_staking := (sw_staking s) \<lparr> sk_logs := RewardPaid u reward # sk_logs (sw_staking s) \<rparr> \<rparr>"
        by (auto simp: evmE safeTransfer_def safe_ok at_token_ok in_staking_def staking_emit_def)
      have "u \<noteq> me" using Cons.prems(3) by auto
      from pay_out [OF t [unfolded Cons.prems(2)] this] show ?thesis by (simp add: s1 holds_def same_books_def)
    next
      case False
      then have "reward = 0" by (simp add: word_neq_0_conv [symmetric])
      with pay show ?thesis by (simp add: evmE same_books_def holds_def)
    qed
    then have st: "sk_stakes (sw_staking s1) = sk_stakes (sw_staking s)" by (simp add: same_booksD)
    have "me \<notin> set us" using Cons.prems(3) by simp
    from Cons.IH [OF rest Cons.prems(2) this] Cons.prems(4) one val show ?thesis
      using same_books_trans by (simp add: st) blast
  qed
qed

lemma stake_step:
  assumes inv: "staking_inv T me s" and out: "this_addr c = me" "msg_sender c \<noteq> me" and ok: "stake T c n l s = (Inr (), s')"
  shows "staking_inv T me s' \<and> keeps_surplus T me s s'"
proof -
  let ?k = "sw_staking s" and ?p = "sk_primToken (sw_staking s)"
  from ok obtain per unlock k1 where chk: "check_stake c n l ?k = (Inr (per, unlock), k1)"
    and rest: "tryE (getE (\<lambda>s. sk_primToken (sw_staking s))) (\<lambda>primToken.
       tryE (safeTransferFrom T c primToken (msg_sender c) (this_addr c) n) (\<lambda>_. in_staking (record_stake c n per unlock)))
       (s \<lparr> sw_staking := k1 \<rparr>) = (Inr (), s')"
    by (auto simp: stake_def evmE in_staking_def)
  from chk have k1: "k1 = ?k" and idle: "\<not> se_active (sk_stakes ?k (msg_sender c))"
    by (auto simp: check_stake_def evmE split: if_splits)
  have "s \<lparr> sw_staking := k1 \<rparr> = s" by (simp add: k1)
  with rest obtain t k' where t: "tk_transfer_from T me (msg_sender c) me n (sw_tokens s ?p) = (Inr True, t)"
    and rec: "record_stake c n per unlock ?k = (Inr (), k')"
    and s': "s' = s \<lparr> sw_tokens := (sw_tokens s)(?p := t), sw_staking := k' \<rparr>"
    by (auto simp: evmE safeTransferFrom_def safe_ok at_token_ok in_staking_def out(1))
  have "books_ok me ?k" using inv by (simp add: staking_inv_def)
  note b = record_stake_books [OF this rec out(2) idle]
  note m = take_in [OF t out(2)]
  show ?thesis
    using inv b m by (auto simp: staking_inv_def keeps_surplus_def holds_def owes_def s')
qed

lemma unstake_step:
  assumes inv: "staking_inv T me s" and out: "this_addr c = me" "msg_sender c \<noteq> me" and ok: "unstake T c s = (Inr (), s')"
  shows "staking_inv T me s' \<and> keeps_surplus T me s s'"
proof -
  let ?k = "sw_staking s" and ?p = "sk_primToken (sw_staking s)"
  from ok obtain n k1 where rel: "release_stake c ?k = (Inr n, k1)"
    and rest: "tryE (getE (\<lambda>s. sk_primToken (sw_staking s))) (\<lambda>primToken.
       tryE (safeTransfer T c primToken (msg_sender c) n) (\<lambda>_. in_staking (staking_emit (Unstaked (msg_sender c) n))))
       (s \<lparr> sw_staking := k1 \<rparr>) = (Inr (), s')"
    by (auto simp: unstake_def evmE in_staking_def)
  have "books_ok me ?k" using inv by (simp add: staking_inv_def)
  note b = release_stake_books [OF this rel]
  from rest b(3) obtain t where t: "tk_transfer T me (msg_sender c) n (sw_tokens s ?p) = (Inr True, t)"
    and s': "s' = s \<lparr> sw_tokens := (sw_tokens s)(?p := t), sw_staking := k1 \<lparr> sk_logs := Unstaked (msg_sender c) n # sk_logs k1 \<rparr> \<rparr>"
    by (auto simp: evmE safeTransfer_def safe_ok at_token_ok in_staking_def staking_emit_def out(1))
  have "books_ok me (sw_staking s')" using b(1) by (rule same_books_ok [rotated]) (simp add: same_books_def s')
  with inv b pay_out [OF t out(2)] show ?thesis
    by (auto simp: staking_inv_def keeps_surplus_def holds_def owes_def s')
qed

lemma distribute_step:
  assumes inv: "staking_inv T me s" and out: "this_addr c = me" "msg_sender c \<noteq> me"
    and ok: "distributeRevenue T c r n s = (Inr (), s')"
  shows "staking_inv T me s' \<and> keeps_surplus T me s s'"
proof -
  let ?k = "sw_staking s"
  from ok obtain t count s2 where t: "tk_transfer_from T me (msg_sender c) me n (sw_tokens s r) = (Inr True, t)"
    and loop: "pay_stakers T c r n (sk_totalStaked ?k) (sk_stakers ?k) 0 (s \<lparr> sw_tokens := (sw_tokens s)(r := t) \<rparr>) = (Inr count, s2)"
    and s': "s' = s2 \<lparr> sw_staking := (sw_staking s2) \<lparr> sk_logs := RevenueDistributed n count # sk_logs (sw_staking s2) \<rparr> \<rparr>"
    by (auto simp: distributeRevenue_def evmE safeTransferFrom_def safe_ok at_token_ok in_staking_def staking_emit_def out(1))
  have b: "books_ok me ?k" using inv by (simp add: staking_inv_def)
  let ?a = "\<lambda>u. unat (se_amount (sk_stakes ?k u))"
  have p: "same_books ?k (sw_staking s2)" "\<And>r'. r' \<noteq> r \<Longrightarrow> sw_tokens s2 r' = sw_tokens s r'"
    "tk_allowance T (sw_tokens s2 r) me = tk_allowance T t me"
    "unat (tk_balance T t me) = holds T me s2 r + (\<Sum>u\<leftarrow>sk_stakers ?k. unat n * ?a u div unat (sk_totalStaked ?k))"
    using pay_stakers_ok [OF loop out(1)] b by (auto simp: books_ok_def holds_def)
  have "(\<Sum>u\<leftarrow>sk_stakers ?k. unat n * ?a u div unat (sk_totalStaked ?k)) \<le> (\<Sum>u\<leftarrow>sk_stakers ?k. unat n * ?a u) div unat (sk_totalStaked ?k)"
    by (rule sum_div_le)
  also have "(\<Sum>u\<leftarrow>sk_stakers ?k. unat n * ?a u) = unat n * unat (sk_totalStaked ?k)"
    using b by (simp add: books_ok_def staked_sum_def sum_list_const_mult)
  also have "unat n * unat (sk_totalStaked ?k) div unat (sk_totalStaked ?k) \<le> unat n" by (simp add: div_le_dividend)
  finally have paid: "unat (tk_balance T t me) \<le> holds T me s2 r + unat n" using p(4) by simp
  have held: "holds T me s r' \<le> holds T me s' r'" for r'
  proof (cases "r' = r")
    case True
    then show ?thesis using paid take_in(1) [OF t out(2)] by (simp add: holds_def s')
  qed (simp add: holds_def s' p(2))
  have "same_books ?k (sw_staking s')" using p(1) by (rule same_books_trans) (simp add: s' same_books_def)
  moreover have "\<forall>r' q. tk_allowance T (sw_tokens s' r') me q = 0"
  proof (intro allI)
    fix r' q
    show "tk_allowance T (sw_tokens s' r') me q = 0"
      using inv p(2,3) take_in(2) [OF t out(2)] by (cases "r' = r") (simp_all add: s' staking_inv_def)
  qed
  ultimately show ?thesis
    using b held same_books_ok by (auto simp: staking_inv_def keeps_surplus_def owes_def same_booksD)
qed

lemma staking_step:
  assumes inv: "staking_inv T me s" and out: "outsiders me k" "\<not> burns_holdings me k" and ok: "staking_exec T k s = (Inr (), s')"
  shows "staking_inv T me s' \<and> keeps_surplus T me s s'"
proof -
  obtain c f where k: "k = (c, f)" by fastforce
  have out': "this_addr c = me" "msg_sender c \<noteq> me" using out by (simp_all add: k outsiders_def)
  show ?thesis
  proof (cases f)
    case (OtherToken a g)
    then show ?thesis using other_calls [OF inv] out ok k by blast
  qed (use ok k stake_step [OF inv out'] unstake_step [OF inv out'] distribute_step [OF inv out'] in auto)
qed

lemma staking_runs:
  assumes "runs (\<lambda>k. outsiders me k \<and> \<not> burns_holdings me k) (staking_exec T) s s'" and "staking_inv T me s"
  shows "staking_inv T me s' \<and> keeps_surplus T me s s'"
  using assms(1)
proof (induction rule: runs_invariant)
  case (step k t u)
  then show ?case using staking_step [of me t k u] keeps_surplus_trans [of T me s t u] by blast
qed (use assms(2) in \<open>simp add: keeps_surplus_def\<close>)

end

section \<open>Solvency\<close>

definition staking_deployed :: "'t erc20 \<Rightarrow> address \<Rightarrow> 't staking_world \<Rightarrow> bool" where
  "staking_deployed T me s \<longleftrightarrow> (\<exists>primToken minStake lockRequired. staking_initialize primToken minStake lockRequired = Inr (sw_staking s))
     \<and> (\<forall>r q. tk_allowance T (sw_tokens s r) me q = 0)"

lemma deployed_staking_inv:
  assumes "staking_deployed T me s"
  shows "staking_inv T me s" "owes s r = 0"
proof -
  obtain p m l where "staking_initialize p m l = Inr (sw_staking s)" using assms by (auto simp: staking_deployed_def)
  then have k: "sw_staking s = \<lparr> sk_primToken = p, sk_totalStaked = 0, sk_minStake = m, sk_lockRequired = l,
        sk_stakes = (\<lambda>_. no_stake), sk_stakers = [], sk_isStaker = (\<lambda>_. False), sk_logs = [] \<rparr>"
    by (auto simp: staking_initialize_def split: if_splits)
  show "staking_inv T me s" "owes s r = 0"
    using assms by (simp_all add: staking_inv_def books_ok_def staked_sum_def no_stake_def k owes_def staking_deployed_def)
qed

text \<open>
  C12: the staking contract can always pay its stakers, as long as nobody burns what it holds. \<open>PrimToken\<close> lets its
  burner, which is meant to be the node registry, burn from any account, so that this is a condition on the
  burner. Whatever is staked, unstaked and distributed, and whatever else others do with the tokens, transfers, approvals,
  mints and burns from other accounts, the recorded total is the sum of the stakes of the recorded stakers, each recorded
  once, and the contract holds at least that much PRM on top of what it held at the start. And what it holds of
  any token beyond what it owes never falls: the revenue that rounding or the lack of active stakers leaves in the
  contract stays there.
\<close>

theorem staking_solvent:
  assumes "token_ledger T" and "staking_deployed T me s0"
    and "runs (\<lambda>k. outsiders me k \<and> \<not> burns_holdings me k) (staking_exec T) s0 s1"
    and "runs (\<lambda>k. outsiders me k \<and> \<not> burns_holdings me k) (staking_exec T) s1 s2"
  shows "distinct (sk_stakers (sw_staking s2))
    \<and> unat (sk_totalStaked (sw_staking s2)) = (\<Sum>a\<leftarrow>sk_stakers (sw_staking s2). unat (se_amount (sk_stakes (sw_staking s2) a)))
    \<and> holds T me s0 r + owes s2 r \<le> holds T me s2 r
    \<and> holds T me s1 r + owes s2 r \<le> holds T me s2 r + owes s1 r"
proof -
  note d = deployed_staking_inv [OF assms(2)]
  note first = token_ledger.staking_runs [OF assms(1,3) d(1)]
  have second: "staking_inv T me s2" "keeps_surplus T me s1 s2"
    using token_ledger.staking_runs [OF assms(1,4)] first by blast+
  have "keeps_surplus T me s0 s2" using keeps_surplus_trans first second(2) by blast
  then have "holds T me s0 r + owes s2 r \<le> holds T me s2 r + owes s0 r" by (simp add: keeps_surplus_def)
  with second d(2) show ?thesis by (simp add: staking_inv_def books_ok_def staked_sum_def keeps_surplus_def)
qed

section \<open>The boost\<close>

fun lock_code :: "lock_period \<Rightarrow> u8" where
  "lock_code Days30 = 0"
| "lock_code Days90 = 1"
| "lock_code Days180 = 2"

lemma boost_parts:
  "unat (lockMultiplier l) = unat (lock_multiplier_scaled (lock_code l))"
  "unat (baseBoostBps (ucast a)) = unat (base_boost_bps a)" for a :: u128
proof -
  show "unat (lockMultiplier l) = unat (lock_multiplier_scaled (lock_code l))"
    by (cases l) (simp_all add: lock_multiplier_scaled_def staking_consts)
  have "unat (ucast a :: u256) = unat a" by (simp add: unat_ucast_up)
  then show "unat (baseBoostBps (ucast a)) = unat (base_boost_bps a)"
    by (simp add: baseBoostBps_def base_boost_bps_def PRM_def word_le_nat_alt)
qed

lemma effective_boost_value:
  assumes "se_active (sk_stakes k user)" and "se_amount (sk_stakes k user) = ucast (a :: u128)"
  shows "\<exists>b. effectiveBoostBps user k = (Inr b, k)
    \<and> unat b = min (unat (base_boost_bps a) * unat (lock_multiplier_scaled (lock_code (se_lockPeriod (sk_stakes k user)))) div 100) 4000"
proof -
  let ?l = "lockMultiplier (se_lockPeriod (sk_stakes k user))" and ?b = "baseBoostBps (ucast a)"
  have "unat ?l \<le> 160" by (cases "se_lockPeriod (sk_stakes k user)") (simp_all add: staking_consts)
  then have "unat ?b * unat ?l \<le> 2500 * 160" using base_boost_range [of a] by (intro mult_le_mono) (simp_all add: boost_parts)
  then have small: "unat ?b * unat ?l < 2 ^ LENGTH(256)" by simp
  let ?e = "?b * ?l div 100"
  have e: "unat ?e = unat (base_boost_bps a) * unat (lock_multiplier_scaled (lock_code (se_lockPeriod (sk_stakes k user)))) div 100"
    using small by (simp add: unat_div_word unat_mult_exact boost_parts)
  have "effectiveBoostBps user k = (Inr (if 4000 < ?e then 4000 else ?e), k)"
    using assms small by (simp add: effectiveBoostBps_def evm_eval staking_consts)
  moreover have "unat (if 4000 < ?e then 4000 else ?e) = min (unat ?e) 4000" by (simp add: word_less_nat_alt)
  ultimately show ?thesis using e by auto
qed

text \<open>
  C27: the boost on the chain is the boost off the chain. For an active stake within 128 bits the contract's
  \<open>effectiveBoostBps\<close> succeeds with the value \<open>combined_boost_bps\<close> computes from that stake alone as an Ethereum
  stake, and where the lock period is the shortest one, as it always is on a chain without lock, also from that
  stake alone as a Polygon stake; for an inactive stake both are zero.
\<close>

theorem boost_agrees_with_backend:
  assumes "se_amount (sk_stakes k user) = ucast (a :: u128)"
  shows "\<exists>b. effectiveBoostBps user k = (Inr b, k)
    \<and> unat b = unat (if se_active (sk_stakes k user)
         then combined_boost_bps (Some (a, lock_code (se_lockPeriod (sk_stakes k user)))) None
         else combined_boost_bps None None)
    \<and> (se_active (sk_stakes k user) \<longrightarrow> se_lockPeriod (sk_stakes k user) = Days30 \<longrightarrow> unat b = unat (combined_boost_bps None (Some a)))"
proof (cases "se_active (sk_stakes k user)")
  case True
  then show ?thesis
    using effective_boost_value [OF True assms] base_boost_range [of a]
    by (auto simp: unat_combined_boost lock_of_def lock_multiplier_scaled_def)
next
  case False
  then have "effectiveBoostBps user k = (Inr 0, k)" by (simp add: effectiveBoostBps_def evm_eval)
  moreover have "unat (combined_boost_bps None None) = 0"
    by (simp add: unat_combined_boost lock_of_def base_boost_bps_def PRM_def)
  ultimately show ?thesis using False by simp
qed

section \<open>A worked stake\<close>

definition staking_ctx :: "address \<Rightarrow> call_ctx" where
  "staking_ctx a = \<lparr> msg_sender = a, this_addr = 100, owner_addr = 1, block_timestamp = 1000, block_number = 1 \<rparr>"

text \<open>Account 2 holds PRM and the owner a reward token, and both have approved the contract.\<close>

definition staking_demo :: "ledger staking_world" where
  "staking_demo = \<lparr> sw_staking = projr (staking_initialize 50 100 True),
     sw_tokens = (\<lambda>_. \<lparr> lg_balances = (\<lambda>_. 0)(1 := 700, 2 := 10 ^ 24),
       lg_allowances = (\<lambda>_ _. 0)(1 := (\<lambda>_. 0)(100 := 700), 2 := (\<lambda>_. 0)(100 := 10 ^ 24)), lg_supply = 10 ^ 24 + 700 \<rparr>) \<rparr>"

definition staking_staked :: "ledger staking_world" where
  "staking_staked = run_txs (staking_exec ledger_token) [(staking_ctx 2, Stake (60000 * 10 ^ 18) Days90)] staking_demo"

lemma staking_demo_deployed: "staking_deployed ledger_token 100 staking_demo"
  unfolding staking_deployed_def
proof
  show "\<exists>primToken minStake lockRequired. staking_initialize primToken minStake lockRequired = Inr (sw_staking staking_demo)"
    by (intro exI [of _ 50] exI [of _ 100] exI [of _ True]) (simp add: staking_demo_def staking_initialize_def)
qed (simp add: staking_demo_def ledger_token_def)

lemma staking_staked_eval:
  "sw_staking staking_staked = \<lparr> sk_primToken = 50, sk_totalStaked = 60000 * 10 ^ 18, sk_minStake = 100, sk_lockRequired = True,
     sk_stakes = (\<lambda>_. no_stake)(2 := \<lparr> se_amount = 60000 * 10 ^ 18, se_lockPeriod = Days90, se_stakedAt = 1000, se_unlockAt = 7777000,
       se_active = True \<rparr>), sk_stakers = [2], sk_isStaker = (\<lambda>_. False)(2 := True),
     sk_logs = [Staked 2 (60000 * 10 ^ 18) Days90 7777000] \<rparr>"
  by (simp add: staking_staked_def staking_demo_def staking_initialize_def staking_ctx_def stake_def in_staking_def check_stake_def
      safeTransferFrom_def safe_def at_token_def token_at_def record_stake_def staking_emit_def ledger_token_def move_tokens_def token_check_def
      staking_consts no_stake_def evm_eval)

theorem staking_solvent_witness:
  "unat (sk_totalStaked (sw_staking staking_staked)) = 60000 * 10 ^ 18
   \<and> 60000 * 10 ^ 18 \<le> holds ledger_token 100 staking_staked 50"
proof -
  have run: "runs (\<lambda>k. outsiders 100 k \<and> \<not> burns_holdings 100 k) (staking_exec ledger_token) staking_demo staking_staked"
    unfolding staking_staked_def by (rule runs_run_txs [OF runs.start]) (simp add: outsiders_def burns_holdings_def staking_ctx_def)
  have "holds ledger_token 100 staking_demo 50 + owes staking_staked 50 \<le> holds ledger_token 100 staking_staked 50"
    using staking_solvent [OF lg.token_ledger_axioms staking_demo_deployed run runs.start, of 50] by blast
  then show ?thesis by (simp add: owes_def staking_staked_eval)
qed

theorem boost_agrees_with_backend_witness:
  "\<exists>b. effectiveBoostBps 2 (sw_staking staking_staked) = (Inr b, sw_staking staking_staked)
     \<and> unat b = unat (combined_boost_bps (Some (60000 * 10 ^ 18, 1)) None)"
proof -
  have "se_amount (sk_stakes (sw_staking staking_staked) 2) = ucast (60000 * 10 ^ 18 :: u128)" by (simp add: staking_staked_eval)
  from boost_agrees_with_backend [OF this] show ?thesis by (auto simp: staking_staked_eval)
qed

end
