(* ===== verification/Node_Registry.thy ===== *)
theory Node_Registry
  imports Prim_Token
begin

text \<open>
  \<open>contracts/src/NodeRegistry.sol\<close>: nodes that stake PRM to register, and slashing by confirmed proposals after a
  veto window, with the slashed stake burned by the token. The registry is the token's burner.
\<close>

definition NODE_MIN_STAKE :: u256 where "NODE_MIN_STAKE = 10000 * 10 ^ 18"

definition VETO_WINDOW :: u256 where "VETO_WINDOW = 4 * 60 * 60"

lemmas registry_consts = NODE_MIN_STAKE_def VETO_WINDOW_def

datatype slash_reason = InvalidAttestation | Downtime

record node_info =
  ni_operator :: address
  ni_stakedAmount :: u256
  ni_violationCount :: u8
  ni_active :: bool
  ni_registeredAt :: u256

record slash_proposal =
  sl_nodeId :: bytes
  sl_reason :: slash_reason
  sl_confirmations :: u8
  sl_confirmed :: "bytes \<Rightarrow> bool"
  sl_proposedAt :: u256
  sl_executed :: bool
  sl_vetoed :: bool

datatype registry_event =
    NodeRegistered bytes address u256
  | NodeDeregistered bytes address
  | SlashProposed bytes bytes slash_reason
  | SlashConfirmed bytes bytes
  | SlashExecuted bytes bytes u256
  | SlashVetoed bytes

record node_registry =
  nr_primToken :: address
  nr_nodes :: "bytes \<Rightarrow> node_info"
  nr_slashProposals :: "bytes \<Rightarrow> slash_proposal"
  nr_logs :: "registry_event list"

record 't registry_world =
  rw_registry :: node_registry
  rw_token :: "'t prim_token"

section \<open>Functions\<close>

definition zero32 :: bytes where "zero32 = replicate 32 0"

definition no_node :: node_info where
  "no_node = \<lparr> ni_operator = 0, ni_stakedAmount = 0, ni_violationCount = 0, ni_active = False, ni_registeredAt = 0 \<rparr>"

definition no_slash :: slash_proposal where
  "no_slash = \<lparr> sl_nodeId = zero32, sl_reason = InvalidAttestation, sl_confirmations = 0, sl_confirmed = (\<lambda>_. False),
     sl_proposedAt = 0, sl_executed = False, sl_vetoed = False \<rparr>"

definition registry_initialize :: "address \<Rightarrow> evm_error + node_registry" where
  "registry_initialize primToken =
     (if primToken = 0 then Inl ZeroAddress
      else Inr \<lparr> nr_primToken = primToken, nr_nodes = (\<lambda>_. no_node), nr_slashProposals = (\<lambda>_. no_slash), nr_logs = [] \<rparr>)"

definition in_registry :: "(node_registry, 'a) evm \<Rightarrow> ('t registry_world, 'a) evm" where
  "in_registry m = on_part rw_registry (\<lambda>x s. s \<lparr> rw_registry := x \<rparr>) m"

definition to_token :: "('t prim_token, 'a) evm \<Rightarrow> ('t registry_world, 'a) evm" where
  "to_token m = on_part rw_token (\<lambda>x s. s \<lparr> rw_token := x \<rparr>) m"

definition registry_emit :: "registry_event \<Rightarrow> (node_registry, unit) evm" where
  "registry_emit e = putE (\<lambda>s. s \<lparr> nr_logs := e # nr_logs s \<rparr>)"

definition update_node :: "bytes \<Rightarrow> (node_info \<Rightarrow> node_info) \<Rightarrow> (node_registry, unit) evm" where
  "update_node nodeId f = putE (\<lambda>s. s \<lparr> nr_nodes := (nr_nodes s)(nodeId := f (nr_nodes s nodeId)) \<rparr>)"

definition update_slash :: "bytes \<Rightarrow> (slash_proposal \<Rightarrow> slash_proposal) \<Rightarrow> (node_registry, unit) evm" where
  "update_slash proposalId f =
     putE (\<lambda>s. s \<lparr> nr_slashProposals := (nr_slashProposals s)(proposalId := f (nr_slashProposals s proposalId)) \<rparr>)"

definition registerNode :: "'t erc20 \<Rightarrow> call_ctx \<Rightarrow> bytes \<Rightarrow> u256 \<Rightarrow> ('t registry_world, unit) evm" where
  "registerNode T c nodeId stakeAmount =
     tryE (revert_if (stakeAmount < NODE_MIN_STAKE) InsufficientStake) (\<lambda>_.
     tryE (getE (\<lambda>s. nr_nodes (rw_registry s) nodeId)) (\<lambda>node.
     tryE (revert_if (ni_active node) NodeAlreadyRegistered) (\<lambda>_.
     tryE (to_token (in_ledger (tk_transfer_from T (this_addr c) (msg_sender c) (this_addr c) stakeAmount))) (\<lambda>ok.
     tryE (revert_if (\<not> ok) TransferFailed) (\<lambda>_.
     tryE (in_registry (update_node nodeId (\<lambda>n. n \<lparr> ni_operator := msg_sender c, ni_stakedAmount := stakeAmount,
             ni_active := True, ni_registeredAt := block_timestamp c \<rparr>))) (\<lambda>_.
     in_registry (registry_emit (NodeRegistered nodeId (msg_sender c) stakeAmount))))))))"

definition deregisterNode :: "'t erc20 \<Rightarrow> call_ctx \<Rightarrow> bytes \<Rightarrow> ('t registry_world, unit) evm" where
  "deregisterNode T c nodeId =
     tryE (getE (\<lambda>s. nr_nodes (rw_registry s) nodeId)) (\<lambda>node.
     tryE (revert_if (\<not> ni_active node) NodeNotActive) (\<lambda>_.
     tryE (revert_if (ni_operator node \<noteq> msg_sender c) NotOperator) (\<lambda>_.
     tryE (in_registry (update_node nodeId (\<lambda>n. n \<lparr> ni_active := False, ni_stakedAmount := 0 \<rparr>))) (\<lambda>_.
     tryE (to_token (in_ledger (tk_transfer T (this_addr c) (ni_operator node) (ni_stakedAmount node)))) (\<lambda>ok.
     tryE (revert_if (\<not> ok) TransferFailed) (\<lambda>_.
     in_registry (registry_emit (NodeDeregistered nodeId (ni_operator node)))))))))"

definition proposeSlash :: "call_ctx \<Rightarrow> bytes \<Rightarrow> bytes \<Rightarrow> bytes \<Rightarrow> slash_reason \<Rightarrow> (node_registry, unit) evm" where
  "proposeSlash c proposalId targetNodeId proposingNodeId reason =
     tryE (only_owner c) (\<lambda>_.
     tryE (getE (\<lambda>s. nr_nodes s targetNodeId)) (\<lambda>node.
     tryE (revert_if (ni_operator node = 0) NodeNotFound) (\<lambda>_.
     tryE (revert_if (\<not> ni_active node) NodeNotActive) (\<lambda>_.
     tryE (update_slash proposalId (\<lambda>p. p \<lparr> sl_nodeId := targetNodeId, sl_reason := reason, sl_proposedAt := block_timestamp c,
             sl_confirmations := 1, sl_confirmed := (sl_confirmed p)(proposingNodeId := True) \<rparr>)) (\<lambda>_.
     tryE (registry_emit (SlashProposed proposalId targetNodeId reason)) (\<lambda>_.
     registry_emit (SlashConfirmed proposalId proposingNodeId)))))))"

definition confirmSlash :: "call_ctx \<Rightarrow> bytes \<Rightarrow> bytes \<Rightarrow> (node_registry, unit) evm" where
  "confirmSlash c proposalId confirmingNodeId =
     tryE (only_owner c) (\<lambda>_.
     tryE (getE (\<lambda>s. nr_slashProposals s proposalId)) (\<lambda>proposal.
     tryE (revert_if (sl_executed proposal) AlreadyExecuted) (\<lambda>_.
     tryE (revert_if (sl_vetoed proposal) AlreadyVetoed) (\<lambda>_.
     tryE (revert_if (sl_confirmed proposal confirmingNodeId) AlreadyConfirmed) (\<lambda>_.
     tryE (addE (sl_confirmations proposal) 1) (\<lambda>n.
     tryE (update_slash proposalId (\<lambda>p. p \<lparr> sl_confirmed := (sl_confirmed p)(confirmingNodeId := True), sl_confirmations := n \<rparr>)) (\<lambda>_.
     registry_emit (SlashConfirmed proposalId confirmingNodeId))))))))"

definition slashBps :: "slash_reason \<Rightarrow> u8 \<Rightarrow> u256" where
  "slashBps reason violationCount =
     (if reason = Downtime then 500
      else if violationCount = 0 then 1000
      else if violationCount = 1 then 2500
      else 10000)"

definition apply_slash :: "call_ctx \<Rightarrow> bytes \<Rightarrow> (node_registry, bytes \<times> u256) evm" where
  "apply_slash c proposalId =
     tryE (only_owner c) (\<lambda>_.
     tryE (getE (\<lambda>s. nr_slashProposals s proposalId)) (\<lambda>proposal.
     tryE (revert_if (sl_executed proposal) AlreadyExecuted) (\<lambda>_.
     tryE (revert_if (sl_vetoed proposal) AlreadyVetoed) (\<lambda>_.
     tryE (revert_if (sl_confirmations proposal < 2) InsufficientConfirmations) (\<lambda>_.
     tryE (addE (sl_proposedAt proposal) VETO_WINDOW) (\<lambda>windowEnd.
     tryE (revert_if (block_timestamp c < windowEnd) VetoWindowActive) (\<lambda>_.
     tryE (getE (\<lambda>s. nr_nodes s (sl_nodeId proposal))) (\<lambda>node.
     tryE (mulE (ni_stakedAmount node) (slashBps (sl_reason proposal) (ni_violationCount node))) (\<lambda>scaled.
     tryE (divE scaled 10000) (\<lambda>slashAmount.
     tryE (subE (ni_stakedAmount node) slashAmount) (\<lambda>remaining.
     tryE (addE (ni_violationCount node) 1) (\<lambda>violations.
     tryE (update_node (sl_nodeId proposal) (\<lambda>n. n \<lparr> ni_stakedAmount := remaining, ni_violationCount := violations \<rparr>)) (\<lambda>_.
     tryE (if sl_reason proposal = InvalidAttestation \<and> 2 \<le> ni_violationCount node
           then tryE (update_node (sl_nodeId proposal) (\<lambda>n. n \<lparr> ni_active := False \<rparr>)) (\<lambda>_.
                registry_emit (NodeDeregistered (sl_nodeId proposal) (ni_operator node)))
           else okE ()) (\<lambda>_.
     tryE (update_slash proposalId (\<lambda>p. p \<lparr> sl_executed := True \<rparr>)) (\<lambda>_.
     okE (sl_nodeId proposal, slashAmount))))))))))))))))"

definition executeSlash :: "'t erc20 \<Rightarrow> call_ctx \<Rightarrow> bytes \<Rightarrow> ('t registry_world, unit) evm" where
  "executeSlash T c proposalId =
     tryE (in_registry (apply_slash c proposalId)) (\<lambda>(nodeId, slashAmount).
     tryE (to_token (token_burn T (c \<lparr> msg_sender := this_addr c \<rparr>) (this_addr c) slashAmount)) (\<lambda>_.
     in_registry (registry_emit (SlashExecuted proposalId nodeId slashAmount))))"

definition vetoSlash :: "call_ctx \<Rightarrow> bytes \<Rightarrow> (node_registry, unit) evm" where
  "vetoSlash c proposalId =
     tryE (only_owner c) (\<lambda>_.
     tryE (getE (\<lambda>s. nr_slashProposals s proposalId)) (\<lambda>proposal.
     tryE (revert_if (sl_executed proposal) AlreadyExecuted) (\<lambda>_.
     tryE (addE (sl_proposedAt proposal) VETO_WINDOW) (\<lambda>windowEnd.
     tryE (revert_if (windowEnd < block_timestamp c) VetoWindowExpired) (\<lambda>_.
     tryE (update_slash proposalId (\<lambda>p. p \<lparr> sl_vetoed := True \<rparr>)) (\<lambda>_.
     registry_emit (SlashVetoed proposalId)))))))"

section \<open>Transactions\<close>

datatype registry_call =
    RegisterNode bytes u256
  | DeregisterNode bytes
  | ProposeSlash bytes bytes bytes slash_reason
  | ConfirmSlash bytes bytes
  | ExecuteSlash bytes
  | VetoSlash bytes
  | CallToken token_call

fun registry_exec :: "'t erc20 \<Rightarrow> call_ctx \<times> registry_call \<Rightarrow> ('t registry_world, unit) evm" where
  "registry_exec T (c, RegisterNode n a) = registerNode T c n a"
| "registry_exec T (c, DeregisterNode n) = deregisterNode T c n"
| "registry_exec T (c, ProposeSlash p n o' r) = in_registry (proposeSlash c p n o' r)"
| "registry_exec T (c, ConfirmSlash p n) = in_registry (confirmSlash c p n)"
| "registry_exec T (c, ExecuteSlash p) = executeSlash T c p"
| "registry_exec T (c, VetoSlash p) = in_registry (vetoSlash c p)"
| "registry_exec T (c, CallToken k) = to_token (token_exec T c k)"

text \<open>The registry lives at \<open>me\<close> and sends nothing of its own accord; and a call by which the owner of the token
  appoints another burner, which may then burn from any account.\<close>

definition registry_outsiders :: "address \<Rightarrow> call_ctx \<times> registry_call \<Rightarrow> bool" where
  "registry_outsiders me k \<longleftrightarrow> this_addr (fst k) = me \<and> msg_sender (fst k) \<noteq> me"

definition replaces_burner :: "address \<Rightarrow> call_ctx \<times> registry_call \<Rightarrow> bool" where
  "replaces_burner me k \<longleftrightarrow> (\<exists>a. a \<noteq> me \<and> snd k = CallToken (SetBurner a))"

section \<open>Custody of the stakes\<close>

lemma support_sum_upd:
  fixes f :: "'a \<Rightarrow> nat"
  assumes "finite {n. f n \<noteq> 0}"
  shows "finite {m. (f(n := x)) m \<noteq> 0}"
    and "(\<Sum>m | (f(n := x)) m \<noteq> 0. (f(n := x)) m) + f n = (\<Sum>m | f m \<noteq> 0. f m) + x"
proof -
  let ?g = "f(n := x)" and ?S = "insert n {m. f m \<noteq> 0}"
  have fin: "finite ?S" using assms by simp
  show g: "finite {m. ?g m \<noteq> 0}" by (rule finite_subset [OF _ fin]) auto
  have "(\<Sum>m | ?g m \<noteq> 0. ?g m) = (\<Sum>m\<in>?S. ?g m)" by (rule sum.mono_neutral_left [OF fin]) auto
  also have "\<dots> = x + (\<Sum>m\<in>?S - {n}. f m)" using fin by (subst sum.remove [of ?S n]) auto
  finally have "(\<Sum>m | ?g m \<noteq> 0. ?g m) = x + (\<Sum>m\<in>?S - {n}. f m)" .
  moreover have "(\<Sum>m\<in>?S. f m) = f n + (\<Sum>m\<in>?S - {n}. f m)" by (rule sum.remove [OF fin]) simp
  ultimately have "(\<Sum>m | ?g m \<noteq> 0. ?g m) + f n = x + (\<Sum>m\<in>?S. f m)" by linarith
  also have "(\<Sum>m\<in>?S. f m) = (\<Sum>m | f m \<noteq> 0. f m)" by (rule sum.mono_neutral_right [OF fin]) auto
  finally show "(\<Sum>m | ?g m \<noteq> 0. ?g m) + f n = (\<Sum>m | f m \<noteq> 0. f m) + x" by simp
qed

definition stake_of :: "node_registry \<Rightarrow> bytes \<Rightarrow> nat" where
  "stake_of k n = unat (ni_stakedAmount (nr_nodes k n))"

definition registry_inv :: "'t erc20 \<Rightarrow> address \<Rightarrow> 't registry_world \<Rightarrow> bool" where
  "registry_inv T me s \<longleftrightarrow> pt_burner (rw_token s) = me \<and> (\<forall>q. tk_allowance T (pt_ledger (rw_token s)) me q = 0)
     \<and> finite {n. stake_of (rw_registry s) n \<noteq> 0}
     \<and> (\<forall>n. \<not> ni_active (nr_nodes (rw_registry s) n) \<longrightarrow> stake_of (rw_registry s) n = 0)
     \<and> (\<Sum>n | stake_of (rw_registry s) n \<noteq> 0. stake_of (rw_registry s) n) \<le> unat (tk_balance T (pt_ledger (rw_token s)) me)"

text \<open>One node changes its stake while the balance changes by as much.\<close>

lemma registry_move:
  assumes inv: "registry_inv T me s" and "pt_burner (rw_token s') = me"
    and "\<forall>q. tk_allowance T (pt_ledger (rw_token s')) me q = 0"
    and nodes: "nr_nodes (rw_registry s') = (nr_nodes (rw_registry s))(n := x)"
    and "\<not> ni_active x \<Longrightarrow> ni_stakedAmount x = 0"
    and bal: "unat (tk_balance T (pt_ledger (rw_token s)) me) + unat (ni_stakedAmount x)
       \<le> unat (tk_balance T (pt_ledger (rw_token s')) me) + stake_of (rw_registry s) n"
  shows "registry_inv T me s'"
proof -
  let ?f = "stake_of (rw_registry s)" and ?g = "stake_of (rw_registry s')"
  have g: "?g = ?f(n := unat (ni_stakedAmount x))" by (simp add: stake_of_def nodes fun_eq_iff)
  have fin: "finite {n. ?f n \<noteq> 0}" using inv by (simp add: registry_inv_def)
  note s = support_sum_upd [OF fin, of n "unat (ni_stakedAmount x)", folded g]
  have "(\<Sum>n | ?g n \<noteq> 0. ?g n) \<le> unat (tk_balance T (pt_ledger (rw_token s')) me)"
    using s(2) bal inv unfolding registry_inv_def by linarith
  with assms s(1) show ?thesis by (auto simp: registry_inv_def g nodes stake_of_def)
qed

lemma registry_token_step:
  assumes "registry_inv T me s" and "pt_burner (rw_token s') = me"
    and "\<forall>q. tk_allowance T (pt_ledger (rw_token s')) me q = 0" and "nr_nodes (rw_registry s') = nr_nodes (rw_registry s)"
    and "unat (tk_balance T (pt_ledger (rw_token s)) me) \<le> unat (tk_balance T (pt_ledger (rw_token s')) me)"
  shows "registry_inv T me s'"
proof -
  have "stake_of (rw_registry s') = stake_of (rw_registry s)" by (simp add: stake_of_def assms(4) fun_eq_iff)
  with assms show ?thesis by (auto simp: registry_inv_def)
qed

lemma apply_slash_ok:
  assumes "apply_slash c p k = (Inr (n, amount), k')"
  obtains x where "n = sl_nodeId (nr_slashProposals k p)" "nr_nodes k' = (nr_nodes k)(n := x)"
    "unat (ni_stakedAmount (nr_nodes k n)) = unat (ni_stakedAmount x) + unat amount"
    "ni_active x = (ni_active (nr_nodes k n) \<and> \<not> (sl_reason (nr_slashProposals k p) = InvalidAttestation \<and> 2 \<le> ni_violationCount (nr_nodes k n)))"
    "unat amount = unat (ni_stakedAmount (nr_nodes k n)) * unat (slashBps (sl_reason (nr_slashProposals k p)) (ni_violationCount (nr_nodes k n))) div 10000"
proof -
  let ?q = "nr_slashProposals k p"
  let ?n = "nr_nodes k (sl_nodeId ?q)"
  let ?out = "sl_reason ?q = InvalidAttestation \<and> 2 \<le> ni_violationCount ?n"
  obtain scaled v where scaled: "unat scaled = unat (ni_stakedAmount ?n) * unat (slashBps (sl_reason ?q) (ni_violationCount ?n))"
    and am: "amount = scaled div 10000" "amount \<le> ni_stakedAmount ?n" and n: "n = sl_nodeId ?q"
    and nodes: "nr_nodes k' = (nr_nodes k)(n := ?n \<lparr> ni_stakedAmount := ni_stakedAmount ?n - amount, ni_violationCount := v,
      ni_active := (if ?out then False else ni_active ?n) \<rparr>)"
    using assms unfolding apply_slash_def update_node_def update_slash_def registry_emit_def evmE
    by (cases ?out) auto
  show ?thesis
    by (rule that [OF n nodes]) (use am n in \<open>simp_all add: unat_sub_le word_le_nat_alt unat_div_word scaled\<close>)
qed

lemma token_exec_burner:
  assumes "token_exec T c k s = (Inr (), s')" and "\<nexists>a. a \<noteq> pt_burner s \<and> k = SetBurner a"
  shows "pt_burner s' = pt_burner s"
  using assms by (cases k) (auto simp: token_defs evmE)

lemma full_slash: "ni_violationCount x \<ge> 2 \<Longrightarrow> slashBps InvalidAttestation (ni_violationCount x) = 10000"
  by (auto simp: slashBps_def word_le_nat_alt)

context token_ledger
begin

lemma ledger_call_keeps:
  assumes "token_exec T c k s = (Inr (), s')" and "msg_sender c \<noteq> me" and "pt_burner s = me"
    and "\<forall>q. tk_allowance T (pt_ledger s) me q = 0"
  shows "unat (tk_balance T (pt_ledger s) me) \<le> unat (tk_balance T (pt_ledger s') me)
    \<and> (\<forall>q. tk_allowance T (pt_ledger s') me q = 0)"
proof (cases k)
  case (Mint to n)
  with assms obtain l where l: "tk_mint T to n (pt_ledger s) = (Inr (), l)" "pt_ledger s' = l" by (auto simp: token_defs evmE)
  then show ?thesis using mint_law [OF l(1)] assms(4) by (cases "me = to") auto
next
  case (Transfer to n)
  with assms(1) obtain b l where l: "tk_transfer T (msg_sender c) to n (pt_ledger s) = (Inr b, l)" "pt_ledger s' = l"
    by (auto simp: token_defs evmE)
  then show ?thesis using transfer_keeps [OF l(1) assms(2)] assms(4) by simp
next
  case (TransferFrom src to n)
  with assms(1) obtain b l where l: "tk_transfer_from T (msg_sender c) src to n (pt_ledger s) = (Inr b, l)" "pt_ledger s' = l"
    by (auto simp: token_defs evmE)
  then show ?thesis using holder_keeps [OF l(1) assms(4,2)] by simp
next
  case (ApproveSpender sp n)
  with assms(1) obtain b l where l: "tk_approve T (msg_sender c) sp n (pt_ledger s) = (Inr b, l)" "pt_ledger s' = l"
    by (auto simp: token_defs evmE)
  then show ?thesis using approve_law [OF l(1)] assms(2,4) by simp
qed (use assms in \<open>auto simp: token_defs evmE\<close>)

lemma register_step:
  assumes inv: "registry_inv T me s" and out: "this_addr c = me" "msg_sender c \<noteq> me"
    and ok: "registerNode T c n a s = (Inr (), s')"
  shows "registry_inv T me s'"
proof -
  from ok out obtain l where idle: "\<not> ni_active (nr_nodes (rw_registry s) n)"
    and l: "tk_transfer_from T me (msg_sender c) me a (pt_ledger (rw_token s)) = (Inr True, l)"
    and tok: "rw_token s' = (rw_token s) \<lparr> pt_ledger := l \<rparr>"
    and nodes: "nr_nodes (rw_registry s') = (nr_nodes (rw_registry s))(n := (nr_nodes (rw_registry s) n) \<lparr> ni_operator := msg_sender c,
       ni_stakedAmount := a, ni_active := True, ni_registeredAt := block_timestamp c \<rparr>)"
    by (auto simp: registerNode_def evmE to_token_def in_ledger_def in_registry_def update_node_def registry_emit_def)
  note t = take_in [OF l out(2)]
  show ?thesis
    by (rule registry_move [OF inv _ _ nodes]) (use inv idle t in \<open>auto simp: tok registry_inv_def\<close>)
qed

lemma deregister_step:
  assumes inv: "registry_inv T me s" and out: "this_addr c = me" "msg_sender c \<noteq> me"
    and ok: "deregisterNode T c n s = (Inr (), s')"
  shows "registry_inv T me s'"
proof -
  let ?x = "nr_nodes (rw_registry s) n"
  from ok out obtain l where op: "ni_operator ?x = msg_sender c"
    and l: "tk_transfer T me (msg_sender c) (ni_stakedAmount ?x) (pt_ledger (rw_token s)) = (Inr True, l)"
    and tok: "rw_token s' = (rw_token s) \<lparr> pt_ledger := l \<rparr>"
    and nodes: "nr_nodes (rw_registry s') = (nr_nodes (rw_registry s))(n := ?x \<lparr> ni_active := False, ni_stakedAmount := 0 \<rparr>)"
    by (auto simp: deregisterNode_def evmE to_token_def in_ledger_def in_registry_def update_node_def registry_emit_def)
  note t = pay_out [OF l out(2)]
  show ?thesis
    by (rule registry_move [OF inv _ _ nodes]) (use inv t in \<open>auto simp: tok registry_inv_def stake_of_def\<close>)
qed

lemma slash_step:
  assumes inv: "registry_inv T me s" and out: "this_addr c = me"
    and ok: "executeSlash T c p s = (Inr (), s')"
  shows "registry_inv T me s'"
proof -
  from ok out obtain n amount k l where sl: "apply_slash c p (rw_registry s) = (Inr (n, amount), k)"
    and l: "tk_burn T me amount (pt_ledger (rw_token s)) = (Inr (), l)"
    and s': "rw_token s' = (rw_token s) \<lparr> pt_ledger := l \<rparr>" "nr_nodes (rw_registry s') = nr_nodes k"
    by (auto simp: executeSlash_def evmE to_token_def token_burn_def in_ledger_def in_registry_def registry_emit_def)
  obtain x where x: "n = sl_nodeId (nr_slashProposals (rw_registry s) p)" "nr_nodes k = (nr_nodes (rw_registry s))(n := x)"
    "unat (ni_stakedAmount (nr_nodes (rw_registry s) n)) = unat (ni_stakedAmount x) + unat amount"
    "ni_active x = (ni_active (nr_nodes (rw_registry s) n) \<and> \<not> (sl_reason (nr_slashProposals (rw_registry s) p) = InvalidAttestation
       \<and> 2 \<le> ni_violationCount (nr_nodes (rw_registry s) n)))"
    "unat amount = unat (ni_stakedAmount (nr_nodes (rw_registry s) n))
       * unat (slashBps (sl_reason (nr_slashProposals (rw_registry s) p)) (ni_violationCount (nr_nodes (rw_registry s) n))) div 10000"
    by (rule apply_slash_ok [OF sl])
  have gone: "ni_stakedAmount x = 0" if "\<not> ni_active x"
  proof (cases "ni_active (nr_nodes (rw_registry s) n)")
    case True
    then have "sl_reason (nr_slashProposals (rw_registry s) p) = InvalidAttestation" "2 \<le> ni_violationCount (nr_nodes (rw_registry s) n)"
      using that x(4) by auto
    then have "unat amount = unat (ni_stakedAmount (nr_nodes (rw_registry s) n))" using x(5) by (simp add: full_slash)
    then show ?thesis using x(3) by (simp add: unat_eq_0)
  next
    case False
    then have "unat (ni_stakedAmount (nr_nodes (rw_registry s) n)) = 0" using inv by (auto simp: registry_inv_def stake_of_def)
    then show ?thesis using x(3) by (simp add: unat_eq_0)
  qed
  show ?thesis
    by (rule registry_move [OF inv _ _ s'(2) [unfolded x(2)] gone])
      (use inv burn_law [OF l] x(3) in \<open>auto simp: s'(1) registry_inv_def stake_of_def\<close>)
qed

lemma registry_step:
  assumes inv: "registry_inv T me s" and out: "registry_outsiders me k" "\<not> replaces_burner me k" and ok: "registry_exec T k s = (Inr (), s')"
  shows "registry_inv T me s'"
proof -
  obtain c f where k: "k = (c, f)" by fastforce
  have out': "this_addr c = me" "msg_sender c \<noteq> me" "\<nexists>a. a \<noteq> me \<and> f = CallToken (SetBurner a)"
    using out by (simp_all add: k registry_outsiders_def replaces_burner_def)
  have quiet: ?thesis if "rw_token s' = rw_token s" "nr_nodes (rw_registry s') = nr_nodes (rw_registry s)"
    by (rule registry_token_step [OF inv]) (use inv that in \<open>simp_all add: registry_inv_def\<close>)
  show ?thesis
  proof (cases f)
    case (CallToken t)
    with ok k obtain u where u: "token_exec T c t (rw_token s) = (Inr (), u)" "s' = s \<lparr> rw_token := u \<rparr>"
      by (auto simp: to_token_def evmE)
    have "pt_burner (rw_token s) = me" "\<forall>q. tk_allowance T (pt_ledger (rw_token s)) me q = 0"
      using inv by (simp_all add: registry_inv_def)
    then show ?thesis
      using token_exec_burner [OF u(1)] ledger_call_keeps [OF u(1) out'(2)] out'(3) CallToken
      by (intro registry_token_step [OF inv]) (auto simp: u(2))
  qed (use ok k register_step [OF inv out'(1,2)] deregister_step [OF inv out'(1,2)] slash_step [OF inv out'(1)] quiet in
      \<open>auto simp: in_registry_def evmE proposeSlash_def confirmSlash_def vetoSlash_def update_slash_def registry_emit_def\<close>)
qed

lemma registry_runs:
  assumes "runs (\<lambda>k. registry_outsiders me k \<and> \<not> replaces_burner me k) (registry_exec T) s s'" and "registry_inv T me s"
  shows "registry_inv T me s'"
  using assms(1)
proof (induction rule: runs_invariant)
  case (step k t u)
  then show ?case using registry_step by blast
qed (rule assms(2))

end

definition registry_deployed :: "'t erc20 \<Rightarrow> address \<Rightarrow> 't registry_world \<Rightarrow> bool" where
  "registry_deployed T me s \<longleftrightarrow> (\<exists>primToken. registry_initialize primToken = Inr (rw_registry s)) \<and> pt_burner (rw_token s) = me
     \<and> (\<forall>q. tk_allowance T (pt_ledger (rw_token s)) me q = 0)"

lemma registry_initialize_nodes: "registry_initialize p = Inr k \<Longrightarrow> nr_nodes k = (\<lambda>_. no_node)"
  by (auto simp: registry_initialize_def split: if_splits)

lemma deployed_registry_inv: "registry_deployed T me s \<Longrightarrow> registry_inv T me s"
proof -
  assume d: "registry_deployed T me s"
  then obtain p where "registry_initialize p = Inr (rw_registry s)" by (auto simp: registry_deployed_def)
  then have "nr_nodes (rw_registry s) = (\<lambda>_. no_node)" by (rule registry_initialize_nodes)
  then have "stake_of (rw_registry s) = (\<lambda>_. 0)" by (simp add: stake_of_def no_node_def fun_eq_iff)
  with d show ?thesis by (simp add: registry_inv_def registry_deployed_def)
qed

text \<open>
  C13: the registry always holds the stakes of its nodes, as long as it stays the burner of the token: another burner,
  which the owner of the token may appoint, could burn them. Whatever is registered, deregistered, proposed, confirmed,
  vetoed and slashed, and whatever else others do with the token, the PRM of the registry covers the sum of all stakes,
  and a node that is not active has no stake left.
\<close>

theorem registry_holds_stakes:
  assumes "token_ledger T" and "registry_deployed T me s" and "runs (\<lambda>k. registry_outsiders me k \<and> \<not> replaces_burner me k) (registry_exec T) s s'"
  shows "finite {n. stake_of (rw_registry s') n \<noteq> 0}
    \<and> (\<Sum>n | stake_of (rw_registry s') n \<noteq> 0. stake_of (rw_registry s') n) \<le> unat (tk_balance T (pt_ledger (rw_token s')) me)
    \<and> (\<forall>n. \<not> ni_active (nr_nodes (rw_registry s') n) \<longrightarrow> stake_of (rw_registry s') n = 0)"
  using token_ledger.registry_runs [OF assms(1,3) deployed_registry_inv [OF assms(2)]] by (simp add: registry_inv_def)

section \<open>Slashing a node that has left\<close>

fun registers :: "bytes \<Rightarrow> call_ctx \<times> registry_call \<Rightarrow> bool" where
  "registers n (c, RegisterNode m a) = (m = n)"
| "registers n _ = False"

lemma no_stake_step:
  assumes ok: "registry_exec T k s = (Inr (), s')" and none: "stake_of (rw_registry s) n = 0" and "\<not> registers n k"
  shows "stake_of (rw_registry s') n = 0"
proof -
  obtain c f where k: "k = (c, f)" by fastforce
  show ?thesis
  proof (cases f)
    case (ExecuteSlash p)
    with ok k obtain m amount k' where sl: "apply_slash c p (rw_registry s) = (Inr (m, amount), k')"
      and nodes: "nr_nodes (rw_registry s') = nr_nodes k'"
      by (auto simp: executeSlash_def evmE to_token_def token_burn_def in_ledger_def in_registry_def registry_emit_def)
    from sl show ?thesis
      by (rule apply_slash_ok) (use none nodes in \<open>auto simp: stake_of_def\<close>)
  qed (use ok k none assms(3) in \<open>auto simp: registerNode_def deregisterNode_def evmE to_token_def in_ledger_def in_registry_def
        update_node_def registry_emit_def stake_of_def proposeSlash_def confirmSlash_def vetoSlash_def update_slash_def\<close>)
qed

text \<open>
  C36: an operator can step out of a slash. An operator who deregisters a node gets its whole stake back, also while
  a slash against the node is pending in its veto window; and as long as the node is not registered again, executing
  the slash burns nothing, whatever happens in between.
\<close>

theorem deregistered_node_escapes_slash:
  assumes "token_ledger T" and "deregisterNode T c n s = (Inr (), s1)" and "msg_sender c \<noteq> this_addr c"
    and "runs (\<lambda>k. \<not> registers n k) (registry_exec T) s1 s2"
    and "executeSlash T c' p s2 = (Inr (), s3)" and "sl_nodeId (nr_slashProposals (rw_registry s2) p) = n"
  shows "unat (tk_balance T (pt_ledger (rw_token s1)) (msg_sender c))
       = unat (tk_balance T (pt_ledger (rw_token s)) (msg_sender c)) + stake_of (rw_registry s) n
    \<and> total_supply T (rw_token s3) = total_supply T (rw_token s2)"
proof
  let ?x = "nr_nodes (rw_registry s) n"
  from assms(2) obtain l where
    l: "tk_transfer T (this_addr c) (msg_sender c) (ni_stakedAmount ?x) (pt_ledger (rw_token s)) = (Inr True, l)"
    and tok: "rw_token s1 = (rw_token s) \<lparr> pt_ledger := l \<rparr>"
    and nodes: "nr_nodes (rw_registry s1) = (nr_nodes (rw_registry s))(n := ?x \<lparr> ni_active := False, ni_stakedAmount := 0 \<rparr>)"
    by (auto simp: deregisterNode_def evmE to_token_def in_ledger_def in_registry_def update_node_def registry_emit_def)
  show "unat (tk_balance T (pt_ledger (rw_token s1)) (msg_sender c))
      = unat (tk_balance T (pt_ledger (rw_token s)) (msg_sender c)) + stake_of (rw_registry s) n"
    using token_ledger.transfer_law [OF assms(1) l] assms(3) by (auto simp: tok moved_def stake_of_def unat_add_exact)
  have "stake_of (rw_registry s1) n = 0" by (simp add: stake_of_def nodes)
  with assms(4) have none: "stake_of (rw_registry s2) n = 0"
  proof (induction rule: runs_invariant)
    case (step k t u)
    then show ?case using no_stake_step by blast
  qed
  from assms(5) obtain m amount k l' where sl: "apply_slash c' p (rw_registry s2) = (Inr (m, amount), k)"
    and burn: "tk_burn T (this_addr c') amount (pt_ledger (rw_token s2)) = (Inr (), l')" "rw_token s3 = (rw_token s2) \<lparr> pt_ledger := l' \<rparr>"
    by (auto simp: executeSlash_def evmE to_token_def token_burn_def in_ledger_def in_registry_def registry_emit_def)
  from sl have "unat amount = 0"
    by (rule apply_slash_ok) (use none assms(6) in \<open>auto simp: stake_of_def\<close>)
  then show "total_supply T (rw_token s3) = total_supply T (rw_token s2)"
    using token_ledger.burn_law [OF assms(1) burn(1)] by (simp add: burn(2))
qed

text \<open>A proposal that was never made can be confirmed and executed: its node is the one registered as zero, and
  its veto window closed in 1970.\<close>

lemma confirmed_without_proposal:
  assumes "nr_slashProposals k p = no_slash" and "a \<noteq> b" and "msg_sender c = owner_addr c" and "14400 < unat (block_timestamp c)"
    and "k2 = run_txs (\<lambda>n. confirmSlash c p n) [a, b] k"
  shows "fst (vetoSlash c p k2) = Inl VetoWindowExpired"
    and "sl_confirmations (nr_slashProposals k2 p) = 2 \<and> sl_proposedAt (nr_slashProposals k2 p) = 0
      \<and> sl_nodeId (nr_slashProposals k2 p) = zero32"
proof -
  have q: "nr_slashProposals k2 p = no_slash \<lparr> sl_confirmed := (\<lambda>_. False)(a := True, b := True), sl_confirmations := 2 \<rparr>"
    using assms(1-3)
    by (simp add: assms(5) confirmSlash_def evm_eval update_slash_def registry_emit_def no_slash_def)
  show "fst (vetoSlash c p k2) = Inl VetoWindowExpired"
    using assms(3,4) by (simp add: vetoSlash_def evm_eval q no_slash_def registry_consts word_less_nat_alt)
  show "sl_confirmations (nr_slashProposals k2 p) = 2 \<and> sl_proposedAt (nr_slashProposals k2 p) = 0
      \<and> sl_nodeId (nr_slashProposals k2 p) = zero32" by (simp add: q no_slash_def)
qed

section \<open>A worked slash\<close>

definition registry_ctx :: "address \<Rightarrow> u256 \<Rightarrow> call_ctx" where
  "registry_ctx a t = \<lparr> msg_sender = a, this_addr = 100, owner_addr = 1, block_timestamp = t, block_number = t \<rparr>"

definition registry_demo :: "ledger registry_world" where
  "registry_demo = \<lparr> rw_registry = projr (registry_initialize 50),
     rw_token = \<lparr> pt_minter = 60, pt_burner = 100, pt_ledger = \<lparr> lg_balances = (\<lambda>_. 0)(2 := 10 ^ 23),
       lg_allowances = (\<lambda>_ _. 0)(2 := (\<lambda>_. 0)(100 := 10 ^ 23)), lg_supply = 10 ^ 23 \<rparr>, pt_logs = [] \<rparr> \<rparr>"

definition registry_registered :: "ledger registry_world" where
  "registry_registered = run_txs (registry_exec ledger_token) [(registry_ctx 2 1000, RegisterNode [5] (20000 * 10 ^ 18))] registry_demo"

definition registry_accused :: "ledger registry_world" where
  "registry_accused = run_txs (registry_exec ledger_token)
     [(registry_ctx 1 2000, ProposeSlash [1] [5] [6] InvalidAttestation), (registry_ctx 1 2001, ConfirmSlash [1] [7])] registry_registered"

lemmas registry_eval = registerNode_def deregisterNode_def proposeSlash_def confirmSlash_def in_registry_def to_token_def in_ledger_def
  update_node_def update_slash_def registry_emit_def registry_ctx_def registry_consts ledger_token_def move_tokens_def token_check_def
  evm_eval

lemma registry_demo_deployed: "registry_deployed ledger_token 100 registry_demo"
  unfolding registry_deployed_def
proof (intro conjI)
  show "\<exists>primToken. registry_initialize primToken = Inr (rw_registry registry_demo)"
    by (rule exI [of _ 50]) (simp add: registry_demo_def registry_initialize_def)
qed (simp_all add: registry_demo_def ledger_token_def)

lemma registry_registered_eval:
  "registry_registered =
     \<lparr> rw_registry = \<lparr> nr_primToken = 50, nr_nodes = (\<lambda>_. no_node)([5] := \<lparr> ni_operator = 2, ni_stakedAmount = 20000 * 10 ^ 18,
         ni_violationCount = 0, ni_active = True, ni_registeredAt = 1000 \<rparr>), nr_slashProposals = (\<lambda>_. no_slash),
         nr_logs = [NodeRegistered [5] 2 (20000 * 10 ^ 18)] \<rparr>,
       rw_token = \<lparr> pt_minter = 60, pt_burner = 100, pt_ledger = \<lparr> lg_balances = (\<lambda>_. 0)(2 := 8 * 10 ^ 22, 100 := 2 * 10 ^ 22),
         lg_allowances = (\<lambda>_ _. 0)(2 := (\<lambda>_. 0)(100 := 8 * 10 ^ 22)), lg_supply = 10 ^ 23 \<rparr>, pt_logs = [] \<rparr> \<rparr>"
  by (simp add: registry_registered_def registry_demo_def registry_initialize_def registry_eval no_node_def)

theorem registry_holds_stakes_witness:
  "stake_of (rw_registry registry_registered) [5] = 20000 * 10 ^ 18
   \<and> (\<Sum>n | stake_of (rw_registry registry_registered) n \<noteq> 0. stake_of (rw_registry registry_registered) n) \<le> 20000 * 10 ^ 18"
proof
  show "stake_of (rw_registry registry_registered) [5] = 20000 * 10 ^ 18" by (simp add: registry_registered_eval stake_of_def)
  have run: "runs (\<lambda>k. registry_outsiders 100 k \<and> \<not> replaces_burner 100 k) (registry_exec ledger_token) registry_demo registry_registered"
    unfolding registry_registered_def by (rule runs_run_txs [OF runs.start]) (simp add: registry_outsiders_def replaces_burner_def registry_ctx_def)
  have "(\<Sum>n | stake_of (rw_registry registry_registered) n \<noteq> 0. stake_of (rw_registry registry_registered) n)
      \<le> unat (tk_balance ledger_token (pt_ledger (rw_token registry_registered)) 100)"
    using registry_holds_stakes [OF lg.token_ledger_axioms registry_demo_deployed run] by blast
  also have "\<dots> = 20000 * 10 ^ 18" by (simp add: registry_registered_eval ledger_token_def)
  finally show "(\<Sum>n | stake_of (rw_registry registry_registered) n \<noteq> 0. stake_of (rw_registry registry_registered) n) \<le> 20000 * 10 ^ 18" .
qed

text \<open>The operator of the accused node deregisters within the veto window, and the slash is executed after it.\<close>

lemma registry_accused_eval:
  "registry_accused = registry_registered \<lparr> rw_registry := (rw_registry registry_registered) \<lparr>
     nr_slashProposals := (\<lambda>_. no_slash)([1] := \<lparr> sl_nodeId = [5], sl_reason = InvalidAttestation, sl_confirmations = 2,
       sl_confirmed = (\<lambda>_. False)([6] := True, [7] := True), sl_proposedAt = 2000, sl_executed = False, sl_vetoed = False \<rparr>),
     nr_logs := [SlashConfirmed [1] [7], SlashConfirmed [1] [6], SlashProposed [1] [5] InvalidAttestation,
       NodeRegistered [5] 2 (20000 * 10 ^ 18)] \<rparr> \<rparr>"
  unfolding registry_accused_def registry_registered_eval by (simp add: registry_eval no_slash_def)

definition registry_left :: "ledger registry_world" where
  "registry_left = registry_accused \<lparr>
     rw_registry := (rw_registry registry_accused) \<lparr> nr_nodes := (\<lambda>_. no_node)([5] := \<lparr> ni_operator = 2, ni_stakedAmount = 0,
         ni_violationCount = 0, ni_active = False, ni_registeredAt = 1000 \<rparr>),
       nr_logs := NodeDeregistered [5] 2 # nr_logs (rw_registry registry_accused) \<rparr>,
     rw_token := (rw_token registry_accused) \<lparr> pt_ledger := \<lparr> lg_balances = (\<lambda>_. 0)(2 := 10 ^ 23, 100 := 0),
         lg_allowances = (\<lambda>_ _. 0)(2 := (\<lambda>_. 0)(100 := 8 * 10 ^ 22)), lg_supply = 10 ^ 23 \<rparr> \<rparr> \<rparr>"

lemma registry_leaves: "deregisterNode ledger_token (registry_ctx 2 3000) [5] registry_accused = (Inr (), registry_left)"
  unfolding registry_left_def registry_accused_eval registry_registered_eval by (simp add: registry_eval fun_upd_twist)

lemma registry_late_slash: "fst (executeSlash ledger_token (registry_ctx 1 20000) [1] registry_left) = Inr ()"
  unfolding registry_left_def registry_accused_eval registry_registered_eval
  by (simp add: executeSlash_def apply_slash_def slashBps_def token_burn_def registry_eval)

theorem deregistered_node_escapes_slash_witness:
  "\<exists>s3. executeSlash ledger_token (registry_ctx 1 20000) [1] registry_left = (Inr (), s3)
     \<and> total_supply ledger_token (rw_token s3) = total_supply ledger_token (rw_token registry_left)"
proof -
  obtain s3 where s3: "executeSlash ledger_token (registry_ctx 1 20000) [1] registry_left = (Inr (), s3)"
    using registry_late_slash by (cases "executeSlash ledger_token (registry_ctx 1 20000) [1] registry_left") auto
  have "sl_nodeId (nr_slashProposals (rw_registry registry_left) [1]) = [5]"
    by (simp add: registry_left_def registry_accused_eval)
  with s3 show ?thesis
    using deregistered_node_escapes_slash [OF lg.token_ledger_axioms registry_leaves _ runs.start s3] by (simp add: registry_ctx_def)
qed

end
