(* ===== verification/Treasury_Contract.thy ===== *)
theory Treasury_Contract
  imports Evm
begin

text \<open>
  \<open>contracts/src/Treasury.sol\<close>: the stablecoin reserves, the redemptions paid from them, and the reserve ratio
  that decides the state of the system. The logs record every movement; the reserves are accounted for by them.
\<close>

datatype system_state = Healthy | Caution | StakingPaused | AllPaused

definition HEALTHY_THRESHOLD_BPS :: u256 where "HEALTHY_THRESHOLD_BPS = 15000"

definition CAUTION_THRESHOLD_BPS :: u256 where "CAUTION_THRESHOLD_BPS = 12000"

definition STAKING_PAUSE_THRESHOLD_BPS :: u256 where "STAKING_PAUSE_THRESHOLD_BPS = 10000"

definition TREASURY_BPS_DENOMINATOR :: u256 where "TREASURY_BPS_DENOMINATOR = 10000"

lemmas treasury_consts = HEALTHY_THRESHOLD_BPS_def CAUTION_THRESHOLD_BPS_def STAKING_PAUSE_THRESHOLD_BPS_def
  TREASURY_BPS_DENOMINATOR_def

datatype treasury_event =
    ReserveDeposited address address u256
  | ReserveWithdrawn address address u256
  | RedemptionPaid address address u256
  | RedeemerUpdated address address

record treasury =
  ty_usdc :: address
  ty_usdt :: address
  ty_authorizedRedeemer :: address
  ty_totalRedeemedUsd :: u256
  ty_logs :: "treasury_event list"

record 't treasury_world =
  tw_treasury :: treasury
  tw_tokens :: "address \<Rightarrow> 't"

section \<open>Functions\<close>

definition treasury_initialize :: "address \<Rightarrow> address \<Rightarrow> address \<Rightarrow> evm_error + treasury" where
  "treasury_initialize usdc usdt redeemer =
     (if usdc = 0 \<or> usdt = 0 \<or> redeemer = 0 then Inl ZeroAddress
      else Inr \<lparr> ty_usdc = usdc, ty_usdt = usdt, ty_authorizedRedeemer = redeemer, ty_totalRedeemedUsd = 0, ty_logs = [] \<rparr>)"

definition in_treasury :: "(treasury, 'a) evm \<Rightarrow> ('t treasury_world, 'a) evm" where
  "in_treasury m = on_part tw_treasury (\<lambda>x s. s \<lparr> tw_treasury := x \<rparr>) m"

definition treasury_token :: "address \<Rightarrow> ('t, 'a) evm \<Rightarrow> ('t treasury_world, 'a) evm" where
  "treasury_token a m = on_part tw_tokens (\<lambda>ts s. s \<lparr> tw_tokens := ts \<rparr>) (token_at a m)"

definition treasury_emit :: "treasury_event \<Rightarrow> (treasury, unit) evm" where
  "treasury_emit e = putE (\<lambda>s. s \<lparr> ty_logs := e # ty_logs s \<rparr>)"

definition setRedeemer :: "call_ctx \<Rightarrow> address \<Rightarrow> (treasury, unit) evm" where
  "setRedeemer c newRedeemer =
     tryE (only_owner c) (\<lambda>_.
     tryE (revert_if (newRedeemer = 0) ZeroAddress) (\<lambda>_.
     tryE (getE ty_authorizedRedeemer) (\<lambda>oldRedeemer.
     tryE (treasury_emit (RedeemerUpdated oldRedeemer newRedeemer)) (\<lambda>_.
     putE (\<lambda>s. s \<lparr> ty_authorizedRedeemer := newRedeemer \<rparr>)))))"

definition supported :: "address \<Rightarrow> (treasury, unit) evm" where
  "supported token = tryE (getE (\<lambda>s. (ty_usdc s, ty_usdt s))) (\<lambda>(usdc, usdt).
     revert_if (token \<noteq> usdc \<and> token \<noteq> usdt) UnsupportedToken)"

definition depositReserve :: "'t erc20 \<Rightarrow> call_ctx \<Rightarrow> address \<Rightarrow> u256 \<Rightarrow> ('t treasury_world, unit) evm" where
  "depositReserve T c token amount =
     tryE (revert_if (amount = 0) ZeroAmount) (\<lambda>_.
     tryE (in_treasury (supported token)) (\<lambda>_.
     tryE (safe (treasury_token token (tk_transfer_from T (this_addr c) (msg_sender c) (this_addr c) amount))) (\<lambda>_.
     in_treasury (treasury_emit (ReserveDeposited token (msg_sender c) amount)))))"

definition enough_reserve :: "'t erc20 \<Rightarrow> call_ctx \<Rightarrow> address \<Rightarrow> u256 \<Rightarrow> ('t treasury_world, unit) evm" where
  "enough_reserve T c token amount =
     tryE (getE (\<lambda>s. tk_balance T (tw_tokens s token) (this_addr c))) (\<lambda>bal.
     revert_if (bal < amount) (InsufficientReserve amount bal))"

definition withdrawReserve :: "'t erc20 \<Rightarrow> call_ctx \<Rightarrow> address \<Rightarrow> address \<Rightarrow> u256 \<Rightarrow> ('t treasury_world, unit) evm" where
  "withdrawReserve T c token to amount =
     tryE (only_owner c) (\<lambda>_.
     tryE (revert_if (amount = 0) ZeroAmount) (\<lambda>_.
     tryE (revert_if (to = 0) ZeroAddress) (\<lambda>_.
     tryE (in_treasury (supported token)) (\<lambda>_.
     tryE (enough_reserve T c token amount) (\<lambda>_.
     tryE (safe (treasury_token token (tk_transfer T (this_addr c) to amount))) (\<lambda>_.
     in_treasury (treasury_emit (ReserveWithdrawn token to amount))))))))"

definition payRedemption :: "'t erc20 \<Rightarrow> call_ctx \<Rightarrow> address \<Rightarrow> address \<Rightarrow> u256 \<Rightarrow> ('t treasury_world, unit) evm" where
  "payRedemption T c recipient token amount =
     tryE (getE (\<lambda>s. ty_authorizedRedeemer (tw_treasury s))) (\<lambda>redeemer.
     tryE (revert_if (msg_sender c \<noteq> redeemer) NotAuthorizedRedeemer) (\<lambda>_.
     tryE (revert_if (recipient = 0) ZeroAddress) (\<lambda>_.
     tryE (revert_if (amount = 0) ZeroAmount) (\<lambda>_.
     tryE (in_treasury (supported token)) (\<lambda>_.
     tryE (enough_reserve T c token amount) (\<lambda>_.
     tryE (getE (\<lambda>s. ty_totalRedeemedUsd (tw_treasury s))) (\<lambda>redeemed.
     tryE (addE redeemed amount) (\<lambda>redeemed'.
     tryE (in_treasury (putE (\<lambda>s. s \<lparr> ty_totalRedeemedUsd := redeemed' \<rparr>))) (\<lambda>_.
     tryE (safe (treasury_token token (tk_transfer T (this_addr c) recipient amount))) (\<lambda>_.
     in_treasury (treasury_emit (RedemptionPaid recipient token amount))))))))))))"

definition totalReserveUsd :: "'t erc20 \<Rightarrow> call_ctx \<Rightarrow> ('t treasury_world, u256) evm" where
  "totalReserveUsd T c =
     tryE (getE (\<lambda>s. tk_balance T (tw_tokens s (ty_usdc (tw_treasury s))) (this_addr c))) (\<lambda>a.
     tryE (getE (\<lambda>s. tk_balance T (tw_tokens s (ty_usdt (tw_treasury s))) (this_addr c))) (\<lambda>b.
     addE a b))"

definition reserveRatioBps :: "'t erc20 \<Rightarrow> call_ctx \<Rightarrow> u256 \<Rightarrow> ('t treasury_world, u256) evm" where
  "reserveRatioBps T c prmCirculatingValueUsd =
     (if prmCirculatingValueUsd = 0 then okE (- 1)
      else tryE (totalReserveUsd T c) (\<lambda>total.
           tryE (mulE total TREASURY_BPS_DENOMINATOR) (\<lambda>scaled.
           divE scaled prmCirculatingValueUsd)))"

definition systemState :: "'t erc20 \<Rightarrow> call_ctx \<Rightarrow> u256 \<Rightarrow> ('t treasury_world, system_state) evm" where
  "systemState T c prmCirculatingValueUsd =
     tryE (reserveRatioBps T c prmCirculatingValueUsd) (\<lambda>ratio.
     okE (if HEALTHY_THRESHOLD_BPS \<le> ratio then Healthy
          else if CAUTION_THRESHOLD_BPS \<le> ratio then Caution
          else if STAKING_PAUSE_THRESHOLD_BPS \<le> ratio then StakingPaused
          else AllPaused))"

datatype treasury_call =
    SetRedeemer address
  | DepositReserve address u256
  | WithdrawReserve address address u256
  | PayRedemption address address u256
  | OnLedger address ledger_call

fun treasury_exec :: "'t erc20 \<Rightarrow> call_ctx \<times> treasury_call \<Rightarrow> ('t treasury_world, unit) evm" where
  "treasury_exec T (c, SetRedeemer a) = in_treasury (setRedeemer c a)"
| "treasury_exec T (c, DepositReserve a n) = depositReserve T c a n"
| "treasury_exec T (c, WithdrawReserve a to n) = withdrawReserve T c a to n"
| "treasury_exec T (c, PayRedemption r a n) = payRedemption T c r a n"
| "treasury_exec T (c, OnLedger a k) = treasury_token a (ledger_exec T (msg_sender c) k)"

definition treasury_outsiders :: "address \<Rightarrow> call_ctx \<times> treasury_call \<Rightarrow> bool" where
  "treasury_outsiders me k \<longleftrightarrow> this_addr (fst k) = me \<and> msg_sender (fst k) \<noteq> me
     \<and> (\<forall>a f. snd k = OnLedger a f \<longrightarrow> \<not> burns_from me f)"

section \<open>Accounting\<close>

fun paid_out :: "address \<Rightarrow> treasury_event list \<Rightarrow> nat" where
  "paid_out a [] = 0"
| "paid_out a (ReserveWithdrawn b to n # l) = (if b = a then unat n else 0) + paid_out a l"
| "paid_out a (RedemptionPaid r b n # l) = (if b = a then unat n else 0) + paid_out a l"
| "paid_out a (_ # l) = paid_out a l"

fun deposited :: "address \<Rightarrow> treasury_event list \<Rightarrow> nat" where
  "deposited a [] = 0"
| "deposited a (ReserveDeposited b src n # l) = (if b = a then unat n else 0) + deposited a l"
| "deposited a (_ # l) = deposited a l"

fun redeemed :: "treasury_event list \<Rightarrow> nat" where
  "redeemed [] = 0"
| "redeemed (RedemptionPaid r b n # l) = unat n + redeemed l"
| "redeemed (_ # l) = redeemed l"

definition reserve :: "'t erc20 \<Rightarrow> address \<Rightarrow> 't treasury_world \<Rightarrow> address \<Rightarrow> nat" where
  "reserve T me s a = unat (tk_balance T (tw_tokens s a) me)"

text \<open>\<open>accounted\<close>: the reserves of the beginning and the deposits are still there, or in the log.\<close>

definition accounted :: "'t erc20 \<Rightarrow> address \<Rightarrow> 't treasury_world \<Rightarrow> 't treasury_world \<Rightarrow> bool" where
  "accounted T me s0 s \<longleftrightarrow> unat (ty_totalRedeemedUsd (tw_treasury s)) = redeemed (ty_logs (tw_treasury s))
     \<and> (\<forall>a q. tk_allowance T (tw_tokens s a) me q = 0)
     \<and> (\<forall>a. reserve T me s0 a + deposited a (ty_logs (tw_treasury s))
           \<le> reserve T me s a + paid_out a (ty_logs (tw_treasury s)))"

lemma accounted_move:
  assumes acc: "accounted T me s0 s" and toks: "tw_tokens s' = (tw_tokens s)(a := t)"
    and "\<forall>q. tk_allowance T t me q = 0" and "unat (ty_totalRedeemedUsd (tw_treasury s')) = redeemed (ty_logs (tw_treasury s'))"
    and other: "\<And>b. b \<noteq> a \<Longrightarrow> deposited b (ty_logs (tw_treasury s')) = deposited b (ty_logs (tw_treasury s))
      \<and> paid_out b (ty_logs (tw_treasury s')) = paid_out b (ty_logs (tw_treasury s))"
    and this_one: "reserve T me s a + deposited a (ty_logs (tw_treasury s')) + paid_out a (ty_logs (tw_treasury s))
      \<le> unat (tk_balance T t me) + paid_out a (ty_logs (tw_treasury s')) + deposited a (ty_logs (tw_treasury s))"
  shows "accounted T me s0 s'"
proof -
  have "reserve T me s0 b + deposited b (ty_logs (tw_treasury s')) \<le> reserve T me s' b + paid_out b (ty_logs (tw_treasury s'))" for b
  proof -
    have old: "reserve T me s0 b + deposited b (ty_logs (tw_treasury s)) \<le> reserve T me s b + paid_out b (ty_logs (tw_treasury s))"
      using acc by (simp add: accounted_def)
    show ?thesis
    proof (cases "b = a")
      case True
      have "reserve T me s' a = unat (tk_balance T t me)" by (simp add: reserve_def toks)
      with old [unfolded True] this_one show ?thesis unfolding True by linarith
    qed (use old other in \<open>simp add: reserve_def toks\<close>)
  qed
  with assms(3,4) acc show ?thesis by (auto simp: accounted_def toks)
qed

lemma treasury_token_ok:
  "treasury_token a m s = (Inr b, s') \<longleftrightarrow> (\<exists>t. m (tw_tokens s a) = (Inr b, t) \<and> s' = s \<lparr> tw_tokens := (tw_tokens s)(a := t) \<rparr>)"
  by (auto simp: treasury_token_def evmE token_at_ok)

lemmas treasury_defs = in_treasury_def supported_def enough_reserve_def treasury_emit_def evmE safe_ok treasury_token_ok

context token_ledger
begin

lemma leaves_at_most:
  assumes "tk_transfer T me to n t = (Inr b, t')"
  shows "unat (tk_balance T t me) \<le> unat (tk_balance T t' me) + unat n" "tk_allowance T t' = tk_allowance T t"
proof -
  show "unat (tk_balance T t me) \<le> unat (tk_balance T t' me) + unat n"
    using transfer_law [OF assms] pay_out(1) [OF assms] by (cases "to = me") (auto simp: moved_def)
  show "tk_allowance T t' = tk_allowance T t" using transfer_law [OF assms] by blast
qed

lemma treasury_step:
  assumes acc: "accounted T me s0 s" and out: "treasury_outsiders me k" and ok: "treasury_exec T k s = (Inr (), s')"
  shows "accounted T me s0 s'"
proof -
  obtain c f where k: "k = (c, f)" by fastforce
  have out': "this_addr c = me" "msg_sender c \<noteq> me" using out by (simp_all add: k treasury_outsiders_def)
  show ?thesis
  proof (cases f)
    case (SetRedeemer a)
    then show ?thesis using acc ok k by (auto simp: treasury_defs setRedeemer_def accounted_def reserve_def)
  next
    case (DepositReserve a n)
    with ok k out' obtain t where t: "tk_transfer_from T me (msg_sender c) me n (tw_tokens s a) = (Inr True, t)"
      and s': "s' = s \<lparr> tw_tokens := (tw_tokens s)(a := t), tw_treasury := (tw_treasury s) \<lparr> ty_logs :=
          ReserveDeposited a (msg_sender c) n # ty_logs (tw_treasury s) \<rparr> \<rparr>"
      by (auto simp: depositReserve_def treasury_defs)
    show ?thesis
      by (rule accounted_move [OF acc, where a = a and t = t])
        (use acc take_in [OF t out'(2)] in \<open>auto simp: accounted_def reserve_def s'\<close>)
  next
    case (WithdrawReserve a to n)
    with ok k out' obtain t where t: "tk_transfer T me to n (tw_tokens s a) = (Inr True, t)"
      and s': "s' = s \<lparr> tw_tokens := (tw_tokens s)(a := t), tw_treasury := (tw_treasury s) \<lparr> ty_logs :=
          ReserveWithdrawn a to n # ty_logs (tw_treasury s) \<rparr> \<rparr>"
      by (auto simp: withdrawReserve_def treasury_defs)
    show ?thesis
      by (rule accounted_move [OF acc, where a = a and t = t])
        (use acc leaves_at_most [OF t] in \<open>auto simp: accounted_def reserve_def s'\<close>)
  next
    case (PayRedemption r a n)
    with ok k out' obtain t u where t: "tk_transfer T me r n (tw_tokens s a) = (Inr True, t)"
      and u: "unat u = unat (ty_totalRedeemedUsd (tw_treasury s)) + unat n"
      and s': "s' = s \<lparr> tw_tokens := (tw_tokens s)(a := t), tw_treasury := (tw_treasury s) \<lparr> ty_totalRedeemedUsd := u,
          ty_logs := RedemptionPaid r a n # ty_logs (tw_treasury s) \<rparr> \<rparr>"
      by (auto simp: payRedemption_def treasury_defs)
    show ?thesis
      by (rule accounted_move [OF acc, where a = a and t = t])
        (use acc leaves_at_most [OF t] u in \<open>auto simp: accounted_def reserve_def s'\<close>)
  next
    case (OnLedger a g)
    with ok k obtain t where t: "ledger_exec T (msg_sender c) g (tw_tokens s a) = (Inr (), t)"
      and s': "s' = s \<lparr> tw_tokens := (tw_tokens s)(a := t) \<rparr>" by (auto simp: treasury_token_ok)
    have "\<not> burns_from me g" using out OnLedger by (simp add: k treasury_outsiders_def)
    moreover have "\<forall>q. tk_allowance T (tw_tokens s a) me q = 0" using acc by (simp add: accounted_def)
    ultimately have "unat (tk_balance T (tw_tokens s a) me) \<le> unat (tk_balance T t me) \<and> (\<forall>q. tk_allowance T t me q = 0)"
      using ledger_exec_keeps [OF t out'(2)] by blast
    then show ?thesis
      by (intro accounted_move [OF acc, where a = a and t = t]) (use acc in \<open>auto simp: accounted_def reserve_def s'\<close>)
  qed
qed

lemma treasury_runs:
  assumes "runs (treasury_outsiders me) (treasury_exec T) s s'" and "accounted T me s s"
  shows "accounted T me s s'"
  using assms(1)
proof (induction rule: runs_invariant)
  case (step k t u)
  then show ?case using treasury_step by blast
qed (rule assms(2))

end

text \<open>
  C29: the reserves are accounted for. Whatever is deposited, withdrawn and redeemed, and whatever others do with the
  stablecoins, the recorded total of redemptions is the sum of the redemptions in the log, and for every token what
  the treasury held at the start and what was deposited since is still held or appears in the log as withdrawn by the
  owner or as a redemption.
\<close>

theorem reserves_accounted:
  assumes "token_ledger T" and "treasury_initialize usdc usdt redeemer = Inr (tw_treasury s)"
    and "\<forall>a q. tk_allowance T (tw_tokens s a) me q = 0"
    and "runs (treasury_outsiders me) (treasury_exec T) s s'"
  shows "unat (ty_totalRedeemedUsd (tw_treasury s')) = redeemed (ty_logs (tw_treasury s'))
    \<and> reserve T me s a + deposited a (ty_logs (tw_treasury s')) \<le> reserve T me s' a + paid_out a (ty_logs (tw_treasury s'))"
proof -
  have "ty_logs k = [] \<and> ty_totalRedeemedUsd k = 0" if "treasury_initialize usdc usdt redeemer = Inr k" for k
    using that by (auto simp: treasury_initialize_def split: if_splits)
  then have "accounted T me s s" using assms(2,3) by (simp add: accounted_def)
  from token_ledger.treasury_runs [OF assms(1,4) this] show ?thesis by (simp add: accounted_def)
qed

text \<open>A redemption from a reserve of 1000.\<close>

definition treasury_ctx :: "address \<Rightarrow> call_ctx" where
  "treasury_ctx a = \<lparr> msg_sender = a, this_addr = 100, owner_addr = 1, block_timestamp = 1000, block_number = 1 \<rparr>"

definition treasury_demo :: "ledger treasury_world" where
  "treasury_demo = \<lparr> tw_treasury = projr (treasury_initialize 70 71 3),
     tw_tokens = (\<lambda>_. \<lparr> lg_balances = (\<lambda>_. 0)(100 := 1000), lg_allowances = (\<lambda>_ _. 0), lg_supply = 1000 \<rparr>) \<rparr>"

definition treasury_paid :: "ledger treasury_world" where
  "treasury_paid = run_txs (treasury_exec ledger_token) [(treasury_ctx 3, PayRedemption 9 70 400)] treasury_demo"

lemma treasury_paid_eval: "ty_logs (tw_treasury treasury_paid) = [RedemptionPaid 9 70 400]"
  by (simp add: treasury_paid_def treasury_demo_def treasury_initialize_def treasury_ctx_def payRedemption_def in_treasury_def supported_def
      enough_reserve_def treasury_emit_def safe_def treasury_token_def token_at_def ledger_token_def move_tokens_def token_check_def evm_eval)

theorem reserves_accounted_witness:
  "unat (ty_totalRedeemedUsd (tw_treasury treasury_paid)) = 400 \<and> 1000 \<le> reserve ledger_token 100 treasury_paid 70 + 400"
proof -
  have init: "treasury_initialize 70 71 3 = Inr (tw_treasury treasury_demo)" by (simp add: treasury_demo_def treasury_initialize_def)
  have none: "\<forall>a q. tk_allowance ledger_token (tw_tokens treasury_demo a) 100 q = 0" by (simp add: treasury_demo_def ledger_token_def)
  have run: "runs (treasury_outsiders 100) (treasury_exec ledger_token) treasury_demo treasury_paid"
    unfolding treasury_paid_def by (rule runs_run_txs [OF runs.start]) (simp add: treasury_outsiders_def treasury_ctx_def)
  have "reserve ledger_token 100 treasury_demo 70 = 1000" by (simp add: reserve_def treasury_demo_def ledger_token_def)
  then show ?thesis
    using reserves_accounted [OF lg.token_ledger_axioms init none run, of 70] by (simp add: treasury_paid_eval)
qed

end
