(* ===== verification/Spec2Isabelle.thy ===== *)
theory Spec2Isabelle
  imports Session_Scans Service_Sessions Service_Views Service_Races Store_Races Startup Mint_Lifecycle
    House_Edge Oracle_Aggregator Staking_Contract Node_Registry Treasury_Contract
begin

text \<open>
  \<^bold>\<open>Primora: a verification development of the mining backend and its contracts\<close>

  Primora lets a wallet open a mining session, submit proofs of work while the session runs, and end
  it; ending collects node attestations over the work, computes a payout in a commodity-backed token,
  checks a daily mint ceiling and stores a signed mint proposal, which operators carry to the contracts
  with a command-line tool. This development models the Rust sources under \<open>src/crates\<close> and the
  Solidity contracts under \<open>src/contracts/src\<close> and proves what makes them correct. A release build sets no
  overflow checks, so the unsigned arithmetic of the Rust code is word arithmetic throughout: where a product can
  wrap, the model wraps. The arithmetic of the contracts is checked: where it overflows, the transaction reverts.

  \<^bold>\<open>How the parts fit.\<close> The verification service (\<open>verification-service/src\<close>) is the hub.
  \<open>create_session\<close> checks the rate limits, stores the session and its commitment in Redis and
  opens a price average in memory. \<open>submit_proof\<close> runs the pre-filter, updates counters, stores
  the proof, scores it and samples the commodity price. \<open>end_session\<close> checks the reveal, closes
  the average, submits the price on chain, asks four nodes to attest, computes the payout with the live
  house edge and the staking boost, applies the ceiling, signs and stores the proposal, and deletes the
  session. The other routes read. Each node runs \<open>node-server\<close>, which recomputes the RandomX
  hash and signs. \<open>admin-cli\<close> moves a stored proposal through the contract and records its status.
  On the chain, \<open>MiningContract\<close> takes a proposal through three approvals and a delay of 48 hours to a mint of
  \<open>PrimToken\<close>; \<open>HouseEdge\<close> and \<open>StakingContract\<close> hold the edge and the stakes that the service reads,
  \<open>OracleAggregator\<close> stores the prices it submits, \<open>Treasury\<close> holds the reserves it reports, and
  \<open>NodeRegistry\<close> the stakes of the nodes.

  \<^bold>\<open>Theories and sources.\<close>
  \<^item> \<open>Prelude\<close>, \<open>Text\<close>: machine integers, the standard-library arithmetic, strings and parsers,
    and the type \<open>('s, 'e, 'a) act\<close> of fallible stateful computations (\<open>Result\<close> with
    \<open>?\<close>). The locale \<open>frame\<close> is the interface of every claim that a computation keeps
    a relation on the state: a reflexive and transitive relation, the rules for each combinator proved once.
    \<open>Service_Frame\<close> extends it to the handler combinators.
  \<^item> \<open>Common\<close> (\<open>common\<close>): shared structs and enums. \<open>Mint_Ceiling\<close>, \<open>Payout\<close>,
    \<open>Twap\<close>, \<open>Proof_Validator\<close>, \<open>Anomaly\<close> (the crates of the same purpose): pure
    calculators. \<open>RandomX\<close> (\<open>randomx-verifier\<close>): the verifier around the hash library.
  \<^item> \<open>Node_Server\<close> (\<open>node-server/src/lib.rs\<close>): the node's three handlers and its verifier thread.
    \<open>Node_Coordinator\<close> and \<open>Grpc_Client\<close> (\<open>node-coordinator\<close>): node selection, the
    attestation round and the client that calls a node.
  \<^item> \<open>Redis\<close>: the commands the crates issue, as a locale \<open>redis\<close> whose laws are those of a key
    space with expiry, interpreted on a reference key space. \<open>Rate_Limiter\<close> and
    \<open>Session_Manager\<close> are its clients; their theorems hold of every store with the laws.
    \<open>Session_Scans\<close> follows the loops of the session store that page through the keys of a wallet.
  \<^item> \<open>Oracle_Reader\<close>, \<open>Onchain_Client\<close>, \<open>Postgres_Store\<close>: price feeds, chain access with
    retries and caches, and the SQL statements as functions on tables (lists of rows).
  \<^item> \<open>Verification_Service\<close>: the state of the service (\<open>app_state\<close>, \<open>world\<close>) and the
    handlers that create, feed, pause and end a session. \<open>Service_Sessions\<close> and \<open>Service_End\<close>
    hold their theorems, \<open>Service_Demo\<close> the concrete deployment the witnesses run on.
  \<^item> \<open>Service_Queries\<close>: every read endpoint; \<open>Service_Views\<close>: their theorems.
    \<open>Admin_Auth\<close> (\<open>admin.rs\<close>): nonces, Sign-In with Ethereum, session tokens, the guard.
  \<^item> \<open>Service_Router\<close> (\<open>router\<close>): all routes as one function \<open>dispatch\<close> on calls, and runs
    as sequences of calls (\<open>serve\<close>).
  \<^item> \<open>Interleaving\<close>: programs made of single steps, pools of them that take turns in any order with
    steps of the outside in between, frame rules for such runs, runs with the record of who did what
    (\<open>recorded\<close>), and the locale \<open>tickets\<close>, which bounds how many programs of a pool can succeed or take a
    ticket. \<open>Service_Steps\<close> writes the handlers that change state as
    such programs; \<open>Service_Races\<close> and \<open>Store_Races\<close> say what overlapping requests, and overlapping
    operations on Redis, can and cannot do.
  \<^item> \<open>Metrics\<close> (\<open>metrics/src/lib.rs\<close>): the nine metrics, their registration and export, and the places
    that count, over the contract \<open>prometheus_crate\<close> of the library.
  \<^item> \<open>Startup\<close> (\<open>main.rs\<close> of the service and of the node): environment, refusals, assembly of
    the state. \<open>Admin_Cli\<close> (\<open>admin-cli/src/main.rs\<close>): the six commands; \<open>Cli_Steps\<close>: the same
    commands as programs of single steps.
  \<^item> \<open>Evm\<close>: what the contracts share. A function of a contract is an \<open>act\<close> on its storage that reverts
    with a named error; \<open>call_ctx\<close> carries the sender, the contract's own address, its owner, the time and the block;
    \<open>runs\<close> are sequences of transactions in which a reverted one changes nothing. The ERC-20 library is the
    parameter \<open>erc20\<close> with the laws of the locale \<open>token_ledger\<close>, interpreted on a reference ledger.
  \<^item> \<open>Prim_Token\<close>, \<open>Mining_Contract\<close>, \<open>House_Edge\<close>, \<open>Oracle_Aggregator\<close>, \<open>Staking_Contract\<close>,
    \<open>Treasury_Contract\<close>, \<open>Node_Registry\<close> (the contracts of the same name): storage, event log and every function.
    \<open>Mining_Contract\<close> also has the abstract specification, a lawful history of events, and \<open>Mint_History\<close> its
    theorems. \<open>Mint_Lifecycle\<close> composes the command line, the database and the contracts, over the contract
    \<open>mint_rpc\<close> of the RPC library: a writer built for a node of a chain and the address of its mint contract talks to
    that contract, and nothing is promised of other writers. It is interpreted on a library that routes by URL and
    address to the modelled contracts; \<open>mint_operator\<close> derives from it what the commands rely on.

  \<^bold>\<open>What the theorems show.\<close>
  \<^item> Minting: ending a session changes the database only by one pending proposal for a revealed,
    attested session within the ceiling (\<open>mint_is_attested_and_capped\<close>), and does so when every
    guard holds (\<open>end_session_completes\<close>); a session has at most one proposal, over any writes
    (\<open>one_proposal_per_session\<close>), over any sequence of calls (\<open>service_ledger_grows\<close>) and over any
    overlap of them. If the database refuses the proposal the miner is not told and the earnings are lost
    (\<open>failed_insert_goes_unnoticed\<close>).
  \<^item> Overlap: run alone, the stepwise handlers compute what the handlers compute (the library fact
    \<open>steps_refine_handlers\<close>, which ties the two renderings of the same source); no interleaving of
    requests corrupts the ledger (\<open>overlapping_requests_keep_ledger\<close>); at most one request takes the average of
    a session, and every other end of it, finished or not, has changed nothing but Redis
    (\<open>one_settlement_per_session\<close>, while no new session is given its identifier); after a failed attestation no
    later request, however repeated and interleaved, can settle the session
    (\<open>failed_attestation_forfeits\<close>); a rate limit holds (\<open>rate_limit_holds_under_overlap\<close>), but a check
    abandoned halfway leaves a counter that never expires (\<open>abandoned_check_never_expires\<close>), and of two
    proofs stored at once one is lost (\<open>overlapping_proofs_lost\<close>).
  \<^item> On the chain: the storage of the mint contract is what its events say (\<open>mint_storage_replays_log\<close>), every
    executed mint had its quorum, its delay and its room under the ceiling (\<open>executed_mint_had_quorum\<close>), and the
    supply is backed by executed mints (\<open>supply_backed_by_executed_mints\<close>); proposing an identifier again can block
    it (\<open>proposing_again_blocks\<close>). Across the boundary: however operators overlap, a row of the database is marked
    only what a contract recorded (\<open>settled_rows_have_events\<close>), given operators whose settings name the nodes and
    mint contracts, ids that belong to their sessions, and rows that were true at the beginning.
  \<^item> The other contracts: stakes are covered (\<open>staking_solvent\<close>, unless the burner of the token burns what the
    contract holds; \<open>registry_holds_stakes\<close>, while the registry stays the burner), reserves accounted
    for (\<open>reserves_accounted\<close>), the edge bounded and applied as off the chain wherever the product of the backend fits
    into 128 bits, and only there (\<open>edge_bounded_and_applied_alike\<close>), the boost the same on both sides (\<open>boost_agrees_with_backend\<close>), the price guard
    exact (\<open>price_guard_exact\<close>); an operator can step out of a slash (\<open>deregistered_node_escapes_slash\<close>).
  \<^item> Attestation: a round succeeds exactly with three distinct registered genuine signers
    (\<open>attestation_outcome\<close>), its first proof is real work while at most two of the nodes asked
    deviate, with nothing assumed of keys or signatures (\<open>attested_work_is_real\<close>), and three honest nodes suffice (\<open>honest_quorum_attests\<close>).
  \<^item> Money: the wrapping pipeline computes the exact economics inside the session envelope
    (\<open>payout_pipeline_exact\<close>) and what the session list previews is what settlement records, up
    to the two clock readings from which they count (\<open>preview_is_what_settlement_records\<close>); the two theorems that end in \<open>wraps\<close> show what
    happens outside the envelope.
  \<^item> Sessions: isolation of sessions, hashrate from accepted work, creation, submission, pausing and
    deletion.
  \<^item> Operators: nonces refine an ideal store, logins are signed and not replayable, tokens open the
    guard exactly while valid, every operator route needs one, and an unconfigured console is closed;
    the command line writes a status only after the chain agreed and sends exactly what was recorded.
  \<^item> Start-up, caches, retries, prices, limits, alerts and reserve totals: one theorem each.

  \<^bold>\<open>Parameters.\<close> Code outside the repository is an argument of the definitions that use it: SHA-256,
  keccak, HMAC, signature recovery and signing, the RandomX machine, JSON, hex and date codecs, RPC, HTTP
  and gRPC transport, Redis, the environment and the OpenZeppelin contracts. Where a theorem relies on their documented behaviour it
  names the law as a hypothesis (\<open>redis\<close>, \<open>redis_scan\<close>, \<open>scan_ranked\<close>, \<open>codec_laws\<close>,
  \<open>signature_laws\<close>, \<open>prometheus_crate\<close>, \<open>token_ledger\<close>, \<open>mint_rpc\<close>), and its witness instantiates the parameters. Failures are values: every
  external call may answer with its error, SQL statements take a fault argument, and the clock is an argument.
  The owner of a contract is part of the calling context, so that it may change between transactions; an initializer
  runs once, as the library promises; a token calls nobody back.

  \<^bold>\<open>Bounds and fuel.\<close> The only loops whose end depends on an external answer are the two Redis scans
  (\<open>scan_count\<close>, \<open>scan_summaries\<close>), which run until the cursor is zero; they take fuel and answer
  \<open>None\<close> without it. When the server's cursors come to an end, which \<open>scan_ranked\<close> states as a rank that
  each page lowers, more fuel than the rank of the first cursor is enough for both loops and further fuel changes nothing
  (\<open>session_scans_end\<close>); the reference key space answers in one page. The retry loop of \<open>submit_price\<close> is bounded by its own counter
  and proved to make at most six attempts. All other recursion is structural.

  \<^bold>\<open>Concurrency.\<close> The handlers of \<open>Verification_Service\<close> are one step each, and the theorems about
  single calls and sequences of calls are about them. \<open>Service_Steps\<close> refines those that change state to
  the grain at which the runtime switches between requests: a Redis command, an SQL statement, a call to
  the outside, or a section under a lock is one step, and between two steps any other request, Redis's
  clock and the outside may move. An attestation round and a price submission touch the outside only and
  stay one step, as do the calls that only read. A request that is dropped is a program that takes no
  further turn. The tasks of \<open>read_all_prices\<close> make one request each and run in any order;
  the two stake reads that \<open>staking_summary\<close> joins are made one after the other, Ethereum first.
  The commands of the operators are interleaved in the same way, with each other, with the service's insertions
  and with transactions of anybody (\<open>Mint_Lifecycle\<close>); sending a transaction and reading its receipt is one step.
  A transaction itself is atomic, as the chain makes it.

  \<^bold>\<open>Not modelled.\<close> The values of the metrics (no decision reads them; the one gauge that the overview
  reports is part of the state), logging, listening sockets and HTTP parsing (axum),
  argument parsing (clap), opening connections and running migrations, the \<open>Error::source\<close> chains
  (the messages are modelled), and the tests. Of the contracts, what OpenZeppelin provides (ownership transfer, proxies
  and upgrades, whose authorisation hook has an empty body, permits and the ledger itself), gas, the generated getters
  of public fields, and the deployment script, which runs once against a node.
\<close>

end
